(* ===== verification/Js_Prelude.thy ===== *)
theory Js_Prelude
  imports Complex_Main "HOL-Library.AList" "HOL-Library.Product_Lexorder" "HOL-Library.Sublist"
    "HOL-Library.Multiset"
begin

text \<open>
  The values, strings, arrays and maps of TypeScript that the modelled code uses, with the
  lemmas the component theories share.

  A JavaScript number is a \<open>real\<close> (rounding of doubles is not modelled) or an \<open>int\<close>/\<open>nat\<close>
  where the code only counts or indexes; NaN and Infinity are separate cases where the code
  can meet them. A string is a list of code units below 256. A value of type \<open>unknown\<close> is a
  \<open>js_val\<close>. A \<open>Map\<close> keeps insertion order, so it is an association list:
  \<open>AList.update\<close> overwrites in place or appends, exactly as \<open>Map.set\<close> does.
\<close>

named_theorems js_defs \<open>definitions of the string and array operations\<close>

section \<open>Values of type unknown\<close>

datatype js_val =
    JUndef
  | JNull
  | JBool bool
  | JNum real
  | JStr string
  | JArr "js_val list"
  | JObj "(string \<times> js_val) list"

text \<open>\<open>v?.key\<close>: undefined unless \<open>v\<close> is an object that has the key.\<close>

fun js_get :: "js_val \<Rightarrow> string \<Rightarrow> js_val" where
  "js_get (JObj kvs) k = (case map_of kvs k of Some v \<Rightarrow> v | None \<Rightarrow> JUndef)"
| "js_get _ _ = JUndef"

fun js_str :: "js_val \<Rightarrow> string option" where
  "js_str (JStr s) = Some s"
| "js_str _ = None"

fun js_num :: "js_val \<Rightarrow> real option" where
  "js_num (JNum x) = Some x"
| "js_num _ = None"

fun js_bool :: "js_val \<Rightarrow> bool option" where
  "js_bool (JBool b) = Some b"
| "js_bool _ = None"

fun js_arr :: "js_val \<Rightarrow> js_val list option" where
  "js_arr (JArr vs) = Some vs"
| "js_arr _ = None"

text \<open>\<open>typeof v === 'object' && v !== null && !Array.isArray(v)\<close>.\<close>

fun js_is_obj :: "js_val \<Rightarrow> bool" where
  "js_is_obj (JObj _) = True"
| "js_is_obj _ = False"

fun js_truthy :: "js_val \<Rightarrow> bool" where
  "js_truthy JUndef = False"
| "js_truthy JNull = False"
| "js_truthy (JBool b) = b"
| "js_truthy (JNum x) = (x \<noteq> 0)"
| "js_truthy (JStr s) = (s \<noteq> [])"
| "js_truthy (JArr _) = True"
| "js_truthy (JObj _) = True"

lemma js_str_Some [simp]: "js_str v = Some s \<longleftrightarrow> v = JStr s"
  by (cases v) auto

lemma js_num_Some [simp]: "js_num v = Some x \<longleftrightarrow> v = JNum x"
  by (cases v) auto

section \<open>Numbers\<close>

text \<open>\<open>Math.round\<close> rounds halves up.\<close>

definition js_round :: "real \<Rightarrow> int" where
  "js_round x = \<lfloor>x + 1/2\<rfloor>"

lemma js_round_error: "\<bar>of_int (js_round x) - x\<bar> \<le> 1/2"
  unfolding js_round_def by linarith

lemma js_round_mono: "x \<le> y \<Longrightarrow> js_round x \<le> js_round y"
  unfolding js_round_def by (rule floor_mono) simp

lemma js_round_of_int [simp]: "js_round (of_int n) = n"
  unfolding js_round_def by linarith

definition js_clamp :: "real \<Rightarrow> real \<Rightarrow> real \<Rightarrow> real" where
  "js_clamp value lo hi = min hi (max lo value)"

lemma js_clamp_bounds: "lo \<le> hi \<Longrightarrow> lo \<le> js_clamp v lo hi \<and> js_clamp v lo hi \<le> hi"
  by (auto simp: js_clamp_def)

lemma js_clamp_id [simp]: "lo \<le> v \<Longrightarrow> v \<le> hi \<Longrightarrow> js_clamp v lo hi = v"
  by (auto simp: js_clamp_def)

lemma js_clamp_mono: "v \<le> w \<Longrightarrow> js_clamp v lo hi \<le> js_clamp w lo hi"
  by (auto simp: js_clamp_def)

text \<open>The decimal digits of a natural number, as \<open>String(n)\<close> prints them.\<close>

definition digit_char :: "nat \<Rightarrow> char" where
  "digit_char d = char_of (48 + d)"

fun show_nat :: "nat \<Rightarrow> string" where
  "show_nat n = (if n < 10 then [digit_char n] else show_nat (n div 10) @ [digit_char (n mod 10)])"

declare show_nat.simps [simp del]

text \<open>\<open>String(i)\<close> of an integer.\<close>

definition show_int :: "int \<Rightarrow> string" where
  "show_int i = (if i < 0 then ''-'' @ show_nat (nat (- i)) else show_nat (nat i))"

definition digit_val :: "char \<Rightarrow> nat" where
  "digit_val c = of_char c - 48"

definition is_digit :: "char \<Rightarrow> bool" where
  "is_digit c \<longleftrightarrow> 48 \<le> (of_char c :: nat) \<and> (of_char c :: nat) \<le> 57"

text \<open>\<open>Number(s)\<close> of a string of decimal digits.\<close>

definition read_nat :: "string \<Rightarrow> nat" where
  "read_nat s = foldl (\<lambda>n c. n * 10 + digit_val c) 0 s"

lemma digit_val_char [simp]: "d < 10 \<Longrightarrow> digit_val (digit_char d) = d"
  by (simp add: digit_val_def digit_char_def)

lemma is_digit_char [simp]: "d < 10 \<Longrightarrow> is_digit (digit_char d)"
  by (simp add: is_digit_def digit_char_def)

lemma show_nat_digits: "list_all is_digit (show_nat n)"
proof (induction n rule: show_nat.induct)
  case (1 n)
  then show ?case by (subst show_nat.simps) auto
qed

lemma show_nat_nonempty [simp]: "show_nat n \<noteq> []"
  by (subst show_nat.simps) simp

lemma read_show_nat [simp]: "read_nat (show_nat n) = n"
proof (induction n rule: show_nat.induct)
  case (1 n)
  show ?case
  proof (cases "n < 10")
    case True
    then show ?thesis by (subst show_nat.simps) (simp add: read_nat_def)
  next
    case False
    with 1 have "read_nat (show_nat (n div 10)) = n div 10" by simp
    with False show ?thesis
      by (subst show_nat.simps) (simp add: read_nat_def)
  qed
qed

lemma show_nat_inj [simp]: "show_nat m = show_nat n \<longleftrightarrow> m = n"
  by (metis read_show_nat)

section \<open>Strings\<close>

definition is_js_space :: "char \<Rightarrow> bool" where
  "is_js_space c \<longleftrightarrow> (let n = (of_char c :: nat) in (9 \<le> n \<and> n \<le> 13) \<or> n = 32 \<or> n = 160)"

definition js_trim_start :: "string \<Rightarrow> string" where
  "js_trim_start s = dropWhile is_js_space s"

definition js_trim :: "string \<Rightarrow> string" where
  "js_trim s = rev (dropWhile is_js_space (rev (dropWhile is_js_space s)))"

lemma hd_dropWhile_no: "dropWhile P s \<noteq> [] \<Longrightarrow> \<not> P (hd (dropWhile P s))"
  by (rule hd_dropWhile)

lemma dropWhile_idem_hd: "s = [] \<or> \<not> P (hd s) \<Longrightarrow> dropWhile P s = s"
  by (cases s) auto

text \<open>A string is trimmed when neither end is white space.\<close>

definition trimmed :: "string \<Rightarrow> bool" where
  "trimmed s \<longleftrightarrow> s = [] \<or> (\<not> is_js_space (hd s) \<and> \<not> is_js_space (last s))"

lemma js_trim_id: "trimmed s \<Longrightarrow> js_trim s = s"
  by (cases "s = []") (simp_all add: trimmed_def js_trim_def dropWhile_idem_hd hd_rev)

lemma dropWhile_rev_suffix: "\<exists>u. s = rev (dropWhile P (rev s)) @ u"
proof -
  have "s = rev (takeWhile P (rev s) @ dropWhile P (rev s))" by simp
  also have "\<dots> = rev (dropWhile P (rev s)) @ rev (takeWhile P (rev s))" by (rule rev_append)
  finally show ?thesis by blast
qed

lemma trimmed_js_trim [simp]: "trimmed (js_trim s)"
proof -
  define t where "t = dropWhile is_js_space s"
  define r where "r = rev (dropWhile is_js_space (rev t))"
  have r: "js_trim s = r" by (simp add: js_trim_def t_def r_def)
  obtain u where u: "t = r @ u" using dropWhile_rev_suffix [of t is_js_space] by (auto simp: r_def)
  show ?thesis
  proof (cases "r = []")
    case True
    then show ?thesis by (simp add: r trimmed_def)
  next
    case False
    then have "t \<noteq> []" using u by simp
    then have "\<not> is_js_space (hd t)" unfolding t_def by (rule hd_dropWhile_no)
    moreover have "hd r = hd t" using False u by simp
    moreover have "dropWhile is_js_space (rev t) \<noteq> []" using False by (auto simp: r_def)
    then have "\<not> is_js_space (hd (dropWhile is_js_space (rev t)))" by (rule hd_dropWhile_no)
    then have "\<not> is_js_space (last r)" using False by (simp add: r_def last_rev)
    ultimately show ?thesis by (simp add: r trimmed_def)
  qed
qed

lemma js_trim_idem [simp]: "js_trim (js_trim s) = js_trim s"
  by (rule js_trim_id) simp

text \<open>\<open>toLowerCase\<close> on code units below 256: A-Z and the accented capitals of Latin-1.\<close>

definition js_lower_char :: "char \<Rightarrow> char" where
  "js_lower_char c = (let n = (of_char c :: nat) in
     if (65 \<le> n \<and> n \<le> 90) \<or> (192 \<le> n \<and> n \<le> 222 \<and> n \<noteq> 215) then char_of (n + 32) else c)"

definition js_lower :: "string \<Rightarrow> string" where
  "js_lower s = map js_lower_char s"

lemma of_char_char_of_small: "n < 256 \<Longrightarrow> (of_char (char_of n :: char) :: nat) = n"
  by simp

lemma js_lower_char_idem [simp]: "js_lower_char (js_lower_char c) = js_lower_char c"
  by (auto simp: js_lower_char_def Let_def)

lemma js_lower_idem [simp]: "js_lower (js_lower s) = js_lower s"
  by (simp add: js_lower_def)

lemma length_js_lower [simp]: "length (js_lower s) = length s"
  by (simp add: js_lower_def)

text \<open>\<open>s.split(c)\<close> on one character, and \<open>parts.join(sep)\<close>.\<close>

fun js_split :: "char \<Rightarrow> string \<Rightarrow> string list" where
  "js_split d [] = [[]]"
| "js_split d (c # cs) =
     (if c = d then [] # js_split d cs
      else (case js_split d cs of [] \<Rightarrow> [[c]] | p # ps \<Rightarrow> (c # p) # ps))"

fun js_join :: "string \<Rightarrow> string list \<Rightarrow> string" where
  "js_join sep [] = []"
| "js_join sep [s] = s"
| "js_join sep (s # t # ss) = s @ sep @ js_join sep (t # ss)"

lemma js_split_nonempty [simp]: "js_split d s \<noteq> []"
  by (induction s) (auto split: list.splits)

lemma js_split_no_sep: "p \<in> set (js_split d s) \<Longrightarrow> d \<notin> set p"
  by (induction s arbitrary: p) (auto split: list.splits if_splits)

lemma js_join_split [simp]: "js_join [d] (js_split d s) = s"
proof (induction s)
  case (Cons c cs)
  obtain p ps where ps: "js_split d cs = p # ps" by (cases "js_split d cs") auto
  with Cons show ?case by (cases ps) auto
qed simp

lemma js_split_single: "d \<notin> set s \<Longrightarrow> js_split d s = [s]"
  by (induction s) auto

lemma js_split_append: "d \<notin> set s \<Longrightarrow> js_split d (s @ d # t) = s # js_split d t"
  by (induction s) auto

lemma js_split_join:
  "ls \<noteq> [] \<Longrightarrow> (\<forall>l\<in>set ls. d \<notin> set l) \<Longrightarrow> js_split d (js_join [d] ls) = ls"
  by (induction ls rule: induct_list012) (auto simp: js_split_single js_split_append)

text \<open>\<open>s.split(/[...]+/).filter(Boolean)\<close>: the maximal runs of characters that do not separate.\<close>

fun words_by :: "(char \<Rightarrow> bool) \<Rightarrow> string \<Rightarrow> string list" where
  "words_by sep [] = []"
| "words_by sep (c # cs) =
     (if sep c then words_by sep cs
      else case cs of
             [] \<Rightarrow> [[c]]
           | d # _ \<Rightarrow> if sep d then [c] # words_by sep cs
                      else (case words_by sep cs of [] \<Rightarrow> [[c]] | w # ws \<Rightarrow> (c # w) # ws))"

definition js_slice :: "string \<Rightarrow> nat \<Rightarrow> string" where
  "js_slice s n = drop n s"

definition nl :: char where "nl = CHR 0x0A"

text \<open>
  A character beyond the byte range in a message the code only shows is written as its UTF-8 bytes;
  no modelled code measures or takes apart such a message.
\<close>

definition ellipsis :: string where "ellipsis = [CHR 0xE2, CHR 0x80, CHR 0xA6]"

section \<open>Arrays, sets and maps\<close>

text \<open>\<open>[...new Set(xs)]\<close>: first occurrences, in order.\<close>

fun js_uniq_acc :: "'a list \<Rightarrow> 'a list \<Rightarrow> 'a list" where
  "js_uniq_acc seen [] = []"
| "js_uniq_acc seen (x # xs) =
     (if x \<in> set seen then js_uniq_acc seen xs else x # js_uniq_acc (x # seen) xs)"

definition js_uniq :: "'a list \<Rightarrow> 'a list" where
  "js_uniq xs = js_uniq_acc [] xs"

lemma set_js_uniq_acc: "set (js_uniq_acc seen xs) = set xs - set seen"
  by (induction xs arbitrary: seen) auto

lemma distinct_js_uniq_acc: "distinct (js_uniq_acc seen xs)"
  by (induction xs arbitrary: seen) (auto simp: set_js_uniq_acc)

lemma js_uniq_acc_id: "distinct xs \<Longrightarrow> set xs \<inter> set seen = {} \<Longrightarrow> js_uniq_acc seen xs = xs"
  by (induction xs arbitrary: seen) auto

lemma set_js_uniq [simp]: "set (js_uniq xs) = set xs"
  by (simp add: js_uniq_def set_js_uniq_acc)

lemma distinct_js_uniq [simp]: "distinct (js_uniq xs)"
  by (simp add: js_uniq_def distinct_js_uniq_acc)

lemma js_uniq_id [simp]: "distinct xs \<Longrightarrow> js_uniq xs = xs"
  by (simp add: js_uniq_def js_uniq_acc_id)

text \<open>\<open>arr.find\<close> is \<open>List.find\<close>; \<open>arr.sort((a, b) => key(a) - key(b))\<close> is the stable \<open>sort_key\<close>.\<close>

lemma find_Some_set: "List.find P xs = Some x \<Longrightarrow> x \<in> set xs \<and> P x"
  by (auto simp: find_Some_iff)

lemma find_None_all: "List.find P xs = None \<longleftrightarrow> (\<forall>x\<in>set xs. \<not> P x)"
  by (auto simp: find_None_iff)

lemma find_by_key: "distinct (map f xs) \<Longrightarrow> x \<in> set xs \<Longrightarrow> List.find (\<lambda>y. f y = f x) xs = Some x"
  by (induction xs) (auto simp: image_iff)

lemma mset_partition_append: "mset (filter P xs @ filter (\<lambda>x. \<not> P x) xs) = mset xs"
  by (induction xs) auto

lemma mset_drop_take [simp]: "mset (drop n xs) + mset (take n xs) = mset xs"
  by (metis append_take_drop_id mset_append union_commute)

lemma mset_rotate [simp]: "mset (rotate n xs) = mset xs"
  by (simp add: rotate_drop_take)

lemma distinct_find_filter:
  assumes "distinct xs" "x \<in> set xs"
  shows "mset (x # filter (\<lambda>y. y \<noteq> x) xs) = mset xs"
  using assms
proof (induction xs)
  case (Cons y ys)
  have "filter (\<lambda>z. z \<noteq> x) ys = ys" if "x \<notin> set ys"
    using that by (auto simp: filter_id_conv)
  with Cons show ?case by (cases "x = y") auto
qed simp

text \<open>\<open>[...new Map(pairs).values()]\<close>: the last value of a key, in the place of its first.\<close>

definition js_map_of :: "('k \<times> 'v) list \<Rightarrow> ('k \<times> 'v) list" where
  "js_map_of kvs = fold (\<lambda>(k, v) m. AList.update k v m) kvs []"

lemma fst_update_alist: "fst ` set (AList.update k v m) = insert k (fst ` set m)"
  by (simp add: dom_update)

lemma distinct_fold_update:
  "distinct (map fst m) \<Longrightarrow> distinct (map fst (fold (\<lambda>(k, v) m. AList.update k v m) kvs m))"
  by (induction kvs arbitrary: m) (auto simp: distinct_update)

lemma keys_fold_update:
  "fst ` set (fold (\<lambda>(k, v) m. AList.update k v m) kvs m) = fst ` set m \<union> fst ` set kvs"
proof (induction kvs arbitrary: m)
  case (Cons kv kvs)
  then show ?case by (cases kv) (simp add: fst_update_alist)
qed simp

lemma distinct_js_map_of [simp]: "distinct (map fst (js_map_of kvs))"
  by (simp add: js_map_of_def distinct_fold_update)

lemma keys_js_map_of [simp]: "fst ` set (js_map_of kvs) = fst ` set kvs"
  by (simp add: js_map_of_def keys_fold_update)

lemma map_of_fold_update:
  "map_of (fold (\<lambda>(k, v) m. AList.update k v m) kvs m) = map_of m ++ map_of (rev kvs)"
  by (induction kvs arbitrary: m) (auto simp: update_conv')

lemma map_of_js_map_of: "map_of (js_map_of kvs) = map_of (rev kvs)"
  by (simp add: js_map_of_def map_of_fold_update)

lemma set_update_subset: "set (AList.update k v m) \<subseteq> insert (k, v) (set m)"
  by (induction m) auto

lemma set_js_map_of: "set (js_map_of kvs) \<subseteq> set kvs"
proof -
  have "set (fold (\<lambda>(k, v) m. AList.update k v m) kvs m) \<subseteq> set m \<union> set kvs" for m
  proof (induction kvs arbitrary: m)
    case (Cons kv kvs)
    then show ?case using set_update_subset by (cases kv) fastforce
  qed simp
  from this [of "[]"] show ?thesis by (simp add: js_map_of_def)
qed

lemma map_fst_update:
  "map fst (AList.update k v m) = (if k \<in> fst ` set m then map fst m else map fst m @ [k])"
  by (induction m) auto

lemma map_fst_js_map_of: "map fst (js_map_of kvs) = js_uniq (map fst kvs)"
proof -
  have "map fst (fold (\<lambda>(k, v) m. AList.update k v m) kvs m) =
      map fst m @ js_uniq_acc seen (map fst kvs)"
    if "set seen = fst ` set m" for m :: "('k \<times> 'v) list" and seen and kvs :: "('k \<times> 'v) list"
    using that
  proof (induction kvs arbitrary: m seen)
    case (Cons kv kvs)
    obtain k v where kv: "kv = (k, v)" by (cases kv)
    show ?case
    proof (cases "k \<in> set seen")
      case True
      then have "set seen = fst ` set (AList.update k v m)"
        using Cons.prems by (auto simp: fst_update_alist simp del: image_iff)
      from Cons.IH [OF this] True show ?thesis
        using Cons.prems by (simp add: kv map_fst_update)
    next
      case False
      then have "set (k # seen) = fst ` set (AList.update k v m)"
        using Cons.prems by (simp add: fst_update_alist)
      from Cons.IH [OF this] False show ?thesis
        using Cons.prems by (simp add: kv map_fst_update)
    qed
  qed simp
  from this [of "[]" "[]"] show ?thesis by (simp add: js_map_of_def js_uniq_def)
qed

section \<open>An insertion-ordered map as an interface\<close>

text \<open>
  What the components that keep a \<open>Map\<close> rely on: a lookup after an insert or a delete, and
  keys that stay distinct. The interpretation on \<open>AList\<close> below discharges the laws.
\<close>

locale js_map =
  fixes get :: "'m \<Rightarrow> 'k \<Rightarrow> 'v option"
    and put :: "'k \<Rightarrow> 'v \<Rightarrow> 'm \<Rightarrow> 'm"
    and remove :: "'k \<Rightarrow> 'm \<Rightarrow> 'm"
    and keys :: "'m \<Rightarrow> 'k list"
    and ok :: "'m \<Rightarrow> bool"
  assumes get_put: "get (put k v m) k' = (if k' = k then Some v else get m k')"
    and get_remove: "get (remove k m) k' = (if k' = k then None else get m k')"
    and keys_get: "k \<in> set (keys m) \<longleftrightarrow> get m k \<noteq> None"
    and ok_put: "ok m \<Longrightarrow> ok (put k v m)"
    and ok_remove: "ok m \<Longrightarrow> ok (remove k m)"
    and ok_distinct: "ok m \<Longrightarrow> distinct (keys m)"
begin

lemma put_fresh_keys: "get m k = None \<Longrightarrow> set (keys (put k v m)) = insert k (set (keys m))"
  using keys_get get_put by (auto split: if_splits)

lemma remove_keys: "set (keys (remove k m)) = set (keys m) - {k}"
  using keys_get get_remove by (auto split: if_splits)

lemma put_twice: "get (put k v (put k w m)) k' = get (put k v m) k'"
  by (simp add: get_put)

end

interpretation amap: js_map map_of AList.update AList.delete "map fst" "\<lambda>m. distinct (map fst m)"
  by unfold_locales
    (auto simp: update_conv' delete_conv' distinct_update distinct_delete map_of_eq_None_iff)

section \<open>Invariants of a step relation as an interface\<close>

text \<open>
  What a state machine owes its clients: the invariant holds at the start and every step keeps it;
  then it holds wherever the machine gets to.
\<close>

locale step_invariant =
  fixes step :: "'s \<Rightarrow> 's \<Rightarrow> bool" and init :: 's and inv :: "'s \<Rightarrow> bool"
  assumes init_inv: "inv init"
    and step_inv: "step s s' \<Longrightarrow> inv s \<Longrightarrow> inv s'"
begin

lemma reached_inv: "step\<^sup>*\<^sup>* init s \<Longrightarrow> inv s"
  by (induction rule: rtranclp_induct) (auto intro: init_inv step_inv)

lemma kept_inv: "step\<^sup>*\<^sup>* s s' \<Longrightarrow> inv s \<Longrightarrow> inv s'"
  by (induction rule: rtranclp_induct) (auto intro: step_inv)

end

end
