(* ===== verification/Team_Policy.thy ===== *)
theory Team_Policy
  imports Js_Prelude
begin

text \<open>
  Who may share a team, and who may change whom: the predicates of
  \<open>contrib/hivemindide/common/teamPolicy.ts\<close>. Roles are ordered (a member below an admin below
  the owner); every power over a member is shown to be power over a strictly lower role.
\<close>

datatype role = Member | Admin | Owner

text \<open>Owners and admins share, as members or admins. Nobody is invited as owner.\<close>

definition canInvite :: "role \<Rightarrow> role \<Rightarrow> bool" where
  "canInvite actor as = ((actor = Owner \<or> actor = Admin) \<and> (as = Member \<or> as = Admin))"

definition canSetRole :: "role \<Rightarrow> role \<Rightarrow> role \<Rightarrow> bool" where
  "canSetRole actor target to =
     (if target = Owner \<or> to = Owner then False
      else actor = Owner \<or> (actor = Admin \<and> target = Member \<and> to = Admin))"

definition canRemove :: "role \<Rightarrow> role \<Rightarrow> bool" where
  "canRemove actor target =
     (target \<noteq> Owner \<and> (actor = Owner \<or> (actor = Admin \<and> target = Member)))"

definition canTransfer :: "role \<Rightarrow> role \<Rightarrow> bool" where
  "canTransfer actor target = (actor = Owner \<and> target \<noteq> Owner)"

definition canShare :: "role \<Rightarrow> bool" where
  "canShare actor = (actor = Owner \<or> actor = Admin)"

lemmas team_defs = canInvite_def canSetRole_def canRemove_def canTransfer_def canShare_def

section \<open>Roles are ordered by authority\<close>

fun role_rank :: "role \<Rightarrow> nat" where
  "role_rank Member = 0"
| "role_rank Admin = 1"
| "role_rank Owner = 2"

instantiation role :: linorder
begin

definition less_eq_role :: "role \<Rightarrow> role \<Rightarrow> bool" where
  "less_eq_role a b \<longleftrightarrow> role_rank a \<le> role_rank b"

definition less_role :: "role \<Rightarrow> role \<Rightarrow> bool" where
  "less_role a b \<longleftrightarrow> role_rank a < role_rank b"

instance
proof
  fix a b :: role
  show "a \<le> b \<Longrightarrow> b \<le> a \<Longrightarrow> a = b"
    by (cases a; cases b) (auto simp: less_eq_role_def)
qed (auto simp: less_eq_role_def less_role_def)

end

lemmas role_order = less_eq_role_def less_role_def

text \<open>
  The contract every power of the policy meets: it reaches strictly lower roles only, and a
  higher role has every power a lower one has. What follows from it is proved once.
\<close>

locale authority =
  fixes allowed :: "role \<Rightarrow> role \<Rightarrow> bool"
  assumes outranks: "allowed actor target \<Longrightarrow> target < actor"
    and upward: "allowed actor target \<Longrightarrow> actor \<le> actor' \<Longrightarrow> allowed actor' target"
begin

lemma never_self: "\<not> allowed r r"
  using outranks by blast

lemma never_owner: "\<not> allowed actor Owner"
  using outranks [of actor Owner] by (cases actor) (auto simp: role_order)

lemma never_mutual: "allowed a b \<Longrightarrow> \<not> allowed b a"
  using outranks less_asym by blast

lemma member_powerless: "\<not> allowed Member target"
  using outranks [of Member target] by (cases target) (auto simp: role_order)

end

interpretation set_role: authority "\<lambda>actor target. canSetRole actor target to"
proof
  fix a t show "canSetRole a t to \<Longrightarrow> t < a"
    by (cases a; cases t) (auto simp: team_defs role_order split: if_splits)
next
  fix a t a' show "canSetRole a t to \<Longrightarrow> a \<le> a' \<Longrightarrow> canSetRole a' t to"
    by (cases a; cases a'; cases t) (auto simp: team_defs role_order split: if_splits)
qed

interpretation remove: authority canRemove
proof
  fix a t show "canRemove a t \<Longrightarrow> t < a"
    by (cases a; cases t) (auto simp: team_defs role_order)
next
  fix a t a' show "canRemove a t \<Longrightarrow> a \<le> a' \<Longrightarrow> canRemove a' t"
    by (cases a; cases a'; cases t) (auto simp: team_defs role_order)
qed

interpretation transfer: authority canTransfer
proof
  fix a t show "canTransfer a t \<Longrightarrow> t < a"
    by (cases a; cases t) (auto simp: team_defs role_order)
next
  fix a t a' show "canTransfer a t \<Longrightarrow> a \<le> a' \<Longrightarrow> canTransfer a' t"
    by (cases a; cases a'; cases t) (auto simp: team_defs role_order)
qed

lemma share_iff_invite: "canShare actor \<longleftrightarrow> (\<exists>as. canInvite actor as)"
  by (auto simp: team_defs)

lemma granted_role_bounded:
  "canSetRole actor target to \<Longrightarrow> to < Owner \<and> to \<le> actor"
  by (cases actor; cases to) (auto simp: team_defs role_order split: if_splits)

text \<open>Every action the UI offers on a member (setting a role, removing, handing the
  team over) is offered only to a strictly higher role, so never on oneself and never against
  the owner; a role that is granted is below owner and at most the actor's own.\<close>

lemma team_actions_respect_rank:
  "(\<exists>to. canSetRole actor target to) \<or> canRemove actor target \<or> canTransfer actor target \<Longrightarrow>
     target < actor \<and> target \<noteq> Owner \<and>
     (\<forall>to. canSetRole actor target to \<longrightarrow> to < Owner \<and> to \<le> actor)"
  using set_role.outranks remove.outranks transfer.outranks set_role.never_owner
    remove.never_owner transfer.never_owner granted_role_bounded by blast

lemma team_actions_respect_rank_witness:
  "Member < Admin \<and> canSetRole Admin Member Admin"
proof -
  have "canSetRole Admin Member Admin" by (simp add: team_defs)
  with team_actions_respect_rank [of Admin Member] show ?thesis by blast
qed

end
