(* ===== verification/Js_Regex.thy ===== *)
theory Js_Regex
  imports Js_Prelude
begin

text \<open>
  The regular expressions of JavaScript, as far as the modelled code uses them: classes,
  sequence, ordered alternation, greedy and lazy quantifiers, capture groups, anchors and word
  boundaries. A matcher state is the text before the position (reversed), the text after it and
  the captures. \<open>re_m\<close> lists the states a match can end in, in the order a backtracking matcher
  tries them, so the first one is the match JavaScript reports.
\<close>

datatype re =
    REps
  | RCls "char \<Rightarrow> bool"
  | RSeq re re
  | RAlt re re
  | RStar bool re      \<comment> \<open>greedy or lazy\<close>
  | ROpt bool re
  | RGroup nat re
  | RBack nat
  | RBol bool          \<comment> \<open>\<open>^\<close>, with or without the flag \<open>m\<close>\<close>
  | REol bool
  | RWordB             \<comment> \<open>\<open>\b\<close>\<close>
  | RLook re           \<comment> \<open>\<open>(?=...)\<close>\<close>

type_synonym mst = "string \<times> string \<times> (nat \<times> string) list"

fun re_groups :: "re \<Rightarrow> nat list" where
  "re_groups (RSeq r s) = re_groups r @ re_groups s"
| "re_groups (RAlt r s) = re_groups r @ re_groups s"
| "re_groups (RStar g r) = re_groups r"
| "re_groups (ROpt g r) = re_groups r"
| "re_groups (RGroup n r) = n # re_groups r"
| "re_groups _ = []"

definition is_word :: "char \<Rightarrow> bool" where
  "is_word c \<longleftrightarrow> (let n = (of_char c :: nat) in
     (48 \<le> n \<and> n \<le> 57) \<or> (65 \<le> n \<and> n \<le> 90) \<or> n = 95 \<or> (97 \<le> n \<and> n \<le> 122))"

definition is_eol :: "char \<Rightarrow> bool" where
  "is_eol c \<longleftrightarrow> (of_char c :: nat) = 10 \<or> (of_char c :: nat) = 13"

definition word_at :: "string \<Rightarrow> bool" where
  "word_at s \<longleftrightarrow> (case s of [] \<Rightarrow> False | c # _ \<Rightarrow> is_word c)"

definition eol_at :: "string \<Rightarrow> bool" where
  "eol_at s \<longleftrightarrow> (case s of [] \<Rightarrow> False | c # _ \<Rightarrow> is_eol c)"

text \<open>
  A quantifier iterates its body only while the body consumes something, and forgets the
  captures of the previous iteration; the counter \<open>n\<close> is the number of characters left, which
  bounds the iterations.
\<close>

fun re_star :: "bool \<Rightarrow> nat list \<Rightarrow> (mst \<Rightarrow> mst list) \<Rightarrow> nat \<Rightarrow> mst \<Rightarrow> mst list" where
  "re_star greedy gs f 0 st = [st]"
| "re_star greedy gs f (Suc n) st =
     (let more = concat (map (\<lambda>st'. if length (fst (snd st')) < length (fst (snd st))
                                   then re_star greedy gs f n st' else [])
                  (f (fst st, fst (snd st), filter (\<lambda>(g, _). g \<notin> set gs) (snd (snd st)))))
      in if greedy then more @ [st] else st # more)"

fun strip_prefix :: "string \<Rightarrow> string \<Rightarrow> string option" where
  "strip_prefix [] s = Some s"
| "strip_prefix (p # ps) [] = None"
| "strip_prefix (p # ps) (c # cs) = (if p = c then strip_prefix ps cs else None)"

fun re_m :: "re \<Rightarrow> mst \<Rightarrow> mst list" where
  "re_m REps st = [st]"
| "re_m (RCls P) (bef, rest, caps) =
     (case rest of [] \<Rightarrow> [] | c # cs \<Rightarrow> if P c then [(c # bef, cs, caps)] else [])"
| "re_m (RSeq r s) st = concat (map (re_m s) (re_m r st))"
| "re_m (RAlt r s) st = re_m r st @ re_m s st"
| "re_m (RStar g r) st = re_star g (re_groups r) (re_m r) (length (fst (snd st))) st"
| "re_m (ROpt g r) st = (if g then re_m r st @ [st] else st # re_m r st)"
| "re_m (RGroup n r) st =
     map (\<lambda>(bef, rest, caps).
       (bef, rest, (n, take (length (fst (snd st)) - length rest) (fst (snd st)))
          # filter (\<lambda>(g, _). g \<noteq> n) caps)) (re_m r st)"
| "re_m (RBack n) (bef, rest, caps) =
     (case map_of caps n of None \<Rightarrow> [(bef, rest, caps)]
      | Some w \<Rightarrow> (case strip_prefix w rest of None \<Rightarrow> []
                  | Some rest' \<Rightarrow> [(rev w @ bef, rest', caps)]))"
| "re_m (RBol m) (bef, rest, caps) =
     (if bef = [] \<or> (m \<and> eol_at bef) then [(bef, rest, caps)] else [])"
| "re_m (REol m) (bef, rest, caps) =
     (if rest = [] \<or> (m \<and> eol_at rest) then [(bef, rest, caps)] else [])"
| "re_m RWordB (bef, rest, caps) =
     (if word_at bef \<noteq> word_at rest then [(bef, rest, caps)] else [])"
| "re_m (RLook r) st = (if re_m r st = [] then [] else [st])"

text \<open>The leftmost match at or after a position: the text before it, the match, the end state.\<close>

fun re_search :: "re \<Rightarrow> string \<Rightarrow> string \<Rightarrow> (string \<times> string \<times> mst) option" where
  "re_search r bef rest =
     (case re_m r (bef, rest, []) of
        st # _ \<Rightarrow> Some (bef, take (length rest - length (fst (snd st))) rest, st)
      | [] \<Rightarrow> (case rest of [] \<Rightarrow> None | c # cs \<Rightarrow> re_search r (c # bef) cs))"

declare re_search.simps [simp del]

definition re_exec :: "re \<Rightarrow> string \<Rightarrow> (string \<times> string \<times> mst) option" where
  "re_exec r s = re_search r [] s"

definition re_test :: "re \<Rightarrow> string \<Rightarrow> bool" where
  "re_test r s \<longleftrightarrow> re_exec r s \<noteq> None"

text \<open>\<open>r.exec(s)?.[n]\<close> for a capture group \<open>n > 0\<close>; the whole match is the second component.\<close>

definition re_cap :: "(string \<times> string \<times> mst) option \<Rightarrow> nat \<Rightarrow> string option" where
  "re_cap m n = (case m of None \<Rightarrow> None | Some (_, _, _, _, caps) \<Rightarrow> map_of caps n)"

text \<open>
  \<open>s.matchAll(r)\<close>: matches one after another, stepping one character past an empty match.
  The fuel is the length of the string plus one.
\<close>

fun re_all :: "re \<Rightarrow> nat \<Rightarrow> string \<Rightarrow> string \<Rightarrow> (string \<times> string \<times> mst) list" where
  "re_all r 0 bef rest = []"
| "re_all r (Suc n) bef rest =
     (case re_search r bef rest of None \<Rightarrow> []
      | Some (b, w, bef', rest', caps) \<Rightarrow>
          (b, w, bef', rest', caps) #
          (if w = [] then (case rest' of [] \<Rightarrow> [] | c # cs \<Rightarrow> re_all r n (c # bef') cs)
           else re_all r n bef' rest'))"

definition re_match_all :: "re \<Rightarrow> string \<Rightarrow> (string \<times> string \<times> mst) list" where
  "re_match_all r s = re_all r (Suc (length s)) [] s"

text \<open>\<open>s.replace(r, sub)\<close> with the flag \<open>g\<close> and a fixed replacement.\<close>

fun re_replace_fuel :: "re \<Rightarrow> string \<Rightarrow> nat \<Rightarrow> string \<Rightarrow> string \<Rightarrow> string" where
  "re_replace_fuel r sub 0 bef rest = rest"
| "re_replace_fuel r sub (Suc n) bef rest =
     (case re_search r bef rest of None \<Rightarrow> rest
      | Some (b, w, bef', rest', caps) \<Rightarrow>
          drop (length bef) (rev b) @ sub @
          (if w = [] then (case rest' of [] \<Rightarrow> [] | c # cs \<Rightarrow> c # re_replace_fuel r sub n (c # bef') cs)
           else re_replace_fuel r sub n bef' rest'))"

definition re_replace_all :: "re \<Rightarrow> string \<Rightarrow> string \<Rightarrow> string" where
  "re_replace_all r sub s = re_replace_fuel r sub (Suc (length s)) [] s"

text \<open>\<open>s.replace(r, sub)\<close> without the flag \<open>g\<close>: the first match only.\<close>

definition re_replace_first :: "re \<Rightarrow> string \<Rightarrow> string \<Rightarrow> string" where
  "re_replace_first r sub s =
     (case re_exec r s of None \<Rightarrow> s | Some (b, w, bef', rest', caps) \<Rightarrow> rev b @ sub @ rest')"

section \<open>Writing expressions\<close>

definition ch :: "char \<Rightarrow> re" where "ch c = RCls (\<lambda>d. d = c)"
definition cls :: "string \<Rightarrow> re" where "cls s = RCls (\<lambda>d. d \<in> set s)"
definition ncls :: "string \<Rightarrow> re" where "ncls s = RCls (\<lambda>d. d \<notin> set s)"
definition rdigit :: re where "rdigit = RCls is_digit"
definition rspace :: re where "rspace = RCls is_js_space"
definition rnspace :: re where "rnspace = RCls (\<lambda>d. \<not> is_js_space d)"
definition rdot :: re where "rdot = RCls (\<lambda>d. \<not> is_eol d)"
definition rany :: re where "rany = RCls (\<lambda>_. True)"

text \<open>A class under the flag \<open>i\<close>: compared after folding the case of ASCII letters.\<close>

definition chi :: "char \<Rightarrow> re" where "chi c = RCls (\<lambda>d. js_lower_char d = js_lower_char c)"
definition clsi :: "string \<Rightarrow> re" where "clsi s = RCls (\<lambda>d. js_lower_char d \<in> set (js_lower s))"

fun seqs :: "re list \<Rightarrow> re" where
  "seqs [] = REps"
| "seqs [r] = r"
| "seqs (r # rs) = RSeq r (seqs rs)"

fun alts :: "re list \<Rightarrow> re" where
  "alts [] = RCls (\<lambda>_. False)"
| "alts [r] = r"
| "alts (r # rs) = RAlt r (alts rs)"

definition lit :: "string \<Rightarrow> re" where "lit s = seqs (map ch s)"
definition liti :: "string \<Rightarrow> re" where "liti s = seqs (map chi s)"
definition rplus :: "re \<Rightarrow> re" where "rplus r = RSeq r (RStar True r)"
definition rstar :: "re \<Rightarrow> re" where "rstar r = RStar True r"
definition ropt :: "re \<Rightarrow> re" where "ropt r = ROpt True r"

lemmas re_build [js_defs] = ch_def cls_def ncls_def rdigit_def rspace_def rnspace_def rdot_def
  rany_def chi_def clsi_def lit_def liti_def rplus_def rstar_def ropt_def

section \<open>Facts about matching\<close>

text \<open>Every match state is a position of the same string, at or after the start.\<close>

definition same_text :: "mst \<Rightarrow> mst \<Rightarrow> bool" where
  "same_text st st' \<longleftrightarrow> (\<exists>w. fst (snd st) = w @ fst (snd st') \<and> fst st' = rev w @ fst st)"

lemma same_text_refl [simp]: "same_text st st"
  by (simp add: same_text_def)

lemma same_text_caps [simp]: "same_text (a, b, c) st = same_text (a, b, c') st"
  by (simp add: same_text_def)

lemma same_text_trans: "same_text a b \<Longrightarrow> same_text b c \<Longrightarrow> same_text a c"
  unfolding same_text_def by force

lemma strip_prefix_Some: "strip_prefix w s = Some t \<longleftrightarrow> s = w @ t"
  by (induction w s rule: strip_prefix.induct) auto

lemma same_text_star:
  assumes "\<And>st st'. st' \<in> set (f st) \<Longrightarrow> same_text st st'"
  shows "st' \<in> set (re_star g gs f n st) \<Longrightarrow> same_text st st'"
proof (induction n arbitrary: st)
  case (Suc n)
  then consider "st' = st"
    | st1 where "st1 \<in> set (f (fst st, fst (snd st), filter (\<lambda>(g, _). g \<notin> set gs) (snd (snd st))))"
        "st' \<in> set (re_star g gs f n st1)"
    by (auto simp: Let_def split: if_splits)
  then show ?case
  proof cases
    case 2
    from assms [OF 2(1)] have "same_text st st1" by (simp add: same_text_def)
    with Suc.IH [OF 2(2)] show ?thesis by (rule same_text_trans [rotated])
  qed simp
qed simp

lemma same_text_re_m: "st' \<in> set (re_m r st) \<Longrightarrow> same_text st st'"
proof (induction r arbitrary: st st')
  case (RCls P)
  then show ?case by (cases st) (auto simp: same_text_def split: list.splits if_splits)
next
  case (RSeq r s)
  then show ?case by (auto dest!: RSeq.IH intro: same_text_trans)
next
  case (RStar g r)
  then show ?case using same_text_star [of "re_m r"] by auto
next
  case (RGroup n r)
  then obtain st1 where "st1 \<in> set (re_m r st)" "fst st1 = fst st'" "fst (snd st1) = fst (snd st')"
    by auto
  with RGroup.IH show ?case by (fastforce simp: same_text_def)
next
  case (RBack n)
  then show ?case
    by (cases st) (auto simp: same_text_def strip_prefix_Some eq_commute [of "Some _"] split: option.splits)
next
  case (RBol m)
  then show ?case by (cases st) (auto split: if_splits)
next
  case (REol m)
  then show ?case by (cases st) (auto split: if_splits)
next
  case RWordB
  then show ?case by (cases st) (auto split: if_splits)
qed (auto split: if_splits)

text \<open>A leftmost search succeeds exactly when some position has a match.\<close>

lemma re_search_iff:
  "re_search r bef rest \<noteq> None \<longleftrightarrow>
     (\<exists>u v. rest = u @ v \<and> re_m r (rev u @ bef, v, []) \<noteq> [])"
proof (induction rest arbitrary: bef)
  case Nil
  then show ?case by (subst re_search.simps) (auto split: list.splits)
next
  case (Cons c cs)
  show ?case
  proof (cases "re_m r (bef, c # cs, [])")
    case (Cons st sts)
    then have "\<exists>u v. c # cs = u @ v \<and> re_m r (rev u @ bef, v, []) \<noteq> []"
      by (intro exI [of _ "[]"] exI [of _ "c # cs"]) simp
    with Cons show ?thesis by (subst re_search.simps) simp
  next
    case Nil
    have "re_search r bef (c # cs) = re_search r (c # bef) cs"
      using Nil by (subst re_search.simps) simp
    also have "(\<dots> \<noteq> None) = (\<exists>u v. cs = u @ v \<and> re_m r (rev u @ c # bef, v, []) \<noteq> [])"
      by (rule Cons.IH)
    also have "\<dots> = (\<exists>u v. c # cs = u @ v \<and> re_m r (rev u @ bef, v, []) \<noteq> [])"
      (is "?A = ?B")
    proof
      assume ?A
      then obtain u v where "cs = u @ v" "re_m r (rev u @ c # bef, v, []) \<noteq> []" by blast
      then show ?B by (intro exI [of _ "c # u"] exI [of _ v]) auto
    next
      assume ?B
      then obtain u v where uv: "c # cs = u @ v" "re_m r (rev u @ bef, v, []) \<noteq> []" by blast
      with Nil obtain u' where "u = c # u'" by (cases u) auto
      with uv show ?A by (intro exI [of _ u'] exI [of _ v]) auto
    qed
    finally show ?thesis .
  qed
qed

lemma re_test_iff: "re_test r s \<longleftrightarrow> (\<exists>u v. s = u @ v \<and> re_m r (rev u, v, []) \<noteq> [])"
  using re_search_iff [of r "[]" s] by (simp add: re_test_def re_exec_def)

lemma re_test_alt: "re_test (RAlt r s) t \<longleftrightarrow> re_test r t \<or> re_test s t"
  by (auto simp: re_test_iff)

lemma re_test_alts: "re_test (alts rs) t \<longleftrightarrow> (\<exists>r\<in>set rs. re_test r t)"
proof (induction rs rule: alts.induct)
  case 1
  show ?case by (auto simp: re_test_iff split: list.splits)
qed (auto simp: re_test_alt)

text \<open>A literal expression matches exactly a text that starts with it; tested, it is \<open>includes\<close>.\<close>

lemma re_m_chars:
  "re_m (seqs (map (\<lambda>c. RCls (P c)) w)) (bef, rest, caps) =
     (if list_all2 P w (take (length w) rest)
      then [(rev (take (length w) rest) @ bef, drop (length w) rest, caps)] else [])"
proof (induction w arbitrary: bef rest rule: induct_list012)
  case (2 c)
  then show ?case by (cases rest) auto
next
  case (3 c d w)
  then show ?case by (cases rest) auto
qed auto

lemma list_all2_eq_take: "list_all2 (\<lambda>c d. d = c) w (take (length w) rest) \<longleftrightarrow> prefix w rest"
proof -
  have "list_all2 (\<lambda>c d. d = c) w v \<longleftrightarrow> w = v" for v
    by (induction w arbitrary: v) (auto simp: list_all2_Cons1)
  then show ?thesis by (metis append_eq_conv_conj prefix_def)
qed

lemma re_m_lit:
  "re_m (lit w) (bef, rest, caps) =
     (if prefix w rest then [(rev w @ bef, drop (length w) rest, caps)] else [])"
  unfolding lit_def ch_def re_m_chars list_all2_eq_take
  by (auto simp: prefix_def)

lemma re_test_lit: "re_test (lit w) s \<longleftrightarrow> sublist w s"
  by (auto simp: re_test_iff re_m_lit sublist_def prefix_def)

lemma re_m_liti:
  "re_m (liti w) (bef, rest, caps) =
     (if prefix (js_lower w) (js_lower rest)
      then [(rev (take (length w) rest) @ bef, drop (length w) rest, caps)] else [])"
proof -
  have "list_all2 (\<lambda>c d. js_lower_char d = js_lower_char c) w v \<longleftrightarrow> js_lower w = js_lower v" for v
    by (induction w arbitrary: v) (auto simp: list_all2_Cons1 js_lower_def)
  then have "list_all2 (\<lambda>c d. js_lower_char d = js_lower_char c) w (take (length w) rest) \<longleftrightarrow>
      prefix (js_lower w) (js_lower rest)"
    by (metis append_eq_conv_conj js_lower_def length_map prefix_def take_map)
  then show ?thesis unfolding liti_def chi_def re_m_chars by simp
qed

lemma re_test_liti: "re_test (liti w) s \<longleftrightarrow> sublist (js_lower w) (js_lower s)"
proof -
  have "(\<exists>u v. s = u @ v \<and> prefix (js_lower w) (js_lower v)) \<longleftrightarrow> sublist (js_lower w) (js_lower s)"
    (is "?A = ?B")
  proof
    assume ?A
    then show ?B by (auto simp: js_lower_def sublist_def prefix_def) blast
  next
    assume ?B
    then obtain p q where pq: "js_lower s = p @ js_lower w @ q" by (auto simp: sublist_def)
    then have "js_lower (drop (length p) s) = js_lower w @ q"
      by (metis append_eq_conv_conj drop_map js_lower_def)
    then show ?A
      by (intro exI [of _ "take (length p) s"] exI [of _ "drop (length p) s"]) (auto simp: prefix_def)
  qed
  then show ?thesis by (auto simp: re_test_iff re_m_liti)
qed

section \<open>The first match\<close>

text \<open>A greedy repetition of a class first takes the longest run of the class.\<close>

lemma re_star_cls_first:
  assumes "list_all P w" "v = [] \<or> \<not> P (hd v)" "length w \<le> n"
  shows "\<exists>more. re_star True [] (re_m (RCls P)) n (bef, w @ v, caps) = (rev w @ bef, v, caps) # more"
  using assms
proof (induction n arbitrary: w bef)
  case (Suc n)
  show ?case
  proof (cases w)
    case Nil
    then show ?thesis using Suc.prems(2) by (cases v) auto
  next
    case (Cons c cs)
    with Suc.prems have "list_all P cs" "length cs \<le> n" by auto
    from Suc.IH [OF this(1) Suc.prems(2) this(2), of "c # bef"] Suc.prems(1) Cons
    show ?thesis by (auto simp: Let_def)
  qed
qed simp

lemma re_m_star_cls_first:
  assumes "list_all P w" "v = [] \<or> \<not> P (hd v)"
  shows "\<exists>more. re_m (RStar True (RCls P)) (bef, w @ v, caps) = (rev w @ bef, v, caps) # more"
  using re_star_cls_first [OF assms, of "length (w @ v)" bef caps] by simp

lemma re_m_plus_cls_first:
  assumes "w \<noteq> []" "list_all P w" "v = [] \<or> \<not> P (hd v)"
  shows "\<exists>more. re_m (rplus (RCls P)) (bef, w @ v, caps) = (rev w @ bef, v, caps) # more"
proof -
  obtain c cs where w: "w = c # cs" using assms(1) by (cases w) auto
  with assms have "P c" "list_all P cs" by auto
  with re_m_star_cls_first [OF this(2) assms(3), of "c # bef" caps] show ?thesis
    by (auto simp: rplus_def w)
qed

text \<open>A sequence starts with the first match of its head when the tail matches after it.\<close>

lemma re_m_seq_first:
  assumes "re_m r st = st1 # more" "re_m s st1 = st2 # more'"
  shows "\<exists>more''. re_m (RSeq r s) st = st2 # more''"
  using assms by auto

lemma re_search_here:
  "re_m r (bef, rest, []) = st # more \<Longrightarrow>
   re_search r bef rest = Some (bef, take (length rest - length (fst (snd st))) rest, st)"
  by (subst re_search.simps) simp

lemma re_search_skip:
  assumes "\<forall>x y. u = x @ y \<and> y \<noteq> [] \<longrightarrow> re_m r (rev x @ bef, y @ v, []) = []"
  shows "re_search r bef (u @ v) = re_search r (rev u @ bef) v"
  using assms
proof (induction u arbitrary: bef)
  case (Cons c cs)
  have "re_m r (bef, (c # cs) @ v, []) = []" using Cons.prems by (metis append_Nil list.distinct(1) rev.simps(1))
  then have "re_search r bef ((c # cs) @ v) = re_search r (c # bef) (cs @ v)"
    by (subst re_search.simps) simp
  also have "\<dots> = re_search r (rev cs @ c # bef) v"
  proof (rule Cons.IH, intro allI impI)
    fix x y assume "cs = x @ y \<and> y \<noteq> []"
    then have "c # cs = (c # x) @ y \<and> y \<noteq> []" by simp
    with Cons.prems have "re_m r (rev (c # x) @ bef, y @ v, []) = []" by blast
    then show "re_m r (rev x @ c # bef, y @ v, []) = []" by simp
  qed
  finally show ?case by simp
qed simp

section \<open>Runs of a class, and trailing runs\<close>

lemma re_star_cls_sound:
  "st' \<in> set (re_star g gs (re_m (RCls P)) n (b, r, c)) \<Longrightarrow>
   \<exists>w. list_all P w \<and> r = w @ fst (snd st')"
proof (induction n arbitrary: b r c)
  case (Suc n)
  show ?case
  proof (cases r)
    case Nil
    with Suc.prems show ?thesis by (auto simp: Let_def split: if_splits)
  next
    case (Cons d ds)
    from Suc.prems consider "st' = (b, r, c)"
      | c' where "P d" "st' \<in> set (re_star g gs (re_m (RCls P)) n (d # b, ds, c'))"
      by (auto simp: Let_def Cons split: if_splits)
    then show ?thesis
    proof cases
      case 2
      from Suc.IH [OF 2(2)] obtain w where "list_all P w" "ds = w @ fst (snd st')" by blast
      with 2(1) show ?thesis by (intro exI [of _ "d # w"]) (simp add: Cons)
    qed (auto intro: exI [of _ "[]"])
  qed
qed (auto intro: exI [of _ "[]"])

lemma re_plus_cls_sound:
  assumes "st' \<in> set (re_m (rplus (RCls P)) (b, r, c))"
  shows "\<exists>w. w \<noteq> [] \<and> list_all P w \<and> r = w @ fst (snd st')"
proof -
  from assms obtain d ds where d: "r = d # ds" "P d"
      "st' \<in> set (re_m (RStar True (RCls P)) (d # b, ds, c))"
    by (auto simp: rplus_def split: list.splits if_splits)
  then have "\<exists>w. list_all P w \<and> ds = w @ fst (snd st')" using re_star_cls_sound by fastforce
  then obtain w where "list_all P w" "ds = w @ fst (snd st')" by blast
  with d show ?thesis by (intro exI [of _ "d # w"]) simp
qed

definition trailing_re :: "(char \<Rightarrow> bool) \<Rightarrow> re" where
  "trailing_re P = RSeq (rplus (RCls P)) (REol False)"

lemma trailing_re_matches:
  "re_m (trailing_re P) (b, r, c) \<noteq> [] \<longleftrightarrow> r \<noteq> [] \<and> list_all P r"
proof
  assume "re_m (trailing_re P) (b, r, c) \<noteq> []"
  then obtain st where st: "st \<in> set (re_m (rplus (RCls P)) (b, r, c))" "re_m (REol False) st \<noteq> []"
    by (fastforce simp: trailing_re_def)
  from st(2) have "fst (snd st) = []" by (cases st) (auto split: if_splits)
  with re_plus_cls_sound [OF st(1)] show "r \<noteq> [] \<and> list_all P r" by auto
next
  assume "r \<noteq> [] \<and> list_all P r"
  then obtain more where "re_m (rplus (RCls P)) (b, r, c) = (rev r @ b, [], c) # more"
    using re_m_plus_cls_first [of r P "[]" b c] by auto
  then show "re_m (trailing_re P) (b, r, c) \<noteq> []" by (simp add: trailing_re_def)
qed

lemma replace_trailing:
  "re_replace_first (trailing_re P) [] s = rev (dropWhile P (rev s))"
proof -
  define u where "u = rev (dropWhile P (rev s))"
  define w where "w = rev (takeWhile P (rev s))"
  have s: "s = u @ w"
    by (simp add: u_def w_def flip: rev_append)
  have w: "list_all P w" by (auto simp: w_def list_all_iff dest: set_takeWhileD)
  have u: "u = [] \<or> \<not> P (last u)"
    using hd_dropWhile_no [of P "rev s"] by (auto simp: u_def last_rev)
  have skip: "re_search (trailing_re P) [] (u @ w) = re_search (trailing_re P) (rev u) w"
  proof (subst re_search_skip)
    show "\<forall>x y. u = x @ y \<and> y \<noteq> [] \<longrightarrow> re_m (trailing_re P) (rev x @ [], y @ w, []) = []"
    proof (intro allI impI)
      fix x y assume "u = x @ y \<and> y \<noteq> []"
      with u have "\<not> list_all P (y @ w)" by (auto simp: list_all_iff)
      then show "re_m (trailing_re P) (rev x @ [], y @ w, []) = []"
        using trailing_re_matches by blast
    qed
  qed simp
  show ?thesis
  proof (cases "w = []")
    case True
    then have "re_search (trailing_re P) [] s = None"
      using skip trailing_re_matches [of P "rev u" "[]" "[]"] by (simp add: s re_search.simps)
    then have "re_replace_first (trailing_re P) [] s = u"
      using True s by (simp add: re_replace_first_def re_exec_def)
    then show ?thesis by (simp only: u_def)
  next
    case False
    obtain more where "re_m (rplus (RCls P)) (rev u, w, []) = (rev w @ rev u, [], []) # more"
      using re_m_plus_cls_first [of w P "[]" "rev u" "[]"] False w by auto
    then obtain more' where "re_m (trailing_re P) (rev u, w, []) = (rev w @ rev u, [], []) # more'"
      by (auto simp: trailing_re_def)
    from re_search_here [OF this] skip have "re_replace_first (trailing_re P) [] s = u"
      by (simp add: re_replace_first_def re_exec_def s)
    then show ?thesis by (simp only: u_def)
  qed
qed

section \<open>Replacing runs\<close>

lemma re_plus_cls_search:
  fixes P :: "char \<Rightarrow> bool"
  defines "u \<equiv> takeWhile (\<lambda>c. \<not> P c)" and "v \<equiv> dropWhile (\<lambda>c. \<not> P c)"
  shows "re_search (rplus (RCls P)) bef rest =
    (if v rest = [] then None
     else Some (rev (u rest) @ bef, takeWhile P (v rest),
                (rev (takeWhile P (v rest)) @ rev (u rest) @ bef, dropWhile P (v rest), [])))"
proof -
  let ?r = "rplus (RCls P)"
  have rest: "rest = u rest @ v rest" by (simp add: u_def v_def)
  have "\<forall>x y. u rest = x @ y \<and> y \<noteq> [] \<longrightarrow> re_m ?r (rev x @ bef, y @ v rest, []) = []"
  proof (intro allI impI)
    fix x y assume xy: "u rest = x @ y \<and> y \<noteq> []"
    then have "hd y \<in> set (u rest)" by simp
    then have "\<not> P (hd y)" unfolding u_def by (blast dest: set_takeWhileD)
    with xy show "re_m ?r (rev x @ bef, y @ v rest, []) = []" by (cases y) (simp_all add: rplus_def)
  qed
  then have skip: "re_search ?r bef rest = re_search ?r (rev (u rest) @ bef) (v rest)"
    using re_search_skip rest by metis
  show ?thesis
  proof (cases "v rest = []")
    case True
    then show ?thesis unfolding skip by (simp add: re_search.simps rplus_def)
  next
    case False
    let ?w = "takeWhile P (v rest)" and ?x = "dropWhile P (v rest)"
    have "P (hd (v rest))" using False hd_dropWhile [of "\<lambda>c. \<not> P c" rest] by (simp add: v_def)
    then have "?w \<noteq> []" using False by (cases "v rest") auto
    moreover have "list_all P ?w" by (auto simp: list_all_iff dest: set_takeWhileD)
    moreover have "?x = [] \<or> \<not> P (hd ?x)" using hd_dropWhile [of P "v rest"] by blast
    ultimately obtain more where
      "re_m ?r (rev (u rest) @ bef, ?w @ ?x, []) = (rev ?w @ rev (u rest) @ bef, ?x, []) # more"
      using re_m_plus_cls_first by blast
    then have m: "re_m ?r (rev (u rest) @ bef, v rest, []) = (rev ?w @ rev (u rest) @ bef, ?x, []) # more" by simp
    have "take (length (v rest) - length ?x) (v rest) = ?w"
      using takeWhile_dropWhile_id [of P "v rest"] by (metis append_eq_conv_conj length_append add_diff_cancel_right')
    with re_search_here [OF m] False skip show ?thesis by simp
  qed
qed

lemma replace_runs_fuel_set:
  "length rest < n \<Longrightarrow> c \<in> set (re_replace_fuel (rplus (RCls P)) sub n bef rest) \<Longrightarrow>
   c \<in> set sub \<or> (c \<in> set rest \<and> \<not> P c)"
proof (induction n arbitrary: bef rest)
  case (Suc n)
  let ?u = "takeWhile (\<lambda>c. \<not> P c) rest" and ?v = "dropWhile (\<lambda>c. \<not> P c) rest"
  let ?w = "takeWhile P ?v" and ?x = "dropWhile P ?v"
  show ?case
  proof (cases "?v = []")
    case True
    then have "re_search (rplus (RCls P)) bef rest = None" by (simp only: re_plus_cls_search if_True simp_thms)
    with Suc.prems(2) have "c \<in> set rest" by simp
    moreover have "\<forall>c\<in>set rest. \<not> P c" using True by (simp add: dropWhile_eq_Nil_conv)
    ultimately show ?thesis by blast
  next
    case False
    have "P (hd ?v)" using False hd_dropWhile [of "\<lambda>c. \<not> P c" rest] by simp
    then have w: "?w \<noteq> []" using False by (cases ?v) auto
    have s: "re_search (rplus (RCls P)) bef rest = Some (rev ?u @ bef, ?w, (rev ?w @ rev ?u @ bef, ?x, []))"
      using False by (simp only: re_plus_cls_search if_False)
    have r: "re_replace_fuel (rplus (RCls P)) sub (Suc n) bef rest =
        ?u @ sub @ re_replace_fuel (rplus (RCls P)) sub n (rev ?w @ rev ?u @ bef) ?x"
      using w by (simp add: s)
    have "length ?x < length ?v" using w by (metis append_eq_conv_conj length_append length_greater_0_conv less_add_same_cancel2 takeWhile_dropWhile_id)
    also have "\<dots> \<le> length rest" by (rule length_dropWhile_le)
    finally have "length ?x < n" using Suc.prems(1) by simp
    moreover have "set ?x \<subseteq> set rest" by (meson dual_order.trans set_dropWhileD subsetI)
    ultimately show ?thesis using Suc.IH [of ?x] Suc.prems(2) unfolding r
      by (auto dest: set_takeWhileD)
  qed
qed simp

lemma replace_runs_set:
  "c \<in> set (re_replace_all (rplus (RCls P)) sub s) \<Longrightarrow> c \<in> set sub \<or> (c \<in> set s \<and> \<not> P c)"
  using replace_runs_fuel_set [of s "Suc (length s)"] unfolding re_replace_all_def by blast

text \<open>
  The first match of a search: what is skipped has no match in it. So replacing every match of an
  expression that matches wherever a \<open>P\<close> character stands leaves none of them.
\<close>

lemma re_search_Some:
  "re_search r bef rest = Some (b, w, st) \<Longrightarrow>
   \<exists>u v more. rest = u @ v \<and> b = rev u @ bef \<and> re_m r (b, v, []) = st # more \<and>
     w = take (length v - length (fst (snd st))) v \<and>
     (\<forall>x y. u = x @ y \<and> y \<noteq> [] \<longrightarrow> re_m r (rev x @ bef, y @ v, []) = [])"
proof (induction rest arbitrary: bef)
  case Nil
  then show ?case by (subst (asm) re_search.simps) (auto split: list.splits)
next
  case (Cons c cs)
  show ?case
  proof (cases "re_m r (bef, c # cs, [])")
    case Nil
    then have "re_search r (c # bef) cs = Some (b, w, st)"
      using Cons.prems by (subst (asm) re_search.simps) simp
    from Cons.IH [OF this] obtain u v more where m: "cs = u @ v" "b = rev u @ c # bef"
      "re_m r (b, v, []) = st # more" "w = take (length v - length (fst (snd st))) v"
      "\<And>x y. u = x @ y \<Longrightarrow> y \<noteq> [] \<Longrightarrow> re_m r (rev x @ c # bef, y @ v, []) = []" by blast
    have "re_m r (rev x @ bef, y @ v, []) = []" if "c # u = x @ y" "y \<noteq> []" for x y
      using that m(1,5) Nil by (cases x) auto
    then show ?thesis using m by (intro exI [of _ "c # u"] exI [of _ v]) simp
  next
    case (Cons st' more)
    then have "b = bef" "st = st'" "w = take (length (c # cs) - length (fst (snd st))) (c # cs)"
      using Cons.prems by (subst (asm) re_search.simps, simp)+
    with Cons show ?thesis by (intro exI [of _ "[]"] exI [of _ "c # cs"] exI [of _ more]) simp
  qed
qed

lemma replace_fuel_set:
  assumes hit: "\<And>bef c cs. P c \<Longrightarrow> re_m r (bef, c # cs, []) \<noteq> []"
    and some: "\<And>bef v st. st \<in> set (re_m r (bef, v, [])) \<Longrightarrow> length (fst (snd st)) < length v"
  shows "length rest < n \<Longrightarrow> c \<in> set (re_replace_fuel r sub n bef rest) \<Longrightarrow> c \<in> set sub \<or> (c \<in> set rest \<and> \<not> P c)"
proof (induction n arbitrary: bef rest)
  case (Suc n)
  have clean: "\<not> P d" if "rest = u @ v" "\<forall>x y. u = x @ y \<and> y \<noteq> [] \<longrightarrow> re_m r (rev x @ bef, y @ v, []) = []" "d \<in> set u" for u v d
  proof -
    obtain x y where "u = x @ d # y" using \<open>d \<in> set u\<close> by (meson split_list)
    then have "re_m r (rev x @ bef, d # y @ v, []) = []" using that(2) [rule_format, of x "d # y"] by simp
    then show ?thesis using hit by blast
  qed
  show ?case
  proof (cases "re_search r bef rest")
    case None
    then have "\<forall>u v. rest = u @ v \<longrightarrow> re_m r (rev u @ bef, v, []) = []" using re_search_iff [of r bef rest] by blast
    then have "\<forall>x y. rest = x @ y \<and> y \<noteq> [] \<longrightarrow> re_m r (rev x @ bef, y @ [], []) = []" by simp
    then have "\<forall>d\<in>set rest. \<not> P d" using clean [of rest "[]"] by simp
    then show ?thesis using Suc.prems None by auto
  next
    case (Some m)
    obtain b w bef' rest' caps where m: "m = (b, w, bef', rest', caps)" by (cases m) auto
    from re_search_Some [OF Some [unfolded m]] obtain u v others where uv: "rest = u @ v" "b = rev u @ bef"
      "re_m r (b, v, []) = (bef', rest', caps) # others" "w = take (length v - length rest') v"
      and skip: "\<forall>x y. u = x @ y \<and> y \<noteq> [] \<longrightarrow> re_m r (rev x @ bef, y @ v, []) = []" by auto
    have lt: "length rest' < length v" using some [of "(bef', rest', caps)" b v] uv(3) by simp
    have "same_text (b, v, []) (bef', rest', caps)" using same_text_re_m [of "(bef', rest', caps)" r] uv(3) by simp
    then have sub': "set rest' \<subseteq> set rest" using uv(1) by (auto simp: same_text_def)
    have "w \<noteq> []" using lt uv(4) by (cases v) auto
    then have r: "re_replace_fuel r sub (Suc n) bef rest = u @ sub @ re_replace_fuel r sub n bef' rest'"
      by (simp add: Some m uv(2))
    have "\<forall>d\<in>set u. \<not> P d" using clean [OF uv(1) skip] by blast
    moreover have "length rest' < n" using lt uv(1) Suc.prems(1) by simp
    ultimately show ?thesis using Suc.IH [of rest' bef'] Suc.prems(2) sub' uv(1) unfolding r by auto
  qed
qed simp

lemma replace_set:
  assumes "\<And>bef c cs. P c \<Longrightarrow> re_m r (bef, c # cs, []) \<noteq> []"
    and "\<And>bef v st. st \<in> set (re_m r (bef, v, [])) \<Longrightarrow> length (fst (snd st)) < length v"
    and "c \<in> set (re_replace_all r sub s)"
  shows "c \<in> set sub \<or> (c \<in> set s \<and> \<not> P c)"
  using replace_fuel_set [where P = P and r = r and rest = s and n = "Suc (length s)"] assms unfolding re_replace_all_def by blast

text \<open>\<open>s.replace(/\s+/g, ' ').trim()\<close> is one line.\<close>

definition flatten_space :: "string \<Rightarrow> string" where
  "flatten_space s = js_trim (re_replace_all (rplus rspace) '' '' s)"

lemma set_js_trim: "set (js_trim s) \<subseteq> set s"
  by (auto simp: js_trim_def dest!: set_dropWhileD)

lemma flatten_space_spaces: "c \<in> set (flatten_space s) \<Longrightarrow> is_js_space c \<Longrightarrow> c = CHR '' ''"
  using set_js_trim [of "re_replace_all (rplus rspace) '' '' s"] replace_runs_set [of c is_js_space "'' ''" s]
  by (auto simp: flatten_space_def rspace_def)

lemma is_eol_space: "is_eol c \<Longrightarrow> is_js_space c"
  by (auto simp: is_eol_def is_js_space_def)

section \<open>Texts an expression accepts anywhere\<close>

text \<open>For expressions without groups: \<open>w\<close> is one of the texts \<open>r\<close> matches, whatever is around it.\<close>

definition accepts :: "re \<Rightarrow> string \<Rightarrow> bool" where
  "accepts r w \<longleftrightarrow> (\<forall>bef rest caps. (rev w @ bef, rest, caps) \<in> set (re_m r (bef, w @ rest, caps)))"

lemma accepts_test:
  assumes "accepts r w" "sublist w s"
  shows "re_test r s"
proof -
  from assms(2) obtain u v where s: "s = u @ w @ v" by (auto simp: sublist_def)
  have "re_m r (rev u, w @ v, []) \<noteq> []" using assms(1) unfolding accepts_def by (metis empty_iff empty_set)
  with s show ?thesis by (auto simp: re_test_iff)
qed

lemma accepts_eps: "accepts REps []"
  by (simp add: accepts_def)

lemma accepts_liti: "js_lower w = js_lower a \<Longrightarrow> accepts (liti a) w"
proof -
  assume a: "js_lower w = js_lower a"
  then have "length w = length a" by (metis length_js_lower)
  with a show ?thesis by (simp add: accepts_def re_m_liti) (simp add: js_lower_def)
qed

lemma accepts_seq: "accepts r v \<Longrightarrow> accepts s w \<Longrightarrow> accepts (RSeq r s) (v @ w)"
  by (fastforce simp: accepts_def)

lemma accepts_alts: "r \<in> set rs \<Longrightarrow> accepts r w \<Longrightarrow> accepts (alts rs) w"
  by (induction rs rule: alts.induct) (auto simp: accepts_def)

lemma accepts_opt: "accepts r w \<Longrightarrow> accepts (ropt r) w" "accepts (ropt r) []"
  by (simp_all add: accepts_def ropt_def)


end
