(* ===== verification/Team_Client.thy ===== *)
theory Team_Client
  imports Team_Policy Js_Regex
begin

text \<open>
  The clients of the two services outside the editor: \<open>coordinationClient.ts\<close> (leases, presence, teams)
  and \<open>permissionClient.ts\<close> (which paths a model may read). A call is the request it sends and what
  becomes of the answer; \<open>enc\<close> is \<open>encodeURIComponent\<close>, \<open>parse\<close> is \<open>JSON.parse\<close> (\<open>None\<close> where it throws).
\<close>

section \<open>Requests\<close>

fun role_string :: "role \<Rightarrow> string" where
  "role_string Owner = ''owner''" | "role_string Admin = ''admin''" | "role_string Member = ''member''"

record hub_client =
  hc_base :: string
  hc_token :: "string option"

record hub_request =
  hr_method :: string
  hr_url :: string
  hr_headers :: "(string \<times> string) list"
  hr_body :: "js_val option"

text \<open>\<open>s.replace(/\/$/, '')\<close> takes one slash away.\<close>

definition drop_slash :: "string \<Rightarrow> string" where
  "drop_slash u = (if u \<noteq> [] \<and> last u = CHR ''/'' then butlast u else u)"

definition new_client :: "string \<Rightarrow> string option \<Rightarrow> hub_client" where
  "new_client url token = \<lparr>hc_base = drop_slash url, hc_token = token\<rparr>"

definition hub_call :: "hub_client \<Rightarrow> string \<Rightarrow> string \<Rightarrow> js_val option \<Rightarrow> (string \<times> string) list \<Rightarrow> hub_request" where
  "hub_call c mth path body extra =
     \<lparr>hr_method = mth, hr_url = hc_base c @ path,
      hr_headers = (let h = fold (\<lambda>(k, v). AList.update k v) extra [(''Content-Type'', ''application/json'')]
        in case hc_token c of Some (x # xs) \<Rightarrow> AList.update ''Authorization'' (''Bearer '' @ x # xs) h | _ \<Rightarrow> h),
      hr_body = body\<rparr>"

definition requestLease :: "hub_client \<Rightarrow> string \<Rightarrow> string \<Rightarrow> string \<Rightarrow> nat \<Rightarrow> bool \<Rightarrow> hub_request" where
  "requestLease c repo sess path ttl wait = hub_call c ''POST'' ''/v1/leases/request''
     (Some (JObj [(''repo_id'', JStr repo), (''session_id'', JStr sess), (''path'', JStr path),
       (''ttl_seconds'', JNum (real ttl)), (''wait'', JBool wait)])) []"

definition releaseLease :: "hub_client \<Rightarrow> string \<Rightarrow> string \<Rightarrow> string \<Rightarrow> hub_request" where
  "releaseLease c repo sess path = hub_call c ''POST'' ''/v1/leases/release''
     (Some (JObj [(''repo_id'', JStr repo), (''session_id'', JStr sess), (''path'', JStr path)])) []"

record presence_session =
  ps_session :: string
  ps_user :: string
  ps_name :: string
  ps_agent :: bool
  ps_path :: string

definition heartbeat :: "hub_client \<Rightarrow> string \<Rightarrow> presence_session \<Rightarrow> hub_request" where
  "heartbeat c repo p = hub_call c ''POST'' ''/v1/presence/heartbeat''
     (Some (JObj [(''repo_id'', JStr repo), (''session_id'', JStr (ps_session p)), (''user_id'', JStr (ps_user p)),
       (''display_name'', JStr (ps_name p)), (''kind'', JStr (if ps_agent p then ''agent'' else ''human'')),
       (''current_path'', JStr (ps_path p))])) []"

definition presence :: "(string \<Rightarrow> string) \<Rightarrow> hub_client \<Rightarrow> string \<Rightarrow> hub_request" where
  "presence enc c repo = hub_call c ''GET'' (''/v1/presence/'' @ enc repo) None []"

text \<open>The address of the stream before \<open>new URL\<close>, and the parameters set on it.\<close>

definition streamUrl :: "(string \<Rightarrow> string) \<Rightarrow> hub_client \<Rightarrow> string \<Rightarrow> bool \<Rightarrow> string \<times> (string \<times> string) list" where
  "streamUrl enc c repo onlyTeam =
     ((if prefix ''http'' (hc_base c) then ''ws'' @ drop 4 (hc_base c) else hc_base c) @ ''/v1/presence/'' @ enc repo @ ''/stream'',
      (case hc_token c of Some (x # xs) \<Rightarrow> [(''access_token'', x # xs)] | _ \<Rightarrow> [])
      @ (if onlyTeam then [(''only'', ''team'')] else []))"

definition team_path :: "(string \<Rightarrow> string) \<Rightarrow> string \<Rightarrow> string" where
  "team_path enc repo = ''/v1/teams/'' @ enc repo"

definition createTeam_request :: "(string \<Rightarrow> string) \<Rightarrow> hub_client \<Rightarrow> string \<Rightarrow> string \<Rightarrow> string \<Rightarrow> string option \<Rightarrow> hub_request" where
  "createTeam_request enc c repo user name secret = hub_call c ''POST'' (team_path enc repo)
     (Some (JObj [(''user_id'', JStr user), (''display_name'', JStr name)]))
     (case secret of Some (x # xs) \<Rightarrow> [(''X-Hivemind-Setup-Secret'', x # xs)] | _ \<Rightarrow> [])"

definition team_request :: "(string \<Rightarrow> string) \<Rightarrow> hub_client \<Rightarrow> string \<Rightarrow> hub_request" where
  "team_request enc c repo = hub_call c ''GET'' (team_path enc repo) None []"

definition joinTeam_request :: "(string \<Rightarrow> string) \<Rightarrow> hub_client \<Rightarrow> string \<Rightarrow> string \<Rightarrow> string \<Rightarrow> string \<Rightarrow> hub_request" where
  "joinTeam_request enc c repo code user name = hub_call c ''POST'' (team_path enc repo @ ''/join'')
     (Some (JObj [(''code'', JStr code), (''user_id'', JStr user), (''display_name'', JStr name)])) []"

definition invite_request :: "(string \<Rightarrow> string) \<Rightarrow> hub_client \<Rightarrow> string \<Rightarrow> role \<Rightarrow> real \<Rightarrow> real \<Rightarrow> hub_request" where
  "invite_request enc c repo as ttl uses = hub_call c ''POST'' (team_path enc repo @ ''/invites'')
     (Some (JObj [(''role'', JStr (role_string as)), (''ttl_hours'', JNum ttl), (''max_uses'', JNum uses)])) []"

definition revokeInvite_request :: "(string \<Rightarrow> string) \<Rightarrow> hub_client \<Rightarrow> string \<Rightarrow> string \<Rightarrow> hub_request" where
  "revokeInvite_request enc c repo i = hub_call c ''DELETE'' (team_path enc repo @ ''/invites/'' @ enc i) None []"

definition setRole_request :: "(string \<Rightarrow> string) \<Rightarrow> hub_client \<Rightarrow> string \<Rightarrow> string \<Rightarrow> role \<Rightarrow> hub_request" where
  "setRole_request enc c repo user to = hub_call c ''PATCH'' (team_path enc repo @ ''/members/'' @ enc user)
     (Some (JObj [(''role'', JStr (role_string to))])) []"

definition removeMember_request :: "(string \<Rightarrow> string) \<Rightarrow> hub_client \<Rightarrow> string \<Rightarrow> string \<Rightarrow> hub_request" where
  "removeMember_request enc c repo user = hub_call c ''DELETE'' (team_path enc repo @ ''/members/'' @ enc user) None []"

definition transferOwnership_request :: "(string \<Rightarrow> string) \<Rightarrow> hub_client \<Rightarrow> string \<Rightarrow> string \<Rightarrow> hub_request" where
  "transferOwnership_request enc c repo user = hub_call c ''POST'' (team_path enc repo @ ''/transfer'')
     (Some (JObj [(''user_id'', JStr user)])) []"

section \<open>Answers\<close>

datatype hub_error = HubError int js_val js_val | NetworkError string

text \<open>\<open>parsed.error?.code ?? code\<close>\<close>

definition js_or_else :: "js_val \<Rightarrow> js_val \<Rightarrow> js_val" where
  "js_or_else v d = (if v = JUndef \<or> v = JNull then d else v)"

definition hub_error_of :: "(string \<Rightarrow> js_val option) \<Rightarrow> int \<Rightarrow> string \<Rightarrow> hub_error" where
  "hub_error_of parse status body =
     (let d = (JStr ''http_error'', JStr (take 200 body));
          (code, msg) = (case parse body of
             None \<Rightarrow> d
           | Some v \<Rightarrow> (js_or_else (js_get (js_get v ''error'') ''code'') (fst d), js_or_else (js_get (js_get v ''error'') ''message'') (snd d)))
      in HubError status code msg)"

text \<open>What \<open>fetch\<close> gives: a failure, or a status with the body.\<close>

definition hub_answer :: "(string \<Rightarrow> js_val option) \<Rightarrow> string + int \<times> string \<Rightarrow> hub_error + js_val" where
  "hub_answer parse got =
     (case got of
        Inl e \<Rightarrow> Inl (NetworkError e)
      | Inr (status, body) \<Rightarrow>
          if 200 \<le> status \<and> status \<le> 299
          then (case parse body of Some v \<Rightarrow> Inr v | None \<Rightarrow> Inl (NetworkError ''not JSON''))
          else Inl (hub_error_of parse status body))"

section \<open>A save that is denied\<close>

datatype lease_state = Granted | Denied | Queued

record lease_holder =
  lh_session :: string
  lh_name :: "string option"
  lh_agent :: bool
  lh_expires :: "string option"

record lease_response =
  lr_state :: lease_state
  lr_holder :: "lease_holder option"
  lr_position :: "int option"

text \<open>\<open>date\<close> is \<open>Date.parse\<close>, in milliseconds.\<close>

definition describeDenial :: "(string \<Rightarrow> real) \<Rightarrow> real \<Rightarrow> lease_response \<Rightarrow> string \<Rightarrow> string" where
  "describeDenial date now res path =
     (let who = (case lr_holder res of Some h \<Rightarrow> (case lh_name h of Some n \<Rightarrow> n | None \<Rightarrow> lh_session h) | None \<Rightarrow> ''another session'');
          kind = (case lr_holder res of Some h \<Rightarrow> if lh_agent h then '' (an agent)'' else [] | None \<Rightarrow> [])
      in if lr_state res = Queued
         then path @ '' is held by '' @ who @ kind @ ''. You are #'' @ show_int (case lr_position res of Some n \<Rightarrow> n | None \<Rightarrow> 1)
           @ '' in the queue and will get it when they release.''
         else path @ '' is held by '' @ who @ kind @ '', so this save was blocked.''
           @ (case Option.bind (lr_holder res) lh_expires of
                Some (x # xs) \<Rightarrow> '' Their lease expires in '' @ show_int (max 0 (js_round ((date (x # xs) - now) / 1000))) @ ''s.''
              | _ \<Rightarrow> []))"

section \<open>Which paths a model may read\<close>

record path_denial =
  dn_path :: string
  dn_reason :: string
  dn_rule :: "(string \<times> string) option"

record filter_result =
  fr_allowed :: "string list"
  fr_denied :: "path_denial list"

definition filter_request :: "string \<Rightarrow> string \<Rightarrow> string \<Rightarrow> bool \<Rightarrow> string list \<Rightarrow> hub_request" where
  "filter_request base user repo write ps =
     \<lparr>hr_method = ''POST'', hr_url = drop_slash base @ ''/v1/context/filter'', hr_headers = [(''Content-Type'', ''application/json'')],
      hr_body = Some (JObj [(''user_id'', JStr user), (''repo_id'', JStr repo),
        (''intent'', JStr (if write then ''write'' else ''read'')), (''paths'', JArr (map JStr ps))])\<rparr>"

definition unreachable :: "string \<Rightarrow> string" where
  "unreachable cause = ''the permission service is unreachable ('' @ cause @ '')''"

text \<open>\<open>got\<close> is what \<open>fetch\<close> gives: a failure, or the status with the result or the text of the body.\<close>

datatype filter_answer = FetchFailed string | NotOk int string | BadJson string | FilterOk filter_result

definition filter_paths :: "filter_answer \<Rightarrow> string list \<Rightarrow> string + filter_result" where
  "filter_paths got ps =
     (if ps = [] then Inr \<lparr>fr_allowed = [], fr_denied = []\<rparr>
      else case got of
             FilterOk r \<Rightarrow> Inr r
           | FetchFailed e \<Rightarrow> Inl (unreachable e)
           | BadJson e \<Rightarrow> Inl (unreachable e)
           | NotOk status body \<Rightarrow> Inl (unreachable (''HTTP '' @ show_int status @ '': '' @ take 200 body)))"

definition failClosed :: "filter_answer \<Rightarrow> string list \<Rightarrow> filter_result" where
  "failClosed got ps =
     (case filter_paths got ps of
        Inr r \<Rightarrow> r
      | Inl reason \<Rightarrow> \<lparr>fr_allowed = [], fr_denied = map (\<lambda>p. \<lparr>dn_path = p, dn_reason = ''context was withheld: '' @ reason, dn_rule = None\<rparr>) ps\<rparr>)"

section \<open>Properties\<close>

text \<open>The token of a client goes to its hub only, and in no other header than the one for it.\<close>

lemma call_goes_to_its_hub:
  "hr_url (hub_call c mth path body extra) = hc_base c @ path"
  by (simp add: hub_call_def)

lemma call_token:
  assumes "''Authorization'' \<notin> fst ` set extra"
  shows "map_of (hr_headers (hub_call c mth path body extra)) ''Authorization'' =
    (case hc_token c of Some (x # xs) \<Rightarrow> Some (''Bearer '' @ x # xs) | _ \<Rightarrow> None)"
proof -
  have "map_of (fold (\<lambda>(k, v). AList.update k v) es h) ''Authorization'' = map_of h ''Authorization''"
    if "''Authorization'' \<notin> fst ` set es" for es and h :: "(string \<times> string) list"
    using that by (induction es arbitrary: h) (auto simp: update_conv')
  then show ?thesis using assms by (auto simp: hub_call_def Let_def update_conv' split: option.split list.split)
qed

text \<open>An error of the hub keeps its code, and any other one is an \<open>http_error\<close> with the text it came with.\<close>

lemma hub_error_code:
  "parse body = None \<Longrightarrow> hub_error_of parse status body = HubError status (JStr ''http_error'') (JStr (take 200 body))"
  "parse body = Some (JObj [(''error'', JObj [(''code'', JStr c), (''message'', JStr m)])]) \<Longrightarrow>
     hub_error_of parse status body = HubError status (JStr c) (JStr m)"
  by (simp_all add: hub_error_of_def js_or_else_def)

text \<open>
  The filter of the paths a model may read fails closed. Whenever the service does not
  answer with a result, whatever went wrong, no path is allowed and every path is denied; and with a
  result, exactly what the service allowed is.
\<close>

lemma filter_fails_closed:
  "fr_allowed (failClosed got ps) = (case got of FilterOk r \<Rightarrow> if ps = [] then [] else fr_allowed r | _ \<Rightarrow> []) \<and>
   map dn_path (fr_denied (failClosed got ps)) = (case got of FilterOk r \<Rightarrow> if ps = [] then [] else map dn_path (fr_denied r) | _ \<Rightarrow> ps)"
  by (auto simp: failClosed_def filter_paths_def comp_def split: filter_answer.split)

end
