(* ===== verification/Hivemind_Node.thy ===== *)
theory Hivemind_Node
  imports Js_Regex
begin

text \<open>
  Node files of \<open>.hivemind/nodes\<close>: \<open>common/hivemindNode.ts\<close>. Regular expressions whose matches are
  fixed by the text (the front matter, \<open>^## +(.+?)\s*$\<close>) are written as string functions: the front
  matter ends at the first newline followed by \<open>---\<close>, a section starts at a line of \<open>##\<close>, spaces
  and a heading. A section's body runs to the next heading and is trimmed.
\<close>

datatype hm_status = StActive | StPaused | StDone

record hm_header =
  hid :: string
  htitle :: string
  hparent :: "string option"
  hstatus :: hm_status
  hauthor :: string
  hagent :: string
  hmodel :: "string option"
  created :: string
  updated :: string

record hm_document =
  header :: hm_header
  extraHeader :: "(string \<times> string) list"
  sections :: "(string \<times> string) list"

definition KNOWN_KEYS :: "string list" where
  "KNOWN_KEYS = [''id'', ''title'', ''parent'', ''status'', ''author'', ''agent'', ''model'', ''created'', ''updated'']"

definition SECTION_ORDER :: "string list" where
  "SECTION_ORDER = [''Goal'', ''Handoff'', ''Files'', ''Log'']"

definition cr :: char where "cr = CHR 0x0D"

text \<open>\<open>text.replace(/\r\n/g, '\n')\<close>.\<close>

fun crlf :: "string \<Rightarrow> string" where
  "crlf (c # d # s) = (if c = cr \<and> d = nl then nl # crlf s else c # crlf (d # s))"
| "crlf s = s"

text \<open>What comes before and after the first occurrence of a string.\<close>

fun find_sub :: "string \<Rightarrow> string \<Rightarrow> (string \<times> string) option" where
  "find_sub pat [] = (if pat = [] then Some ([], []) else None)"
| "find_sub pat (c # cs) =
     (case strip_prefix pat (c # cs) of
        Some r \<Rightarrow> Some ([], r)
      | None \<Rightarrow> map_option (\<lambda>(a, b). (c # a, b)) (find_sub pat cs))"

definition front_matter :: "string \<Rightarrow> (string \<times> string) option" where
  "front_matter s =
     (case strip_prefix (''---'' @ [nl]) s of
        None \<Rightarrow> None
      | Some r \<Rightarrow> (case find_sub (nl # ''---'') r of
          None \<Rightarrow> None
        | Some (front, rest) \<Rightarrow> Some (front, case rest of c # cs \<Rightarrow> if c = nl then cs else rest | [] \<Rightarrow> [])))"

definition unquote :: "string \<Rightarrow> string" where
  "unquote value =
     (case value of
        q # rest \<Rightarrow> if (q = CHR 0x27 \<or> q = CHR 0x22) \<and> rest \<noteq> [] \<and> last rest = q \<and> (\<forall>c\<in>set (butlast rest). \<not> is_eol c)
                    then butlast rest else value
      | [] \<Rightarrow> value)"

definition header_line :: "string \<Rightarrow> (string \<times> string) option" where
  "header_line line =
     (let key = takeWhile (\<lambda>c. c \<noteq> CHR '':'') line; rest = dropWhile (\<lambda>c. c \<noteq> CHR '':'') line
      in if key = [] \<or> rest = [] then None else Some (js_trim key, unquote (js_trim (tl rest))))"

fun header_lines :: "string list \<Rightarrow> (string \<rightharpoonup> string) \<Rightarrow> (string \<times> string) list \<Rightarrow>
  (string \<rightharpoonup> string) \<times> (string \<times> string) list" where
  "header_lines [] values extra = (values, extra)"
| "header_lines (l # ls) values extra =
     (case header_line l of
        None \<Rightarrow> header_lines ls values extra
      | Some (k, v) \<Rightarrow> if k \<in> set KNOWN_KEYS then header_lines ls (values(k \<mapsto> v)) extra
                       else header_lines ls values (extra @ [(k, v)]))"

text \<open>\<open>x || y\<close> on strings.\<close>

definition str_or :: "string option \<Rightarrow> string \<Rightarrow> string" where
  "str_or x y = (case x of Some s \<Rightarrow> if s \<noteq> [] then s else y | None \<Rightarrow> y)"

definition nonempty_opt :: "string option \<Rightarrow> string option" where
  "nonempty_opt x = (case x of Some s \<Rightarrow> if s \<noteq> [] then x else None | None \<Rightarrow> None)"

definition parse_status :: "string option \<Rightarrow> hm_status" where
  "parse_status s = (if s = Some ''done'' then StDone else if s = Some ''paused'' then StPaused else StActive)"

text \<open>The lines of a text, each with the character that ends it.\<close>

fun split_lines :: "string \<Rightarrow> string list" where
  "split_lines [] = []"
| "split_lines (c # cs) =
     (if is_eol c then [c] # split_lines cs
      else case split_lines cs of [] \<Rightarrow> [[c]] | l # ls \<Rightarrow> (c # l) # ls)"

definition rtrim :: "string \<Rightarrow> string" where
  "rtrim s = rev (dropWhile is_js_space (rev s))"

text \<open>
  The heading of a line, if it is one: \<open>##\<close>, spaces and at least one character, trailing space
  dropped. On a line of nothing but spaces the last of them is the heading.
\<close>

definition heading_of :: "string \<Rightarrow> string option" where
  "heading_of line =
     (case strip_prefix ''## '' (takeWhile (\<lambda>c. \<not> is_eol c) line) of
        None \<Rightarrow> None
      | Some r \<Rightarrow>
          (let c = dropWhile (\<lambda>d. d = CHR '' '') r in
           if c = [] then (if r = [] then None else Some '' '')
           else if rtrim c = [] then Some (take 1 c) else Some (rtrim c)))"

fun sections_of :: "string list \<Rightarrow> string \<times> (string \<times> string) list" where
  "sections_of [] = ([], [])"
| "sections_of (l # ls) =
     (case sections_of ls of (body, ss) \<Rightarrow>
        (case heading_of l of
           Some h \<Rightarrow> ([], (h, js_trim body) # ss)
         | None \<Rightarrow> (l @ body, ss)))"

definition parse_header :: "string \<Rightarrow> (string \<rightharpoonup> string) \<Rightarrow> hm_header" where
  "parse_header i values =
     \<lparr>hid = i, htitle = str_or (values ''title'') i, hparent = nonempty_opt (values ''parent''),
      hstatus = parse_status (values ''status''), hauthor = str_or (values ''author'') ''unknown'',
      hagent = str_or (values ''agent'') ''unknown'', hmodel = nonempty_opt (values ''model''),
      created = str_or (values ''created'') '''',
      updated = str_or (values ''updated'') (str_or (values ''created'') '''')\<rparr>"

definition parseHivemindNode :: "string \<Rightarrow> hm_document option" where
  "parseHivemindNode text =
     (case front_matter (crlf text) of
        None \<Rightarrow> None
      | Some (front, rest) \<Rightarrow>
          (let (values, extra) = header_lines (js_split nl front) Map.empty [] in
           case values ''id'' of
             None \<Rightarrow> None
           | Some i \<Rightarrow>
               if i = [] then None
               else Some \<lparr>header = parse_header i values, extraHeader = extra,
                          sections = snd (sections_of (split_lines rest))\<rparr>))"

section \<open>Writing\<close>

definition show_status :: "hm_status \<Rightarrow> string" where
  "show_status s = (case s of StActive \<Rightarrow> ''active'' | StPaused \<Rightarrow> ''paused'' | StDone \<Rightarrow> ''done'')"

definition newline_re :: re where
  "newline_re = seqs [rstar rspace, ch nl, rstar rspace]"

definition oneLine :: "string \<Rightarrow> string" where
  "oneLine value = js_trim (re_replace_all newline_re '' '' value)"

definition opt_str :: "string option \<Rightarrow> string" where
  "opt_str x = (case x of Some s \<Rightarrow> s | None \<Rightarrow> [])"

text \<open>The keys a document writes, in order; \<open>put\<close> skips empty values.\<close>

definition header_fields :: "hm_document \<Rightarrow> (string \<times> string) list" where
  "header_fields d =
     (let h = header d in
      [(''id'', hid h), (''title'', htitle h), (''parent'', opt_str (hparent h)),
       (''status'', show_status (hstatus h)), (''author'', hauthor h), (''agent'', hagent h),
       (''model'', opt_str (hmodel h)), (''created'', created h), (''updated'', updated h)]
      @ extraHeader d)"

definition put_line :: "string \<times> string \<Rightarrow> string" where
  "put_line kv = fst kv @ '': '' @ oneLine (snd kv)"

definition put_fields :: "(string \<times> string) list \<Rightarrow> string list" where
  "put_fields kvs = map put_line (filter (\<lambda>kv. snd kv \<noteq> []) kvs)"

definition ordered_sections :: "(string \<times> string) list \<Rightarrow> (string \<times> string) list" where
  "ordered_sections ss =
     List.map_filter (\<lambda>name. List.find (\<lambda>s. fst s = name) ss) SECTION_ORDER
     @ filter (\<lambda>s. fst s \<notin> set SECTION_ORDER) ss"

definition section_lines :: "(string \<times> string) list \<Rightarrow> string list" where
  "section_lines ss = concat (map (\<lambda>(h, b). [''## '' @ h, js_trim b, '''']) ss)"

definition serializeHivemindNode :: "hm_document \<Rightarrow> string" where
  "serializeHivemindNode d =
     js_join [nl] ([''---''] @ put_fields (header_fields d) @ [''---'', '''']
       @ section_lines (ordered_sections (sections d)))"

definition getSection :: "hm_document \<Rightarrow> string \<Rightarrow> string" where
  "getSection d heading =
     (case List.find (\<lambda>s. fst s = heading) (sections d) of Some s \<Rightarrow> snd s | None \<Rightarrow> [])"

definition setSection :: "hm_document \<Rightarrow> string \<Rightarrow> string \<Rightarrow> hm_document" where
  "setSection d heading body = d\<lparr>sections := AList.update heading body (sections d)\<rparr>"

section \<open>Ids and file lists\<close>

record utc_date =
  utc_year :: nat
  utc_month :: nat    \<comment> \<open>0 to 11, as \<open>getUTCMonth\<close> counts\<close>
  utc_day :: nat
  utc_hour :: nat
  utc_minute :: nat

definition pad2 :: "nat \<Rightarrow> string" where
  "pad2 n = (let s = show_nat n in if length s < 2 then replicate (2 - length s) (CHR ''0'') @ s else s)"

definition is_slug_char :: "char \<Rightarrow> bool" where
  "is_slug_char c \<longleftrightarrow> is_digit c \<or> (97 \<le> (of_char c :: nat) \<and> (of_char c :: nat) \<le> 122)"

text \<open>\<open>s.replace(/[^a-z0-9]+/g, '-').replace(/^-+|-+$/g, '')\<close>, shared with the team's user ids.\<close>

definition not_slug_re :: re where "not_slug_re = rplus (RCls (\<lambda>c. \<not> is_slug_char c))"

definition outer_dash_re :: re where
  "outer_dash_re = RAlt (RSeq (RBol False) (rplus (ch (CHR ''-'')))) (RSeq (rplus (ch (CHR ''-''))) (REol False))"

definition slug_of :: "string \<Rightarrow> string" where
  "slug_of s = re_replace_all outer_dash_re '''' (re_replace_all not_slug_re ''-'' (js_lower s))"

definition id_alphabet :: string where "id_alphabet = ''abcdefghijkmnpqrstuvwxyz23456789''"

definition newHivemindNodeId :: "string \<Rightarrow> utc_date \<Rightarrow> (nat \<Rightarrow> real) \<Rightarrow> string" where
  "newHivemindNodeId t now random =
     (let stamp = show_nat (utc_year now) @ pad2 (utc_month now + 1) @ pad2 (utc_day now) @ ''-''
            @ pad2 (utc_hour now) @ pad2 (utc_minute now);
          s = js_join ''-'' (take 4 (js_split (CHR ''-'') (slug_of t)));
          slug = (if s \<noteq> [] then s else ''work'');
          suffix = map (\<lambda>i. id_alphabet ! nat \<lfloor>random i * of_nat (length id_alphabet)\<rfloor>) [0, 1, 2, 3]
      in stamp @ ''-'' @ slug @ ''-'' @ suffix)"

definition backtick :: char where "backtick = CHR 0x60"

definition file_line_re :: re where
  "file_line_re = seqs [RBol False, rstar rspace, cls ''-*'', rplus rspace, ropt (ch backtick),
     RGroup 1 (RSeq (ncls [backtick]) (RStar False (ncls [backtick]))), ropt (ch backtick), rstar rspace, REol False]"

definition parseFileList :: "string \<Rightarrow> string list" where
  "parseFileList body =
     List.map_filter (\<lambda>line. nonempty_opt (re_cap (re_exec file_line_re line) 1)) (js_split nl body)"

section \<open>Reading back what was written\<close>

text \<open>Values and keys that survive on one line of the front matter.\<close>

definition value_ok :: "string \<Rightarrow> bool" where
  "value_ok v \<longleftrightarrow> trimmed v \<and> nl \<notin> set v \<and> cr \<notin> set v \<and> unquote v = v"

definition key_ok :: "string \<Rightarrow> bool" where
  "key_ok k \<longleftrightarrow> k \<noteq> [] \<and> trimmed k \<and> nl \<notin> set k \<and> cr \<notin> set k \<and> CHR '':'' \<notin> set k \<and> \<not> prefix ''---'' k"

definition header_ok :: "hm_document \<Rightarrow> bool" where
  "header_ok d \<longleftrightarrow>
     (\<forall>(k, v)\<in>set (header_fields d). key_ok k \<and> value_ok v) \<and>
     (\<forall>(k, v)\<in>set (extraHeader d). k \<notin> set KNOWN_KEYS \<and> v \<noteq> []) \<and>
     hid (header d) \<noteq> [] \<and> htitle (header d) \<noteq> [] \<and> hauthor (header d) \<noteq> [] \<and> hagent (header d) \<noteq> [] \<and>
     hparent (header d) \<noteq> Some [] \<and> hmodel (header d) \<noteq> Some [] \<and>
     (updated (header d) = [] \<longrightarrow> created (header d) = [])"

lemma newline_re_needs_newline:
  assumes "nl \<notin> set v"
  shows "re_m newline_re (bef, v, caps) = []"
proof -
  have "re_m (RSeq (ch nl) (rstar rspace)) st = []" if "st \<in> set (re_m (rstar rspace) (bef, v, caps))" for st
  proof -
    obtain b r c where st: "st = (b, r, c)" by (cases st)
    have "same_text (bef, v, caps) (b, r, c)" using same_text_re_m that st by blast
    then have "set r \<subseteq> set v" by (auto simp: same_text_def dest: arg_cong [where f = set])
    then have "nl \<notin> set r" using assms by blast
    then show ?thesis by (cases r) (auto simp: st ch_def)
  qed
  then show ?thesis by (simp add: newline_re_def)
qed

lemma oneLine_id:
  assumes "nl \<notin> set v" "trimmed v"
  shows "oneLine v = v"
proof -
  have "re_search newline_re [] v = None"
  proof -
    have "\<not> (\<exists>u w. v = u @ w \<and> re_m newline_re (rev u @ [], w, []) \<noteq> [])"
      using newline_re_needs_newline assms(1) by fastforce
    then show ?thesis using re_search_iff [of newline_re "[]" v] by blast
  qed
  then show ?thesis by (simp add: oneLine_def re_replace_all_def js_trim_id assms(2))
qed

lemma js_trim_space: "trimmed v \<Longrightarrow> v \<noteq> [] \<Longrightarrow> js_trim (CHR '' '' # v) = v"
proof -
  have "is_js_space (CHR '' '')" by (simp add: is_js_space_def)
  moreover assume "trimmed v" "v \<noteq> []"
  ultimately show ?thesis using js_trim_id [of v] by (simp add: js_trim_def)
qed

lemma header_line_put:
  assumes "key_ok k" "value_ok v" "v \<noteq> []"
  shows "header_line (put_line (k, v)) = Some (k, v)"
proof -
  have "takeWhile (\<lambda>c. c \<noteq> CHR '':'') (k @ CHR '':'' # r) = k" "dropWhile (\<lambda>c. c \<noteq> CHR '':'') (k @ CHR '':'' # r) = CHR '':'' # r"
    for r using assms(1) by (subst takeWhile_append2 dropWhile_append2; fastforce simp: key_ok_def)+
  then show ?thesis using assms
    by (simp add: put_line_def header_line_def oneLine_id value_ok_def key_ok_def js_trim_id js_trim_space Let_def)
qed

lemma header_lines_put:
  assumes "\<forall>(k, v)\<in>set kvs. key_ok k \<and> value_ok v \<and> v \<noteq> []"
  shows "header_lines (map put_line kvs) vs extra =
    (foldl (\<lambda>m (k, v). if k \<in> set KNOWN_KEYS then m(k \<mapsto> v) else m) vs kvs,
     extra @ filter (\<lambda>(k, v). k \<notin> set KNOWN_KEYS) kvs)"
  using assms
proof (induction kvs arbitrary: vs extra)
  case (Cons kv kvs)
  obtain k v where kv: "kv = (k, v)" by fastforce
  with Cons.prems have "header_line (put_line (k, v)) = Some (k, v)" by (intro header_line_put) auto
  with Cons kv show ?case by (cases "k \<in> set KNOWN_KEYS") auto
qed simp

lemma crlf_id: "cr \<notin> set s \<Longrightarrow> crlf s = s"
  by (induction s rule: crlf.induct) auto

lemma crlf_append: "cr \<notin> set s \<Longrightarrow> crlf (s @ t) = s @ crlf t"
proof (induction s)
  case (Cons c s)
  then show ?case by (cases "s @ t") auto
qed simp

lemma strip_prefix_self [simp]: "strip_prefix p (p @ r) = Some r"
  by (simp add: strip_prefix_Some)

lemma strip_prefix_none:
  assumes "nl \<notin> set p" "\<not> prefix p l"
  shows "strip_prefix p (l @ nl # r) = None"
proof (cases "strip_prefix p (l @ nl # r)")
  case (Some t)
  then have "l @ nl # r = p @ t" by (simp add: strip_prefix_Some)
  then have "prefix p l \<or> nl \<in> set p" by (auto simp: append_eq_append_conv2 prefix_def Cons_eq_append_conv)
  with assms show ?thesis by blast
qed simp

lemma find_sub_skip:
  assumes "nl \<notin> set l"
  shows "find_sub (nl # pat) (l @ s) = map_option (\<lambda>(a, b). (l @ a, b)) (find_sub (nl # pat) s)"
  using assms
proof (induction l)
  case Nil
  then show ?case by (cases "find_sub (nl # pat) s") auto
next
  case (Cons c l)
  then show ?case by (cases "find_sub (nl # pat) s") auto
qed

lemma find_front:
  assumes "ls \<noteq> []" "\<forall>l\<in>set ls. nl \<notin> set l" "\<forall>l\<in>set (tl ls). \<not> prefix ''---'' l"
  shows "find_sub (nl # ''---'') (js_join [nl] ls @ nl # ''---'' @ r) = Some (js_join [nl] ls, r)"
  using assms
proof (induction ls rule: induct_list012)
  case (2 l)
  then have "find_sub (nl # ''---'') (l @ nl # ''---'' @ r) = Some (l @ [], r)"
    by (subst find_sub_skip) simp_all
  then show ?case by simp
next
  case (3 l l2 ls)
  let ?rest = "js_join [nl] (l2 # ls) @ nl # ''---'' @ r"
  have l2: "\<not> prefix ''---'' l2" using "3.prems"(3) by simp
  have "\<exists>t. ?rest = l2 @ nl # t" by (cases ls) auto
  then obtain t where t: "?rest = l2 @ nl # t" by blast
  have n: "strip_prefix ''---'' ?rest = None"
    unfolding t by (rule strip_prefix_none) (use l2 in \<open>simp_all add: nl_def\<close>)
  have "find_sub (nl # ''---'') (nl # ?rest) =
      map_option (\<lambda>(a, b). (nl # a, b)) (find_sub (nl # ''---'') ?rest)"
    using n by simp
  also have "find_sub (nl # ''---'') ?rest = Some (js_join [nl] (l2 # ls), r)"
    using "3.prems" by (intro "3.IH"(2)) (auto intro: list.set_sel(2))
  finally have "find_sub (nl # ''---'') (l @ nl # ?rest) = Some (l @ nl # js_join [nl] (l2 # ls), r)"
    using find_sub_skip [of l "''---''" "nl # ?rest"] "3.prems"(2) by simp
  then show ?case by simp
qed simp

text \<open>The text a document is written as: front matter, then the sections.\<close>

definition section_text :: "(string \<times> string) list \<Rightarrow> string" where
  "section_text ss = concat (map (\<lambda>(h, b). nl # ''## '' @ h @ nl # js_trim b @ [nl]) ss)"

lemma join_cons_nonempty: "ls \<noteq> [] \<Longrightarrow> js_join [nl] (l # ls) = l @ nl # js_join [nl] ls"
  by (cases ls) auto

lemma join_append: "ls \<noteq> [] \<Longrightarrow> ms \<noteq> [] \<Longrightarrow> js_join [nl] (ls @ ms) = js_join [nl] ls @ nl # js_join [nl] ms"
proof (induction ls)
  case (Cons l ls)
  then show ?case by (cases "ls = []") (simp_all add: join_cons_nonempty)
qed simp

lemma join_sections: "js_join [nl] ('''' # section_lines ss) = section_text ss"
proof (induction ss)
  case (Cons s ss)
  obtain h b where s: "s = (h, b)" by fastforce
  have "js_join [nl] ('''' # section_lines (s # ss)) =
      nl # (''## '' @ h) @ nl # js_trim b @ nl # js_join [nl] ('''' # section_lines ss)"
    by (simp add: section_lines_def s join_cons_nonempty)
  with Cons show ?case by (simp add: section_text_def s)
qed (simp add: section_lines_def section_text_def)

lemma serialize_text:
  assumes "put_fields (header_fields d) \<noteq> []"
  shows "serializeHivemindNode d = ''---'' @ nl # js_join [nl] (put_fields (header_fields d)) @ nl # ''---'' @
    nl # section_text (ordered_sections (sections d))"
proof -
  let ?f = "put_fields (header_fields d)"
  have "serializeHivemindNode d =
      js_join [nl] (''---'' # ?f @ ''---'' # ('''' # section_lines (ordered_sections (sections d))))"
    by (simp add: serializeHivemindNode_def)
  also have "\<dots> = ''---'' @ nl # js_join [nl] (?f @ ''---'' # ('''' # section_lines (ordered_sections (sections d))))"
    by (simp add: join_cons_nonempty)
  also have "js_join [nl] (?f @ ''---'' # ('''' # section_lines (ordered_sections (sections d)))) =
      js_join [nl] ?f @ nl # ''---'' @ nl # js_join [nl] ('''' # section_lines (ordered_sections (sections d)))"
    using assms by (subst join_append) (simp_all add: join_cons_nonempty)
  finally show ?thesis by (simp add: join_sections)
qed

lemma known_fields:
  "foldl (\<lambda>m (k, v). if k \<in> set KNOWN_KEYS then m(k \<mapsto> v) else m) m (filter (\<lambda>kv. snd kv \<noteq> []) kvs @ ex) =
   foldl (\<lambda>m (k, v). if k \<in> set KNOWN_KEYS then m(k \<mapsto> v) else m)
     (foldl (\<lambda>m (k, v). if v \<noteq> [] \<and> k \<in> set KNOWN_KEYS then m(k \<mapsto> v) else m) m kvs) ex"
proof -
  have "foldl (\<lambda>m (k, v). if k \<in> set KNOWN_KEYS then m(k \<mapsto> v) else m) m (filter (\<lambda>kv. snd kv \<noteq> []) kvs) =
     foldl (\<lambda>m (k, v). if v \<noteq> [] \<and> k \<in> set KNOWN_KEYS then m(k \<mapsto> v) else m) m kvs"
    by (induction kvs arbitrary: m) auto
  then show ?thesis by simp
qed

lemma unknown_fields:
  "\<forall>(k, v)\<in>set ex. k \<notin> set KNOWN_KEYS \<Longrightarrow>
   foldl (\<lambda>m (k, v). if k \<in> set KNOWN_KEYS then m(k \<mapsto> v) else m) m ex = m"
  by (induction ex) auto

lemma parse_status_show [simp]: "parse_status (Some (show_status s)) = s"
  by (cases s) (simp_all add: parse_status_def show_status_def)

lemma show_status_nonempty [simp]: "show_status s \<noteq> []"
  by (cases s) (simp_all add: show_status_def)

text \<open>Whatever the sections are, the header is read back as it was written.\<close>

lemma put_line_ok:
  assumes "key_ok k" "value_ok v" "v \<noteq> []"
  shows "put_line (k, v) = k @ '': '' @ v" "nl \<notin> set (put_line (k, v))" "cr \<notin> set (put_line (k, v))"
    "\<not> prefix ''---'' (put_line (k, v))"
proof -
  show p: "put_line (k, v) = k @ '': '' @ v"
    using assms by (simp add: put_line_def oneLine_id value_ok_def)
  show "nl \<notin> set (put_line (k, v))" "cr \<notin> set (put_line (k, v))"
    using assms unfolding p by (simp_all add: key_ok_def value_ok_def nl_def cr_def)
  show "\<not> prefix ''---'' (put_line (k, v))"
  proof
    assume "prefix ''---'' (put_line (k, v))"
    then have "prefix ''---'' (k @ CHR '':'' # CHR '' '' # v)" by (simp add: p)
    then have "prefix ''---'' k"
      by (auto simp: prefix_def append_eq_append_conv2 Cons_eq_append_conv append_eq_Cons_conv)
    with assms(1) show False by (simp add: key_ok_def)
  qed
qed

definition known_fields_of :: "hm_header \<Rightarrow> (string \<times> string) list" where
  "known_fields_of h =
     [(''id'', hid h), (''title'', htitle h), (''parent'', opt_str (hparent h)),
      (''status'', show_status (hstatus h)), (''author'', hauthor h), (''agent'', hagent h),
      (''model'', opt_str (hmodel h)), (''created'', created h), (''updated'', updated h)]"

lemma header_fields_split: "header_fields d = known_fields_of (header d) @ extraHeader d"
  by (simp add: header_fields_def known_fields_of_def Let_def)

definition known_map :: "hm_header \<Rightarrow> string \<rightharpoonup> string" where
  "known_map h =
     foldl (\<lambda>m (k, v). if v \<noteq> [] \<and> k \<in> set KNOWN_KEYS then m(k \<mapsto> v) else m) Map.empty (known_fields_of h)"

lemma fold_known_map:
  assumes "distinct (map fst kvs)"
  shows "foldl (\<lambda>m (k, v). if v \<noteq> [] \<and> k \<in> set KNOWN_KEYS then m(k \<mapsto> v) else m) m kvs k =
    (case map_of kvs k of Some v \<Rightarrow> if v \<noteq> [] \<and> k \<in> set KNOWN_KEYS then Some v else m k | None \<Rightarrow> m k)"
  using assms
proof (induction kvs arbitrary: m)
  case (Cons kv kvs)
  obtain k' v' where kv: "kv = (k', v')" by fastforce
  with Cons.prems have "map_of kvs k' = None" by (simp add: map_of_eq_None_iff)
  with Cons kv show ?case by (auto split: option.split)
qed simp

lemma known_fields_keys: "map fst (known_fields_of h) = KNOWN_KEYS"
  by (simp add: known_fields_of_def KNOWN_KEYS_def)

lemma known_map_iff:
  "known_map h k = (case map_of (known_fields_of h) k of Some v \<Rightarrow> nonempty_opt (Some v) | None \<Rightarrow> None)"
proof -
  have "distinct (map fst (known_fields_of h))" by (simp add: known_fields_keys KNOWN_KEYS_def)
  moreover have "k \<in> set KNOWN_KEYS" if "map_of (known_fields_of h) k = Some v" for v
    using map_of_SomeD [OF that] by (force simp flip: known_fields_keys [of h])
  ultimately show ?thesis
    unfolding known_map_def by (subst fold_known_map) (auto simp: nonempty_opt_def split: option.split)
qed

lemma known_map_keys:
  "known_map h ''id'' = nonempty_opt (Some (hid h))" "known_map h ''title'' = nonempty_opt (Some (htitle h))"
  "known_map h ''parent'' = nonempty_opt (Some (opt_str (hparent h)))"
  "known_map h ''status'' = Some (show_status (hstatus h))"
  "known_map h ''author'' = nonempty_opt (Some (hauthor h))" "known_map h ''agent'' = nonempty_opt (Some (hagent h))"
  "known_map h ''model'' = nonempty_opt (Some (opt_str (hmodel h)))"
  "known_map h ''created'' = nonempty_opt (Some (created h))" "known_map h ''updated'' = nonempty_opt (Some (updated h))"
  by (simp_all add: known_map_iff known_fields_of_def nonempty_opt_def)

lemma parse_header_known:
  assumes "hid h \<noteq> []" "htitle h \<noteq> []" "hauthor h \<noteq> []" "hagent h \<noteq> []" "hparent h \<noteq> Some []"
    "hmodel h \<noteq> Some []" "updated h = [] \<longrightarrow> created h = []"
  shows "parse_header (hid h) (known_map h) = h"
proof -
  have opt: "nonempty_opt (nonempty_opt (Some (opt_str x))) = x" if "x \<noteq> Some []" for x
    using that by (cases x) (auto simp: nonempty_opt_def opt_str_def)
  have s: "str_or (nonempty_opt (Some v)) y = (if v = [] then y else v)" for v y
    by (simp add: str_or_def nonempty_opt_def)
  show ?thesis
    using assms by (cases h) (simp add: parse_header_def known_map_keys opt s)
qed

lemma put_fields_ok:
  assumes "header_ok d" and "l \<in> set (put_fields (header_fields d))"
  shows "nl \<notin> set l \<and> cr \<notin> set l \<and> \<not> prefix ''---'' l"
proof -
  obtain k v where "(k, v) \<in> set (header_fields d)" "v \<noteq> []" "l = put_line (k, v)"
    using assms(2) by (auto simp: put_fields_def)
  moreover from this have "key_ok k" "value_ok v" using assms(1) by (auto simp: header_ok_def)
  ultimately show ?thesis using put_line_ok by blast
qed

lemma header_lines_fields:
  assumes "header_ok d"
  shows "header_lines (put_fields (header_fields d)) Map.empty [] = (known_map (header d), extraHeader d)"
proof -
  let ?fs = "filter (\<lambda>kv. snd kv \<noteq> []) (header_fields d)"
  have ok: "\<forall>(k, v)\<in>set ?fs. key_ok k \<and> value_ok v \<and> v \<noteq> []" using assms by (auto simp: header_ok_def)
  have ex: "filter (\<lambda>kv. snd kv \<noteq> []) (extraHeader d) = extraHeader d"
    and ex2: "filter (\<lambda>(k, v). k \<notin> set KNOWN_KEYS) (extraHeader d) = extraHeader d"
    and ex3: "\<forall>(k, v)\<in>set (extraHeader d). k \<notin> set KNOWN_KEYS"
    using assms by (auto simp: header_ok_def filter_id_conv)
  have kn: "filter (\<lambda>(k, v). k \<notin> set KNOWN_KEYS) (filter (\<lambda>kv. snd kv \<noteq> []) (known_fields_of h)) = []" for h
    by (auto simp: filter_empty_conv simp flip: known_fields_keys [of h]) (metis fst_conv image_eqI)
  have fs: "?fs = filter (\<lambda>kv. snd kv \<noteq> []) (known_fields_of (header d)) @ extraHeader d"
    by (simp add: header_fields_split ex)
  have "foldl (\<lambda>m (k, v). if k \<in> set KNOWN_KEYS then m(k \<mapsto> v) else m) Map.empty ?fs = known_map (header d)"
    unfolding fs known_fields unknown_fields [OF ex3] known_map_def by (rule refl)
  moreover have "filter (\<lambda>(k, v). k \<notin> set KNOWN_KEYS) ?fs = extraHeader d"
    unfolding fs filter_append kn ex2 by simp
  ultimately show ?thesis using header_lines_put [OF ok, of Map.empty "[]"] by (simp add: put_fields_def)
qed

lemma parse_serialize_header:
  assumes "header_ok d"
  shows "parseHivemindNode (serializeHivemindNode d) =
    Some (d\<lparr>sections := snd (sections_of (split_lines (crlf (section_text (ordered_sections (sections d))))))\<rparr>)"
proof -
  let ?f = "put_fields (header_fields d)"
  let ?s = "section_text (ordered_sections (sections d))"
  note ok = put_fields_ok [OF assms]
  have h: "hid (header d) \<noteq> []" using assms by (simp add: header_ok_def)
  then have ne: "?f \<noteq> []" by (simp add: put_fields_def header_fields_def Let_def)
  have "set (js_join [nl] ls) \<subseteq> insert nl (\<Union> (set ` set ls))" for ls
    by (induction ls rule: induct_list012) auto
  then have nocr: "cr \<notin> set (''---'' @ nl # js_join [nl] ?f @ nl # ''---'' @ [nl])"
    using ok by (fastforce simp: nl_def cr_def)
  have "crlf (serializeHivemindNode d) = crlf ((''---'' @ nl # js_join [nl] ?f @ nl # ''---'' @ [nl]) @ ?s)"
    by (simp add: serialize_text [OF ne])
  also have "\<dots> = (''---'' @ [nl]) @ (js_join [nl] ?f @ nl # ''---'' @ (nl # crlf ?s))"
    unfolding crlf_append [OF nocr] by simp
  finally have whole: "crlf (serializeHivemindNode d) = (''---'' @ [nl]) @ (js_join [nl] ?f @ nl # ''---'' @ (nl # crlf ?s))" .
  have fnd: "find_sub (nl # ''---'') (js_join [nl] ?f @ nl # ''---'' @ (nl # crlf ?s)) = Some (js_join [nl] ?f, nl # crlf ?s)"
    using ne ok by (intro find_front) (auto dest: list.set_sel(2))
  have front: "front_matter (crlf (serializeHivemindNode d)) = Some (js_join [nl] ?f, crlf ?s)"
    unfolding front_matter_def whole strip_prefix_self option.case fnd prod.case by simp
  have split: "js_split nl (js_join [nl] ?f) = ?f" using ne ok by (intro js_split_join) auto
  have i: "known_map (header d) ''id'' = Some (hid (header d))"
    using h by (simp add: known_map_keys nonempty_opt_def)
  have "parse_header (hid (header d)) (known_map (header d)) = header d"
    using assms by (intro parse_header_known) (simp_all add: header_ok_def)
  with h i show ?thesis
    by (simp add: parseHivemindNode_def front split header_lines_fields [OF assms])
qed

section \<open>The sections are read back\<close>

text \<open>A body that keeps its lines: trimmed, without carriage returns, and with no line that is a heading.\<close>

definition body_ok :: "string \<Rightarrow> bool" where
  "body_ok b \<longleftrightarrow> trimmed b \<and> cr \<notin> set b \<and> (\<forall>l\<in>set (split_lines (b @ [nl])). heading_of l = None)"

definition heading_ok :: "string \<Rightarrow> bool" where
  "heading_ok h \<longleftrightarrow> h \<noteq> [] \<and> trimmed h \<and> nl \<notin> set h \<and> cr \<notin> set h"

definition document_ok :: "hm_document \<Rightarrow> bool" where
  "document_ok d \<longleftrightarrow> header_ok d \<and> (\<forall>(h, b)\<in>set (sections d). heading_ok h \<and> body_ok b)"

lemma is_eol_nl [simp]: "is_eol nl"
  by (simp add: is_eol_def nl_def)

lemma is_eol_iff: "is_eol c \<longleftrightarrow> c = nl \<or> c = cr"
proof -
  have "(of_char nl :: nat) = 10" "(of_char cr :: nat) = 13" by (simp_all add: nl_def cr_def)
  then show ?thesis unfolding is_eol_def by (metis of_char_eq_iff)
qed

lemma concat_split_lines [simp]: "concat (split_lines s) = s"
  by (induction s) (auto split: list.split)

lemma split_lines_nonempty: "split_lines (c # s) \<noteq> []"
  by (auto split: list.split)

lemma split_lines_append: "split_lines (u @ nl # v) = split_lines (u @ [nl]) @ split_lines v"
proof (induction u)
  case (Cons c u)
  show ?case
  proof (cases "is_eol c")
    case False
    obtain l ls where "split_lines (u @ [nl]) = l # ls"
      using split_lines_nonempty [of "hd (u @ [nl])" "tl (u @ [nl])"] by (cases "split_lines (u @ [nl])") auto
    with Cons False show ?thesis by simp
  qed (use Cons in simp)
qed simp

lemma split_one_line: "(\<forall>c\<in>set l. \<not> is_eol c) \<Longrightarrow> split_lines (l @ [nl]) = [l @ [nl]]"
  by (induction l) auto

lemma sections_plain:
  "(\<forall>l\<in>set ls. heading_of l = None) \<Longrightarrow>
   sections_of (ls @ ms) = (concat ls @ fst (sections_of ms), snd (sections_of ms))"
  by (induction ls) (auto simp: case_prod_beta)

lemma rtrim_id: "trimmed h \<Longrightarrow> rtrim h = h"
  by (cases "h = []") (simp_all add: rtrim_def trimmed_def dropWhile_idem_hd hd_rev)

lemma heading_of_heading:
  assumes "heading_ok h"
  shows "heading_of (''## '' @ h @ [nl]) = Some h"
proof -
  have no: "\<forall>c\<in>set (''## '' @ h). \<not> is_eol c"
    using assms by (auto simp: heading_ok_def is_eol_iff nl_def cr_def)
  then have "takeWhile (\<lambda>c. \<not> is_eol c) ((''## '' @ h) @ [nl]) = ''## '' @ h"
    by (subst takeWhile_append2) auto
  then have t: "takeWhile (\<lambda>c. \<not> is_eol c) (''## '' @ h @ [nl]) = ''## '' @ h" by simp
  have "\<not> is_js_space (hd h)" using assms by (auto simp: heading_ok_def trimmed_def)
  then have d: "dropWhile (\<lambda>d. d = CHR '' '') h = h"
    by (intro dropWhile_idem_hd) (auto simp: is_js_space_def)
  have "h \<noteq> []" "rtrim h = h" using assms by (simp_all add: heading_ok_def rtrim_id)
  then show ?thesis unfolding heading_of_def t strip_prefix_self option.case d by simp
qed

lemma js_trim_append_space:
  assumes "trimmed b" "\<forall>c\<in>set ws. is_js_space c"
  shows "js_trim (b @ ws) = b"
proof (cases "b = []")
  case True
  then have "dropWhile is_js_space (b @ ws) = []" using assms(2) by (simp add: dropWhile_eq_Nil_conv)
  then show ?thesis using True by (simp only: js_trim_def append_Nil) simp
next
  case False
  then have "\<not> is_js_space (hd b)" "\<not> is_js_space (last b)" using assms(1) by (simp_all add: trimmed_def)
  then have "dropWhile is_js_space (b @ ws) = b @ ws" using False by (intro dropWhile_idem_hd) simp
  moreover have "dropWhile is_js_space (rev ws @ rev b) = dropWhile is_js_space (rev b)"
    using assms(2) by (intro dropWhile_append2) simp
  moreover have "dropWhile is_js_space (rev b) = rev b"
    using False \<open>\<not> is_js_space (last b)\<close> by (intro dropWhile_idem_hd) (simp add: hd_rev)
  ultimately show ?thesis by (simp add: js_trim_def)
qed

lemma sections_read:
  assumes "\<forall>(h, b)\<in>set ss. heading_ok h \<and> body_ok b"
  shows "snd (sections_of (split_lines (section_text ss))) = ss \<and>
    (\<forall>c\<in>set (fst (sections_of (split_lines (section_text ss)))). is_js_space c)"
  using assms
proof (induction ss)
  case (Cons s ss)
  obtain h b where s: "s = (h, b)" by fastforce
  have h: "heading_ok h" and b: "body_ok b" using Cons.prems s by auto
  have tb: "js_trim b = b" using b by (simp add: body_ok_def js_trim_id)
  let ?rest = "split_lines (section_text ss)"
  have "section_text (s # ss) = [] @ nl # (''## '' @ h) @ nl # b @ nl # section_text ss"
    by (simp add: section_text_def s tb)
  moreover have "split_lines (''## '' @ h @ [nl]) = [''## '' @ h @ [nl]]"
    using split_one_line [of "''## '' @ h"] h by (auto simp: heading_ok_def is_eol_iff nl_def cr_def)
  ultimately have lines: "split_lines (section_text (s # ss)) =
      [[nl], ''## '' @ h @ [nl]] @ split_lines (b @ [nl]) @ ?rest"
    using split_lines_append [of "[]" "(''## '' @ h) @ nl # b @ nl # section_text ss"]
      split_lines_append [of "''## '' @ h" "b @ nl # section_text ss"] split_lines_append [of b "section_text ss"]
    by simp
  have body: "sections_of (split_lines (b @ [nl]) @ ?rest) = (b @ nl # fst (sections_of ?rest), snd (sections_of ?rest))"
    using b by (subst sections_plain) (simp_all add: body_ok_def)
  have tr: "js_trim (b @ nl # fst (sections_of ?rest)) = b"
    using b Cons by (intro js_trim_append_space) (auto simp: body_ok_def is_eol_space)
  have blank: "heading_of [nl] = None" by (simp add: heading_of_def)
  show ?case using heading_of_heading [OF h] body tr blank Cons s unfolding lines by (simp add: is_eol_space)
qed (simp add: section_text_def)

lemma set_ordered_sections: "set (ordered_sections ss) \<subseteq> set ss"
  by (auto simp: ordered_sections_def SECTION_ORDER_def List.map_filter_simps dest: find_Some_set split: option.splits)

lemma ordered_known:
  assumes "distinct (map fst ss)" "distinct names"
  shows "mset (List.map_filter (\<lambda>name. List.find (\<lambda>s. fst s = name) ss) names) =
    mset (filter (\<lambda>s. fst s \<in> set names) ss)"
  using assms(2)
proof (induction names)
  case (Cons n names)
  have in_or: "mset (filter (\<lambda>s. fst s \<in> set (n # names)) ss) =
      mset (filter (\<lambda>s. fst s = n) ss) + mset (filter (\<lambda>s. fst s \<in> set names) ss)"
    using Cons.prems by (induction ss) auto
  show ?case
  proof (cases "List.find (\<lambda>s. fst s = n) ss")
    case None
    then have "filter (\<lambda>s. fst s = n) ss = []" by (auto simp: find_None_all filter_empty_conv)
    with None Cons in_or show ?thesis by (simp add: List.map_filter_simps)
  next
    case (Some s)
    then have "s \<in> set ss" "fst s = n" by (auto dest: find_Some_set)
    then have "filter (\<lambda>t. fst t = n) ss = [s]" using assms(1)
      by (induction ss) (auto simp: filter_empty_conv image_iff)
    with Some Cons in_or show ?thesis by (simp add: List.map_filter_simps)
  qed
qed (simp add: List.map_filter_simps)

lemma mset_ordered_sections:
  assumes "distinct (map fst ss)"
  shows "mset (ordered_sections ss) = mset ss"
proof -
  have "mset (ordered_sections ss) =
      mset (filter (\<lambda>s. fst s \<in> set SECTION_ORDER) ss) + mset (filter (\<lambda>s. fst s \<notin> set SECTION_ORDER) ss)"
    using ordered_known [OF assms, of SECTION_ORDER] by (simp add: ordered_sections_def SECTION_ORDER_def)
  then show ?thesis by (simp add: multiset_partition [symmetric] mset_filter)
qed

text \<open>A second section with the heading of a known one is not written.\<close>

lemma repeated_section_is_dropped:
  "ordered_sections [(''Log'', a), (''Log'', b)] = [(''Log'', a)]"
  by (simp add: ordered_sections_def SECTION_ORDER_def List.map_filter_simps)

lemma parse_serialize_sections:
  assumes "document_ok d"
  shows "parseHivemindNode (serializeHivemindNode d) = Some (d\<lparr>sections := ordered_sections (sections d)\<rparr>)"
proof -
  let ?ss = "ordered_sections (sections d)"
  have ss: "\<forall>(h, b)\<in>set ?ss. heading_ok h \<and> body_ok b"
    using assms set_ordered_sections [of "sections d"] by (auto simp: document_ok_def)
  have "cr \<notin> set (section_text ss)" if "\<forall>(h, b)\<in>set ss. heading_ok h \<and> body_ok b" for ss
    using that by (auto simp: section_text_def heading_ok_def body_ok_def js_trim_id nl_def cr_def)
  then have "crlf (section_text ?ss) = section_text ?ss" using ss by (intro crlf_id) blast
  with sections_read [OF ss] parse_serialize_header [of d] assms show ?thesis
    by (simp add: document_ok_def)
qed


definition demo_document :: hm_document where
  "demo_document = \<lparr>header = \<lparr>hid = ''20260925-fix'', htitle = ''Fix: the queue'', hparent = None, hstatus = StPaused,
      hauthor = ''Bima'', hagent = ''Claude Code'', hmodel = Some ''sonnet'', created = ''2026'', updated = ''2026''\<rparr>,
    extraHeader = [(''chatSession'', ''s 1'')],
    sections = [(''Notes'', ''kept''), (''Goal'', ''one'' @ nl # nl # ''two''), (''Log'', [])]\<rparr>"

lemma demo_document_ok: "document_ok demo_document"
  by code_simp


end
