(* ===== verification/Team_Service.thy ===== *)
theory Team_Service
  imports Team_Client Hivemind_Node
begin

text \<open>
  The team of a repository as a window sees it: \<open>browser/team/teamService.ts\<close>. What is awaited is a
  phase of a task (a refresh, a request of the user, the opening of the stream), so every interleaving
  is a sequence of steps; what the hub answers is an argument. \<open>tm_sent\<close> logs which hub was sent which
  token, and \<open>tm_issued\<close> which hub gave it out.
\<close>

section \<open>State\<close>

type_synonym hub = "string \<times> string"

record team_member =
  mb_user :: string
  mb_name :: string
  mb_role :: role

record team_view =
  tv_you :: team_member
  tv_members :: "team_member list"

datatype team_state = Unconfigured | Loading | SignedOut "bool option" | SignedIn team_view | TeamError string

datatype refresh_phase = ReadToken hub | Asked hub "string option"

datatype team_op = CreateOp | JoinOp | InviteOp | RevokeOp | SetRoleOp | RemoveOp | TransferOp | LeaveOp

datatype op_phase = OpToken team_op hub | OpAsked team_op hub | OpDone team_op hub string

record team_service =
  tm_url :: "string option"
  tm_repo :: "string option"
  tm_state :: team_state
  tm_tokens :: "string \<Rightarrow> string option"
  tm_streamKey :: "string option"
  tm_stream :: "(hub \<times> string) option"
  tm_retry :: bool
  tm_soon :: bool
  tm_refreshes :: "nat \<Rightarrow> refresh_phase option"
  tm_watches :: "nat \<Rightarrow> hub option"
  tm_ops :: "nat \<Rightarrow> op_phase option"
  tm_sent :: "(hub \<times> string option) list"
  tm_issued :: "(hub \<times> string) list"

definition team_start :: "string option \<Rightarrow> string option \<Rightarrow> team_service" where
  "team_start url repo = \<lparr>tm_url = url, tm_repo = repo, tm_state = Loading, tm_tokens = (\<lambda>_. None), tm_streamKey = None,
     tm_stream = None, tm_retry = False, tm_soon = False, tm_refreshes = (\<lambda>_. None), tm_watches = (\<lambda>_. None),
     tm_ops = (\<lambda>_. None), tm_sent = [], tm_issued = []\<rparr>"

text \<open>\<open>value?.trim()\<close>, and whether anything is left.\<close>

definition trimmed_setting :: "string option \<Rightarrow> string option" where
  "trimmed_setting v = (case v of Some x \<Rightarrow> if js_trim x \<noteq> [] then Some (js_trim x) else None | None \<Rightarrow> None)"

definition tm_hub :: "team_service \<Rightarrow> hub option" where
  "tm_hub s = (case (trimmed_setting (tm_url s), trimmed_setting (tm_repo s)) of (Some u, Some r) \<Rightarrow> Some (u, r) | _ \<Rightarrow> None)"

definition drop_slashes :: "string \<Rightarrow> string" where
  "drop_slashes u = re_replace_first (trailing_re (\<lambda>c. c = CHR ''/'')) [] u"

definition tokenKey :: "hub \<Rightarrow> string" where
  "tokenKey h = ''hivemindide.team.token:'' @ drop_slashes (fst h) @ ''#'' @ snd h"

definition userIdFor :: "string \<Rightarrow> string" where
  "userIdFor name = (let s = slug_of (js_trim name) in if s \<noteq> [] then s else ''user'')"

definition stored_token :: "hub \<Rightarrow> team_service \<Rightarrow> string option" where
  "stored_token h s = (case tm_tokens s (tokenKey h) of Some (x # xs) \<Rightarrow> Some (x # xs) | _ \<Rightarrow> None)"

section \<open>The state and the live stream\<close>

text \<open>\<open>watch\<close> up to the reading of the token, as task \<open>w\<close>.\<close>

definition watch_begin :: "nat \<Rightarrow> team_service \<Rightarrow> team_service" where
  "watch_begin w s =
     (case (tm_state s, tm_hub s) of
        (SignedIn v, Some h) \<Rightarrow> s\<lparr>tm_watches := (tm_watches s)(w \<mapsto> h)\<rparr>
      | (st, _) \<Rightarrow> if st \<noteq> Loading then s\<lparr>tm_stream := None, tm_streamKey := None, tm_retry := False\<rparr> else s)"

definition setState :: "nat \<Rightarrow> team_state \<Rightarrow> team_service \<Rightarrow> team_service" where
  "setState w st s = watch_begin w (s\<lparr>tm_state := st\<rparr>)"

text \<open>\<open>opens\<close>: the constructor of the socket does not throw.\<close>

definition watch_token :: "nat \<Rightarrow> bool \<Rightarrow> team_service \<Rightarrow> team_service" where
  "watch_token w opens s =
     (case tm_watches s w of
        None \<Rightarrow> s
      | Some h \<Rightarrow>
          (let s1 = s\<lparr>tm_watches := (tm_watches s)(w := None)\<rparr>
           in case stored_token h s of
                None \<Rightarrow> s1
              | Some t \<Rightarrow>
                  (let key = tokenKey h @ ''|'' @ t
                   in if Some key = tm_streamKey s then s1
                      else if opens then s1\<lparr>tm_streamKey := Some key, tm_stream := Some (h, t), tm_retry := False,
                             tm_sent := tm_sent s @ [(h, Some t)]\<rparr>
                      else s1\<lparr>tm_streamKey := Some key, tm_stream := None, tm_retry := True\<rparr>)))"

definition retry_fires :: "nat \<Rightarrow> team_service \<Rightarrow> team_service" where
  "retry_fires w s = (if tm_retry s then watch_begin w (s\<lparr>tm_retry := False, tm_streamKey := None\<rparr>) else s)"

section \<open>Refreshing\<close>

definition refresh :: "nat \<Rightarrow> nat \<Rightarrow> team_service \<Rightarrow> team_service" where
  "refresh w r s =
     (case tm_hub s of
        None \<Rightarrow> setState w Unconfigured s
      | Some h \<Rightarrow> s\<lparr>tm_refreshes := (tm_refreshes s)(r \<mapsto> ReadToken h)\<rparr>)"

definition refresh_token :: "nat \<Rightarrow> team_service \<Rightarrow> team_service" where
  "refresh_token r s =
     (case tm_refreshes s r of
        Some (ReadToken h) \<Rightarrow>
          s\<lparr>tm_refreshes := (tm_refreshes s)(r \<mapsto> Asked h (stored_token h s)), tm_sent := tm_sent s @ [(h, stored_token h s)]\<rparr>
      | _ \<Rightarrow> s)"

text \<open>What the answer makes of the state; a refresh without a token asks for the presence, whose value is not used.\<close>

definition answered_state :: "string option \<Rightarrow> (js_val \<Rightarrow> string) \<Rightarrow> hub_error + team_view \<Rightarrow> team_state" where
  "answered_state token show_js got =
     (case got of
        Inr v \<Rightarrow> if token \<noteq> None then SignedIn v else SignedOut (Some False)
      | Inl (HubError status code msg) \<Rightarrow>
          if status = 401 then SignedOut (Some True)
          else if code = JStr ''no_team'' then SignedOut (Some False)
          else TeamError (show_js msg)
      | Inl (NetworkError e) \<Rightarrow> TeamError e)"

definition dead_token :: "hub_error + team_view \<Rightarrow> bool" where
  "dead_token got = (case got of Inl (HubError status code msg) \<Rightarrow> status = 401 | _ \<Rightarrow> False)"

definition refresh_answer :: "(js_val \<Rightarrow> string) \<Rightarrow> nat \<Rightarrow> nat \<Rightarrow> hub_error + team_view \<Rightarrow> team_service \<Rightarrow> team_service" where
  "refresh_answer show_js w r got s =
     (case tm_refreshes s r of
        Some (Asked h token) \<Rightarrow>
          setState w (answered_state token show_js got)
            (s\<lparr>tm_refreshes := (tm_refreshes s)(r := None),
               tm_tokens := (if token \<noteq> None \<and> dead_token got then (tm_tokens s)(tokenKey h := None) else tm_tokens s)\<rparr>)
      | _ \<Rightarrow> s)"

text \<open>What the open stream brings.\<close>

definition stream_message :: "string \<Rightarrow> team_service \<Rightarrow> team_service" where
  "stream_message msg s =
     (if tm_stream s \<noteq> None \<and> sublist (''\"type\":\"team.'') msg then s\<lparr>tm_soon := True\<rparr> else s)"

definition soon_fires :: "nat \<Rightarrow> nat \<Rightarrow> team_service \<Rightarrow> team_service" where
  "soon_fires w r s = (if tm_soon s then refresh w r (s\<lparr>tm_soon := False\<rparr>) else s)"

definition STREAM_CLOSED_LOST_ACCESS :: int where "STREAM_CLOSED_LOST_ACCESS = 4001"

definition stream_closed :: "nat \<Rightarrow> nat \<Rightarrow> int \<Rightarrow> team_service \<Rightarrow> team_service" where
  "stream_closed w r code s =
     (if tm_stream s = None then s
      else if code = STREAM_CLOSED_LOST_ACCESS then refresh w r (s\<lparr>tm_stream := None, tm_streamKey := None\<rparr>)
      else s\<lparr>tm_stream := None, tm_retry := True\<rparr>)"

section \<open>What the user asks for\<close>

text \<open>\<open>withClient\<close>: the error when there is no hub, or the request as task \<open>n\<close>.\<close>

definition op_begin :: "team_op \<Rightarrow> nat \<Rightarrow> team_service \<Rightarrow> string option \<times> team_service" where
  "op_begin op n s =
     (if op = LeaveOp \<and> (case tm_state s of SignedIn v \<Rightarrow> False | _ \<Rightarrow> True) then (None, s)
      else case tm_hub s of
             None \<Rightarrow> (Some ''Set the coordination URL and repo ID first.'', s)
           | Some h \<Rightarrow> (None, s\<lparr>tm_ops := (tm_ops s)(n \<mapsto> OpToken op h)\<rparr>))"

definition op_send :: "nat \<Rightarrow> team_service \<Rightarrow> team_service" where
  "op_send n s =
     (case tm_ops s n of
        Some (OpToken op h) \<Rightarrow> s\<lparr>tm_ops := (tm_ops s)(n \<mapsto> OpAsked op h), tm_sent := tm_sent s @ [(h, stored_token h s)]\<rparr>
      | _ \<Rightarrow> s)"

text \<open>\<open>signIn\<close> and \<open>signOut\<close>: they look the hub up again.\<close>

definition signIn :: "nat \<Rightarrow> nat \<Rightarrow> string \<Rightarrow> team_service \<Rightarrow> team_service" where
  "signIn w r token s =
     (case tm_hub s of
        None \<Rightarrow> s
      | Some h \<Rightarrow> refresh w r (s\<lparr>tm_tokens := (tm_tokens s)(tokenKey h \<mapsto> token)\<rparr>))"

definition signOut :: "nat \<Rightarrow> nat \<Rightarrow> team_service \<Rightarrow> team_service" where
  "signOut w r s =
     (case tm_hub s of
        None \<Rightarrow> refresh w r s
      | Some h \<Rightarrow> refresh w r (s\<lparr>tm_tokens := (tm_tokens s)(tokenKey h := None)\<rparr>))"

text \<open>
  The answer: the refresh of \<open>withClient\<close> starts whatever it is. A sign-in or a leave goes on once that
  returned: the token of the sign-in is what the hub issued.
\<close>

definition op_answer :: "nat \<Rightarrow> nat \<Rightarrow> nat \<Rightarrow> hub_error + string \<Rightarrow> team_service \<Rightarrow> team_service" where
  "op_answer w r n got s =
     (case tm_ops s n of
        Some (OpAsked op h) \<Rightarrow>
          refresh w r (case got of
              Inl e \<Rightarrow> s\<lparr>tm_ops := (tm_ops s)(n := None)\<rparr>
            | Inr token \<Rightarrow> s\<lparr>tm_ops := (tm_ops s)(n := if op \<in> {CreateOp, JoinOp, LeaveOp} then Some (OpDone op h token) else None),
                tm_issued := (if op \<in> {CreateOp, JoinOp} then tm_issued s @ [(h, token)] else tm_issued s)\<rparr>)
      | _ \<Rightarrow> s)"

definition op_finish :: "nat \<Rightarrow> nat \<Rightarrow> nat \<Rightarrow> team_service \<Rightarrow> team_service" where
  "op_finish w r n s =
     (case tm_ops s n of
        Some (OpDone op h token) \<Rightarrow>
          (let s1 = s\<lparr>tm_ops := (tm_ops s)(n := None)\<rparr>
           in if op = LeaveOp then signOut w r s1 else signIn w r token s1)
      | _ \<Rightarrow> s)"

definition change_hub :: "nat \<Rightarrow> nat \<Rightarrow> string option \<Rightarrow> string option \<Rightarrow> team_service \<Rightarrow> team_service" where
  "change_hub w r url repo s = refresh w r (s\<lparr>tm_url := url, tm_repo := repo\<rparr>)"

text \<open>Every interleaving in which the settings do not change while a request of the user is under way.\<close>

inductive team_step :: "team_service \<Rightarrow> team_service \<Rightarrow> bool" where
  Watch: "team_step s (watch_token w opens s)"
| Retry: "team_step s (retry_fires w s)"
| Refresh: "team_step s (refresh w r s)"
| Token: "team_step s (refresh_token r s)"
| Answer: "team_step s (refresh_answer show_js w r got s)"
| Message: "team_step s (stream_message msg s)"
| Soon: "team_step s (soon_fires w r s)"
| Closed: "team_step s (stream_closed w r code s)"
| Ask: "tm_ops s n = None \<Longrightarrow> team_step s (snd (op_begin op n s))"
| Send: "team_step s (op_send n s)"
| Done: "team_step s (op_answer w r n got s)"
| Finish: "team_step s (op_finish w r n s)"
| Out: "team_step s (signOut w r s)"
| Settings: "\<forall>n. tm_ops s n = None \<Longrightarrow> team_step s (change_hub w r url repo s)"

section \<open>Tokens stay with their hub\<close>

definition issued_for :: "team_service \<Rightarrow> string \<Rightarrow> string \<Rightarrow> bool" where
  "issued_for s k t \<longleftrightarrow> (\<exists>h. tokenKey h = k \<and> (h, t) \<in> set (tm_issued s))"

definition op_ok :: "team_service \<Rightarrow> op_phase \<Rightarrow> bool" where
  "op_ok s p \<longleftrightarrow> (case p of
     OpToken op h \<Rightarrow> tm_hub s = Some h
   | OpAsked op h \<Rightarrow> tm_hub s = Some h
   | OpDone op h token \<Rightarrow> tm_hub s = Some h \<and> (op \<noteq> LeaveOp \<longrightarrow> (h, token) \<in> set (tm_issued s)))"

definition team_ok :: "team_service \<Rightarrow> bool" where
  "team_ok s \<longleftrightarrow>
     (\<forall>k t. tm_tokens s k = Some t \<longrightarrow> issued_for s k t) \<and>
     (\<forall>(h, tk)\<in>set (tm_sent s). \<forall>t. tk = Some t \<longrightarrow> issued_for s (tokenKey h) t) \<and>
     (\<forall>n p. tm_ops s n = Some p \<longrightarrow> op_ok s p)"

text \<open>What a step leaves alone: nothing is issued or sent, no token appears, the requests and the settings stay.\<close>

definition quiet_step :: "team_service \<Rightarrow> team_service \<Rightarrow> bool" where
  "quiet_step s s' \<longleftrightarrow> tm_issued s' = tm_issued s \<and> tm_sent s' = tm_sent s \<and> tm_tokens s' \<subseteq>\<^sub>m tm_tokens s \<and>
     tm_ops s' = tm_ops s \<and> tm_url s' = tm_url s \<and> tm_repo s' = tm_repo s"

lemma tm_hub_updates [simp]:
  "tm_hub (s\<lparr>tm_state := st\<rparr>) = tm_hub s" "tm_hub (s\<lparr>tm_tokens := tk\<rparr>) = tm_hub s" "tm_hub (s\<lparr>tm_ops := o1\<rparr>) = tm_hub s"
  "tm_hub (s\<lparr>tm_sent := ls\<rparr>) = tm_hub s" "tm_hub (s\<lparr>tm_issued := ls1\<rparr>) = tm_hub s" "tm_hub (s\<lparr>tm_refreshes := rs\<rparr>) = tm_hub s"
  "tm_hub (s\<lparr>tm_watches := ws\<rparr>) = tm_hub s"
  by (simp_all add: tm_hub_def)

lemma quiet_refl [simp]: "quiet_step s s"
  by (simp add: quiet_step_def)

lemma quiet_trans: "quiet_step s s1 \<Longrightarrow> quiet_step s1 s2 \<Longrightarrow> quiet_step s s2"
  by (auto simp: quiet_step_def intro: map_le_trans)

lemma tm_hub_cong: "tm_url s' = tm_url s \<Longrightarrow> tm_repo s' = tm_repo s \<Longrightarrow> tm_hub s' = tm_hub s"
  by (simp add: tm_hub_def)

lemma op_ok_mono: "tm_hub s' = tm_hub s \<Longrightarrow> set (tm_issued s) \<subseteq> set (tm_issued s') \<Longrightarrow> op_ok s p \<Longrightarrow> op_ok s' p"
  by (auto simp: op_ok_def split: op_phase.splits)

lemma quiet_ok: "quiet_step s s' \<Longrightarrow> team_ok s \<Longrightarrow> team_ok s'"
  using tm_hub_cong [of s' s] op_ok_mono [of s' s] by (auto simp: quiet_step_def team_ok_def issued_for_def map_le_def dom_def)

lemma stored_token_Some: "stored_token h s = Some t \<Longrightarrow> tm_tokens s (tokenKey h) = Some t"
  by (auto simp: stored_token_def split: option.splits list.splits)

lemma stored_token_eq: "Some t = stored_token h s \<Longrightarrow> tm_tokens s (tokenKey h) = Some t"
  using stored_token_Some [OF sym] .

lemma watch_begin_quiet [simp]: "quiet_step s (watch_begin w s)"
  by (auto simp: watch_begin_def quiet_step_def split: team_state.split option.split)

lemma setState_quiet [simp]: "quiet_step s (setState w st s)"
  unfolding setState_def by (rule quiet_trans [OF _ watch_begin_quiet]) (simp add: quiet_step_def)

lemma refresh_quiet [simp]: "quiet_step s (refresh w r s)"
  by (auto simp: refresh_def split: option.split) (simp add: quiet_step_def)

lemma watch_begin_quiet_after: "quiet_step s s1 \<Longrightarrow> quiet_step s (watch_begin w s1)"
  using quiet_trans watch_begin_quiet by blast

lemma refresh_quiet_after: "quiet_step s s1 \<Longrightarrow> quiet_step s (refresh w r s1)"
  using quiet_trans refresh_quiet by blast

text \<open>A step that keeps the settings is fine when what it adds is.\<close>

lemma team_okI:
  assumes "team_ok s" "tm_url s' = tm_url s" "tm_repo s' = tm_repo s" "set (tm_issued s) \<subseteq> set (tm_issued s')"
    and "\<And>k t. tm_tokens s' k = Some t \<Longrightarrow> tm_tokens s k = Some t \<or> issued_for s' k t"
    and "\<And>h t. (h, Some t) \<in> set (tm_sent s') \<Longrightarrow> (h, Some t) \<in> set (tm_sent s) \<or> tm_tokens s (tokenKey h) = Some t"
    and "\<And>n p. tm_ops s' n = Some p \<Longrightarrow> tm_ops s n = Some p \<or> op_ok s' p"
  shows "team_ok s'"
proof -
  have mono: "issued_for s k t \<Longrightarrow> issued_for s' k t" for k t using assms(4) by (auto simp: issued_for_def)
  have tok: "issued_for s k t" if "tm_tokens s k = Some t" for k t using assms(1) that by (simp add: team_ok_def)
  have sent: "issued_for s (tokenKey h) t" if "(h, Some t) \<in> set (tm_sent s)" for h t using assms(1) that by (fastforce simp: team_ok_def)
  have "op_ok s' p" if "tm_ops s n = Some p" for n p
    using assms(1) that op_ok_mono [OF tm_hub_cong [OF assms(2,3)] assms(4)] by (auto simp: team_ok_def)
  then show ?thesis unfolding team_ok_def using mono tok sent assms(5-7) by blast
qed

lemma ops_ok: "team_ok s \<Longrightarrow> tm_ops s n = Some p \<Longrightarrow> op_ok s p"
  by (simp add: team_ok_def)

lemma signIn_ok:
  assumes "team_ok s" "tm_hub s = Some h" "(h, token) \<in> set (tm_issued s)"
  shows "team_ok (signIn w r token s)"
proof -
  have "team_ok (s\<lparr>tm_tokens := (tm_tokens s)(tokenKey h \<mapsto> token)\<rparr>)"
  proof (rule team_okI [OF assms(1)])
    have "issued_for (s\<lparr>tm_tokens := f\<rparr>) (tokenKey h) token" for f using assms(3) unfolding issued_for_def by (intro exI [of _ h]) simp
    then show "tm_tokens s k = Some t \<or> issued_for (s\<lparr>tm_tokens := (tm_tokens s)(tokenKey h \<mapsto> token)\<rparr>) k t"
      if "tm_tokens (s\<lparr>tm_tokens := (tm_tokens s)(tokenKey h \<mapsto> token)\<rparr>) k = Some t" for k t
      using that by (auto split: if_splits)
  qed simp_all
  then show ?thesis using assms(2) quiet_ok [OF refresh_quiet] by (simp add: signIn_def)
qed

lemma signOut_quiet [simp]: "quiet_step s (signOut w r s)"
proof (cases "tm_hub s")
  case (Some h)
  have "quiet_step s (s\<lparr>tm_tokens := (tm_tokens s)(tokenKey h := None)\<rparr>)" by (auto simp: quiet_step_def map_le_def)
  with Some show ?thesis by (simp add: signOut_def refresh_quiet_after)
qed (simp add: signOut_def)

lemma op_answer_ok: "team_ok s \<Longrightarrow> team_ok (op_answer w r n got s)"
proof (cases "\<exists>op h. tm_ops s n = Some (OpAsked op h)")
  case True
  assume ok: "team_ok s"
  from True obtain op h where a: "tm_ops s n = Some (OpAsked op h)" by blast
  then have hub: "tm_hub s = Some h" using ops_ok [OF ok a] by (simp add: op_ok_def)
  have "team_ok (s\<lparr>tm_ops := (tm_ops s)(n := None)\<rparr>)" by (rule team_okI [OF ok]) (auto split: if_splits)
  moreover have "team_ok (s\<lparr>tm_ops := (tm_ops s)(n := if op \<in> {CreateOp, JoinOp, LeaveOp} then Some (OpDone op h token) else None),
      tm_issued := (if op \<in> {CreateOp, JoinOp} then tm_issued s @ [(h, token)] else tm_issued s)\<rparr>)" for token
    by (rule team_okI [OF ok]) (auto simp: op_ok_def hub split: if_splits)
  ultimately show ?thesis using a quiet_ok [OF refresh_quiet] by (simp add: op_answer_def split: sum.split)
qed (auto simp: op_answer_def split: option.split op_phase.split)

lemma op_finish_ok: "team_ok s \<Longrightarrow> team_ok (op_finish w r n s)"
proof -
  assume ok: "team_ok s"
  let ?s = "s\<lparr>tm_ops := (tm_ops s)(n := None)\<rparr>"
  have one: "team_ok ?s" by (rule team_okI [OF ok]) (auto split: if_splits)
  have hub: "tm_hub ?s = tm_hub s" by (rule tm_hub_cong) simp_all
  show ?thesis
  proof (cases "\<exists>op h token. tm_ops s n = Some (OpDone op h token)")
    case True
    then obtain op h token where d: "tm_ops s n = Some (OpDone op h token)" by blast
    then show ?thesis using ops_ok [OF ok d] quiet_ok [OF signOut_quiet one] signIn_ok [OF one, of h token] hub
      by (auto simp: op_finish_def op_ok_def Let_def)
  next
    case False
    then show ?thesis using ok by (auto simp: op_finish_def split: option.split op_phase.split)
  qed
qed

lemma refresh_token_ok: "team_ok s \<Longrightarrow> team_ok (refresh_token r s)"
  unfolding refresh_token_def
  by (auto split: option.split refresh_phase.split intro!: team_okI [of s] dest: stored_token_Some stored_token_eq)

lemma op_send_ok: "team_ok s \<Longrightarrow> team_ok (op_send n s)"
proof -
  assume ok: "team_ok s"
  have "tm_hub s = Some h" if "tm_ops s n = Some (OpToken op h)" for op h using ops_ok [OF ok that] by (simp add: op_ok_def)
  then show ?thesis using ok unfolding op_send_def
    by (auto split: option.split op_phase.split if_splits intro!: team_okI [of s] dest: stored_token_Some stored_token_eq
        simp: op_ok_def)
qed

lemma watch_token_ok: "team_ok s \<Longrightarrow> team_ok (watch_token w opens s)"
  unfolding watch_token_def Let_def
  by (auto split: option.split if_splits intro!: team_okI [of s] dest: stored_token_Some stored_token_eq)

lemma op_begin_ok: "team_ok s \<Longrightarrow> tm_ops s n = None \<Longrightarrow> team_ok (snd (op_begin op n s))"
  unfolding op_begin_def
  by (auto split: option.split team_state.split if_splits intro!: team_okI [of s] simp: op_ok_def)

lemma change_hub_ok: "team_ok s \<Longrightarrow> \<forall>n. tm_ops s n = None \<Longrightarrow> team_ok (change_hub w r url repo s)"
  unfolding change_hub_def by (rule quiet_ok [OF refresh_quiet]) (auto simp: team_ok_def issued_for_def)

lemma refresh_answer_quiet: "quiet_step s (refresh_answer show_js w r got s)"
proof -
  have "quiet_step s (setState w st (s\<lparr>tm_refreshes := f,
      tm_tokens := (if c then (tm_tokens s)(k := None) else tm_tokens s)\<rparr>))" for st f c k
    by (rule quiet_trans [OF _ setState_quiet]) (auto simp: quiet_step_def map_le_def)
  then show ?thesis by (simp add: refresh_answer_def split: option.split refresh_phase.split)
qed

interpretation team: step_invariant team_step "team_start url repo" team_ok for url repo
proof
  show "team_ok (team_start url repo)" by (simp add: team_ok_def team_start_def)
  show "team_ok s'" if "team_step s s'" "team_ok s" for s s'
    using that
  proof cases
    case (Retry w)
    have "quiet_step s (s\<lparr>tm_retry := False, tm_streamKey := None\<rparr>)" by (simp add: quiet_step_def)
    then have "quiet_step s (retry_fires w s)" by (simp add: retry_fires_def watch_begin_quiet_after)
    then show ?thesis using Retry that(2) quiet_ok by blast
  next
    case (Message msg)
    then show ?thesis using quiet_ok [OF _ that(2), of s'] by (simp add: stream_message_def quiet_step_def)
  next
    case (Soon w r)
    have "quiet_step s (s\<lparr>tm_soon := False\<rparr>)" by (simp add: quiet_step_def)
    then have "quiet_step s (soon_fires w r s)" by (simp add: soon_fires_def refresh_quiet_after)
    then show ?thesis using Soon that(2) quiet_ok by blast
  next
    case (Closed w r code)
    have "quiet_step s (s\<lparr>tm_stream := None, tm_streamKey := None\<rparr>)" "quiet_step s (s\<lparr>tm_stream := None, tm_retry := True\<rparr>)"
      by (simp_all add: quiet_step_def)
    then have "quiet_step s (stream_closed w r code s)" by (simp add: stream_closed_def refresh_quiet_after)
    then show ?thesis using Closed that(2) quiet_ok by blast
  qed (use that(2) quiet_ok refresh_quiet signOut_quiet refresh_answer_quiet in
      \<open>blast intro: watch_token_ok refresh_token_ok op_begin_ok op_send_ok op_answer_ok op_finish_ok change_hub_ok\<close>)+
qed

text \<open>Two hubs have the same key only if they are the same repository of the same address, up to slashes at its end.\<close>

lemma drop_slashes_rev: "drop_slashes u = rev (dropWhile (\<lambda>c. c = CHR ''/'') (rev u))"
  by (simp add: drop_slashes_def replace_trailing)

lemma drop_slashes_set: "set (drop_slashes u) \<subseteq> set u"
  by (auto simp: drop_slashes_rev dest: set_dropWhileD)

lemma tokenKey_inj:
  assumes "tokenKey h = tokenKey h'" "CHR ''#'' \<notin> set (fst h)" "CHR ''#'' \<notin> set (fst h')"
  shows "drop_slashes (fst h) = drop_slashes (fst h') \<and> snd h = snd h'"
proof -
  have n: "CHR ''#'' \<notin> set (drop_slashes (fst h))" "CHR ''#'' \<notin> set (drop_slashes (fst h'))"
    using assms(2,3) drop_slashes_set by blast+
  have split: "a = a' \<and> b = b'" if "a @ CHR ''#'' # b = a' @ CHR ''#'' # b'" "CHR ''#'' \<notin> set a" "CHR ''#'' \<notin> set a'" for a a' b b' :: string
    using that
  proof (induction a arbitrary: a')
    case Nil
    then show ?case by (cases a') auto
  next
    case (Cons x a)
    then show ?case by (cases a') auto
  qed
  show ?thesis using assms(1) split [OF _ n] by (simp add: tokenKey_def)
qed

text \<open>
  Property C35: tokens stay with their hub. At every reachable state, every request that carried a
  token (a refresh, a request of the user, the live stream) went to the hub that gave it out: the same
  repository at the same address, as long as the settings do not change while a request is under way.
\<close>

theorem tokens_stay_with_their_hub:
  assumes "team_step\<^sup>*\<^sup>* (team_start url repo) s" "(h, Some t) \<in> set (tm_sent s)"
    and "CHR ''#'' \<notin> set (fst h)" "list_all (\<lambda>(g, _). CHR ''#'' \<notin> set (fst g)) (tm_issued s)"
  shows "\<exists>g. (g, t) \<in> set (tm_issued s) \<and> drop_slashes (fst g) = drop_slashes (fst h) \<and> snd g = snd h"
proof -
  have "team_ok s" using team.reached_inv [OF assms(1)] .
  then have "issued_for s (tokenKey h) t" using assms(2) by (fastforce simp: team_ok_def)
  then obtain g where g: "tokenKey g = tokenKey h" "(g, t) \<in> set (tm_issued s)" by (auto simp: issued_for_def)
  have "CHR ''#'' \<notin> set (fst g)" using assms(4) g(2) by (auto simp: list_all_iff)
  from tokenKey_inj [OF g(1) this assms(3)] g(2) show ?thesis by blast
qed

section \<open>A sign-in\<close>

definition demo_team :: team_service where
  "demo_team = team_start (Some ''http://a'') (Some ''r'')"

lemma demo_team_hub [simp]: "tm_hub demo_team = Some (''http://a'', ''r'')"
  by (simp add: tm_hub_def demo_team_def team_start_def trimmed_setting_def js_trim_id trimmed_def is_js_space_def)

text \<open>A member joins at once: the token is stored, and the refresh that follows carries it to the hub.\<close>

definition demo_join :: team_service where
  "demo_join = op_finish 0 2 0 (op_answer 0 1 0 (Inr ''T'') (op_send 0 (snd (op_begin JoinOp 0 demo_team))))"

definition demo_joined :: team_service where
  "demo_joined = refresh_token 2 demo_join"

lemma demo_joined_steps: "team_step\<^sup>*\<^sup>* (team_start (Some ''http://a'') (Some ''r'')) demo_joined"
proof -
  have "tm_ops demo_team 0 = None" by (simp add: demo_team_def team_start_def)
  then have "team_step demo_team (snd (op_begin JoinOp 0 demo_team))" by (rule Ask)
  then show ?thesis unfolding demo_joined_def demo_join_def demo_team_def [symmetric]
    by (meson Send Done Finish Token r_into_rtranclp rtranclp.rtrancl_into_rtrancl)
qed

lemmas team_run_defs = op_answer_def op_finish_def op_send_def op_begin_def signIn_def refresh_def refresh_token_def stored_token_def Let_def

lemma demo_joined_eq:
  "tm_sent demo_joined = [((''http://a'', ''r''), None), ((''http://a'', ''r''), Some ''T'')]"
  "tm_issued demo_joined = [((''http://a'', ''r''), ''T'')]"
  by (simp_all add: demo_joined_def demo_join_def team_run_defs) (simp_all add: demo_team_def team_start_def)

lemma tokens_stay_with_their_hub_witness:
  "\<exists>g. (g, ''T'') \<in> set (tm_issued demo_joined) \<and> drop_slashes (fst g) = drop_slashes ''http://a'' \<and> snd g = ''r''"
  using tokens_stay_with_their_hub [OF demo_joined_steps, of "(''http://a'', ''r'')" "''T''"] by (simp add: demo_joined_eq)

text \<open>
  When the hub is changed while the request is under way, the token of the old hub is stored for the new
  one and sent there: \<open>signIn\<close> looks the hub up again.
\<close>

definition demo_switched :: team_service where
  "demo_switched = refresh_token 2 (op_finish 0 2 0 (op_answer 0 1 0 (Inr ''T'')
     (change_hub 0 3 (Some ''http://b'') (Some ''r'') (op_send 0 (snd (op_begin JoinOp 0 demo_team))))))"

lemma changed_hub_gets_the_token:
  "((''http://b'', ''r''), Some ''T'') \<in> set (tm_sent demo_switched)" "tm_issued demo_switched = [((''http://a'', ''r''), ''T'')]"
proof -
  have h: "tm_hub (s\<lparr>tm_url := Some ''http://b'', tm_repo := Some ''r''\<rparr>) = Some (''http://b'', ''r'')" for s
    by (simp add: tm_hub_def trimmed_setting_def js_trim_id trimmed_def is_js_space_def)
  show "((''http://b'', ''r''), Some ''T'') \<in> set (tm_sent demo_switched)" "tm_issued demo_switched = [((''http://a'', ''r''), ''T'')]"
    by (simp_all add: demo_switched_def team_run_defs change_hub_def h) (simp_all add: demo_team_def team_start_def)
qed

text \<open>
  The refresh of \<open>withClient\<close> starts before the token is stored. Its request may be answered after that
  of the sign-in, and then the window is signed out although the token is good.
\<close>

definition demo_late :: "team_view \<Rightarrow> team_service" where
  "demo_late v = refresh_answer (\<lambda>_. []) 0 1 (Inl (HubError 401 (JStr ''unauthorized'') JUndef))
     (refresh_answer (\<lambda>_. []) 0 2 (Inr v)
       (refresh_token 2 (op_finish 0 2 0 (refresh_token 1
         (op_answer 0 1 0 (Inr ''T'') (op_send 0 (snd (op_begin JoinOp 0 demo_team))))))))"

lemma late_refresh_signs_out:
  "tm_state (demo_late v) = SignedOut (Some True)" "stored_token (''http://a'', ''r'') (demo_late v) = Some ''T''"
  by (simp_all add: demo_late_def team_run_defs refresh_answer_def setState_def watch_begin_def answered_state_def dead_token_def)
    (simp_all add: demo_team_def team_start_def)

section \<open>A refresh on its own\<close>

text \<open>What a refresh with no other in between makes of the state.\<close>

lemma refresh_alone:
  assumes "tm_hub s = Some h"
  shows "tm_state (refresh_answer show_js w' r got (refresh_token r (refresh w r s))) = answered_state (stored_token h s) show_js got"
    and "stored_token h (refresh_answer show_js w' r got (refresh_token r (refresh w r s))) =
      (if dead_token got then None else stored_token h s)"
  using assms
  by (auto simp: refresh_def refresh_token_def refresh_answer_def setState_def watch_begin_def stored_token_def dead_token_def
      split: team_state.split option.splits list.splits sum.splits hub_error.splits)

text \<open>An id of a member has only lower-case letters, digits and dashes, and there always is one.\<close>

lemma userIdFor_nonempty: "userIdFor name \<noteq> []"
  by (simp add: userIdFor_def Let_def)

end
