(* ===== verification/Notch.thy ===== *)
theory Notch
  imports Js_Prelude
begin

text \<open>
  The notch: what it shows of the agents and where it is drawn.
  \<open>src/vs/platform/hivemindide/common/hivemindNotch.ts\<close> and
  \<open>common/usageNotchPlacement.ts\<close>. The outputs of the AppKit probe and of the settings store are
  parsed by \<open>JSON.parse\<close>, an argument; JSON numbers are finite.
\<close>

section \<open>The checklist of an agent\<close>

datatype step_status = StepPending | StepInProgress | StepCompleted | StepFailed

record notch_step =
  step_id :: string
  step_title :: string
  step_status :: step_status

record notch_steps =
  sessionId :: "string option"
  steps :: "notch_step list"

record step_event =
  toolCallId :: string
  ev_title :: "string option"
  ev_status :: "step_status option"

definition NOTCH_MAX_STEPS :: nat where "NOTCH_MAX_STEPS = 6"

definition clampText :: "string \<Rightarrow> nat \<Rightarrow> string" where
  "clampText s limit = (if length s > limit then take (limit - 1) s @ ellipsis else s)"

text \<open>\<open>steps.map(s => s === known ? next : s)\<close>, where \<open>known\<close> is the first with the id.\<close>

fun replace_step :: "notch_step \<Rightarrow> notch_step list \<Rightarrow> notch_step list" where
  "replace_step n [] = []"
| "replace_step n (s # ss) = (if step_id s = step_id n then n # ss else s # replace_step n ss)"

definition next_step :: "notch_step option \<Rightarrow> step_event \<Rightarrow> notch_step" where
  "next_step known e =
     \<lparr>step_id = toolCallId e,
      step_title = clampText (case known of Some k \<Rightarrow> step_title k
                              | None \<Rightarrow> (case ev_title e of Some t \<Rightarrow> t | None \<Rightarrow> ''tool'')) 160,
      step_status = (case ev_status e of Some st \<Rightarrow> st
                     | None \<Rightarrow> (case known of Some k \<Rightarrow> step_status k | None \<Rightarrow> StepInProgress))\<rparr>"

definition last_steps :: "notch_step list \<Rightarrow> notch_step list" where
  "last_steps ss = drop (length ss - NOTCH_MAX_STEPS) ss"

definition applyNotchStep :: "notch_steps \<Rightarrow> string \<Rightarrow> step_event \<Rightarrow> notch_steps" where
  "applyNotchStep current session e =
     (let ss = (if sessionId current = Some session then steps current else []);
          known = List.find (\<lambda>s. step_id s = toolCallId e) ss;
          n = next_step known e;
          merged = (case known of Some _ \<Rightarrow> replace_step n ss | None \<Rightarrow> ss @ [n])
      in \<lparr>sessionId = Some session, steps = last_steps merged\<rparr>)"

section \<open>Phase and sleep\<close>

datatype notch_phase = Asking | Working | PhaseDone | PhaseIdle

definition NOTCH_STUCK_MS :: int where "NOTCH_STUCK_MS = 15 * 60000"
definition NOTCH_DONE_MS :: int where "NOTCH_DONE_MS = 60000"

definition notchPhase :: "bool \<Rightarrow> bool \<Rightarrow> int \<Rightarrow> int \<Rightarrow> notch_phase" where
  "notchPhase hasPermission turnOpen lastEventAt now =
     (if hasPermission then Asking
      else if lastEventAt = 0 then PhaseIdle
      else let since = now - lastEventAt in
        if turnOpen then (if since < NOTCH_STUCK_MS then Working else PhaseIdle)
        else if since < NOTCH_DONE_MS then PhaseDone else PhaseIdle)"

datatype keep_awake_mode = KeepAuto | KeepHour | KeepOn | KeepOff
datatype keep_awake_reason = ForAgents | ForHour | ForOn

definition KEEP_AWAKE_GRACE_MS :: int where "KEEP_AWAKE_GRACE_MS = 2 * 60000"
definition KEEP_AWAKE_HOUR_MS :: int where "KEEP_AWAKE_HOUR_MS = 60 * 60000"

definition keepAwakeReason ::
  "keep_awake_mode \<Rightarrow> bool \<Rightarrow> bool \<Rightarrow> int \<Rightarrow> int \<Rightarrow> int \<Rightarrow> keep_awake_reason option" where
  "keepAwakeReason mode setting turnsOpen lastTurnEndAt hourUntil now =
     (if mode = KeepOff then None
      else if mode = KeepOn then Some ForOn
      else if mode = KeepHour \<and> now < hourUntil then Some ForHour
      else if setting \<and> (turnsOpen \<or> (lastTurnEndAt > 0 \<and> now - lastTurnEndAt < KEEP_AWAKE_GRACE_MS))
      then Some ForAgents else None)"

section \<open>Finding the camera notch\<close>

record rect =
  rx :: real
  ry :: real
  rwidth :: real
  rheight :: real

record side_area =
  sx :: real
  swidth :: real

record notch_screen =
  frame :: rect
  safeTop :: real
  leftArea :: side_area
  rightArea :: side_area

record notch_display =
  display_id :: int
  internal :: bool
  bounds :: rect

record notch_rect =
  displayId :: int
  virtual :: bool
  place :: rect

definition same_size :: "notch_screen \<Rightarrow> notch_display \<Rightarrow> bool" where
  "same_size screen d \<longleftrightarrow> \<bar>rwidth (bounds d) - rwidth (frame screen)\<bar> < 1 \<and> \<bar>rheight (bounds d) - rheight (frame screen)\<bar> < 1"

definition match_display :: "notch_screen \<Rightarrow> notch_display list \<Rightarrow> notch_display option" where
  "match_display screen displays =
     (case List.find (\<lambda>d. internal d \<and> same_size screen d) displays of
        Some d \<Rightarrow> Some d
      | None \<Rightarrow> List.find (same_size screen) displays)"

definition screen_notch :: "notch_screen \<Rightarrow> notch_display list \<Rightarrow> notch_rect option" where
  "screen_notch screen displays =
     (if safeTop screen \<le> 0 \<or> swidth (leftArea screen) \<le> 0 \<or> swidth (rightArea screen) \<le> 0 then None
      else case match_display screen displays of
        None \<Rightarrow> None
      | Some d \<Rightarrow>
          (let origin = (if \<bar>sx (leftArea screen) - rx (frame screen)\<bar> < \<bar>sx (leftArea screen)\<bar> then rx (frame screen) else 0);
               left = sx (leftArea screen) - origin + swidth (leftArea screen);
               right = sx (rightArea screen) - origin
           in if right - left < 20 then None
              else Some \<lparr>displayId = display_id d, virtual = False,
                     place = \<lparr>rx = rx (bounds d) + left, ry = ry (bounds d), rwidth = right - left, rheight = safeTop screen\<rparr>\<rparr>))"

fun findNotch :: "notch_screen list \<Rightarrow> notch_display list \<Rightarrow> notch_rect option" where
  "findNotch [] displays = None"
| "findNotch (s # ss) displays =
     (case screen_notch s displays of Some r \<Rightarrow> Some r | None \<Rightarrow> findNotch ss displays)"

definition VIRTUAL_NOTCH_WIDTH :: real where "VIRTUAL_NOTCH_WIDTH = 160"
definition VIRTUAL_NOTCH_HEIGHT :: real where "VIRTUAL_NOTCH_HEIGHT = 28"

definition virtualNotch :: "notch_display \<Rightarrow> rect \<Rightarrow> bool \<Rightarrow> notch_rect" where
  "virtualNotch display workArea fitMenuBar =
     (let menuBar = ry workArea - ry (bounds display);
          height = (if fitMenuBar \<and> menuBar \<ge> 22 \<and> menuBar \<le> 40 then menuBar else VIRTUAL_NOTCH_HEIGHT)
      in \<lparr>displayId = display_id display, virtual = True,
          place = \<lparr>rx = of_int (js_round (rx (bounds display) + (rwidth (bounds display) - VIRTUAL_NOTCH_WIDTH) / 2)),
                   ry = ry (bounds display), rwidth = VIRTUAL_NOTCH_WIDTH, rheight = height\<rparr>\<rparr>)"

definition isScreenInfo :: "js_val \<Rightarrow> bool" where
  "isScreenInfo v \<longleftrightarrow>
     (let n = (\<lambda>x. js_num x \<noteq> None); f = js_get v ''frame'';
          l = js_get v ''leftArea''; r = js_get v ''rightArea'' in
      js_truthy v \<and> js_truthy f \<and> n (js_get f ''x'') \<and> n (js_get f ''width'') \<and> n (js_get f ''height'') \<and>
      n (js_get v ''safeTop'') \<and> js_truthy l \<and> n (js_get l ''x'') \<and> n (js_get l ''width'') \<and>
      js_truthy r \<and> n (js_get r ''x'') \<and> n (js_get r ''width''))"

definition parseNotchProbe :: "(string \<Rightarrow> js_val option) \<Rightarrow> string \<Rightarrow> js_val list" where
  "parseNotchProbe json_parse output =
     (case json_parse output of Some (JArr vs) \<Rightarrow> filter isScreenInfo vs | _ \<Rightarrow> [])"

section \<open>Where the notch in the window sits\<close>

datatype notch_edge = EdgeLeft | EdgeRight | EdgeTop | EdgeBottom

record notch_placement =
  edge :: notch_edge
  offset :: real

definition DEFAULT_NOTCH_PLACEMENT :: notch_placement where
  "DEFAULT_NOTCH_PLACEMENT = \<lparr>edge = EdgeLeft, offset = 6 / 10\<rparr>"

definition isVerticalEdge :: "notch_edge \<Rightarrow> bool" where
  "isVerticalEdge e \<longleftrightarrow> e = EdgeLeft \<or> e = EdgeRight"

definition edge_distances :: "real \<Rightarrow> real \<Rightarrow> real \<Rightarrow> real \<Rightarrow> (notch_edge \<times> real) list" where
  "edge_distances x y width height =
     [(EdgeLeft, x), (EdgeRight, width - x), (EdgeTop, y), (EdgeBottom, height - y)]"

definition nearest_edge :: "real \<Rightarrow> real \<Rightarrow> real \<Rightarrow> real \<Rightarrow> notch_edge" where
  "nearest_edge x y width height =
     (case edge_distances x y width height of
        d # ds \<Rightarrow> fst (foldl (\<lambda>best d. if snd d < snd best then d else best) d ds))"

definition snapNotchPlacement :: "real \<Rightarrow> real \<Rightarrow> real \<Rightarrow> real \<Rightarrow> notch_placement" where
  "snapNotchPlacement x y width height =
     (let e = nearest_edge x y width height
      in \<lparr>edge = e, offset = js_clamp (if isVerticalEdge e then y / max 1 height else x / max 1 width) 0 1\<rparr>)"

definition notchStart :: "notch_placement \<Rightarrow> real \<Rightarrow> real \<Rightarrow> real \<Rightarrow> real" where
  "notchStart p edgeLength notchLength margin =
     (let wanted = offset p * edgeLength - notchLength / 2;
          limit = edgeLength - notchLength - margin
      in if limit < margin then max 0 ((edgeLength - notchLength) / 2) else js_clamp wanted margin limit)"

definition edge_of :: "js_val \<Rightarrow> notch_edge option" where
  "edge_of v = map_of [(JStr ''left'', EdgeLeft), (JStr ''right'', EdgeRight), (JStr ''top'', EdgeTop), (JStr ''bottom'', EdgeBottom)] v"

definition parseNotchPlacement :: "(string \<Rightarrow> js_val option) \<Rightarrow> string option \<Rightarrow> notch_placement" where
  "parseNotchPlacement json_parse raw =
     (case raw of
        None \<Rightarrow> DEFAULT_NOTCH_PLACEMENT
      | Some s \<Rightarrow>
          if s = [] then DEFAULT_NOTCH_PLACEMENT
          else case json_parse s of
            None \<Rightarrow> DEFAULT_NOTCH_PLACEMENT
          | Some v \<Rightarrow>
              (case (edge_of (js_get v ''edge''), js_num (js_get v ''offset'')) of
                 (Some e, Some x) \<Rightarrow> \<lparr>edge = e, offset = js_clamp x 0 1\<rparr>
               | _ \<Rightarrow> DEFAULT_NOTCH_PLACEMENT))"

section \<open>The checklist holds the latest calls\<close>

lemma find_replace_step:
  "List.find (\<lambda>s. step_id s = step_id n) ss \<noteq> None \<Longrightarrow>
   map step_id (replace_step n ss) = map step_id ss \<and> n \<in> set (replace_step n ss)"
  by (induction ss) auto

lemma last_steps_bound: "length (last_steps ss) \<le> NOTCH_MAX_STEPS"
  by (simp add: last_steps_def)

lemma map_last_steps: "map step_id (last_steps ss) = drop (length ss - NOTCH_MAX_STEPS) (map step_id ss)"
  by (simp add: last_steps_def drop_map)

text \<open>Whatever the order of the events, the checklist has at most six calls, each once, of
  the latest session only; the call of the latest event is on it with the status that event gave,
  and a call already on the list keeps its place.\<close>

lemma checklist_has_the_latest:
  assumes "distinct (map step_id (steps c))" and "length (steps c) \<le> NOTCH_MAX_STEPS"
  shows "let c' = applyNotchStep c session e in
    distinct (map step_id (steps c')) \<and> length (steps c') \<le> NOTCH_MAX_STEPS \<and> sessionId c' = Some session \<and>
    (\<exists>s\<in>set (steps c'). step_id s = toolCallId e \<and> (\<forall>st\<in>set_option (ev_status e). step_status s = st)) \<and>
    (sessionId c = Some session \<and> toolCallId e \<in> step_id ` set (steps c) \<longrightarrow>
       map step_id (steps c') = map step_id (steps c))"
proof -
  define ss where "ss = (if sessionId c = Some session then steps c else [])"
  define known where "known = List.find (\<lambda>s. step_id s = toolCallId e) ss"
  define n where "n = next_step known e"
  have d: "distinct (map step_id ss)" "length ss \<le> NOTCH_MAX_STEPS" using assms by (auto simp: ss_def)
  have n: "step_id n = toolCallId e" "\<forall>st\<in>set_option (ev_status e). step_status n = st"
    by (auto simp: n_def next_step_def)
  have c': "applyNotchStep c session e =
      \<lparr>sessionId = Some session, steps = last_steps (case known of Some _ \<Rightarrow> replace_step n ss | None \<Rightarrow> ss @ [n])\<rparr>"
    by (simp only: applyNotchStep_def Let_def ss_def known_def n_def)
  show ?thesis
  proof (cases known)
    case (Some k)
    have r: "map step_id (replace_step n ss) = map step_id ss" "n \<in> set (replace_step n ss)"
      using find_replace_step [of n ss] n(1) Some by (simp_all add: known_def)
    then have len: "length (replace_step n ss) \<le> NOTCH_MAX_STEPS" using d(2) by (metis length_map)
    then have c2: "applyNotchStep c session e = \<lparr>sessionId = Some session, steps = replace_step n ss\<rparr>"
      unfolding c' using Some by (simp add: last_steps_def)
    have "\<exists>s\<in>set (replace_step n ss). step_id s = toolCallId e \<and> (\<forall>st\<in>set_option (ev_status e). step_status s = st)"
      using r(2) n by blast
    moreover have "map step_id (replace_step n ss) = map step_id (steps c)" if "sessionId c = Some session"
      using r(1) that by (simp add: ss_def)
    ultimately show ?thesis unfolding c2 Let_def using r(1) d(1) len by simp
  next
    case None
    have c2: "applyNotchStep c session e = \<lparr>sessionId = Some session, steps = last_steps (ss @ [n])\<rparr>"
      unfolding c' using None by simp
    have new: "toolCallId e \<notin> step_id ` set ss" using None by (auto simp: known_def find_None_all)
    then have dist: "distinct (map step_id (last_steps (ss @ [n])))"
      using d(1) n(1) unfolding map_last_steps by (intro distinct_drop) auto
    have "n \<in> set (last_steps (ss @ [n]))" by (simp add: last_steps_def NOTCH_MAX_STEPS_def)
    then have "\<exists>s\<in>set (last_steps (ss @ [n])). step_id s = toolCallId e \<and> (\<forall>st\<in>set_option (ev_status e). step_status s = st)"
      using n by blast
    moreover have "\<not> (sessionId c = Some session \<and> toolCallId e \<in> step_id ` set (steps c))"
      using new by (auto simp: ss_def)
    ultimately show ?thesis unfolding c2 Let_def using dist last_steps_bound by auto
  qed
qed

definition demo_step_event :: "string \<Rightarrow> step_status option \<Rightarrow> step_event" where
  "demo_step_event i st = \<lparr>toolCallId = i, ev_title = Some ''Read'', ev_status = st\<rparr>"

lemma checklist_has_the_latest_witness:
  "let c = applyNotchStep (applyNotchStep \<lparr>sessionId = None, steps = []\<rparr> ''s'' (demo_step_event ''1'' None)) ''s'' (demo_step_event ''2'' None);
       c' = applyNotchStep c ''s'' (demo_step_event ''1'' (Some StepCompleted))
   in map step_id (steps c') = [''1'', ''2''] \<and> length (steps c') \<le> NOTCH_MAX_STEPS"
proof -
  let ?c = "applyNotchStep (applyNotchStep \<lparr>sessionId = None, steps = []\<rparr> ''s'' (demo_step_event ''1'' None)) ''s'' (demo_step_event ''2'' None)"
  have c: "map step_id (steps ?c) = [''1'', ''2''] \<and> sessionId ?c = Some ''s''" by code_simp
  have "distinct (map step_id (steps ?c)) \<and> length (steps ?c) \<le> NOTCH_MAX_STEPS \<and> ''1'' \<in> step_id ` set (steps ?c)"
    by code_simp
  with checklist_has_the_latest [of ?c "''s''" "demo_step_event ''1'' (Some StepCompleted)"] c show ?thesis
    by (simp add: Let_def demo_step_event_def)
qed

section \<open>The notch stays in the window\<close>

text \<open>A dropped notch snaps to a nearest edge, and wherever it is stored along that edge the
  whole notch lies inside the edge, with its margin on both sides whenever there is room for it.\<close>

lemma notch_stays_in_the_window:
  assumes "0 \<le> notchLength" and "notchLength \<le> edgeLength" and "0 \<le> margin"
  shows "0 \<le> notchStart p edgeLength notchLength margin \<and>
    notchStart p edgeLength notchLength margin + notchLength \<le> edgeLength \<and>
    (notchLength + 2 * margin \<le> edgeLength \<longrightarrow>
       margin \<le> notchStart p edgeLength notchLength margin \<and>
       notchStart p edgeLength notchLength margin + notchLength + margin \<le> edgeLength) \<and>
    (\<forall>d\<in>set (edge_distances x y width height).
       snd d \<ge> the (map_of (edge_distances x y width height) (edge (snapNotchPlacement x y width height)))) \<and>
    0 \<le> offset (snapNotchPlacement x y width height) \<and> offset (snapNotchPlacement x y width height) \<le> 1"
proof (intro conjI)
  show "0 \<le> notchStart p edgeLength notchLength margin"
    using assms by (auto simp: notchStart_def js_clamp_def Let_def)
  show "notchStart p edgeLength notchLength margin + notchLength \<le> edgeLength"
    using assms by (auto simp: notchStart_def js_clamp_def Let_def max_def min_def field_simps)
  show "notchLength + 2 * margin \<le> edgeLength \<longrightarrow> margin \<le> notchStart p edgeLength notchLength margin \<and>
      notchStart p edgeLength notchLength margin + notchLength + margin \<le> edgeLength"
    using assms by (auto simp: notchStart_def js_clamp_def Let_def max_def min_def)
  show "\<forall>d\<in>set (edge_distances x y width height).
       snd d \<ge> the (map_of (edge_distances x y width height) (edge (snapNotchPlacement x y width height)))"
    by (auto simp: edge_distances_def snapNotchPlacement_def nearest_edge_def Let_def)
  show "0 \<le> offset (snapNotchPlacement x y width height)" "offset (snapNotchPlacement x y width height) \<le> 1"
    by (simp_all add: snapNotchPlacement_def Let_def js_clamp_bounds)
qed

lemma notch_stays_in_the_window_witness:
  "notchStart \<lparr>edge = EdgeLeft, offset = 1\<rparr> 800 100 10 + 100 + 10 \<le> 800"
  using notch_stays_in_the_window [of 100 800 10 "\<lparr>edge = EdgeLeft, offset = 1\<rparr>"] by simp

end
