(* ===== verification/Provider_Failover.thy ===== *)
theory Provider_Failover
  imports Js_Regex
begin

text \<open>
  Which failures move a chat to another provider, and which providers rest:
  \<open>contrib/hivemindide/common/providerFailover.ts\<close>. The error patterns of the source are data
  of \<open>Js_Regex\<close>; the class \<open>ProviderCooldowns\<close> is a map passed through its operations, and
  \<open>Date.now()\<close> is the argument \<open>now\<close>.
\<close>

datatype failover_mode = Ask | Auto | Off

definition toFailoverMode :: "js_val \<Rightarrow> failover_mode" where
  "toFailoverMode value =
     (if value = JStr ''auto'' then Auto else if value = JStr ''off'' then Off else Ask)"

record failover_provider =
  pname :: string
  purl :: string
  pmodel :: string
  pmodels :: "string list option"
  penabled :: "bool option"

definition trimmed_field :: "js_val \<Rightarrow> string \<Rightarrow> string" where
  "trimmed_field entry k = (case js_str (js_get entry k) of Some s \<Rightarrow> js_trim s | None \<Rightarrow> [])"

definition parse_models :: "js_val \<Rightarrow> string list" where
  "parse_models v =
     (case js_arr v of None \<Rightarrow> []
      | Some ms \<Rightarrow> map js_trim (filter (\<lambda>m. js_trim m \<noteq> []) (List.map_filter js_str ms)))"

definition make_provider :: "js_val \<Rightarrow> string \<Rightarrow> string \<Rightarrow> string \<Rightarrow> failover_provider" where
  "make_provider entry name url model =
     (let models = parse_models (js_get entry ''models'') in
      \<lparr>pname = name, purl = url, pmodel = model,
       pmodels = (if models \<noteq> [] then Some models else None),
       penabled = (if js_get entry ''enabled'' = JBool False then Some False else None)\<rparr>)"

fun parse_provider_entries :: "string list \<Rightarrow> js_val list \<Rightarrow> failover_provider list" where
  "parse_provider_entries seen [] = []"
| "parse_provider_entries seen (entry # es) =
     (let name = trimmed_field entry ''name'';
          url = trimmed_field entry ''url'';
          model = trimmed_field entry ''model''
      in if name \<noteq> [] \<and> url \<noteq> [] \<and> model \<noteq> [] \<and> name \<notin> set seen
         then make_provider entry name url model # parse_provider_entries (name # seen) es
         else parse_provider_entries seen es)"

definition parseFailoverProviders :: "js_val \<Rightarrow> failover_provider list" where
  "parseFailoverProviders value =
     (case js_arr value of None \<Rightarrow> [] | Some es \<Rightarrow> parse_provider_entries [] es)"

section \<open>Failure kinds\<close>

datatype failure_kind = Quota | RateLimit | Auth | Unavailable | Other

record provider_failure =
  kind :: failure_kind
  retryAfterMs :: "int option"
  message :: string

definition tool_support_re :: re where
  "tool_support_re = alts
     [liti ''does not support tools'',
      seqs [liti ''tool'', ropt (chi (CHR ''s'')), chi (CHR '' ''),
            ropt (alts [liti ''use '', liti ''calling '']), ropt (alts [liti ''is '', liti ''are '']),
            liti ''not supported''],
      liti ''tools param requires'']"

definition isToolSupportError :: "string \<Rightarrow> bool" where
  "isToolSupportError msg = re_test tool_support_re msg"

definition isFailoverReason :: "failure_kind \<Rightarrow> bool" where
  "isFailoverReason k \<longleftrightarrow> k \<noteq> Other"

definition QUOTA :: re where
  "QUOTA = alts
     [seqs [liti ''insufficient'', clsi ''_ '', liti ''quota''],
      seqs [liti ''exceeded your '', ropt (liti ''current ''), liti ''quota''],
      liti ''credit balance'',
      seqs [liti ''out of credit'', ropt (chi (CHR ''s''))],
      liti ''billing'', liti ''payment required'', liti ''usage limit'',
      seqs [liti ''spend'', ropt (liti ''ing''), liti '' limit'']]"

definition RATE_LIMIT :: re where
  "RATE_LIMIT = alts
     [seqs [liti ''rate'', ropt (clsi ''_ ''), liti ''limit''],
      liti ''too many requests'',
      seqs [liti ''per '', alts [liti ''minute'', liti ''min'', liti ''second''], RWordB],
      seqs [RWordB, alts [liti ''rpm'', liti ''tpm''], RWordB]]"

definition SOFT_QUOTA :: re where
  "SOFT_QUOTA = alts
     [seqs [RWordB, liti ''quota'', RWordB],
      seqs [liti ''resource'', clsi ''_ '', liti ''exhausted'']]"

definition AUTH :: re where
  "AUTH = alts
     [seqs [liti ''invalid'', clsi ''_ '', ropt (seqs [liti ''api'', clsi ''_ '']), liti ''key''],
      liti ''incorrect api key'', liti ''authentication'',
      seqs [liti ''unauthori'', clsi ''sz'', liti ''ed''],
      liti ''permission denied'',
      seqs [liti ''api key '', ropt (liti ''is ''),
            alts [liti ''missing'', liti ''invalid'', liti ''not valid'']],
      seqs [liti ''not '', alts [liti ''signed'', liti ''logged''], liti '' in'']]"

definition UNAVAILABLE :: re where
  "UNAVAILABLE = alts
     [liti ''overloaded'', liti ''service unavailable'', liti ''bad gateway'',
      liti ''gateway timeout'', liti ''temporarily unavailable'', liti ''server is busy'',
      seqs [liti ''connection '', alts [liti ''error'', liti ''refused'']],
      liti ''lost the connection'', liti ''econnrefused'', liti ''enotfound'', liti ''fetch failed'']"

definition http_status_re :: re where
  "http_status_re = seqs [RWordB, lit ''HTTP '', RGroup 1 (seqs [rdigit, rdigit, rdigit]), RWordB]"

text \<open>\<open>Number(undefined)\<close> is NaN, equal to no status: \<open>None\<close>.\<close>

definition http_status :: "string \<Rightarrow> nat option" where
  "http_status msg = map_option read_nat (re_cap (re_exec http_status_re msg) 1)"

section \<open>The wait a provider asked for\<close>

definition decimal_re :: re where
  "decimal_re = seqs [rplus rdigit, ropt (seqs [ch (CHR ''.''), rplus rdigit])]"

text \<open>\<open>Number(s)\<close> of a string \<open>\d+(\.\d+)?\<close>.\<close>

definition read_decimal :: "string \<Rightarrow> real" where
  "read_decimal s =
     (case js_split (CHR ''.'') s of
        [a, b] \<Rightarrow> real (read_nat a) + real (read_nat b) / 10 ^ length b
      | a # _ \<Rightarrow> real (read_nat a)
      | [] \<Rightarrow> 0)"

definition retry_header_re :: re where
  "retry_header_re = seqs [liti ''retry after '', RGroup 1 decimal_re, chi (CHR ''s''), RWordB]"

definition wait_unit_re :: re where
  "wait_unit_re = alts [liti ''ms'', chi (CHR ''h''), chi (CHR ''m''), chi (CHR ''s'')]"

definition retry_body_re :: re where
  "retry_body_re = seqs [liti ''try again in '',
     RGroup 1 (rplus (seqs [decimal_re, rstar rspace, wait_unit_re, rstar rspace]))]"

definition retry_part_re :: re where
  "retry_part_re = seqs [RGroup 1 decimal_re, rstar rspace, RGroup 2 wait_unit_re]"

definition unit_ms :: "string \<Rightarrow> real" where
  "unit_ms u = (if u = ''ms'' then 1 else if u = ''s'' then 1000 else if u = ''m'' then 60000
                else 3600000)"

definition wait_parts_ms :: "string \<Rightarrow> real" where
  "wait_parts_ms body =
     sum_list (map (\<lambda>m. read_decimal (case re_cap (Some m) 1 of Some a \<Rightarrow> a | None \<Rightarrow> [])
                        * unit_ms (js_lower (case re_cap (Some m) 2 of Some u \<Rightarrow> u | None \<Rightarrow> ''s'')))
                   (re_match_all retry_part_re body))"

definition parseRetryAfter :: "string \<Rightarrow> int option" where
  "parseRetryAfter msg =
     (case re_cap (re_exec retry_header_re msg) 1 of
        Some header \<Rightarrow> Some (js_round (read_decimal header * 1000))
      | None \<Rightarrow>
          (case re_cap (re_exec retry_body_re msg) 1 of
             None \<Rightarrow> None
           | Some body \<Rightarrow>
               (let ms = wait_parts_ms body in if ms > 0 then Some (js_round ms) else None)))"

definition classify_kind :: "string \<Rightarrow> failure_kind" where
  "classify_kind msg =
     (let status = http_status msg in
      if status = Some 402 \<or> re_test QUOTA msg then Quota
      else if re_test RATE_LIMIT msg then RateLimit
      else if re_test SOFT_QUOTA msg then Quota
      else if status = Some 429 then RateLimit
      else if status = Some 401 \<or> status = Some 403 \<or> re_test AUTH msg then Auth
      else if status = Some 500 \<or> status = Some 502 \<or> status = Some 503 \<or> status = Some 504
              \<or> status = Some 529 \<or> re_test UNAVAILABLE msg then Unavailable
      else Other)"

definition classifyProviderError :: "string \<Rightarrow> provider_failure" where
  "classifyProviderError msg =
     \<lparr>kind = classify_kind msg, retryAfterMs = parseRetryAfter msg, message = msg\<rparr>"

section \<open>Cooldowns\<close>

fun DEFAULT_COOLDOWN_MS :: "failure_kind \<Rightarrow> int" where
  "DEFAULT_COOLDOWN_MS Quota = 60 * 60000"
| "DEFAULT_COOLDOWN_MS RateLimit = 60000"
| "DEFAULT_COOLDOWN_MS Auth = 24 * 60 * 60000"
| "DEFAULT_COOLDOWN_MS Unavailable = 2 * 60000"
| "DEFAULT_COOLDOWN_MS Other = 0"

record cooldown =
  until :: int
  failure :: provider_failure

type_synonym cooldowns = "(string \<times> cooldown) list"

definition cooldown_ms :: "provider_failure \<Rightarrow> int" where
  "cooldown_ms f = (case retryAfterMs f of Some ms \<Rightarrow> ms | None \<Rightarrow> DEFAULT_COOLDOWN_MS (kind f))"

definition cd_mark ::
  "cooldowns \<Rightarrow> string \<Rightarrow> provider_failure \<Rightarrow> int \<Rightarrow> cooldown option \<times> cooldowns" where
  "cd_mark c provider f now =
     (let ms = cooldown_ms f in
      if ms \<le> 0 then (None, c)
      else (let cd = \<lparr>until = now + ms, failure = f\<rparr> in (Some cd, AList.update provider cd c)))"

definition cd_get :: "cooldowns \<Rightarrow> string \<Rightarrow> int \<Rightarrow> cooldown option \<times> cooldowns" where
  "cd_get c provider now =
     (case map_of c provider of
        Some e \<Rightarrow> if until e \<le> now then (None, AList.delete provider c) else (Some e, c)
      | None \<Rightarrow> (None, c))"

definition cd_clear :: "cooldowns \<Rightarrow> string option \<Rightarrow> cooldowns" where
  "cd_clear c provider = (case provider of None \<Rightarrow> [] | Some p \<Rightarrow> AList.delete p c)"

fun cd_collect :: "string list \<Rightarrow> cooldowns \<Rightarrow> int \<Rightarrow> (string \<times> cooldown) list \<times> cooldowns" where
  "cd_collect [] c now = ([], c)"
| "cd_collect (name # names) c now =
     (let (e, c') = cd_get c name now; (es, c'') = cd_collect names c' now
      in ((case e of Some cd \<Rightarrow> (name, cd) # es | None \<Rightarrow> es), c''))"

definition cd_active :: "cooldowns \<Rightarrow> int \<Rightarrow> (string \<times> cooldown) list \<times> cooldowns" where
  "cd_active c now =
     (let (es, c') = cd_collect (map fst c) c now in (sort_key (\<lambda>e. until (snd e)) es, c'))"

text \<open>A filter whose test reads, and may clean up, a store.\<close>

fun thread_filter ::
  "('s \<Rightarrow> string \<Rightarrow> 'e option \<times> 's) \<Rightarrow> ('p \<Rightarrow> string) \<Rightarrow> ('p \<Rightarrow> bool) \<Rightarrow> 's \<Rightarrow> 'p list \<Rightarrow> 'p list \<times> 's"
where
  "thread_filter get nm keep s [] = ([], s)"
| "thread_filter get nm keep s (p # ps) =
     (if keep p
      then (let (e, s') = get s (nm p); (qs, s'') = thread_filter get nm keep s' ps
            in (if e = None then p # qs else qs, s''))
      else thread_filter get nm keep s ps)"

definition availableFallbacks ::
  "failover_provider list \<Rightarrow> string set \<Rightarrow> cooldowns \<Rightarrow> int \<Rightarrow> failover_provider list \<times> cooldowns" where
  "availableFallbacks ps failed c now =
     thread_filter (\<lambda>c p. cd_get c p now) pname (\<lambda>p. pname p \<notin> failed) c ps"

definition describeFailure :: "provider_failure \<Rightarrow> string" where
  "describeFailure f =
     (case kind f of
        Quota \<Rightarrow> ''ran out of quota''
      | RateLimit \<Rightarrow> ''hit a rate limit''
      | Auth \<Rightarrow> ''rejected its API key''
      | Unavailable \<Rightarrow> ''is unavailable''
      | Other \<Rightarrow> ''failed'')"

definition formatWait :: "int \<Rightarrow> string" where
  "formatWait ms =
     (if ms \<ge> 90 * 60000 then ''in '' @ show_nat (nat (js_round (of_int ms / 3600000))) @ '' h''
      else if ms \<ge> 60000 then ''in '' @ show_nat (nat (js_round (of_int ms / 60000))) @ '' min''
      else ''in '' @ show_nat (nat (max 1 (js_round (of_int ms / 1000)))) @ '' s'')"

section \<open>A store that forgets expired entries\<close>

text \<open>
  What the clients of the cooldowns rely on: reading a name may clean the store up, but never
  changes what another read at the same time or later answers.
\<close>

locale expiring_store =
  fixes get :: "'s \<Rightarrow> string \<Rightarrow> int \<Rightarrow> 'e option \<times> 's"
    and ok :: "'s \<Rightarrow> bool"
  assumes get_pure: "ok s \<Longrightarrow> now \<le> now' \<Longrightarrow> fst (get (snd (get s p now)) q now') = fst (get s q now')"
    and get_ok: "ok s \<Longrightarrow> ok (snd (get s p now))"
begin

lemma thread_filter_pure:
  "ok s \<Longrightarrow> fst (thread_filter (\<lambda>s p. get s p now) nm keep s ps) =
     filter (\<lambda>p. keep p \<and> fst (get s (nm p) now) = None) ps"
proof (induction ps arbitrary: s)
  case (Cons p ps)
  show ?case
  proof (cases "keep p")
    case True
    have "fst (thread_filter (\<lambda>s p. get s p now) nm keep (snd (get s (nm p) now)) ps) =
        filter (\<lambda>p. keep p \<and> fst (get s (nm p) now) = None) ps"
      using Cons.IH [OF get_ok [OF Cons.prems], of "nm p" now] get_pure [OF Cons.prems order_refl]
      by simp
    with True show ?thesis by (auto simp: case_prod_beta Let_def)
  next
    case False
    with Cons show ?thesis by simp
  qed
qed simp

end

definition cd_ok :: "cooldowns \<Rightarrow> bool" where
  "cd_ok c \<longleftrightarrow> distinct (map fst c)"

lemma fst_cd_get:
  "fst (cd_get c p now) =
     (case map_of c p of Some e \<Rightarrow> if until e \<le> now then None else Some e | None \<Rightarrow> None)"
  by (simp add: cd_get_def split: option.split)

lemma map_of_snd_cd_get:
  "map_of (snd (cd_get c p now)) q =
     (if q = p \<and> fst (cd_get c p now) = None then None else map_of c q)"
  by (auto simp: cd_get_def delete_conv' split: option.split)

lemma cd_ok_get [simp]: "cd_ok c \<Longrightarrow> cd_ok (snd (cd_get c p now))"
  by (auto simp: cd_ok_def cd_get_def distinct_delete split: option.split)

lemma cd_ok_mark [simp]: "cd_ok c \<Longrightarrow> cd_ok (snd (cd_mark c p f now))"
  by (auto simp: cd_ok_def cd_mark_def Let_def distinct_update)

lemma cd_ok_clear [simp]: "cd_ok c \<Longrightarrow> cd_ok (cd_clear c p)"
  by (auto simp: cd_ok_def cd_clear_def distinct_delete split: option.split)

interpretation cooldown: expiring_store cd_get cd_ok
proof
  fix s p q and now now' :: int assume "cd_ok s" "now \<le> now'"
  then show "fst (cd_get (snd (cd_get s p now)) q now') = fst (cd_get s q now')"
    by (auto simp: fst_cd_get map_of_snd_cd_get split: option.splits)
qed simp

lemma cd_get_mark:
  "fst (cd_get (snd (cd_mark c p f now)) q now') =
     (if q = p \<and> cooldown_ms f > 0
      then (if now' < now + cooldown_ms f then Some \<lparr>until = now + cooldown_ms f, failure = f\<rparr> else None)
      else fst (cd_get c q now'))"
  by (auto simp: fst_cd_get cd_mark_def Let_def update_conv')

lemma cd_get_clear: "fst (cd_get (cd_clear c (Some p)) q now) = (if q = p then None else fst (cd_get c q now))"
  by (auto simp: fst_cd_get cd_clear_def delete_conv')

lemma default_cooldown_positive: "0 < DEFAULT_COOLDOWN_MS k \<longleftrightarrow> isFailoverReason k"
  by (cases k) (simp_all add: isFailoverReason_def)

lemma fst_availableFallbacks:
  "cd_ok c \<Longrightarrow> fst (availableFallbacks ps failed c now) =
     filter (\<lambda>p. pname p \<notin> failed \<and> fst (cd_get c (pname p) now) = None) ps"
  unfolding availableFallbacks_def by (rule cooldown.thread_filter_pure)

lemma cd_collect_eq:
  "cd_ok c \<Longrightarrow> fst (cd_collect names c now) =
     List.map_filter (\<lambda>n. map_option (\<lambda>e. (n, e)) (fst (cd_get c n now))) names"
proof (induction names arbitrary: c)
  case (Cons n ns)
  then show ?case
    using cooldown.get_pure [OF Cons.prems order_refl, of n now]
    by (auto simp: case_prod_beta Let_def List.map_filter_def split: option.splits)
qed (simp add: List.map_filter_def)

lemma map_filter_alist:
  "distinct (map fst c) \<Longrightarrow>
   List.map_filter (\<lambda>n. map_option (\<lambda>e. (n, e)) (fst (cd_get c n now))) (map fst c) =
   filter (\<lambda>e. now < until (snd e)) c"
proof -
  assume d: "distinct (map fst c)"
  have "List.map_filter (\<lambda>n. map_option (\<lambda>e. (n, e)) (fst (cd_get c n now))) (map fst d) =
      filter (\<lambda>e. now < until (snd e)) d" if "set d \<subseteq> set c" for d
    using that
  proof (induction d)
    case (Cons x d)
    then have "map_of c (fst x) = Some (snd x)" using d by (simp add: map_of_is_SomeI)
    with Cons show ?case by (simp add: List.map_filter_def fst_cd_get)
  qed (simp add: List.map_filter_def)
  then show ?thesis by simp
qed

section \<open>Parsed providers\<close>

definition provider_ok :: "failover_provider \<Rightarrow> bool" where
  "provider_ok p \<longleftrightarrow> pname p \<noteq> [] \<and> purl p \<noteq> [] \<and> pmodel p \<noteq> [] \<and>
     trimmed (pname p) \<and> trimmed (purl p) \<and> trimmed (pmodel p) \<and>
     (\<forall>ms. pmodels p = Some ms \<longrightarrow> ms \<noteq> [] \<and> [] \<notin> set ms \<and> list_all trimmed ms)"

lemma trimmed_trimmed_field [simp]: "trimmed (trimmed_field e k)"
  by (auto simp: trimmed_field_def trimmed_def [of "[]"] split: option.split)

lemma parse_models_ok: "[] \<notin> set (parse_models v) \<and> list_all trimmed (parse_models v)"
  by (auto simp: parse_models_def list_all_iff split: option.split)

lemma make_provider_ok:
  "\<lbrakk>n \<noteq> []; u \<noteq> []; m \<noteq> []; trimmed n; trimmed u; trimmed m\<rbrakk> \<Longrightarrow> provider_ok (make_provider e n u m)"
  using parse_models_ok [of "js_get e ''models''"]
  by (simp add: make_provider_def provider_ok_def Let_def)

lemma pname_make_provider [simp]: "pname (make_provider e n u m) = n"
  by (simp add: make_provider_def Let_def)

lemma parse_provider_entries_ok:
  "list_all provider_ok (parse_provider_entries seen es) \<and>
   distinct (map pname (parse_provider_entries seen es)) \<and>
   set (map pname (parse_provider_entries seen es)) \<inter> set seen = {}"
proof (induction es arbitrary: seen)
  case (Cons e es)
  show ?case
  proof (cases "trimmed_field e ''name'' \<noteq> [] \<and> trimmed_field e ''url'' \<noteq> [] \<and>
      trimmed_field e ''model'' \<noteq> [] \<and> trimmed_field e ''name'' \<notin> set seen")
    case True
    then show ?thesis
      using Cons.IH [of "trimmed_field e ''name'' # seen"]
      by (simp add: Let_def make_provider_ok)
  next
    case False
    then have "parse_provider_entries seen (e # es) = parse_provider_entries seen es"
      by (auto simp: Let_def)
    then show ?thesis using Cons.IH [of seen] by simp
  qed
qed simp

text \<open>
  Property C20: the providers read from settings are well formed whatever the setting holds:
  distinct non-empty names, and non-empty trimmed addresses and models.
\<close>

theorem parseFailoverProviders_well_formed:
  "distinct (map pname (parseFailoverProviders v)) \<and>
   list_all provider_ok (parseFailoverProviders v)"
  using parse_provider_entries_ok [of "[]"] by (simp add: parseFailoverProviders_def split: option.split)

section \<open>What a turn relies on\<close>

text \<open>The backups offered are exactly the configured providers that neither failed this
  turn nor rest, in the user's order, although each check may delete expired cooldowns.\<close>

lemma fallbacks_are_the_available:
  assumes "distinct (map fst c)"
  shows "fst (availableFallbacks ps failed c now) =
    filter (\<lambda>p. pname p \<notin> failed \<and> \<not> (\<exists>e. map_of c (pname p) = Some e \<and> now < until e)) ps"
proof -
  have "fst (cd_get c q now) = None \<longleftrightarrow> \<not> (\<exists>e. map_of c q = Some e \<and> now < until e)" for q
    by (auto simp: fst_cd_get split: option.splits)
  with assms show ?thesis by (simp add: fst_availableFallbacks cd_ok_def)
qed

definition demo_failure :: "provider_failure" where
  "demo_failure = \<lparr>kind = RateLimit, retryAfterMs = Some 5000, message = ''HTTP 429''\<rparr>"

definition demo_provider :: "string \<Rightarrow> failover_provider" where
  "demo_provider n = \<lparr>pname = n, purl = ''http://h'', pmodel = ''m'', pmodels = None, penabled = None\<rparr>"

lemma fallbacks_are_the_available_witness:
  "fst (availableFallbacks (map demo_provider [''A'', ''B'', ''C'']) {''C''}
      [(''A'', \<lparr>until = 1000, failure = demo_failure\<rparr>)] 999) = [demo_provider ''B'']"
  by (subst fallbacks_are_the_available) (simp_all add: demo_provider_def)


text \<open>The list of resting providers holds exactly the entries that have not expired, the
  one that is back soonest first.\<close>

lemma active_cooldowns_sorted:
  assumes "distinct (map fst c)"
  shows "sorted (map (until \<circ> snd) (fst (cd_active c now))) \<and>
         mset (fst (cd_active c now)) = mset (filter (\<lambda>e. now < until (snd e)) c)"
proof -
  have "cd_ok c" using assms by (simp add: cd_ok_def)
  then have "fst (cd_active c now) = sort_key (\<lambda>e. until (snd e)) (filter (\<lambda>e. now < until (snd e)) c)"
    using cd_collect_eq [of c "map fst c" now] map_filter_alist [OF assms, of now]
    by (simp add: cd_active_def case_prod_beta Let_def)
  then show ?thesis by (simp add: comp_def)
qed

lemma active_cooldowns_sorted_witness:
  "mset (fst (cd_active [(''A'', \<lparr>until = 20, failure = demo_failure\<rparr>),
      (''B'', \<lparr>until = 10, failure = demo_failure\<rparr>), (''C'', \<lparr>until = 5, failure = demo_failure\<rparr>)] 5))
   = {#(''A'', \<lparr>until = 20, failure = demo_failure\<rparr>), (''B'', \<lparr>until = 10, failure = demo_failure\<rparr>)#}"
  by (subst active_cooldowns_sorted [THEN conjunct2]) simp_all

section \<open>Reading the text of an error\<close>

text \<open>An error that names a spent balance (in any letter case) is a quota failure whatever
  HTTP status it carries: OpenAI reports an empty balance as a 429.\<close>

lemma quota_wording_wins:
  assumes "phrase \<in> {''credit balance'', ''billing'', ''payment required'', ''usage limit''}"
    and "sublist phrase (js_lower msg)"
  shows "kind (classifyProviderError msg) = Quota"
proof -
  have "js_lower phrase = phrase" using assms(1) by (auto simp: js_lower_def js_lower_char_def)
  with assms(2) have "re_test (liti phrase) msg" by (simp add: re_test_liti)
  with assms(1) have "re_test QUOTA msg" unfolding QUOTA_def re_test_alts by fastforce
  then show ?thesis by (simp add: classifyProviderError_def classify_kind_def Let_def)
qed

lemma quota_wording_wins_witness:
  "kind (classifyProviderError ''HTTP 429: Your Credit Balance is too low'') = Quota"
  by (rule quota_wording_wins [of "''credit balance''"]) (simp, code_simp)

text \<open>A retry header after any text that does not itself contain one is the one that is read.\<close>

lemma re_m_decimal_first:
  assumes "ds \<noteq> []" "list_all is_digit ds" "v = [] \<or> \<not> is_digit (hd v)" "v = [] \<or> hd v \<noteq> CHR ''.''"
  shows "\<exists>more. re_m decimal_re (bef, ds @ v, caps) = (rev ds @ bef, v, caps) # more"
proof -
  obtain more where d: "re_m (rplus rdigit) (bef, ds @ v, caps) = (rev ds @ bef, v, caps) # more"
    using re_m_plus_cls_first [OF assms(1-3)] by (auto simp: rdigit_def)
  have "re_m (ropt (seqs [ch (CHR ''.''), rplus rdigit])) (rev ds @ bef, v, caps) = [(rev ds @ bef, v, caps)]"
    using assms(4) by (cases v) (auto simp: ropt_def ch_def)
  with d show ?thesis unfolding decimal_re_def by simp
qed

lemma retry_header_at:
  "\<exists>st more. re_m retry_header_re (bef, ''retry after '' @ show_nat n @ ''s'' @ rest, []) = st # more \<and>
     map_of (snd (snd st)) 1 = Some (show_nat n)"
  if "\<not> word_at rest"
proof -
  let ?lit = "''retry after ''" and ?v = "''s'' @ rest"
  have l: "re_m (liti ?lit) (bef, ?lit @ show_nat n @ ?v, []) =
      [(rev ?lit @ bef, show_nat n @ ?v, [])]"
    by (simp only: re_m_liti) (simp add: js_lower_def)
  have "hd ?v = CHR ''s''" by simp
  then have nd: "\<not> is_digit (hd ?v)" "hd ?v \<noteq> CHR ''.''" by (simp_all add: is_digit_def)
  obtain more where "re_m decimal_re (rev ?lit @ bef, show_nat n @ ?v, []) =
      (rev (show_nat n) @ rev ?lit @ bef, ?v, []) # more"
    using re_m_decimal_first [OF show_nat_nonempty show_nat_digits, of ?v] nd by blast
  then have g: "\<exists>more. re_m (RGroup 1 decimal_re) (rev ?lit @ bef, show_nat n @ ?v, []) =
      (rev (show_nat n) @ rev ?lit @ bef, ?v, [(1, show_nat n)]) # more"
    by simp
  have "is_word (CHR ''s'')" by (simp add: is_word_def)
  with that have t: "re_m (RSeq (chi (CHR ''s'')) RWordB) (b, ?v, caps) = [(CHR ''s'' # b, rest, caps)]" for b caps
    by (simp add: chi_def word_at_def)
  from g t l show ?thesis unfolding retry_header_re_def by auto
qed

lemma read_decimal_show_nat [simp]: "read_decimal (show_nat n) = real n"
proof -
  have "CHR ''.'' \<notin> set (show_nat n)"
    using show_nat_digits [of n] by (auto simp: list_all_iff is_digit_def)
  then show ?thesis by (simp add: read_decimal_def js_split_single)
qed

lemma retry_header_not_before:
  assumes "\<not> sublist ''retry after '' (js_lower (x @ y @ ''retry after''))" "y \<noteq> []"
  shows "re_m retry_header_re (b, y @ ''retry after '' @ v, []) = []"
proof -
  let ?l = "''retry after ''" and ?bl = "''retry after''"
  have low: "js_lower ?l = ?l" by (simp add: js_lower_def js_lower_char_def)
  have "\<not> prefix ?l (js_lower (y @ ?l @ v))"
  proof
    assume p: "prefix ?l (js_lower (y @ ?l @ v))"
    have "y @ ?l @ v = (y @ ?bl) @ '' '' @ v" by simp
    then have "js_lower (y @ ?l @ v) = js_lower (y @ ?bl) @ js_lower ('' '' @ v)"
      by (simp add: js_lower_def)
    moreover have "length ?l \<le> length (js_lower (y @ ?bl))" using assms(2) by (cases y) auto
    ultimately have "prefix ?l (js_lower (y @ ?bl))"
      using p by (metis prefix_length_prefix prefix_def)
    then have "sublist ?l (js_lower x @ js_lower (y @ ?bl))"
      by (meson prefix_imp_sublist sublist_append_leftI sublist_order.order_trans sublist_append_rightI
          suffix_imp_sublist suffixI)
    with assms(1) show False by (simp add: js_lower_def)
  qed
  then have "re_m (liti ?l) (b, y @ ?l @ v, []) = []" by (simp only: re_m_liti low if_False)
  then show ?thesis by (simp add: retry_header_re_def)
qed

text \<open>The wait the main process appends to an error (\<open>retry after Ns\<close>) is read back as
  exactly N seconds, wherever it stands in the message, as long as no such note precedes it and the
  unit ends its word.\<close>

lemma retry_after_roundtrip:
  assumes "\<not> sublist ''retry after '' (js_lower (pre @ ''retry after''))" and "\<not> word_at rest"
  shows "retryAfterMs (classifyProviderError (pre @ ''retry after '' @ show_nat n @ ''s'' @ rest)) =
    Some (1000 * int n)"
proof -
  let ?v = "show_nat n @ ''s'' @ rest"
  have "re_search retry_header_re [] (pre @ ''retry after '' @ ?v) =
      re_search retry_header_re (rev pre) (''retry after '' @ ?v)"
    using re_search_skip [of pre retry_header_re "[]"] retry_header_not_before assms(1) by fastforce
  moreover obtain st more where st: "re_m retry_header_re (rev pre, ''retry after '' @ ?v, []) = st # more"
      "map_of (snd (snd st)) 1 = Some (show_nat n)"
    using retry_header_at [OF assms(2)] by blast
  ultimately have "re_cap (re_exec retry_header_re (pre @ ''retry after '' @ ?v)) 1 = Some (show_nat n)"
    using re_search_here [OF st(1)] by (cases st) (simp add: re_exec_def re_cap_def)
  then have "parseRetryAfter (pre @ ''retry after '' @ ?v) = Some (js_round (real n * 1000))"
    by (simp add: parseRetryAfter_def)
  also have "js_round (real n * 1000) = 1000 * int n"
    using js_round_of_int [of "1000 * int n"] by (simp add: mult.commute)
  finally show ?thesis by (simp add: classifyProviderError_def)
qed

lemma retry_after_roundtrip_witness:
  "retryAfterMs (classifyProviderError (''HTTP 429: slow down ('' @ ''retry after '' @ show_nat 30 @ ''s'' @ '')''))
     = Some 30000"
  by (subst retry_after_roundtrip) (code_simp, code_simp, simp)

end
