(* ===== verification/Usage_Limits.thy ===== *)
theory Usage_Limits
  imports Js_Prelude
begin

text \<open>
  How much of each assistant's plan limit is gone: \<open>common/usageLimits.ts\<close>. A window's percentage is
  \<open>None\<close> where the code has \<open>undefined\<close>; \<open>exhausted\<close> is read as \<open>false\<close> when absent. What
  \<open>JSON.parse\<close> and \<open>Date.parse\<close> answer is an argument of the Codex parser (\<open>None\<close> stands for a
  throw and for NaN).
\<close>

record usage_window =
  win_id :: string
  win_label :: string
  usedPercent :: "real option"
  resetsAt :: "real option"
  exhausted :: bool

record provider_limits =
  lim_id :: string
  lim_label :: string
  glyph :: string
  windows :: "usage_window list"
  observedAt :: "real option"
  lim_source :: string

datatype severity = SevUnknown | SevOk | SevElevated | SevHigh | SevCritical

definition SEVERITY_ORDER :: "severity list" where
  "SEVERITY_ORDER = [SevUnknown, SevOk, SevElevated, SevHigh, SevCritical]"

fun index_of :: "'a \<Rightarrow> 'a list \<Rightarrow> int" where
  "index_of x [] = -1"
| "index_of x (y # ys) = (if x = y then 0 else let i = index_of x ys in if i < 0 then -1 else i + 1)"

definition severityOf :: "real option \<Rightarrow> severity" where
  "severityOf percent =
     (case percent of
        None \<Rightarrow> SevUnknown
      | Some p \<Rightarrow> if 90 \<le> p then SevCritical else if 70 \<le> p then SevHigh
                  else if 50 \<le> p then SevElevated else SevOk)"

definition worstSeverity :: "severity list \<Rightarrow> severity" where
  "worstSeverity ss =
     fold (\<lambda>s worst. if index_of s SEVERITY_ORDER > index_of worst SEVERITY_ORDER then s else worst)
       ss SevUnknown"

definition effectivePercent :: "usage_window \<Rightarrow> real option" where
  "effectivePercent w = (if exhausted w then Some 100 else usedPercent w)"

definition liveWindows :: "provider_limits \<Rightarrow> real \<Rightarrow> usage_window list" where
  "liveWindows p now =
     filter (\<lambda>w. case resetsAt w of None \<Rightarrow> True | Some r \<Rightarrow> r > now) (windows p)"

definition fuller :: "usage_window \<Rightarrow> usage_window option \<Rightarrow> usage_window option" where
  "fuller w best =
     (case effectivePercent w of
        None \<Rightarrow> best
      | Some p \<Rightarrow> (case best of
           None \<Rightarrow> Some w
         | Some b \<Rightarrow> if p > (case effectivePercent b of Some q \<Rightarrow> q | None \<Rightarrow> -1) then Some w else best))"

definition headlineWindow :: "provider_limits \<Rightarrow> real \<Rightarrow> usage_window option" where
  "headlineWindow p now =
     (let live = liveWindows p now in
      case fold fuller live None of
        Some w \<Rightarrow> Some w
      | None \<Rightarrow> (case live of [] \<Rightarrow> None | w # _ \<Rightarrow> Some w))"

definition clampPercent :: "real \<Rightarrow> real" where
  "clampPercent value = min 100 (max 0 value)"

definition asObject :: "js_val \<Rightarrow> js_val option" where
  "asObject v = (if js_is_obj v then Some v else None)"

section \<open>Codex\<close>

definition windowLabelForMinutes :: "real \<Rightarrow> string" where
  "windowLabelForMinutes minutes =
     (let near = (\<lambda>target. \<bar>minutes - target\<bar> \<le> target * (2 / 100) + 2) in
      if near (7 * 24 * 60) then ''Weekly limit''
      else if near (24 * 60) then ''Daily limit''
      else if minutes < 24 * 60 then show_int (max 1 (js_round (minutes / 60))) @ ''-hour limit''
      else show_int (js_round (minutes / (24 * 60))) @ ''-day limit'')"

definition codexWindowLabel :: "real option \<Rightarrow> string \<Rightarrow> string" where
  "codexWindowLabel minutes key =
     (case minutes of
        None \<Rightarrow> if key = ''primary'' then ''Short-term limit'' else ''Weekly limit''
      | Some m \<Rightarrow> windowLabelForMinutes m)"

definition codexResetsAt :: "(string \<Rightarrow> real option) \<Rightarrow> js_val \<Rightarrow> real \<Rightarrow> real option" where
  "codexResetsAt date_parse window observed =
     (case js_get window ''resets_at'' of
        JNum t \<Rightarrow> Some (t * 1000)
      | JStr s \<Rightarrow> date_parse s
      | _ \<Rightarrow> (case js_get window ''resets_in_seconds'' of
                JNum secs \<Rightarrow> Some (observed + secs * 1000)
              | _ \<Rightarrow> None))"

definition codex_window ::
  "(string \<Rightarrow> real option) \<Rightarrow> js_val \<Rightarrow> real \<Rightarrow> string \<Rightarrow> usage_window option" where
  "codex_window date_parse limits observed key =
     (let nested = asObject (js_get limits key);
          used = (case nested of Some n \<Rightarrow> js_get n ''used_percent''
                  | None \<Rightarrow> js_get limits (key @ ''_used_percent''))
      in case js_num used of
           None \<Rightarrow> None
         | Some u \<Rightarrow>
             (let minutes = (case nested of Some n \<Rightarrow> js_get n ''window_minutes''
                             | None \<Rightarrow> js_get limits (key @ ''_window_minutes''))
              in Some \<lparr>win_id = key, win_label = codexWindowLabel (js_num minutes) key,
                       usedPercent = Some (clampPercent u),
                       resetsAt = Option.bind nested (\<lambda>n. codexResetsAt date_parse n observed),
                       exhausted = False\<rparr>))"

definition parseCodexRateLimits ::
  "(string \<Rightarrow> js_val option) \<Rightarrow> (string \<Rightarrow> real option) \<Rightarrow> string \<Rightarrow> (real \<times> usage_window list) option"
where
  "parseCodexRateLimits json_parse date_parse line =
     (if \<not> sublist ''rate_limits'' line then None
      else case json_parse line of
        None \<Rightarrow> None
      | Some entry \<Rightarrow>
          (case asObject (js_get entry ''payload'') of
             None \<Rightarrow> None
           | Some payload \<Rightarrow>
               (case asObject (js_get payload ''rate_limits'') of
                  None \<Rightarrow> None
                | Some limits \<Rightarrow>
                    if js_get payload ''type'' \<noteq> JStr ''token_count'' then None
                    else case Option.bind (js_str (js_get entry ''timestamp'')) date_parse of
                      None \<Rightarrow> None
                    | Some observed \<Rightarrow>
                        (let ws = List.map_filter (codex_window date_parse limits observed)
                                    [''primary'', ''secondary'']
                         in if ws = [] then None else Some (observed, ws)))))"

section \<open>Claude Code\<close>

record claude_report =
  rejected :: bool
  limitType :: "string option"
  rep_resetsAt :: "real option"
  utilization :: "real option"

definition sameReset :: "real option \<Rightarrow> real option \<Rightarrow> bool" where
  "sameReset a b =
     (case (a, b) of (Some x, Some y) \<Rightarrow> \<bar>x - y\<bar> < 30 * 60000 | _ \<Rightarrow> a = b)"

definition CLAUDE_WINDOWS :: "string list" where
  "CLAUDE_WINDOWS = [''five_hour'', ''seven_day'', ''seven_day_opus'', ''seven_day_sonnet'', ''overage'']"

definition claudeWindowOrder :: "string \<Rightarrow> int" where
  "claudeWindowOrder i =
     (let n = index_of i CLAUDE_WINDOWS in if n < 0 then int (length CLAUDE_WINDOWS) else n)"

definition claudeWindowLabel :: "string \<Rightarrow> string" where
  "claudeWindowLabel i =
     (if i = ''five_hour'' then ''Current session''
      else if i = ''seven_day'' then ''All models''
      else if i = ''seven_day_opus'' then ''Opus this week''
      else if i = ''seven_day_sonnet'' then ''Sonnet this week''
      else if i = ''overage'' then ''Extra usage''
      else map (\<lambda>c. if c = CHR ''_'' then CHR '' '' else c) i)"

definition claude_window :: "usage_window list \<Rightarrow> claude_report \<Rightarrow> usage_window" where
  "claude_window ws r =
     (let i = (case limitType r of Some t \<Rightarrow> t | None \<Rightarrow> ''unknown'');
          resets = map_option (\<lambda>s. s * 1000) (rep_resetsAt r);
          previous = List.find (\<lambda>w. win_id w = i) ws;
          reported = map_option (\<lambda>u. clampPercent (if u \<le> 1 then u * 100 else u)) (utilization r);
          carried = (case previous of
                       Some p \<Rightarrow> if sameReset (resetsAt p) resets then usedPercent p else None
                     | None \<Rightarrow> None)
      in \<lparr>win_id = i, win_label = claudeWindowLabel i,
          usedPercent = (if rejected r then Some 100
                         else case reported of Some u \<Rightarrow> Some u | None \<Rightarrow> carried),
          resetsAt = resets, exhausted = rejected r\<rparr>)"

definition applyClaudeLimit :: "usage_window list \<Rightarrow> claude_report \<Rightarrow> usage_window list" where
  "applyClaudeLimit ws r =
     (let new = claude_window ws r
      in sort_key (\<lambda>w. claudeWindowOrder (win_id w)) (filter (\<lambda>w. win_id w \<noteq> win_id new) ws @ [new]))"

section \<open>Alerts\<close>

record alert_mark =
  mark_resetsAt :: "real option"
  mark_level :: real

definition crossed_threshold :: "real list \<Rightarrow> real \<Rightarrow> real" where
  "crossed_threshold thresholds percent =
     foldl (\<lambda>m t. if percent \<ge> t \<and> t > m then t else m) 0 thresholds"

definition nextAlert :: "alert_mark option \<Rightarrow> usage_window \<Rightarrow> real list \<Rightarrow> real option \<times> alert_mark option"
where
  "nextAlert mark w thresholds =
     (let continues = (case mark of Some m \<Rightarrow> sameReset (mark_resetsAt m) (resetsAt w) | None \<Rightarrow> False)
      in case effectivePercent w of
           None \<Rightarrow> (None, if continues then mark else None)
         | Some percent \<Rightarrow>
             (let alerted = (case mark of
                               Some m \<Rightarrow> if continues \<and> percent \<ge> mark_level m then mark_level m else 0
                             | None \<Rightarrow> 0);
                  crossed = crossed_threshold thresholds percent
              in if crossed > alerted
                 then (Some crossed, Some \<lparr>mark_resetsAt = resetsAt w, mark_level = crossed\<rparr>)
                 else (None, Some \<lparr>mark_resetsAt = resetsAt w, mark_level = alerted\<rparr>)))"

definition toThresholds :: "js_val \<Rightarrow> real list" where
  "toThresholds v =
     (case js_arr v of
        None \<Rightarrow> []
      | Some vs \<Rightarrow> sort (js_uniq (List.map_filter
          (\<lambda>x. case js_num x of Some n \<Rightarrow> if n > 0 \<and> n \<le> 100 then Some n else None | None \<Rightarrow> None) vs)))"

section \<open>Formatting\<close>

text \<open>The weekday and time of a date are the locale's (\<open>Intl\<close>), an argument.\<close>

definition formatResets :: "(real \<Rightarrow> string) \<Rightarrow> real \<Rightarrow> real \<Rightarrow> string" where
  "formatResets intl resets now =
     (let ms = resets - now in
      if ms \<le> 0 then ''Reset''
      else let minutes = \<lceil>ms / 60000\<rceil> in
        if minutes < 60 then ''Resets in '' @ show_int minutes @ '' min''
        else if minutes < 6 * 60 then
          (let h = minutes div 60; m = minutes mod 60 in
           if m \<noteq> 0 then ''Resets in '' @ show_int h @ '' h '' @ show_int m @ '' min''
           else ''Resets in '' @ show_int h @ '' h'')
        else ''Resets '' @ intl resets)"

definition em_dash :: string where "em_dash = [CHR 0xE2, CHR 0x80, CHR 0x94]"

definition formatPercent :: "real option \<Rightarrow> string" where
  "formatPercent percent = (case percent of None \<Rightarrow> em_dash | Some p \<Rightarrow> show_int (js_round p) @ ''%'')"

section \<open>Severity is an order\<close>

instantiation severity :: linorder
begin

definition less_eq_severity :: "severity \<Rightarrow> severity \<Rightarrow> bool" where
  "less_eq_severity a b \<longleftrightarrow> index_of a SEVERITY_ORDER \<le> index_of b SEVERITY_ORDER"

definition less_severity :: "severity \<Rightarrow> severity \<Rightarrow> bool" where
  "less_severity a b \<longleftrightarrow> index_of a SEVERITY_ORDER < index_of b SEVERITY_ORDER"

instance
proof
  fix a b :: severity
  show "a \<le> b \<Longrightarrow> b \<le> a \<Longrightarrow> a = b"
    by (cases a; cases b; simp add: less_eq_severity_def SEVERITY_ORDER_def)
qed (auto simp: less_eq_severity_def less_severity_def)

end

lemma worst_fold:
  "fold (\<lambda>s worst. if index_of s SEVERITY_ORDER > index_of worst SEVERITY_ORDER then s else worst) ss m =
   Max (insert m (set ss))"
proof (induction ss arbitrary: m)
  case (Cons s ss)
  have "(if index_of s SEVERITY_ORDER > index_of m SEVERITY_ORDER then s else m) = max m s"
    by (simp add: max_def less_eq_severity_def) (metis antisym less_eq_severity_def linear)
  with Cons.IH [of "max m s"] show ?case by (cases "ss = []") (simp_all add: max.assoc)
qed simp

lemma worstSeverity_Max: "worstSeverity ss = Max (insert SevUnknown (set ss))"
  unfolding worstSeverity_def by (rule worst_fold)

lemma severityOf_mono: "p \<le> q \<Longrightarrow> severityOf (Some p) \<le> severityOf (Some q)"
  by (simp add: severityOf_def less_eq_severity_def SEVERITY_ORDER_def)

section \<open>The headline\<close>

lemma fold_fuller:
  assumes "\<forall>b. best = Some b \<longrightarrow> effectivePercent b \<noteq> None"
  shows "case fold fuller ws best of
      None \<Rightarrow> best = None \<and> (\<forall>w\<in>set ws. effectivePercent w = None)
    | Some b \<Rightarrow> (best = Some b \<or> b \<in> set ws) \<and> (\<exists>p. effectivePercent b = Some p \<and>
        (\<forall>w\<in>set ws \<union> set_option best. \<forall>q. effectivePercent w = Some q \<longrightarrow> q \<le> p))"
  using assms
proof (induction ws arbitrary: best)
  case Nil
  then show ?case by (auto split: option.split)
next
  case (Cons w ws)
  let ?b = "fuller w best"
  have b: "\<forall>b. ?b = Some b \<longrightarrow> effectivePercent b \<noteq> None"
    using Cons.prems by (auto simp: fuller_def split: option.splits if_splits)
  have none: "?b = None \<longleftrightarrow> best = None \<and> effectivePercent w = None"
    by (auto simp: fuller_def split: option.splits)
  have some: "(best = Some b \<or> b = w) \<and>
      (\<forall>v\<in>insert w (set_option best). \<forall>q. effectivePercent v = Some q \<longrightarrow> q \<le> p)"
    if "?b = Some b" "effectivePercent b = Some p" for b p
    using that Cons.prems by (auto simp: fuller_def split: option.splits if_splits)
  show ?case
  proof (cases "fold fuller ws ?b")
    case None
    with Cons.IH [OF b] none show ?thesis by auto
  next
    case (Some c)
    with Cons.IH [OF b] obtain p where c: "?b = Some c \<or> c \<in> set ws" "effectivePercent c = Some p"
      "\<forall>v\<in>set ws \<union> set_option ?b. \<forall>q. effectivePercent v = Some q \<longrightarrow> q \<le> p" by auto
    have le: "\<forall>v\<in>insert w (set_option best). \<forall>q. effectivePercent v = Some q \<longrightarrow> q \<le> p"
    proof (cases ?b)
      case None
      with none show ?thesis by simp
    next
      case (Some b1)
      then obtain p1 where "effectivePercent b1 = Some p1" "p1 \<le> p" using b c(3) by auto
      with some [OF Some] show ?thesis by fastforce
    qed
    have "best = Some c \<or> c \<in> set (w # ws)" using c(1) some [of c p] c(2) by auto
    with Some c le show ?thesis by auto
  qed
qed

text \<open>The window the ring shows is a live one and no live window with a known percentage
  is fuller; there is none exactly when every window has reset.\<close>

lemma headline_is_fullest:
  "case headlineWindow p now of
     None \<Rightarrow> liveWindows p now = []
   | Some w \<Rightarrow> w \<in> set (liveWindows p now) \<and>
       (\<forall>v\<in>set (liveWindows p now). \<forall>q. effectivePercent v = Some q \<longrightarrow>
          (\<exists>r. effectivePercent w = Some r \<and> q \<le> r))"
  using fold_fuller [of None "liveWindows p now"]
  by (auto simp: headlineWindow_def Let_def split: option.splits list.splits)

definition demo_window :: "string \<Rightarrow> real option \<Rightarrow> usage_window" where
  "demo_window i u = \<lparr>win_id = i, win_label = i, usedPercent = u, resetsAt = Some 10, exhausted = False\<rparr>"

definition demo_limits :: provider_limits where
  "demo_limits = \<lparr>lim_id = ''codex'', lim_label = ''Codex'', glyph = ''CX'',
     windows = [demo_window ''a'' (Some 20), demo_window ''b'' None, demo_window ''c'' (Some 60)],
     observedAt = None, lim_source = []\<rparr>"

lemma headline_is_fullest_witness:
  "headlineWindow demo_limits 5 = Some (demo_window ''c'' (Some 60)) \<and>
   (\<forall>v\<in>set (liveWindows demo_limits 5). \<forall>q. effectivePercent v = Some q \<longrightarrow> q \<le> 60)"
proof -
  have h: "headlineWindow demo_limits 5 = Some (demo_window ''c'' (Some 60))"
    by (simp add: headlineWindow_def liveWindows_def demo_limits_def demo_window_def fuller_def
        effectivePercent_def)
  with headline_is_fullest [of demo_limits 5] show ?thesis
    by (fastforce simp: effectivePercent_def demo_window_def)
qed

section \<open>Each threshold alerts once\<close>

lemma crossed_foldl:
  fixes m p :: real
  shows "let r = foldl (\<lambda>m t. if p \<ge> t \<and> t > m then t else m) m ts in
    m \<le> r \<and> (r = m \<or> (r \<in> set ts \<and> r \<le> p)) \<and> (\<forall>t\<in>set ts. t \<le> p \<longrightarrow> t \<le> r)"
proof (induction ts arbitrary: m)
  case (Cons t ts)
  define n where "n = (if p \<ge> t \<and> t > m then t else m)"
  define r where "r = foldl (\<lambda>m t. if p \<ge> t \<and> t > m then t else m) n ts"
  have n: "m \<le> n" "n = m \<or> n = t \<and> t \<le> p" "t \<le> p \<longrightarrow> t \<le> n" by (auto simp: n_def)
  have r: "n \<le> r" "r = n \<or> r \<in> set ts \<and> r \<le> p" "\<forall>t\<in>set ts. t \<le> p \<longrightarrow> t \<le> r"
    using Cons.IH [of n] by (simp_all add: r_def Let_def)
  have "foldl (\<lambda>m t. if p \<ge> t \<and> t > m then t else m) m (t # ts) = r" by (simp add: r_def n_def)
  moreover have "m \<le> r" using n(1) r(1) by simp
  moreover have "r = m \<or> r \<in> set (t # ts) \<and> r \<le> p" using n(2) r(2) by auto
  moreover have "\<forall>s\<in>set (t # ts). s \<le> p \<longrightarrow> s \<le> r" using n(3) r(1,3) by auto
  ultimately show ?case by (simp only: Let_def)
qed simp

lemma crossed_threshold_max:
  shows "0 \<le> crossed_threshold th p"
    and "crossed_threshold th p = 0 \<or> (crossed_threshold th p \<in> set th \<and> crossed_threshold th p \<le> p)"
    and "t \<in> set th \<Longrightarrow> t \<le> p \<Longrightarrow> t \<le> crossed_threshold th p"
  using crossed_foldl [where m = 0 and p = p and ts = th] unfolding crossed_threshold_def Let_def by blast+

text \<open>The alerts a sequence of readings of one window gives.\<close>

fun run_alerts :: "real list \<Rightarrow> alert_mark option \<Rightarrow> usage_window list \<Rightarrow> real list" where
  "run_alerts th m [] = []"
| "run_alerts th m (w # ws) =
     (case nextAlert m w th of
        (None, m') \<Rightarrow> run_alerts th m' ws
      | (Some a, m') \<Rightarrow> a # run_alerts th m' ws)"

definition known_percents :: "usage_window list \<Rightarrow> real list" where
  "known_percents ws = List.map_filter effectivePercent ws"

definition level_of :: "alert_mark option \<Rightarrow> real" where
  "level_of m = (case m of None \<Rightarrow> 0 | Some k \<Rightarrow> mark_level k)"

lemma known_percents_simps [simp]:
  "known_percents [] = []"
  "known_percents (w # ws) = (case effectivePercent w of None \<Rightarrow> known_percents ws | Some p \<Rightarrow> p # known_percents ws)"
  by (auto simp: known_percents_def split: option.split)

lemma nextAlert_step:
  assumes "case m of None \<Rightarrow> True | Some k \<Rightarrow> sameReset (mark_resetsAt k) (resetsAt w)"
    and "\<forall>p. effectivePercent w = Some p \<longrightarrow> level_of m \<le> p \<or> level_of m = 0"
  shows "nextAlert m w th =
    (case effectivePercent w of
       None \<Rightarrow> (None, m)
     | Some p \<Rightarrow> (let c = crossed_threshold th p in
         if c > level_of m then (Some c, Some \<lparr>mark_resetsAt = resetsAt w, mark_level = c\<rparr>)
         else (None, Some \<lparr>mark_resetsAt = resetsAt w, mark_level = level_of m\<rparr>)))"
  using assms by (cases m) (auto simp: nextAlert_def level_of_def Let_def split: option.splits)

lemma run_alerts_mark:
  assumes "\<forall>v\<in>set ws. \<forall>w\<in>set ws. sameReset (resetsAt v) (resetsAt w)"
    and "\<forall>k\<in>set_option m. \<forall>w\<in>set ws. sameReset (mark_resetsAt k) (resetsAt w)"
    and "sorted (known_percents ws)" and "0 \<le> level_of m"
    and "level_of m = 0 \<or> (\<forall>p\<in>set (known_percents ws). level_of m \<le> p)"
  shows "sorted_wrt (<) (level_of m # run_alerts th m ws) \<and> set (run_alerts th m ws) \<subseteq> set th \<and>
    (\<forall>t\<in>set th. \<forall>p\<in>set (known_percents ws). t \<le> p \<longrightarrow>
       t \<le> level_of m \<or> (\<exists>a\<in>set (run_alerts th m ws). t \<le> a))"
  using assms
proof (induction ws arbitrary: m)
  case (Cons w ws)
  have step: "nextAlert m w th = (case effectivePercent w of
       None \<Rightarrow> (None, m)
     | Some p \<Rightarrow> (let c = crossed_threshold th p in
         if c > level_of m then (Some c, Some \<lparr>mark_resetsAt = resetsAt w, mark_level = c\<rparr>)
         else (None, Some \<lparr>mark_resetsAt = resetsAt w, mark_level = level_of m\<rparr>)))"
    using Cons.prems by (intro nextAlert_step) (auto split: option.splits)
  show ?case
  proof (cases "effectivePercent w")
    case None
    with step Cons.IH [of m] Cons.prems show ?thesis by simp
  next
    case (Some p)
    define c where "c = crossed_threshold th p"
    define l where "l = max (level_of m) c"
    define m' where "m' = Some \<lparr>mark_resetsAt = resetsAt w, mark_level = l\<rparr>"
    have c: "0 \<le> c" "c = 0 \<or> c \<in> set th \<and> c \<le> p" "\<forall>t\<in>set th. t \<le> p \<longrightarrow> t \<le> c"
      unfolding c_def by (simp_all add: crossed_threshold_max(1,2)) (use crossed_threshold_max(3) in blast)
    have later: "\<forall>q\<in>set (known_percents ws). p \<le> q" "sorted (known_percents ws)"
      using Cons.prems(3) Some by simp_all
    have lv: "level_of m' = l" "0 \<le> l" using c(1) by (simp_all add: level_of_def m'_def l_def)
    have low: "l = 0 \<or> (\<forall>q\<in>set (known_percents ws). l \<le> q)"
    proof (cases "c > level_of m")
      case True
      then have "l = c" by (simp add: l_def)
      then show ?thesis using later(1) c(2) by fastforce
    next
      case False
      then have "l = level_of m" by (simp add: l_def)
      then show ?thesis using Cons.prems(5) Some by auto
    qed
    have "\<forall>k\<in>set_option m'. \<forall>v\<in>set ws. sameReset (mark_resetsAt k) (resetsAt v)"
      using Cons.prems(1) by (simp add: m'_def)
    with Cons.IH [of m'] Cons.prems(1) later(2) lv low
    have ih: "sorted_wrt (<) (l # run_alerts th m' ws)" "set (run_alerts th m' ws) \<subseteq> set th"
      "\<forall>t\<in>set th. \<forall>q\<in>set (known_percents ws). t \<le> q \<longrightarrow> t \<le> l \<or> (\<exists>a\<in>set (run_alerts th m' ws). t \<le> a)"
      by simp_all
    show ?thesis
    proof (cases "c > level_of m")
      case True
      then have l: "l = c" by (simp add: l_def)
      have r: "run_alerts th m (w # ws) = c # run_alerts th m' ws"
        using step Some True l by (simp add: c_def m'_def Let_def)
      have "c \<in> set th" using True Cons.prems(4) c(2) by linarith
      moreover have "sorted_wrt (<) (level_of m # c # run_alerts th m' ws)"
        using ih(1) l True by (auto intro: less_trans)
      moreover have "t \<le> level_of m \<or> (\<exists>a\<in>insert c (set (run_alerts th m' ws)). t \<le> a)"
        if "t \<in> set th" "q \<in> insert p (set (known_percents ws))" "t \<le> q" for t q
        using that ih(3) c(3) l by blast
      ultimately show ?thesis using r ih(2) Some by simp
    next
      case False
      then have l: "l = level_of m" by (simp add: l_def)
      have r: "run_alerts th m (w # ws) = run_alerts th m' ws"
        using step Some False l by (simp add: c_def m'_def Let_def)
      have "t \<le> level_of m \<or> (\<exists>a\<in>set (run_alerts th m' ws). t \<le> a)"
        if "t \<in> set th" "q \<in> insert p (set (known_percents ws))" "t \<le> q" for t q
      proof (cases "q = p")
        case True
        then have "t \<le> c" using that c(3) by blast
        with False show ?thesis by simp
      next
        case False
        with that ih(3) l show ?thesis by blast
      qed
      then show ?thesis using r l ih(1,2) Some by simp
    qed
  qed
qed simp

text \<open>While a window fills without resetting, each threshold alerts at most once and in
  ascending order, nothing but a threshold alerts, and every threshold that is reached is covered by
  an alert for it or for a higher one.\<close>

lemma each_threshold_alerts_once:
  assumes "\<forall>v\<in>set ws. \<forall>w\<in>set ws. sameReset (resetsAt v) (resetsAt w)"
    and "sorted (known_percents ws)"
  shows "sorted_wrt (<) (0 # run_alerts th None ws) \<and> set (run_alerts th None ws) \<subseteq> set th \<and>
    (\<forall>t\<in>set th. \<forall>p\<in>set (known_percents ws). 0 < t \<and> t \<le> p \<longrightarrow> (\<exists>a\<in>set (run_alerts th None ws). t \<le> a))"
  using run_alerts_mark [of ws None th] assms by (auto simp: level_of_def)

lemma each_threshold_alerts_once_witness:
  "run_alerts [80, 100] None [demo_window ''w'' (Some 85), demo_window ''w'' None, demo_window ''w'' (Some 100)]
     = [80, 100] \<and>
   sorted_wrt (<) (0 # run_alerts [80, 100] None
     [demo_window ''w'' (Some 85), demo_window ''w'' None, demo_window ''w'' (Some 100)])"
proof -
  let ?ws = "[demo_window ''w'' (Some 85), demo_window ''w'' None, demo_window ''w'' (Some 100)]"
  have "sorted_wrt (<) (0 # run_alerts [80, 100] None ?ws)"
    using each_threshold_alerts_once [of ?ws "[80, 100]"]
    by (simp add: demo_window_def sameReset_def effectivePercent_def)
  then show ?thesis
    by (simp add: demo_window_def sameReset_def effectivePercent_def nextAlert_def crossed_threshold_def)
qed

section \<open>Folding Claude's reports\<close>

lemma claude_window_id:
  "win_id (claude_window ws r) = (case limitType r of Some t \<Rightarrow> t | None \<Rightarrow> ''unknown'')"
  by (simp add: claude_window_def Let_def)

text \<open>One report of Claude Code replaces the window it names and leaves the others; the
  windows keep distinct ids and the display order, a refused window shows as full, and a report
  without a percentage keeps the one known for the same reset.\<close>

lemma claude_report_folds:
  assumes "distinct (map win_id ws)"
  shows "distinct (map win_id (applyClaudeLimit ws r)) \<and>
    sorted (map (\<lambda>w. claudeWindowOrder (win_id w)) (applyClaudeLimit ws r)) \<and>
    set (applyClaudeLimit ws r) =
      insert (claude_window ws r) {w \<in> set ws. win_id w \<noteq> win_id (claude_window ws r)} \<and>
    (rejected r \<longrightarrow> effectivePercent (claude_window ws r) = Some 100) \<and>
    (\<forall>w\<in>set ws. win_id w = win_id (claude_window ws r) \<and> sameReset (resetsAt w) (resetsAt (claude_window ws r)) \<and>
       utilization r = None \<and> \<not> rejected r \<longrightarrow> usedPercent (claude_window ws r) = usedPercent w)"
proof -
  let ?n = "claude_window ws r"
  let ?l = "filter (\<lambda>w. win_id w \<noteq> win_id ?n) ws @ [?n]"
  have m: "mset (applyClaudeLimit ws r) = mset ?l" by (simp add: applyClaudeLimit_def Let_def)
  have "distinct (map win_id ?l)" using assms by (auto simp: distinct_map_filter)
  moreover have "mset (map win_id (applyClaudeLimit ws r)) = mset (map win_id ?l)" using m by (simp only: mset_map)
  ultimately have "distinct (map win_id (applyClaudeLimit ws r))" using mset_eq_imp_distinct_iff by blast
  moreover have "set (applyClaudeLimit ws r) = insert ?n {w \<in> set ws. win_id w \<noteq> win_id ?n}"
    using mset_eq_setD [OF m] by auto
  moreover have "usedPercent ?n = usedPercent w"
    if "w \<in> set ws" "win_id w = win_id ?n" "sameReset (resetsAt w) (resetsAt ?n)" "utilization r = None"
      "\<not> rejected r" for w
  proof -
    let ?i = "case limitType r of Some t \<Rightarrow> t | None \<Rightarrow> ''unknown''"
    have "List.find (\<lambda>v. win_id v = ?i) ws = Some w"
      using that(1,2) assms find_by_key [of win_id ws w] by (simp add: claude_window_id)
    then show ?thesis using that(3-5) by (simp add: claude_window_def Let_def)
  qed
  ultimately show ?thesis
    by (simp add: applyClaudeLimit_def Let_def) (simp add: claude_window_def effectivePercent_def Let_def)
qed

lemma claude_report_folds_witness:
  "let ws = [demo_window ''five_hour'' (Some 40), demo_window ''overage'' None];
       r = \<lparr>rejected = False, limitType = Some ''five_hour'', rep_resetsAt = Some 0, utilization = None\<rparr>
   in usedPercent (claude_window ws r) = Some 40 \<and> distinct (map win_id (applyClaudeLimit ws r))"
proof -
  let ?ws = "[demo_window ''five_hour'' (Some 40), demo_window ''overage'' None]"
  let ?r = "\<lparr>rejected = False, limitType = Some ''five_hour'', rep_resetsAt = Some 0, utilization = None\<rparr>"
  have "distinct (map win_id ?ws)" by (simp add: demo_window_def)
  from claude_report_folds [OF this, of ?r] show ?thesis
    by (simp add: demo_window_def claude_window_def sameReset_def Let_def)
qed

end
