(* ===== verification/Machine_Stats.thy ===== *)
theory Machine_Stats
  imports Provider_Failover Usage_Limits
begin

text \<open>
  Readings of the machine and of token usage: \<open>src/vs/platform/hivemindide/common/gpuStats.ts\<close>,
  \<open>systemStats.ts\<close> and \<open>common/usage.ts\<close>. The tools print decimal digits; a field that is not
  digits counts as no number. \<open>JSON.parse\<close> and \<open>Date.parse\<close> are arguments.
\<close>

text \<open>\<open>x.toFixed(1)\<close> of a non-negative number.\<close>

definition to_fixed1 :: "real \<Rightarrow> string" where
  "to_fixed1 x = (let n = nat (js_round (x * 10)) in show_nat (n div 10) @ ''.'' @ show_nat (n mod 10))"

definition clamp_opt :: "real option \<Rightarrow> real option" where
  "clamp_opt v = map_option (\<lambda>x. min 100 (max 0 x)) v"

definition nonempty_text :: "string option \<Rightarrow> string option" where
  "nonempty_text x = (case x of Some s \<Rightarrow> if s \<noteq> [] then x else None | None \<Rightarrow> None)"

definition quote :: char where "quote = CHR 0x22"

section \<open>GPU\<close>

datatype gpu_backend = Metal | Cuda

record gpu_stats =
  gpu_name :: string
  gpu_backend :: gpu_backend
  gpu_utilization :: "real option"
  memoryUsed :: "real option"
  memoryTotal :: "real option"
  temperatureC :: "real option"
  cores :: "real option"

definition quoted :: "string \<Rightarrow> re" where
  "quoted s = lit ([quote] @ s @ [quote])"

definition equals_re :: re where
  "equals_re = seqs [rstar rspace, ch (CHR ''=''), rstar rspace]"

definition number_of :: "string option \<Rightarrow> real option" where
  "number_of x = map_option (\<lambda>s. real (read_nat s)) x"

definition ioreg_name_re :: re where
  "ioreg_name_re = seqs [quoted ''model'', equals_re, ch quote, RGroup 1 (rplus (ncls [quote])), ch quote]"

definition ioreg_stats_re :: re where
  "ioreg_stats_re = seqs [quoted ''PerformanceStatistics'', equals_re, ch (CHR ''{''), RGroup 1 (rstar (ncls ''}'')), ch (CHR ''}'')]"

definition ioreg_number_re :: "string \<Rightarrow> re" where
  "ioreg_number_re key = seqs [quoted key, equals_re, RGroup 1 (rplus rdigit)]"

definition parseIoregGpu :: "string \<Rightarrow> real option \<Rightarrow> gpu_stats option" where
  "parseIoregGpu output unifiedMemory =
     (case (nonempty_text (re_cap (re_exec ioreg_name_re output) 1), nonempty_text (re_cap (re_exec ioreg_stats_re output) 1)) of
        (Some name, Some stats) \<Rightarrow>
          (let number = (\<lambda>key. number_of (re_cap (re_exec (ioreg_number_re key) stats) 1))
           in Some \<lparr>gpu_name = name, gpu_backend = Metal, gpu_utilization = clamp_opt (number ''Device Utilization %''),
                memoryUsed = number ''In use system memory'', memoryTotal = unifiedMemory, temperatureC = None,
                cores = number_of (re_cap (re_exec (ioreg_number_re ''gpu-core-count'') output) 1)\<rparr>)
      | _ \<Rightarrow> None)"

definition whole_decimal_re :: re where
  "whole_decimal_re = seqs [RBol False, decimal_re, REol False]"

definition smi_number :: "string list \<Rightarrow> nat \<Rightarrow> real option" where
  "smi_number fs i =
     (if i < length fs \<and> re_test whole_decimal_re (fs ! i) then Some (read_decimal (fs ! i)) else None)"

definition parseNvidiaSmi :: "string \<Rightarrow> gpu_stats option" where
  "parseNvidiaSmi output =
     (case List.find (\<lambda>l. l \<noteq> []) (map js_trim (js_split nl output)) of
        None \<Rightarrow> None
      | Some line \<Rightarrow>
          (let fs = map js_trim (js_split (CHR '','') line);
               n = smi_number fs;
               mib = (\<lambda>i. map_option (\<lambda>v. v * 1024 * 1024) (n i))
           in if length fs < 4 \<or> hd fs = [] then None
              else Some \<lparr>gpu_name = hd fs, gpu_backend = Cuda, gpu_utilization = clamp_opt (n 1),
                     memoryUsed = mib 2, memoryTotal = mib 3, temperatureC = n 4, cores = None\<rparr>))"

record model_offload =
  off_model :: string
  gpuPercent :: real
  bytes :: real
  contextLength :: "real option"

definition ollama_model :: "js_val \<Rightarrow> model_offload option" where
  "ollama_model m =
     (case (js_get m ''name'', js_get m ''size'', js_get m ''size_vram'') of
        (JStr name, JNum tot, JNum vram) \<Rightarrow>
          if tot > 0 then Some \<lparr>off_model = name, gpuPercent = min 100 (max 0 (vram / tot * 100)), bytes = tot,
                              contextLength = js_num (js_get m ''context_length'')\<rparr>
          else None
      | _ \<Rightarrow> None)"

definition parseOllamaPs :: "(string \<Rightarrow> js_val option) \<Rightarrow> string \<Rightarrow> model_offload list" where
  "parseOllamaPs json_parse output =
     (case json_parse output of
        None \<Rightarrow> []
      | Some v \<Rightarrow> (case js_arr (js_get v ''models'') of None \<Rightarrow> [] | Some ms \<Rightarrow> List.map_filter ollama_model ms))"

record ollama_truncation =
  cut_at :: real
  cut_sent :: real
  cut_kept :: real

definition key_digits_re :: "string \<Rightarrow> re" where
  "key_digits_re key = seqs [RWordB, lit key, RGroup 1 (rplus rdigit)]"

definition truncation_line :: "(string \<Rightarrow> real option) \<Rightarrow> real \<Rightarrow> string \<Rightarrow> ollama_truncation option" where
  "truncation_line date_parse since line =
     (if \<not> sublist ''truncating input prompt'' line then None
      else case (date_parse (case re_cap (re_exec (seqs [RWordB, lit ''time='', RGroup 1 (rplus rnspace)]) line) 1 of
                               Some t \<Rightarrow> t | None \<Rightarrow> []),
                 number_of (re_cap (re_exec (key_digits_re ''prompt='') line) 1),
                 number_of (re_cap (re_exec (key_digits_re ''new='') line) 1)) of
             (Some t, Some sent, Some kept) \<Rightarrow>
               if t \<ge> since then Some \<lparr>cut_at = t, cut_sent = sent, cut_kept = kept\<rparr> else None
           | _ \<Rightarrow> None)"

definition parseOllamaTruncations :: "(string \<Rightarrow> real option) \<Rightarrow> string \<Rightarrow> real \<Rightarrow> ollama_truncation list" where
  "parseOllamaTruncations date_parse logged since =
     List.map_filter (truncation_line date_parse since) (js_split nl logged)"

definition formatBytes :: "real \<Rightarrow> string" where
  "formatBytes b = (if b \<ge> 10 ^ 9 then to_fixed1 (b / 10 ^ 9) @ '' GB'' else show_int (js_round (b / 10 ^ 6)) @ '' MB'')"

section \<open>The system\<close>

definition pages_re :: "string \<Rightarrow> re" where
  "pages_re label = seqs [RBol True, lit label, ch (CHR '':''), rplus rspace, RGroup 1 (rplus rdigit), ch (CHR ''.'')]"

definition parseVmStat :: "string \<Rightarrow> real option" where
  "parseVmStat output =
     (let pageSize = number_of (re_cap (re_exec (seqs [lit ''page size of '', RGroup 1 (rplus rdigit), lit '' bytes'']) output) 1);
          pages = (\<lambda>label. number_of (re_cap (re_exec (pages_re label) output) 1))
      in case (pageSize, pages ''Pages active'', pages ''Pages wired down'') of
           (Some page, Some active, Some wired) \<Rightarrow>
             if page = 0 then None
             else Some ((active + wired + (case pages ''Pages occupied by compressor'' of Some c \<Rightarrow> c | None \<Rightarrow> 0)) * page)
         | _ \<Rightarrow> None)"

record battery_state =
  bat_percent :: real
  charging :: bool
  onPower :: bool
  remaining :: "string option"

definition battery_state_re :: re where
  "battery_state_re = seqs [rplus rdigit, lit ''%;'', rstar rspace, RGroup 1 (rplus (ncls '';'')), ch (CHR '';'')]"

definition remaining_re :: re where
  "remaining_re = seqs [RGroup 1 (seqs [rplus rdigit, ch (CHR '':''), rdigit, rdigit]), lit '' remaining'']"

definition parsePmsetBattery :: "string \<Rightarrow> battery_state option" where
  "parsePmsetBattery output =
     (case List.find (sublist ''InternalBattery'') (js_split nl output) of
        None \<Rightarrow> None
      | Some line \<Rightarrow>
          (case re_cap (re_exec (seqs [RGroup 1 (rplus rdigit), ch (CHR ''%'')]) line) 1 of
             None \<Rightarrow> None
           | Some percent \<Rightarrow>
               (let state = js_trim (case re_cap (re_exec battery_state_re line) 1 of Some s \<Rightarrow> s | None \<Rightarrow> []);
                    left = re_cap (re_exec remaining_re line) 1
                in Some \<lparr>bat_percent = real (read_nat percent), charging = (state = ''charging''),
                     onPower = (sublist ''AC Power'' output \<or> state \<in> {''charging'', ''charged'', ''finishing charge''}),
                     remaining = (if left = Some ''0:00'' then None else left)\<rparr>)))"

section \<open>Listening ports\<close>

record listening_port =
  port_pid :: nat
  port_command :: string
  port :: nat
  address :: string

record lsof_state =
  lsof_pid :: nat            \<comment> \<open>0 before the first process\<close>
  lsof_command :: string
  lsof_found :: "((nat \<times> nat) \<times> listening_port) list"

definition digits_or_zero :: "string \<Rightarrow> nat" where
  "digits_or_zero s = (if s \<noteq> [] \<and> list_all is_digit s then read_nat s else 0)"

text \<open>\<open>/^(.*):(\d+)$/\<close>: the last colon, with nothing but digits after it.\<close>

definition address_port :: "string \<Rightarrow> (string \<times> nat) option" where
  "address_port s =
     (let digits = rev (takeWhile is_digit (rev s)); host = rev (dropWhile is_digit (rev s))
      in if digits = [] \<or> host = [] \<or> last host \<noteq> CHR '':'' \<or> list_ex is_eol host then None
         else Some (butlast host, read_nat digits))"

definition strip_brackets :: "string \<Rightarrow> string" where
  "strip_brackets s =
     (let t = (case s of c # cs \<Rightarrow> if c = CHR ''['' then cs else s | [] \<Rightarrow> [])
      in if t \<noteq> [] \<and> last t = CHR '']'' then butlast t else t)"

definition lsof_line :: "lsof_state \<Rightarrow> string \<Rightarrow> lsof_state" where
  "lsof_line s line =
     (case line of
        [] \<Rightarrow> s
      | field # v \<Rightarrow>
          if field = CHR ''p'' then s\<lparr>lsof_pid := digits_or_zero v\<rparr>
          else if field = CHR ''c'' then s\<lparr>lsof_command := v\<rparr>
          else if field = CHR ''n'' \<and> lsof_pid s \<noteq> 0 then
            (case address_port v of
               None \<Rightarrow> s
             | Some (addr, p) \<Rightarrow>
                 (let key = (lsof_pid s, p) in
                  if map_of (lsof_found s) key \<noteq> None then s
                  else s\<lparr>lsof_found := lsof_found s @ [(key, \<lparr>port_pid = lsof_pid s, port_command = lsof_command s,
                         port = p, address = strip_brackets addr\<rparr>)]\<rparr>))
          else s)"

definition parseLsofListening :: "string \<Rightarrow> listening_port list" where
  "parseLsofListening output =
     sort_key (\<lambda>p. (port p, port_pid p))
       (map snd (lsof_found (foldl lsof_line \<lparr>lsof_pid = 0, lsof_command = [], lsof_found = []\<rparr> (js_split nl output))))"

definition SYSTEM_LISTENERS :: "string list" where
  "SYSTEM_LISTENERS = [''ControlCenter'', ''rapportd'', ''sharingd'', ''remoted'', ''identityservicesd'', ''launchd'',
     ''mDNSResponder'', ''AirPlayXPCHelper'', ''UserEventAgent'', ''WiFiAgent'', ''screensharingd'', ''ARDAgent'', ''kdc'', ''cupsd'']"

definition isSystemListener :: "string \<Rightarrow> bool" where
  "isSystemListener command \<longleftrightarrow> command \<in> set SYSTEM_LISTENERS"

definition times_sum :: "(string \<times> real) list \<Rightarrow> real" where
  "times_sum t = foldl (\<lambda>s v. s + v) 0 (map snd t)"

definition cpuPercent :: "(string \<times> real) list list \<Rightarrow> (string \<times> real) list list \<Rightarrow> real option" where
  "cpuPercent previous current =
     (let idle = (\<lambda>t. case map_of t ''idle'' of Some x \<Rightarrow> x | None \<Rightarrow> 0);
          (busy, total) = foldl (\<lambda>(busy, total) (a, b).
              let all = times_sum b - times_sum a in (busy + (all - (idle b - idle a)), total + all))
            (0, 0) (zip previous current)
      in if total > 0 then Some (min 100 (max 0 (busy / total * 100))) else None)"

section \<open>Tokens\<close>

definition totalTokens :: "int list \<Rightarrow> int" where
  "totalTokens tokens = foldl (+) 0 tokens"

definition formatTokens :: "int \<Rightarrow> string" where
  "formatTokens tokens =
     (if tokens \<ge> 1000000 then to_fixed1 (of_int tokens / 1000000) @ ''M''
      else if tokens \<ge> 1000 then to_fixed1 (of_int tokens / 1000) @ ''k''
      else show_int tokens)"

section \<open>Each port once\<close>

definition lsof_ok :: "lsof_state \<Rightarrow> bool" where
  "lsof_ok s \<longleftrightarrow> distinct (map fst (lsof_found s)) \<and>
     (\<forall>(k, e)\<in>set (lsof_found s). k = (port_pid e, port e) \<and> port_pid e \<noteq> 0)"

lemma lsof_ok_line:
  assumes "lsof_ok s"
  shows "lsof_ok (lsof_line s line)"
proof (cases line)
  case (Cons field v)
  show ?thesis
  proof (cases "field = CHR ''n'' \<and> lsof_pid s \<noteq> 0")
    case True
    then show ?thesis using assms Cons
      by (auto simp: lsof_line_def lsof_ok_def Let_def map_of_eq_None_iff split: option.split)
  next
    case False
    with assms Cons show ?thesis by (auto simp: lsof_line_def lsof_ok_def)
  qed
qed (use assms in \<open>simp add: lsof_line_def\<close>)

lemma lsof_ok_lines: "lsof_ok s \<Longrightarrow> lsof_ok (foldl lsof_line s ls)"
  by (induction ls arbitrary: s) (simp_all add: lsof_ok_line)

text \<open>The listening ports are listed in the order of their numbers, and a process appears
  once per port however many sockets it has on it.\<close>

lemma each_port_once:
  "sorted (map (\<lambda>p. (port p, port_pid p)) (parseLsofListening output)) \<and>
   distinct (map (\<lambda>p. (port_pid p, port p)) (parseLsofListening output)) \<and>
   0 \<notin> port_pid ` set (parseLsofListening output)"
proof -
  define found where "found = lsof_found (foldl lsof_line \<lparr>lsof_pid = 0, lsof_command = [], lsof_found = []\<rparr> (js_split nl output))"
  have "lsof_ok \<lparr>lsof_pid = 0, lsof_command = [], lsof_found = []\<rparr>" by (simp add: lsof_ok_def)
  then have ok: "distinct (map fst found)" "\<forall>(k, e)\<in>set found. k = (port_pid e, port e) \<and> port_pid e \<noteq> 0"
    using lsof_ok_lines unfolding found_def lsof_ok_def by blast+
  have keys: "map (\<lambda>p. (port_pid p, port p)) (map snd found) = map fst found" using ok(2) by auto
  have p: "parseLsofListening output = sort_key (\<lambda>p. (port p, port_pid p)) (map snd found)"
    by (simp add: parseLsofListening_def found_def)
  have "mset (map (\<lambda>p. (port_pid p, port p)) (parseLsofListening output)) = mset (map fst found)"
    unfolding p keys [symmetric] mset_map mset_sort ..
  then have "distinct (map (\<lambda>p. (port_pid p, port p)) (parseLsofListening output))"
    using ok(1) mset_eq_imp_distinct_iff by blast
  moreover have "0 \<notin> port_pid ` set (parseLsofListening output)" using ok(2) by (force simp: p)
  ultimately show ?thesis by (simp add: p)
qed

end
