(* ===== verification/Shell_Routes.thy ===== *)
theory Shell_Routes
  imports Provider_Failover
begin

text \<open>
  Routes (one provider and one model), the identifiers the model picker uses for them, and the
  runtime overlay that declares them: \<open>contrib/hivemindide/common/shellRoutes.ts\<close>.
\<close>

datatype route_group = Hivemind | LocalGroup | Cli | Service

fun ROUTE_VENDORS :: "route_group \<Rightarrow> string" where
  "ROUTE_VENDORS Hivemind = ''hivemind-shell''"
| "ROUTE_VENDORS LocalGroup = ''hivemind-local''"
| "ROUTE_VENDORS Cli = ''hivemind-cli''"
| "ROUTE_VENDORS Service = ''hivemind-service''"

definition all_vendors :: "string list" where
  "all_vendors = map ROUTE_VENDORS [Hivemind, LocalGroup, Cli, Service]"

definition LOCAL_ROUTE_PROVIDER :: string where
  "LOCAL_ROUTE_PROVIDER = ''Local''"

record shell_route =
  rid :: string
  rprovider :: string
  rmodel :: string

definition routeId :: "string \<Rightarrow> string \<Rightarrow> string" where
  "routeId provider model = provider @ ''/'' @ model"

definition providerModels :: "failover_provider \<Rightarrow> string list" where
  "providerModels p =
     js_uniq (filter (\<lambda>m. m \<noteq> []) (pmodel p # (case pmodels p of None \<Rightarrow> [] | Some ms \<Rightarrow> ms)))"

definition shellRoutes :: "failover_provider list \<Rightarrow> shell_route list" where
  "shellRoutes ps =
     concat (map (\<lambda>p. map (\<lambda>model. \<lparr>rid = routeId (pname p) model, rprovider = pname p, rmodel = model\<rparr>)
                          (providerModels p)) ps)"

definition localRoutes :: "string list \<Rightarrow> shell_route list" where
  "localRoutes modelNames =
     map (\<lambda>model. \<lparr>rid = routeId LOCAL_ROUTE_PROVIDER model, rprovider = LOCAL_ROUTE_PROVIDER,
                    rmodel = model\<rparr>) (js_uniq modelNames)"

definition isLocalRoute :: "shell_route \<Rightarrow> bool" where
  "isLocalRoute r \<longleftrightarrow> rprovider r = LOCAL_ROUTE_PROVIDER"

definition version_suffix_re :: re where
  "version_suffix_re = seqs [ch (CHR ''/''), ch (CHR ''v''), rplus rdigit, REol False]"

definition openAiBaseUrl :: "string \<Rightarrow> string" where
  "openAiBaseUrl url =
     (let trimmed = re_replace_first (RSeq (rplus (ch (CHR ''/''))) (REol False)) [] (js_trim url)
      in if re_test version_suffix_re trimmed then trimmed else trimmed @ ''/v1'')"

definition findRoute :: "shell_route list \<Rightarrow> string option \<Rightarrow> shell_route option" where
  "findRoute routes i =
     (case i of None \<Rightarrow> None
      | Some x \<Rightarrow> if x = [] then None else List.find (\<lambda>r. rid r = x) routes)"

definition shellModelIdentifier :: "shell_route \<Rightarrow> route_group \<Rightarrow> string" where
  "shellModelIdentifier r g = ROUTE_VENDORS g @ ''/'' @ rid r"

definition routeIdFromModelIdentifier :: "string option \<Rightarrow> string option" where
  "routeIdFromModelIdentifier identifier =
     (case identifier of None \<Rightarrow> None
      | Some i \<Rightarrow>
          (case List.find (\<lambda>v. prefix (v @ ''/'') i) all_vendors of
             None \<Rightarrow> None
           | Some vendor \<Rightarrow> Some (js_slice i (length vendor + 1))))"

definition KEYLESS_PLACEHOLDER :: string where
  "KEYLESS_PLACEHOLDER = ''none''"

definition keyVariable :: "nat \<Rightarrow> string" where
  "keyVariable index = ''HIVE_ROUTE_KEY_'' @ show_nat index"

section \<open>The overlay\<close>

record overlay_route =
  displayName :: string
  api :: string
  baseURL :: string
  apiKeyEnv :: string
  omodels :: "string list"

datatype overlay_entry =
    LlmProviders "(string \<times> overlay_route) list"   \<comment> \<open>\<open>{ id: 'llm-pi-ai', config: { providers } }\<close>\<close>
  | AcpRoute string string                          \<comment> \<open>\<open>{ id: 'acp', config: route }\<close>\<close>
  | AgentDefaultModel string string                 \<comment> \<open>\<open>{ id: 'agent-default-model', config: route }\<close>\<close>

record shell_overlay =
  overlay :: "overlay_entry list"
  keyVariables :: "(string \<times> string) list"

fun overlay_routes ::
  "nat \<Rightarrow> failover_provider list \<Rightarrow> (string \<times> string) list \<Rightarrow> (string \<times> overlay_route) list \<Rightarrow>
   (string \<times> string) list \<times> (string \<times> overlay_route) list" where
  "overlay_routes i [] vars routes = (vars, routes)"
| "overlay_routes i (p # ps) vars routes =
     overlay_routes (Suc i) ps
       (AList.update (pname p) (keyVariable i) vars)
       (AList.update (pname p)
          \<lparr>displayName = pname p, api = ''openai-completions'', baseURL = openAiBaseUrl (purl p),
           apiKeyEnv = keyVariable i, omodels = providerModels p\<rparr> routes)"

definition buildShellOverlay :: "failover_provider list \<Rightarrow> shell_route option \<Rightarrow> shell_overlay" where
  "buildShellOverlay ps defaultRoute =
     (let (vars, routes) = overlay_routes 0 ps [] []
      in \<lparr>overlay = LlmProviders routes #
            (case defaultRoute of None \<Rightarrow> []
             | Some r \<Rightarrow> [AcpRoute (rprovider r) (rmodel r), AgentDefaultModel (rprovider r) (rmodel r)]),
          keyVariables = vars\<rparr>)"

section \<open>The runtime's option for a route\<close>

record route_choice =
  cvalue :: string
  cname :: string
  cgroup :: "string option"

text \<open>\<open>parse\<close> is \<open>JSON.parse\<close>, \<open>None\<close> where it throws.\<close>

definition encodes_route :: "(string \<Rightarrow> js_val option) \<Rightarrow> shell_route \<Rightarrow> route_choice \<Rightarrow> bool" where
  "encodes_route parse r c =
     (case parse (cvalue c) of
        Some (JArr (p # m # _)) \<Rightarrow> p = JStr (rprovider r) \<and> m = JStr (rmodel r)
      | _ \<Rightarrow> False)"

definition findRouteChoice ::
  "(string \<Rightarrow> js_val option) \<Rightarrow> route_choice list \<Rightarrow> shell_route \<Rightarrow> string option" where
  "findRouteChoice parse choices r =
     (case List.find (encodes_route parse r) choices of
        Some c \<Rightarrow> Some (cvalue c)
      | None \<Rightarrow>
          map_option cvalue
            (List.find (\<lambda>c. cname c = rmodel r \<and> (cgroup c = None \<or> cgroup c = Some (rprovider r))) choices))"

section \<open>Base URLs\<close>

lemma trailing_slashes: "RSeq (rplus (ch (CHR ''/''))) (REol False) = trailing_re (\<lambda>d. d = CHR ''/'')"
  by (simp add: trailing_re_def ch_def)

lemma version_suffix_iff:
  "re_test version_suffix_re s \<longleftrightarrow> (\<exists>u ds. s = u @ ''/v'' @ ds \<and> ds \<noteq> [] \<and> list_all is_digit ds)"
proof
  assume "re_test version_suffix_re s"
  then obtain u v where s: "s = u @ v" and "re_m version_suffix_re (rev u, v, []) \<noteq> []"
    by (auto simp: re_test_iff)
  then obtain ds where v: "v = ''/v'' @ ds"
      and m: "re_m (trailing_re is_digit) (''v/'' @ rev u, ds, []) \<noteq> []"
    by (auto simp: version_suffix_re_def trailing_re_def ch_def rdigit_def
        split: list.splits if_splits)
  from m have "ds \<noteq> [] \<and> list_all is_digit ds" using trailing_re_matches by blast
  with s v show "\<exists>u ds. s = u @ ''/v'' @ ds \<and> ds \<noteq> [] \<and> list_all is_digit ds" by blast
next
  assume "\<exists>u ds. s = u @ ''/v'' @ ds \<and> ds \<noteq> [] \<and> list_all is_digit ds"
  then obtain u ds where s: "s = u @ ''/v'' @ ds" "ds \<noteq> []" "list_all is_digit ds" by blast
  then have "re_m (trailing_re is_digit) (''v/'' @ rev u, ds, []) \<noteq> []"
    using trailing_re_matches by blast
  then have "re_m version_suffix_re (rev u, ''/v'' @ ds, []) \<noteq> []"
    by (simp add: version_suffix_re_def trailing_re_def ch_def rdigit_def)
  with s(1) show "re_test version_suffix_re s" unfolding re_test_iff by blast
qed

lemma not_slash_or_space_digit: "is_digit c \<Longrightarrow> c \<noteq> CHR ''/'' \<and> \<not> is_js_space c"
  by (auto simp: is_digit_def is_js_space_def Let_def)

lemma openAi_shape:
  "\<exists>t ds. openAiBaseUrl url = t @ ''/v'' @ ds \<and> ds \<noteq> [] \<and> list_all is_digit ds \<and>
     (t = [] \<or> \<not> is_js_space (hd t))"
proof -
  define r where "r = rev (dropWhile (\<lambda>d. d = CHR ''/'') (rev (js_trim url)))"
  have u: "openAiBaseUrl url = (if re_test version_suffix_re r then r else r @ ''/v1'')"
    by (simp add: openAiBaseUrl_def trailing_slashes replace_trailing r_def)
  obtain x where "js_trim url = r @ x" using dropWhile_rev_suffix [of "js_trim url"] unfolding r_def by blast
  with trimmed_js_trim [of url] have r: "r = [] \<or> \<not> is_js_space (hd r)"
    by (cases r) (auto simp: trimmed_def)
  show ?thesis
  proof (cases "re_test version_suffix_re r")
    case True
    then obtain t ds where "r = t @ ''/v'' @ ds" "ds \<noteq> []" "list_all is_digit ds"
      unfolding version_suffix_iff by blast
    with r u True show ?thesis by (intro exI [of _ t] exI [of _ ds]) (cases t; simp)
  next
    case False
    have "list_all is_digit ''1''" by (simp add: is_digit_def)
    with False u r show ?thesis by (intro exI [of _ r] exI [of _ "''1''"]) simp
  qed
qed

text \<open>The base URL of a provider is normalised once and for all: it ends in a version
  segment, and normalising it again changes nothing.\<close>

lemma openAiBaseUrl_idempotent:
  "openAiBaseUrl (openAiBaseUrl url) = openAiBaseUrl url \<and>
   (\<exists>t ds. openAiBaseUrl url = t @ ''/v'' @ ds \<and> ds \<noteq> [] \<and> list_all is_digit ds)"
proof -
  obtain t ds where s: "openAiBaseUrl url = t @ ''/v'' @ ds" "ds \<noteq> []" "list_all is_digit ds"
      "t = [] \<or> \<not> is_js_space (hd t)"
    using openAi_shape by blast
  let ?s = "t @ ''/v'' @ ds"
  from s(2,3) have "is_digit (last ?s)" by (auto simp: list_all_iff)
  then have l: "last ?s \<noteq> CHR ''/''" "\<not> is_js_space (last ?s)"
    using not_slash_or_space_digit by blast+
  have "\<not> is_js_space (hd ?s)" using s(4) by (cases t) (auto simp: is_js_space_def)
  with l(2) have "js_trim ?s = ?s" by (intro js_trim_id) (simp add: trimmed_def)
  moreover have "rev (dropWhile (\<lambda>d. d = CHR ''/'') (rev ?s)) = ?s"
    using l(1) by (subst dropWhile_idem_hd) (auto simp: hd_rev simp del: rev_append)
  moreover have "re_test version_suffix_re ?s" using s(2,3) version_suffix_iff by blast
  ultimately have "openAiBaseUrl ?s = ?s"
    by (simp add: openAiBaseUrl_def trailing_slashes replace_trailing Let_def del: rev_append append.simps)
  with s show ?thesis by auto
qed

section \<open>Identifiers\<close>

lemma vendor_prefix_unique:
  "prefix (ROUTE_VENDORS g @ ''/'') (ROUTE_VENDORS h @ ''/'' @ r) \<longleftrightarrow> g = h"
  by (cases g; cases h) simp_all

text \<open>The identifier the model picker uses for a route, in any of its groups, reads back
  as the route's id; a value without one of the vendor prefixes reads back as no route.\<close>

lemma model_identifier_roundtrip:
  "routeIdFromModelIdentifier (Some (shellModelIdentifier r g)) = Some (rid r)"
proof -
  have "List.find (\<lambda>v. prefix (v @ ''/'') (ROUTE_VENDORS g @ ''/'' @ rid r)) all_vendors =
      Some (ROUTE_VENDORS g)"
    using vendor_prefix_unique [of _ g "rid r"] by (cases g) (simp_all add: all_vendors_def)
  then show ?thesis
    by (simp add: routeIdFromModelIdentifier_def shellModelIdentifier_def js_slice_def)
qed

lemma shellRoutes_in:
  "r \<in> set (shellRoutes ps) \<longleftrightarrow>
     (\<exists>p\<in>set ps. rprovider r = pname p \<and> rmodel r \<in> set (providerModels p) \<and>
        rid r = routeId (pname p) (rmodel r))"
  by (cases r) (auto simp: shellRoutes_def)

lemma routeId_inj:
  "CHR ''/'' \<notin> set p \<Longrightarrow> CHR ''/'' \<notin> set p' \<Longrightarrow> routeId p m = routeId p' m' \<longleftrightarrow> p = p' \<and> m = m'"
  by (auto simp: routeId_def append_eq_append_conv2 Cons_eq_append_conv append_eq_Cons_conv)

text \<open>Every route the providers declare is found again by its id, when no provider name
  contains a slash (model names may).\<close>

lemma declared_routes_are_found:
  assumes "r \<in> set (shellRoutes ps)" and "\<forall>p\<in>set ps. CHR ''/'' \<notin> set (pname p)"
  shows "findRoute (shellRoutes ps) (Some (rid r)) = Some r"
proof -
  have "rid r \<noteq> []" using assms(1) by (auto simp: shellRoutes_in routeId_def)
  moreover have same: "r' = r" if r': "r' \<in> set (shellRoutes ps)" "rid r' = rid r" for r'
  proof -
    obtain p where p: "p \<in> set ps" "rprovider r = pname p" "rid r = routeId (pname p) (rmodel r)"
      using assms(1) by (auto simp: shellRoutes_in)
    obtain q where q: "q \<in> set ps" "rprovider r' = pname q" "rid r' = routeId (pname q) (rmodel r')"
      using r'(1) by (auto simp: shellRoutes_in)
    have "routeId (pname p) (rmodel r) = routeId (pname q) (rmodel r')" using p(3) q(3) r'(2) by simp
    then have "pname p = pname q \<and> rmodel r = rmodel r'"
      using routeId_inj assms(2) p(1) q(1) by blast
    with p q r'(2) show "r' = r" by simp
  qed
  then have "List.find (\<lambda>r'. rid r' = rid r) (shellRoutes ps) = Some r"
    using assms(1) by (metis (mono_tags, lifting) find_None_all find_Some_set not_None_eq)
  ultimately show ?thesis by (simp add: findRoute_def)
qed

definition demo_openrouter :: failover_provider where
  "demo_openrouter = (demo_provider ''OpenRouter'')\<lparr>pmodel := ''openai/gpt-5'',
     pmodels := Some [''openai/gpt-5'', ''qwen'']\<rparr>"

lemma declared_routes_are_found_witness:
  "map_option rmodel (findRoute (shellRoutes [demo_provider ''A'', demo_openrouter])
     (Some ''OpenRouter/openai/gpt-5'')) = Some ''openai/gpt-5''"
proof -
  let ?r = "\<lparr>rid = ''OpenRouter/openai/gpt-5'', rprovider = ''OpenRouter'', rmodel = ''openai/gpt-5''\<rparr>"
  have "findRoute (shellRoutes [demo_provider ''A'', demo_openrouter]) (Some (rid ?r)) = Some ?r"
    by (rule declared_routes_are_found)
      (simp_all add: shellRoutes_in demo_openrouter_def demo_provider_def providerModels_def js_uniq_def routeId_def)
  then show ?thesis by simp
qed

section \<open>Keys\<close>

lemma keyVariable_inj [simp]: "keyVariable i = keyVariable j \<longleftrightarrow> i = j"
  by (simp add: keyVariable_def)

lemma overlay_routes_other:
  assumes "n \<notin> pname ` set ps" and "overlay_routes i ps vars routes = (vars', routes')"
  shows "map_of vars' n = map_of vars n \<and> map_of routes' n = map_of routes n"
  using assms
proof (induction ps arbitrary: i vars routes)
  case (Cons p ps)
  then have "map_of vars' n = map_of (AList.update (pname p) (keyVariable i) vars) n \<and>
      map_of routes' n = map_of (AList.update (pname p)
          \<lparr>displayName = pname p, api = ''openai-completions'', baseURL = openAiBaseUrl (purl p),
           apiKeyEnv = keyVariable i, omodels = providerModels p\<rparr> routes) n"
    by simp
  then show ?case using Cons.prems(1) by (simp add: update_conv')
qed simp

lemma overlay_routes_nth:
  assumes "distinct (map pname ps)" and "overlay_routes i ps vars routes = (vars', routes')"
    and "k < length ps"
  shows "map_of vars' (pname (ps ! k)) = Some (keyVariable (i + k)) \<and>
    map_of routes' (pname (ps ! k)) = Some \<lparr>displayName = pname (ps ! k), api = ''openai-completions'',
      baseURL = openAiBaseUrl (purl (ps ! k)), apiKeyEnv = keyVariable (i + k),
      omodels = providerModels (ps ! k)\<rparr>"
  using assms
proof (induction ps arbitrary: i k vars routes)
  case (Cons p ps)
  show ?case
  proof (cases k)
    case 0
    have "pname p \<notin> pname ` set ps" using Cons.prems(1) by simp
    from overlay_routes_other [OF this] Cons.prems(2) show ?thesis
      by (simp add: 0 update_conv')
  next
    case (Suc k')
    with Cons.prems show ?thesis using Cons.IH [of "Suc i" _ _ k'] by simp
  qed
qed simp

text \<open>In the overlay, every provider's route names the environment variable that
  \<open>keyVariables\<close> hands the provider's key in, and no two providers share one, so no provider is
  ever sent another provider's key.\<close>

lemma overlay_keys_separate:
  assumes "distinct (map pname ps)" and "i < length ps" and "j < length ps" and "i \<noteq> j"
    and "buildShellOverlay ps d = o'"
  shows "\<exists>routes ri rj. hd (overlay o') = LlmProviders routes \<and>
     map_of routes (pname (ps ! i)) = Some ri \<and> map_of routes (pname (ps ! j)) = Some rj \<and>
     map_of (keyVariables o') (pname (ps ! i)) = Some (apiKeyEnv ri) \<and>
     apiKeyEnv ri \<noteq> apiKeyEnv rj \<and> baseURL ri = openAiBaseUrl (purl (ps ! i))"
proof -
  obtain vars routes where r: "overlay_routes 0 ps [] [] = (vars, routes)" by fastforce
  then have "hd (overlay o') = LlmProviders routes" "keyVariables o' = vars"
    using assms(5) by (auto simp: buildShellOverlay_def)
  with overlay_routes_nth [OF assms(1) r assms(2)] overlay_routes_nth [OF assms(1) r assms(3)] assms(4)
  show ?thesis by simp
qed

lemma overlay_keys_separate_witness:
  "\<exists>routes ri rj. hd (overlay (buildShellOverlay [demo_provider ''A'', demo_openrouter] None)) = LlmProviders routes \<and>
     map_of routes ''A'' = Some ri \<and> map_of routes ''OpenRouter'' = Some rj \<and> apiKeyEnv ri \<noteq> apiKeyEnv rj"
proof -
  have d: "distinct (map pname [demo_provider ''A'', demo_openrouter])"
    by (simp add: demo_provider_def demo_openrouter_def)
  from overlay_keys_separate [OF d, of 0 1, OF _ _ _ refl, of None] show ?thesis
    by (simp add: demo_provider_def demo_openrouter_def) blast
qed

end
