(* ===== verification/Failover_Service.thy ===== *)
theory Failover_Service
  imports Provider_Failover
begin

text \<open>
  The failover service of a window: settings, keys, cooldowns and the backups the user chose:
  \<open>browser/localModels/providerFailoverService.ts\<close>. The state is a record; every method is a
  function on it. The settings hold \<open>js_val\<close>s, written as JSON and parsed on every read, as the
  code does. \<open>chooseNext\<close> waits for the user in the middle, so it is two steps: what happens up to
  the question, and what happens with the answer in the state of that later moment. The change
  event is not modelled.
\<close>

record chosen_backup =
  fallback :: string
  chosen_until :: int

record failover_state =
  mode_setting :: js_val
  providers_setting :: js_val
  secrets :: "(string \<times> string) list"
  fo_cooldowns :: cooldowns
  chosen :: "(string \<times> chosen_backup) list"

definition API_KEY_SECRET_PREFIX :: string where
  "API_KEY_SECRET_PREFIX = ''hivemindide.failover.apiKey.''"

definition fo_mode :: "failover_state \<Rightarrow> failover_mode" where
  "fo_mode s = toFailoverMode (mode_setting s)"

definition allProviders :: "failover_state \<Rightarrow> failover_provider list" where
  "allProviders s = parseFailoverProviders (providers_setting s)"

definition fo_providers :: "failover_state \<Rightarrow> failover_provider list" where
  "fo_providers s = filter (\<lambda>p. penabled p \<noteq> Some False) (allProviders s)"

text \<open>What the configuration service stores for a provider object: undefined fields are absent.\<close>

definition provider_json :: "failover_provider \<Rightarrow> js_val" where
  "provider_json p = JObj
     ([(''name'', JStr (pname p)), (''url'', JStr (purl p)), (''model'', JStr (pmodel p))]
      @ (case pmodels p of None \<Rightarrow> [] | Some ms \<Rightarrow> [(''models'', JArr (map JStr ms))])
      @ (case penabled p of None \<Rightarrow> [] | Some b \<Rightarrow> [(''enabled'', JBool b)]))"

definition mode_json :: "failover_mode \<Rightarrow> js_val" where
  "mode_json m = JStr (case m of Ask \<Rightarrow> ''ask'' | Auto \<Rightarrow> ''auto'' | Off \<Rightarrow> ''off'')"

definition saveProviders :: "failover_provider list \<Rightarrow> failover_state \<Rightarrow> failover_state" where
  "saveProviders ps s = s\<lparr>providers_setting := JArr (map provider_json ps)\<rparr>"

definition setMode :: "failover_mode \<Rightarrow> failover_state \<Rightarrow> failover_state" where
  "setMode m s = s\<lparr>mode_setting := mode_json m\<rparr>"

definition setApiKey :: "string \<Rightarrow> string option \<Rightarrow> failover_state \<Rightarrow> failover_state" where
  "setApiKey name apiKey s =
     s\<lparr>secrets := (case apiKey of
          Some k \<Rightarrow> if k \<noteq> [] then AList.update (API_KEY_SECRET_PREFIX @ name) k (secrets s)
                    else AList.delete (API_KEY_SECRET_PREFIX @ name) (secrets s)
        | None \<Rightarrow> AList.delete (API_KEY_SECRET_PREFIX @ name) (secrets s)),
       fo_cooldowns := cd_clear (fo_cooldowns s) (Some name)\<rparr>"

definition addProvider :: "failover_provider \<Rightarrow> string option \<Rightarrow> failover_state \<Rightarrow> failover_state" where
  "addProvider p apiKey s =
     (let others = filter (\<lambda>q. pname q \<noteq> pname p) (allProviders s);
          s' = setApiKey (pname p) apiKey s
      in saveProviders (others @ [p]) s')"

definition removeProvider :: "string \<Rightarrow> failover_state \<Rightarrow> failover_state" where
  "removeProvider name s =
     setApiKey name None (saveProviders (filter (\<lambda>q. pname q \<noteq> name) (allProviders s)) s)"

record llama_remote =
  remote_url :: string
  remote_model :: string
  remote_key :: "string option"
  standardOnly :: bool

definition remoteFor :: "failover_provider \<Rightarrow> failover_state \<Rightarrow> llama_remote" where
  "remoteFor p s = \<lparr>remote_url = purl p, remote_model = pmodel p,
     remote_key = map_of (secrets s) (API_KEY_SECRET_PREFIX @ pname p), standardOnly = True\<rparr>"

definition fo_cooldown :: "string \<Rightarrow> int \<Rightarrow> failover_state \<Rightarrow> cooldown option \<times> failover_state" where
  "fo_cooldown p now s =
     (let (e, c) = cd_get (fo_cooldowns s) p now in (e, s\<lparr>fo_cooldowns := c\<rparr>))"

definition activeCooldowns :: "int \<Rightarrow> failover_state \<Rightarrow> (string \<times> cooldown) list \<times> failover_state" where
  "activeCooldowns now s =
     (let (es, c) = cd_active (fo_cooldowns s) now in (es, s\<lparr>fo_cooldowns := c\<rparr>))"

definition markFailed :: "string \<Rightarrow> provider_failure \<Rightarrow> int \<Rightarrow> failover_state \<Rightarrow> failover_state" where
  "markFailed p f now s = s\<lparr>fo_cooldowns := snd (cd_mark (fo_cooldowns s) p f now)\<rparr>"

definition clearCooldowns :: "failover_state \<Rightarrow> failover_state" where
  "clearCooldowns s = s\<lparr>fo_cooldowns := cd_clear (fo_cooldowns s) None, chosen := []\<rparr>"

section \<open>Choosing the next backup\<close>

datatype choice_step =
    Chosen failover_provider
  | NoBackup
  | AskUser "failover_provider list" "cooldown option"

definition fallback_candidates ::
  "string \<Rightarrow> string set \<Rightarrow> failover_provider list \<Rightarrow> int \<Rightarrow> failover_state \<Rightarrow> failover_provider list \<times> cooldowns"
where
  "fallback_candidates failed tried extra now s =
     availableFallbacks
       (fo_providers s @ filter (\<lambda>e. pname e \<notin> pname ` set (fo_providers s)) extra)
       (insert failed tried) (fo_cooldowns s) now"

definition earlier_choice ::
  "string \<Rightarrow> failover_provider list \<Rightarrow> int \<Rightarrow> failover_state \<Rightarrow> failover_provider option" where
  "earlier_choice failed candidates now s =
     (case map_of (chosen s) failed of None \<Rightarrow> None
      | Some e \<Rightarrow> if chosen_until e > now then List.find (\<lambda>p. pname p = fallback e) candidates else None)"

definition choose_begin ::
  "string \<Rightarrow> string set \<Rightarrow> failover_provider list \<Rightarrow> int \<Rightarrow> failover_state \<Rightarrow> choice_step \<times> failover_state"
where
  "choose_begin failed tried extra now s =
     (if fo_mode s = Off then (NoBackup, s)
      else let (candidates, c) = fallback_candidates failed tried extra now s;
               s1 = s\<lparr>fo_cooldowns := c\<rparr>
           in case candidates of
                [] \<Rightarrow> (NoBackup, s1)
              | first # _ \<Rightarrow>
                  (if fo_mode s = Auto then (Chosen first, s1)
                   else case earlier_choice failed candidates now s1 of
                          Some p \<Rightarrow> (Chosen p, s1)
                        | None \<Rightarrow> (let (cd, s2) = fo_cooldown failed now s1
                                   in (AskUser candidates cd, s2))))"

text \<open>The items of the question: a candidate, always switch (the first candidate), or stop.\<close>

datatype user_pick = PickBackup nat | PickAlways | PickStop

definition pick_item :: "failover_provider list \<Rightarrow> user_pick \<Rightarrow> (failover_provider \<times> bool) option" where
  "pick_item candidates pick =
     (case pick of
        PickBackup i \<Rightarrow> if i < length candidates then Some (candidates ! i, False) else None
      | PickAlways \<Rightarrow> (case candidates of [] \<Rightarrow> None | p # _ \<Rightarrow> Some (p, True))
      | PickStop \<Rightarrow> None)"

definition choose_end ::
  "string \<Rightarrow> failover_provider list \<Rightarrow> cooldown option \<Rightarrow> user_pick \<Rightarrow> bool \<Rightarrow> failover_state \<Rightarrow>
   failover_provider option \<times> failover_state" where
  "choose_end failed candidates cd pick cancelled s =
     (case pick_item candidates pick of
        None \<Rightarrow> (None, s)
      | Some (p, always) \<Rightarrow>
          (if cancelled then (None, s)
           else (Some p,
             if always then setMode Auto s
             else (case cd of
                     Some e \<Rightarrow> s\<lparr>chosen := AList.update failed
                                  \<lparr>fallback = pname p, chosen_until = until e\<rparr> (chosen s)\<rparr>
                   | None \<Rightarrow> s))))"

text \<open>
  The whole call, with what the user would pick, whether the request is cancelled by then, and the
  changes other calls make to the state while the question is open.
\<close>

definition chooseNext ::
  "string \<Rightarrow> string set \<Rightarrow> failover_provider list \<Rightarrow> int \<Rightarrow>
   (failover_provider list \<Rightarrow> user_pick) \<Rightarrow> bool \<Rightarrow> (failover_state \<Rightarrow> failover_state) \<Rightarrow>
   failover_state \<Rightarrow> failover_provider option \<times> failover_state" where
  "chooseNext failed tried extra now user cancelled meanwhile s =
     (case choose_begin failed tried extra now s of
        (Chosen p, s1) \<Rightarrow> (Some p, s1)
      | (NoBackup, s1) \<Rightarrow> (None, s1)
      | (AskUser candidates cd, s1) \<Rightarrow>
          choose_end failed candidates cd (user candidates) cancelled (meanwhile s1))"

section \<open>Settings round trip\<close>

lemma js_get_obj_neq [simp]: "k \<noteq> k' \<Longrightarrow> js_get (JObj ((k', v) # kvs)) k = js_get (JObj kvs) k"
  by simp

lemma parse_models_json:
  "list_all trimmed ms \<Longrightarrow> [] \<notin> set ms \<Longrightarrow> parse_models (JArr (map JStr ms)) = ms"
proof (induction ms)
  case (Cons m ms)
  then show ?case by (auto simp: parse_models_def List.map_filter_def js_trim_id)
qed (simp add: parse_models_def List.map_filter_def)

lemma parse_no_models: "parse_models JUndef = []"
  by (simp add: parse_models_def)

definition storable :: "failover_provider \<Rightarrow> bool" where
  "storable p \<longleftrightarrow> provider_ok p \<and> penabled p \<noteq> Some True"

lemma parse_provider_json:
  assumes "storable p"
  shows "trimmed_field (provider_json p) ''name'' = pname p"
    "trimmed_field (provider_json p) ''url'' = purl p"
    "trimmed_field (provider_json p) ''model'' = pmodel p"
    "make_provider (provider_json p) (pname p) (purl p) (pmodel p) = p"
proof -
  note ok = assms [unfolded storable_def provider_ok_def]
  show "trimmed_field (provider_json p) ''name'' = pname p"
    "trimmed_field (provider_json p) ''url'' = purl p"
    "trimmed_field (provider_json p) ''model'' = pmodel p"
    using ok by (simp_all add: trimmed_field_def provider_json_def js_trim_id)
  have "parse_models (js_get (provider_json p) ''models'') =
      (case pmodels p of None \<Rightarrow> [] | Some ms \<Rightarrow> ms)"
    using ok by (auto simp: provider_json_def parse_no_models parse_models_json split: option.split)
  moreover have "js_get (provider_json p) ''enabled'' =
      (case penabled p of None \<Rightarrow> JUndef | Some b \<Rightarrow> JBool b)"
    by (auto simp: provider_json_def split: option.split)
  ultimately show "make_provider (provider_json p) (pname p) (purl p) (pmodel p) = p"
    using ok by (cases "pmodels p"; cases "penabled p")
      (auto simp: make_provider_def intro: failover_provider.equality)
qed

lemma parse_entries_json:
  assumes "list_all storable ps" "distinct (map pname ps)" "pname ` set ps \<inter> set seen = {}"
  shows "parse_provider_entries seen (map provider_json ps) = ps"
  using assms
proof (induction ps arbitrary: seen)
  case (Cons p ps)
  then have "provider_ok p" by (simp add: storable_def)
  with Cons show ?case
    by (simp add: parse_provider_json Let_def provider_ok_def)
qed simp

lemma allProviders_save:
  "list_all storable ps \<Longrightarrow> distinct (map pname ps) \<Longrightarrow> allProviders (saveProviders ps s) = ps"
  by (simp add: allProviders_def saveProviders_def parseFailoverProviders_def parse_entries_json)

lemma parse_storable: "list_all storable (parse_provider_entries seen es)"
proof (induction es arbitrary: seen)
  case (Cons e es)
  have "penabled (make_provider e n u m) \<noteq> Some True" for n u m
    by (simp add: make_provider_def Let_def)
  with Cons show ?case by (simp add: Let_def storable_def make_provider_ok)
qed simp

lemma allProviders_storable: "list_all storable (allProviders s) \<and> distinct (map pname (allProviders s))"
  using parse_storable parse_provider_entries_ok [of "[]"]
  by (simp add: allProviders_def parseFailoverProviders_def split: option.split)

text \<open>
  Property C9: a provider that is added is the last of the list that is read back from settings,
  replacing an earlier one of its name; the others keep their order and fields, the key is the one
  sent with its requests, and any cooldown on that name is over.
\<close>

theorem addProvider_roundtrip:
  assumes "provider_ok p" and "penabled p = None" and "key \<noteq> []"
  shows "allProviders (addProvider p (Some key) s) = filter (\<lambda>q. pname q \<noteq> pname p) (allProviders s) @ [p] \<and>
         remote_key (remoteFor p (addProvider p (Some key) s)) = Some key \<and>
         fst (fo_cooldown (pname p) now (addProvider p (Some key) s)) = None"
proof -
  let ?others = "filter (\<lambda>q. pname q \<noteq> pname p) (allProviders s)"
  have "list_all storable (?others @ [p])"
    using allProviders_storable [of s] assms by (auto simp: list_all_iff storable_def)
  moreover have "distinct (map pname (?others @ [p]))"
    using allProviders_storable [of s] by (auto simp: distinct_map_filter)
  ultimately have "allProviders (addProvider p (Some key) s) = ?others @ [p]"
    by (simp add: addProvider_def Let_def allProviders_save)
  then show ?thesis
    using assms(3)
    by (simp add: addProvider_def Let_def remoteFor_def saveProviders_def setApiKey_def fo_cooldown_def
        case_prod_beta cd_get_clear update_conv')
qed

definition empty_failover :: failover_state where
  "empty_failover = \<lparr>mode_setting = JUndef, providers_setting = JArr [], secrets = [],
     fo_cooldowns = [], chosen = []\<rparr>"

lemma demo_provider_ok: "n \<noteq> [] \<Longrightarrow> trimmed n \<Longrightarrow> provider_ok (demo_provider n)"
  by (simp add: demo_provider_def provider_ok_def trimmed_def is_js_space_def)

lemma addProvider_roundtrip_witness:
  "allProviders (addProvider (demo_provider ''Z'') (Some ''k'') empty_failover) = [demo_provider ''Z'']"
proof -
  have "provider_ok (demo_provider ''Z'')" by (rule demo_provider_ok) (simp_all add: trimmed_def is_js_space_def)
  from addProvider_roundtrip [OF this, of "''k''" empty_failover] show ?thesis
    by (simp add: demo_provider_def allProviders_def empty_failover_def parseFailoverProviders_def)
qed

section \<open>The choice respects what the user set\<close>

lemma fst_fallback_candidates:
  "cd_ok (fo_cooldowns s) \<Longrightarrow> p \<in> set (fst (fallback_candidates failed tried extra now s)) \<Longrightarrow>
   p \<in> set (fo_providers s) \<union> set extra \<and> pname p \<noteq> failed \<and> pname p \<notin> tried \<and>
   fst (cd_get (fo_cooldowns s) (pname p) now) = None"
  by (auto simp: fallback_candidates_def fst_availableFallbacks)

lemma choose_begin_cases:
  obtains "fo_mode s = Off" "choose_begin failed tried extra now s = (NoBackup, s)"
  | s1 where "fst (fallback_candidates failed tried extra now s) = []"
      "choose_begin failed tried extra now s = (NoBackup, s1)"
  | p s1 where "fo_mode s = Auto" "p \<in> set (fst (fallback_candidates failed tried extra now s))"
      "p = hd (fst (fallback_candidates failed tried extra now s))"
      "choose_begin failed tried extra now s = (Chosen p, s1)"
  | p s1 where "fo_mode s = Ask" "p \<in> set (fst (fallback_candidates failed tried extra now s))"
      "choose_begin failed tried extra now s = (Chosen p, s1)"
  | cs cd s1 where "fo_mode s = Ask" "cs = fst (fallback_candidates failed tried extra now s)" "cs \<noteq> []"
      "choose_begin failed tried extra now s = (AskUser cs cd, s1)"
proof -
  obtain cs c where fc: "fallback_candidates failed tried extra now s = (cs, c)" by fastforce
  show thesis
  proof (cases "fo_mode s = Off")
    case True
    then show ?thesis by (intro that(1)) (simp_all add: choose_begin_def)
  next
    case on: False
    show ?thesis
    proof (cases cs)
      case Nil
      with on fc show ?thesis by (intro that(2)) (simp_all add: choose_begin_def)
    next
      case (Cons p ps)
      show ?thesis
      proof (cases "fo_mode s = Auto")
        case True
        with on fc Cons show ?thesis by (intro that(3)) (simp_all add: choose_begin_def)
      next
        case False
        with on have ask: "fo_mode s = Ask" by (cases "fo_mode s") auto
        let ?s1 = "s\<lparr>fo_cooldowns := c\<rparr>"
        show ?thesis
        proof (cases "earlier_choice failed cs now ?s1")
          case None
          with ask fc Cons show ?thesis
            by (intro that(5)) (simp_all add: choose_begin_def case_prod_beta Let_def)
        next
          case (Some q)
          then have "q \<in> set cs"
            by (auto simp: earlier_choice_def split: option.splits if_splits dest: find_Some_set)
          with Some ask fc Cons show ?thesis by (intro that(4)) (simp_all add: choose_begin_def)
        qed
      qed
    qed
  qed
qed

lemma pick_item_set: "pick_item cs pick = Some (p, b) \<Longrightarrow> p \<in> set cs"
  by (auto simp: pick_item_def split: user_pick.splits if_splits list.splits)

lemma chooseNext_candidate:
  assumes "chooseNext failed tried extra now user cancelled meanwhile s = (Some p, s')"
  shows "p \<in> set (fst (fallback_candidates failed tried extra now s)) \<and> fo_mode s \<noteq> Off"
  using assms
  by (cases rule: choose_begin_cases [of s failed tried extra now])
    (auto simp: chooseNext_def choose_end_def split: option.splits if_splits dest: pick_item_set)

lemma chooseNext_sound_aux:
  assumes "distinct (map fst (fo_cooldowns s))"
    and "chooseNext failed tried extra now user cancelled meanwhile s = (Some p, s')"
  shows "p \<in> set (fo_providers s) \<union> set extra \<and> pname p \<noteq> failed \<and> pname p \<notin> tried \<and>
         fst (cd_get (fo_cooldowns s) (pname p) now) = None \<and> fo_mode s \<noteq> Off"
proof -
  have "cd_ok (fo_cooldowns s)" using assms(1) by (simp add: cd_ok_def)
  from chooseNext_candidate [OF assms(2)] fst_fallback_candidates [OF this] show ?thesis by blast
qed

text \<open>
  Property C8: the backup a turn moves to, however it was chosen, is a configured provider or an
  installed CLI that has not failed in this turn and is not resting; with failover off there is
  none, whatever the user or other calls do meanwhile.
\<close>

theorem chooseNext_sound:
  assumes "distinct (map fst (fo_cooldowns s))"
    and "chooseNext failed tried extra now user cancelled meanwhile s = (Some p, s')"
  shows "p \<in> set (fo_providers s) \<union> set extra \<and> pname p \<noteq> failed \<and> pname p \<notin> tried \<and>
         fst (cd_get (fo_cooldowns s) (pname p) now) = None \<and> fo_mode s \<noteq> Off"
  using assms by (rule chooseNext_sound_aux)

definition demo_failover :: failover_state where
  "demo_failover = saveProviders [demo_provider ''A'', demo_provider ''B'']
     (setMode Auto empty_failover)"

lemma demo_failover_providers: "fo_providers demo_failover = [demo_provider ''A'', demo_provider ''B'']"
proof -
  have "provider_ok (demo_provider ''A'')" "provider_ok (demo_provider ''B'')"
    by (rule demo_provider_ok; simp add: trimmed_def is_js_space_def)+
  then have "allProviders demo_failover = [demo_provider ''A'', demo_provider ''B'']"
    unfolding demo_failover_def
    by (intro allProviders_save) (simp_all add: storable_def demo_provider_def)
  then show ?thesis by (simp add: fo_providers_def demo_provider_def)
qed

lemma demo_failover_auto: "fo_mode demo_failover = Auto" "fo_cooldowns demo_failover = []"
  by (simp_all add: demo_failover_def fo_mode_def saveProviders_def setMode_def toFailoverMode_def
      mode_json_def empty_failover_def)

lemma demo_choice:
  "\<exists>s'. chooseNext ''A'' {} [] 0 (\<lambda>_. PickStop) False id demo_failover = (Some (demo_provider ''B''), s')"
  by (simp add: chooseNext_def choose_begin_def fallback_candidates_def demo_failover_auto
      demo_failover_providers availableFallbacks_def cd_get_def Let_def case_prod_beta)
    (simp add: demo_provider_def)

lemma chooseNext_sound_witness:
  "\<exists>p s'. chooseNext ''A'' {} [] 0 (\<lambda>_. PickStop) False id demo_failover = (Some p, s') \<and>
     p \<in> set (fo_providers demo_failover) \<and> pname p \<noteq> ''A''"
proof -
  obtain s' where c: "chooseNext ''A'' {} [] 0 (\<lambda>_. PickStop) False id demo_failover = (Some (demo_provider ''B''), s')"
    using demo_choice by blast
  from chooseNext_sound [OF _ this] c show ?thesis by (auto simp: demo_failover_auto)
qed

text \<open>A pick made for a provider that rests holds until that provider is back. Until then
  the same provider failing again moves to the picked backup without a question, as long as the
  backup is still available and the mode is still ask.\<close>

lemma picked_backup_is_remembered:
  assumes end': "choose_end failed candidates (Some cd) (PickBackup i) False s = (Some p, s1)"
    and mode: "fo_mode s2 = Ask" and kept: "chosen s2 = chosen s1"
    and now: "now < until cd"
    and av: "p \<in> set (fst (fallback_candidates failed tried extra now s2))"
    and uniq: "\<forall>q\<in>set (fst (fallback_candidates failed tried extra now s2)). pname q = pname p \<longrightarrow> q = p"
  shows "fst (choose_begin failed tried extra now s2) = Chosen p"
proof -
  obtain cs c where fc: "fallback_candidates failed tried extra now s2 = (cs, c)" by fastforce
  from end' have "map_of (chosen s1) failed = Some \<lparr>fallback = pname p, chosen_until = until cd\<rparr>"
    by (auto simp: choose_end_def pick_item_def update_conv' split: if_splits)
  moreover have "List.find (\<lambda>q. pname q = pname p) cs = Some p"
    using av uniq fc by (metis (mono_tags, lifting) find_None_all find_Some_set fst_conv not_None_eq)
  ultimately have "earlier_choice failed cs now (s2\<lparr>fo_cooldowns := c\<rparr>) = Some p"
    using kept now by (simp add: earlier_choice_def)
  with mode av fc show ?thesis by (cases cs) (auto simp: choose_begin_def)
qed

definition picked_demo :: failover_state where
  "picked_demo = snd (choose_end ''A'' [demo_provider ''B''] (Some \<lparr>until = 10, failure = demo_failure\<rparr>)
      (PickBackup 0) False (demo_failover\<lparr>mode_setting := JUndef\<rparr>))"

lemma picked_demo_candidates: "fst (fallback_candidates ''A'' {} [] 5 picked_demo) = [demo_provider ''B'']"
proof -
  have "fo_providers picked_demo = fo_providers demo_failover" "fo_cooldowns picked_demo = []"
    by (simp_all add: picked_demo_def choose_end_def pick_item_def fo_providers_def allProviders_def
        demo_failover_auto)
  then show ?thesis
    by (simp add: fallback_candidates_def demo_failover_providers fst_availableFallbacks
        cd_ok_def cd_get_def) (simp add: demo_provider_def)
qed

lemma picked_backup_is_remembered_witness:
  "fst (choose_begin ''A'' {} [] 5 picked_demo) = Chosen (demo_provider ''B'')"
proof (rule picked_backup_is_remembered)
  show "choose_end ''A'' [demo_provider ''B''] (Some \<lparr>until = 10, failure = demo_failure\<rparr>)
      (PickBackup 0) False (demo_failover\<lparr>mode_setting := JUndef\<rparr>) = (Some (demo_provider ''B''), picked_demo)"
    by (simp add: picked_demo_def choose_end_def pick_item_def)
  show "fo_mode picked_demo = Ask"
    by (simp add: picked_demo_def choose_end_def pick_item_def fo_mode_def toFailoverMode_def)
qed (simp_all add: picked_demo_candidates)

end
