(* ===== verification/Serviced_Routing.thy ===== *)
theory Serviced_Routing
  imports Js_Prelude
begin

text \<open>
  Combos (named chains of routes with a strategy) and the usage they are routed by:
  \<open>contrib/hivemindide/common/servicedRouting.ts\<close>. The random source of a turn is a function
  from the number of the draw to the value drawn.
\<close>

datatype combo_strategy =
  Priority | RoundRobin | Weighted | Random | LeastUsed | LastGood | Fastest

fun strategy_of_string :: "string \<Rightarrow> combo_strategy option" where
  "strategy_of_string s =
     (if s = ''priority'' then Some Priority
      else if s = ''round-robin'' then Some RoundRobin
      else if s = ''weighted'' then Some Weighted
      else if s = ''random'' then Some Random
      else if s = ''least-used'' then Some LeastUsed
      else if s = ''last-good'' then Some LastGood
      else if s = ''fastest'' then Some Fastest
      else None)"

record combo_target =
  route :: string
  weight :: "real option"

record combo =
  combo_name :: string
  strategy :: combo_strategy
  targets :: "combo_target list"

definition trimmed_name :: "js_val \<Rightarrow> string" where
  "trimmed_name v = (case js_str v of Some s \<Rightarrow> js_trim s | None \<Rightarrow> [])"

definition parse_strategy :: "js_val \<Rightarrow> combo_strategy" where
  "parse_strategy v =
     (case js_str v of None \<Rightarrow> Priority
      | Some s \<Rightarrow> (case strategy_of_string s of None \<Rightarrow> Priority | Some st \<Rightarrow> st))"

definition parse_target :: "js_val \<Rightarrow> combo_target option" where
  "parse_target v =
     (let t = (case v of JStr s \<Rightarrow> JObj [(''route'', JStr s)] | _ \<Rightarrow> v)
      in case js_str (js_get t ''route'') of None \<Rightarrow> None
         | Some r \<Rightarrow>
             (if js_trim r = [] then None
              else Some \<lparr>route = js_trim r,
                         weight = (case js_num (js_get t ''weight'') of
                                     None \<Rightarrow> None
                                   | Some w \<Rightarrow> if w > 0 then Some w else None)\<rparr>))"

definition parse_targets :: "js_val \<Rightarrow> combo_target list" where
  "parse_targets v =
     (case js_arr v of None \<Rightarrow> [] | Some ts \<Rightarrow> List.map_filter parse_target ts)"

fun parse_combo_entries :: "string list \<Rightarrow> js_val list \<Rightarrow> combo list" where
  "parse_combo_entries seen [] = []"
| "parse_combo_entries seen (entry # es) =
     (let name = trimmed_name (js_get entry ''name'')
      in if name = [] \<or> name \<in> set seen then parse_combo_entries seen es
         else \<lparr>combo_name = name,
               strategy = parse_strategy (js_get entry ''strategy''),
               targets = parse_targets (js_get entry ''targets'')\<rparr>
              # parse_combo_entries (name # seen) es)"

definition parseCombos :: "js_val \<Rightarrow> combo list" where
  "parseCombos value = (case js_arr value of None \<Rightarrow> [] | Some es \<Rightarrow> parse_combo_entries [] es)"

section \<open>Usage of a route\<close>

record route_stats =
  requests :: nat
  failures :: nat
  okMs :: real
  lastUsed :: "real option"
  lastError :: "string option"

definition EMPTY_STATS :: route_stats where
  "EMPTY_STATS = \<lparr>requests = 0, failures = 0, okMs = 0, lastUsed = None, lastError = None\<rparr>"

definition recordOutcome ::
  "route_stats option \<Rightarrow> bool \<Rightarrow> real \<Rightarrow> real \<Rightarrow> string option \<Rightarrow> route_stats" where
  "recordOutcome stats ok ms now error =
     (let s = (case stats of Some s \<Rightarrow> s | None \<Rightarrow> EMPTY_STATS)
      in \<lparr>requests = requests s + 1,
          failures = failures s + (if ok then 0 else 1),
          okMs = okMs s + (if ok then ms else 0),
          lastUsed = Some now,
          lastError = (if ok then lastError s else map_option (take 300) error)\<rparr>)"

definition averageMs :: "route_stats option \<Rightarrow> real option" where
  "averageMs stats =
     (case stats of None \<Rightarrow> None
      | Some s \<Rightarrow> (let ok = int (requests s) - int (failures s)
                   in if ok > 0 then Some (okMs s / of_int ok) else None))"

section \<open>The order a turn tries the targets in\<close>

record combo_context =
  stats :: "string \<Rightarrow> route_stats option"
  available :: "string \<Rightarrow> bool"
  turn :: nat
  lastGood :: "string option"
  random :: "nat \<Rightarrow> real"

definition target_weight :: "combo_target \<Rightarrow> real" where
  "target_weight t = (case weight t of Some w \<Rightarrow> w | None \<Rightarrow> 1)"

fun weighted_find :: "real \<Rightarrow> combo_target list \<Rightarrow> combo_target option" where
  "weighted_find pick [] = None"
| "weighted_find pick (t # ts) =
     (let pick' = pick - target_weight t in if pick' < 0 then Some t else weighted_find pick' ts)"

text \<open>\<open>targets.find(...) ?? targets[0]\<close>\<close>

definition weighted_start :: "real \<Rightarrow> combo_target list \<Rightarrow> combo_target option" where
  "weighted_start pick ts =
     (case weighted_find pick ts of
        Some t \<Rightarrow> Some t
      | None \<Rightarrow> (case ts of [] \<Rightarrow> None | t # _ \<Rightarrow> Some t))"

fun shuffle :: "(nat \<Rightarrow> real) \<Rightarrow> nat \<Rightarrow> nat \<Rightarrow> 'a list \<Rightarrow> 'a list" where
  "shuffle rnd k 0 xs = xs"
| "shuffle rnd k (Suc i) xs =
     (let j = nat \<lfloor>rnd k * real (Suc i + 1)\<rfloor>
      in shuffle rnd (Suc k) i (xs[Suc i := xs ! j, j := xs ! Suc i]))"

definition speed_key :: "combo_context \<Rightarrow> combo_target \<Rightarrow> bool \<times> real" where
  "speed_key ctx t =
     (case averageMs (stats ctx (route t)) of Some ms \<Rightarrow> (False, ms) | None \<Rightarrow> (True, 0))"

definition use_key :: "combo_context \<Rightarrow> combo_target \<Rightarrow> nat" where
  "use_key ctx t = (case stats ctx (route t) of Some s \<Rightarrow> requests s | None \<Rightarrow> 0)"

definition unique_targets :: "combo_target list \<Rightarrow> combo_target list" where
  "unique_targets ts = map snd (js_map_of (map (\<lambda>t. (route t, t)) ts))"

definition move_first :: "combo_target option \<Rightarrow> combo_target list \<Rightarrow> combo_target list option" where
  "move_first first ts = map_option (\<lambda>f. f # filter (\<lambda>t. t \<noteq> f) ts) first"

definition order_targets :: "combo_strategy \<Rightarrow> combo_context \<Rightarrow> combo_target list \<Rightarrow> combo_target list"
where
  "order_targets st ctx ts =
     (case st of
        RoundRobin \<Rightarrow>
          (let n = (if ts \<noteq> [] then turn ctx mod length ts else 0) in drop n ts @ take n ts)
      | Weighted \<Rightarrow>
          (let total = sum_list (map target_weight ts);
               first = weighted_start (random ctx 0 * total) ts
           in case move_first first ts of Some o' \<Rightarrow> o' | None \<Rightarrow> [])
      | Random \<Rightarrow> shuffle (random ctx) 0 (length ts - 1) ts
      | LeastUsed \<Rightarrow> sort_key (use_key ctx) ts
      | Fastest \<Rightarrow> sort_key (speed_key ctx) ts
      | LastGood \<Rightarrow>
          (let good = List.find (\<lambda>t. Some (route t) = lastGood ctx) ts
           in case move_first good ts of Some o' \<Rightarrow> o' | None \<Rightarrow> ts)
      | Priority \<Rightarrow> ts)"

definition orderComboTargets :: "combo \<Rightarrow> combo_context \<Rightarrow> string list" where
  "orderComboTargets c ctx =
     (let routes = map route (order_targets (strategy c) ctx (unique_targets (targets c)))
      in filter (available ctx) routes @ filter (\<lambda>r. \<not> available ctx r) routes)"

section \<open>Every strategy orders the same targets\<close>

lemma set_map_filter_iff: "y \<in> set (List.map_filter f xs) \<longleftrightarrow> (\<exists>x\<in>set xs. f x = Some y)"
  by (induction xs) (auto simp: List.map_filter_def)

lemma routes_unique_targets: "map route (unique_targets ts) = js_uniq (map route ts)"
proof -
  let ?kvs = "map (\<lambda>t. (route t, t)) ts"
  have "map route (map snd (js_map_of ?kvs)) = map fst (js_map_of ?kvs)"
    using set_js_map_of [of ?kvs] by auto
  also have "\<dots> = js_uniq (map route ts)"
    unfolding map_fst_js_map_of by (simp add: comp_def)
  finally show ?thesis by (simp add: unique_targets_def)
qed

lemma distinct_routes_unique: "distinct (map route (unique_targets ts))"
  by (simp add: routes_unique_targets)

lemma distinct_unique_targets: "distinct (unique_targets ts)"
  using distinct_routes_unique by (rule distinct_map [THEN iffD1, THEN conjunct1])

lemma set_unique_targets: "set (unique_targets ts) \<subseteq> set ts"
  using set_js_map_of [of "map (\<lambda>t. (route t, t)) ts"] by (auto simp: unique_targets_def)

lemma weighted_find_set: "weighted_find p ts = Some t \<Longrightarrow> t \<in> set ts"
  by (induction p ts rule: weighted_find.induct) (auto simp: Let_def split: if_splits)

lemma weighted_start_Some: "ts \<noteq> [] \<Longrightarrow> \<exists>f\<in>set ts. weighted_start p ts = Some f"
  by (cases ts) (auto simp: weighted_start_def split: option.splits dest: weighted_find_set)

lemma mset_move_first:
  "distinct ts \<Longrightarrow> f \<in> set ts \<Longrightarrow> move_first (Some f) ts = Some us \<Longrightarrow> mset us = mset ts"
  using distinct_find_filter by (fastforce simp: move_first_def)

lemma swap_index:
  assumes "0 \<le> r" "r < 1"
  shows "nat \<lfloor>r * real (Suc i + 1)\<rfloor> \<le> Suc i"
proof -
  have "r * real (Suc i + 1) < 1 * real (Suc i + 1)"
    by (rule mult_strict_right_mono) (use assms in auto)
  then have "\<lfloor>r * real (Suc i + 1)\<rfloor> < int (Suc i + 1)" by (simp add: floor_less_iff)
  then show ?thesis by linarith
qed

lemma mset_shuffle:
  "(\<forall>k. 0 \<le> rnd k \<and> rnd k < 1) \<Longrightarrow> i < length xs \<or> i = 0 \<Longrightarrow> mset (shuffle rnd k i xs) = mset xs"
proof (induction i arbitrary: k xs)
  case (Suc i)
  let ?j = "nat \<lfloor>rnd k * real (Suc i + 1)\<rfloor>"
  from Suc.prems have "?j < length xs" using swap_index [of "rnd k" i] by fastforce
  with Suc.prems have "mset (xs[Suc i := xs ! ?j, ?j := xs ! Suc i]) = mset xs"
    by (simp add: mset_swap)
  with Suc show ?case by (simp add: Let_def)
qed simp

text \<open>\<open>Math.random\<close> draws from the half-open unit interval.\<close>

definition unit_draws :: "combo_context \<Rightarrow> bool" where
  "unit_draws ctx \<longleftrightarrow> (\<forall>k. 0 \<le> random ctx k \<and> random ctx k < 1)"

lemma mset_order_targets:
  assumes "distinct ts" and "unit_draws ctx"
  shows "mset (order_targets st ctx ts) = mset ts"
proof (cases st)
  case RoundRobin
  then show ?thesis by (simp add: order_targets_def RoundRobin Let_def)
next
  case Weighted
  show ?thesis
  proof (cases "ts = []")
    case False
    then obtain f where "f \<in> set ts"
        "weighted_start (random ctx 0 * sum_list (map target_weight ts)) ts = Some f"
      using weighted_start_Some by blast
    then show ?thesis
      using assms(1) mset_move_first [of ts f]
      by (simp add: order_targets_def Weighted Let_def move_first_def)
  qed (simp add: order_targets_def Weighted weighted_start_def move_first_def)
next
  case Random
  then show ?thesis
    using assms mset_shuffle [of "random ctx" "length ts - 1" ts 0]
    by (cases "ts = []") (auto simp: order_targets_def unit_draws_def)
next
  case LastGood
  then show ?thesis
    using assms(1) find_Some_set mset_move_first
    by (fastforce simp: order_targets_def Let_def move_first_def split: option.splits)
qed (simp_all add: order_targets_def)

section \<open>Which target a turn starts on\<close>

lemma weighted_find_nth:
  assumes "\<forall>t\<in>set ts. 0 < target_weight t" "k < length ts"
    and "sum_list (map target_weight (take k ts)) \<le> p"
    and "p < sum_list (map target_weight (take (Suc k) ts))"
  shows "weighted_find p ts = Some (ts ! k)"
  using assms
proof (induction ts arbitrary: k p)
  case (Cons t ts)
  show ?case
  proof (cases k)
    case 0
    with Cons.prems show ?thesis by simp
  next
    case (Suc k')
    have "0 \<le> sum_list (map target_weight (take k' ts))"
      using Cons.prems(1) by (intro sum_list_nonneg) (auto dest!: in_set_takeD intro: less_imp_le)
    with Cons.prems Suc have "\<not> p - target_weight t < 0" by simp
    moreover have "weighted_find (p - target_weight t) ts = Some (ts ! k')"
      using Cons.prems Suc by (intro Cons.IH) (auto simp: algebra_simps)
    ultimately show ?thesis using Suc by (simp add: Let_def)
  qed
qed simp

lemma round_robin_rotate: "order_targets RoundRobin ctx ts = rotate (turn ctx) ts"
  by (simp add: order_targets_def Let_def rotate_drop_take)

section \<open>Parsed combos are well formed\<close>

definition target_ok :: "combo_target \<Rightarrow> bool" where
  "target_ok t \<longleftrightarrow> route t \<noteq> [] \<and> trimmed (route t) \<and> 0 < target_weight t"

definition combo_ok :: "combo \<Rightarrow> bool" where
  "combo_ok c \<longleftrightarrow> combo_name c \<noteq> [] \<and> trimmed (combo_name c) \<and> list_all target_ok (targets c)"

lemma parse_target_ok: "parse_target v = Some t \<Longrightarrow> target_ok t"
  by (auto simp: parse_target_def target_ok_def target_weight_def Let_def
      split: option.splits if_splits)

lemma parse_targets_ok: "list_all target_ok (parse_targets v)"
  by (auto simp: parse_targets_def list_all_iff set_map_filter_iff parse_target_ok split: option.splits)

lemma trimmed_trimmed_name [simp]: "trimmed (trimmed_name v)"
  by (auto simp: trimmed_name_def trimmed_def [of "[]"] split: option.splits)

lemma parse_combo_entries_ok:
  "list_all combo_ok (parse_combo_entries seen es) \<and>
   distinct (map combo_name (parse_combo_entries seen es)) \<and>
   set (map combo_name (parse_combo_entries seen es)) \<inter> set seen = {}"
proof (induction es arbitrary: seen)
  case (Cons e es)
  show ?case
    using Cons.IH [of seen] Cons.IH [of "trimmed_name (js_get e ''name'') # seen"]
    by (auto simp: Let_def combo_ok_def parse_targets_ok)
qed simp

section \<open>What a turn relies on\<close>

lemma mset_orderComboTargets:
  assumes "unit_draws ctx"
  shows "mset (orderComboTargets c ctx) = mset (js_uniq (map route (targets c)))"
proof -
  let ?ts = "unique_targets (targets c)"
  have "mset (orderComboTargets c ctx) = mset (map route (order_targets (strategy c) ctx ?ts))"
    unfolding orderComboTargets_def Let_def by (rule mset_partition_append)
  also have "\<dots> = mset (map route ?ts)"
    using mset_order_targets [OF distinct_unique_targets assms] by (simp add: mset_map)
  finally show ?thesis by (simp add: routes_unique_targets)
qed

text \<open>Whatever the strategy, a turn tries every distinct route of the combo exactly once
  (no target is lost and none is tried twice), provided \<open>Math.random\<close> draws from [0, 1).\<close>

lemma order_is_permutation:
  assumes "\<forall>k. 0 \<le> random ctx k \<and> random ctx k < 1"
  shows "mset (orderComboTargets c ctx) = mset (js_uniq (map route (targets c))) \<and>
         distinct (orderComboTargets c ctx)"
proof -
  have m: "mset (orderComboTargets c ctx) = mset (js_uniq (map route (targets c)))"
    using assms by (intro mset_orderComboTargets) (simp add: unit_draws_def)
  then show ?thesis by (metis distinct_js_uniq mset_eq_imp_distinct_iff)
qed

definition demo_combo :: "combo_strategy \<Rightarrow> combo" where
  "demo_combo st = \<lparr>combo_name = ''fast'', strategy = st,
     targets = [\<lparr>route = ''A/x'', weight = Some 3\<rparr>, \<lparr>route = ''B/y'', weight = None\<rparr>,
                \<lparr>route = ''A/x'', weight = Some 1\<rparr>, \<lparr>route = ''C/z'', weight = None\<rparr>]\<rparr>"

definition demo_ctx :: combo_context where
  "demo_ctx = \<lparr>stats = (\<lambda>_. None), available = (\<lambda>r. r \<noteq> ''B/y''), turn = 4, lastGood = None,
     random = (\<lambda>_. 1/2)\<rparr>"

lemmas demo_defs = demo_combo_def demo_ctx_def

lemma order_is_permutation_witness:
  "mset (orderComboTargets (demo_combo Random) demo_ctx) = mset [''A/x'', ''B/y'', ''C/z'']"
proof -
  have "mset (orderComboTargets (demo_combo Random) demo_ctx) =
      mset (js_uniq (map route (targets (demo_combo Random))))"
    by (rule order_is_permutation [THEN conjunct1]) (simp add: demo_defs)
  then show ?thesis by (simp add: demo_defs js_uniq_def)
qed


lemma demo_order: "orderComboTargets (demo_combo RoundRobin) demo_ctx = [''C/z'', ''A/x'', ''B/y'']"
  by (simp add: orderComboTargets_def order_targets_def demo_defs unique_targets_def js_map_of_def
      Let_def)


text \<open>A weighted combo starts a turn on a target exactly when the draw falls in the
  target's share: the share of target \<open>k\<close> is the interval between the summed weights before and
  after it, so its probability is its weight over the total.\<close>

lemma weighted_start_share:
  assumes w: "\<forall>t\<in>set (targets c). 0 < target_weight t" and st: "strategy c = Weighted"
    and av: "\<forall>r. available ctx r" and k: "k < length ts" and ts: "ts = unique_targets (targets c)"
    and lo: "sum_list (map target_weight (take k ts)) \<le> random ctx 0 * sum_list (map target_weight ts)"
    and hi: "random ctx 0 * sum_list (map target_weight ts) < sum_list (map target_weight (take (Suc k) ts))"
  shows "hd (orderComboTargets c ctx) = route (ts ! k)"
proof -
  have "\<forall>t\<in>set ts. 0 < target_weight t" using w ts set_unique_targets by blast
  from weighted_find_nth [OF this k lo hi]
  have "order_targets Weighted ctx ts = ts ! k # filter (\<lambda>t. t \<noteq> ts ! k) ts"
    by (simp add: order_targets_def weighted_start_def move_first_def Let_def)
  then show ?thesis using av by (simp add: orderComboTargets_def st ts [symmetric])
qed

lemma weighted_start_share_witness:
  "hd (orderComboTargets (demo_combo Weighted) (demo_ctx\<lparr>available := (\<lambda>_. True)\<rparr>)) = ''B/y''"
proof -
  have "hd (orderComboTargets (demo_combo Weighted) (demo_ctx\<lparr>available := (\<lambda>_. True)\<rparr>)) =
      route (unique_targets (targets (demo_combo Weighted)) ! 1)"
    by (rule weighted_start_share)
      (auto simp: demo_defs target_weight_def unique_targets_def js_map_of_def)
  then show ?thesis by (simp add: demo_defs unique_targets_def js_map_of_def)
qed

text \<open>Round robin is fair. Over as many consecutive turns as the combo has distinct
  targets, all of them available, every target starts exactly one turn.\<close>

lemma round_robin_fair:
  assumes "strategy c = RoundRobin" and "\<forall>r. available ctx r" and "targets c \<noteq> []"
    and "n = length (unique_targets (targets c))"
  shows "mset (map (\<lambda>k. hd (orderComboTargets c (ctx\<lparr>turn := t + k\<rparr>))) [0..<n]) =
         mset (js_uniq (map route (targets c)))"
proof -
  let ?ts = "unique_targets (targets c)"
  have "set (map route ?ts) = set (map route (targets c))"
    by (simp only: routes_unique_targets set_js_uniq)
  with assms(3) have ne: "?ts \<noteq> []" by (cases "targets c") auto
  have hd: "hd (orderComboTargets c (ctx\<lparr>turn := u\<rparr>)) = map route ?ts ! (u mod n)" for u
  proof -
    have "orderComboTargets c (ctx\<lparr>turn := u\<rparr>) = rotate u (map route ?ts)"
      using assms(1,2) by (simp add: orderComboTargets_def round_robin_rotate rotate_map)
    with ne show ?thesis by (simp add: hd_rotate_conv_nth assms(4))
  qed
  have "map (\<lambda>k. hd (orderComboTargets c (ctx\<lparr>turn := t + k\<rparr>))) [0..<n] =
      map (\<lambda>k. map route ?ts ! ((t + k) mod n)) [0..<n]"
    by (simp add: hd)
  also have "\<dots> = rotate t (map route ?ts)"
    by (rule nth_equalityI) (auto simp: assms(4) nth_rotate)
  finally show ?thesis
    by (simp add: routes_unique_targets)
qed

lemma round_robin_fair_witness:
  "mset (map (\<lambda>k. hd (orderComboTargets (demo_combo RoundRobin)
      (demo_ctx\<lparr>available := (\<lambda>_. True), turn := 7 + k\<rparr>))) [0..<3]) = mset [''A/x'', ''B/y'', ''C/z'']"
proof -
  have "mset (map (\<lambda>k. hd (orderComboTargets (demo_combo RoundRobin)
      ((demo_ctx\<lparr>available := (\<lambda>_. True)\<rparr>)\<lparr>turn := 7 + k\<rparr>))) [0..<3]) =
      mset (js_uniq (map route (targets (demo_combo RoundRobin))))"
    by (rule round_robin_fair) (simp_all add: demo_defs unique_targets_def js_map_of_def)
  then show ?thesis by (simp add: demo_defs js_uniq_def)
qed

text \<open>The combos read from settings are well formed whatever the setting holds: their
  names are distinct, non-empty and trimmed, their routes too, and every weight is positive.\<close>

lemma parseCombos_well_formed:
  "distinct (map combo_name (parseCombos v)) \<and> list_all combo_ok (parseCombos v)"
  using parse_combo_entries_ok [of "[]"] by (simp add: parseCombos_def split: option.splits)

section \<open>What the statistics say\<close>

definition record_all ::
  "route_stats option \<Rightarrow> (bool \<times> real \<times> real \<times> string option) list \<Rightarrow> route_stats option" where
  "record_all st os = fold (\<lambda>(ok, ms, now, err) s. Some (recordOutcome s ok ms now err)) os st"

lemma record_all_counts:
  assumes "record_all st os = Some s" and "st = Some s0"
  shows "requests s = requests s0 + length os \<and>
         failures s = failures s0 + length (filter (\<lambda>o'. \<not> fst o') os) \<and>
         okMs s = okMs s0 + sum_list (map (fst \<circ> snd) (filter fst os))"
  using assms
proof (induction os arbitrary: st s0)
  case (Cons x os)
  obtain ok ms now err where x: "x = (ok, ms, now, err)" by (cases x) auto
  have "record_all (Some (recordOutcome st ok ms now err)) os = Some s"
    using Cons.prems by (simp add: record_all_def x)
  from Cons.IH [OF this refl] Cons.prems show ?case
    by (simp add: x recordOutcome_def Let_def)
qed (simp add: record_all_def)

text \<open>The average the dashboard and the fastest strategy use is the mean time of the
  successful requests recorded so far, and it is undefined exactly when none succeeded.\<close>

lemma average_is_mean_of_successes:
  "averageMs (record_all None os) =
     (if filter fst os = [] then None
      else Some (sum_list (map (fst \<circ> snd) (filter fst os)) / real (length (filter fst os))))"
proof (cases "os = []")
  case True
  then show ?thesis by (simp add: record_all_def averageMs_def)
next
  case False
  then obtain x os' where os: "os = x # os'" by (cases os) auto
  have eq: "record_all None os = record_all (Some EMPTY_STATS) os"
    by (cases x) (simp add: os record_all_def recordOutcome_def)
  have "\<exists>s. record_all (Some s0) os = Some s" for s0
    by (induction os arbitrary: s0) (auto simp: record_all_def)
  then obtain s where s: "record_all (Some EMPTY_STATS) os = Some s" by blast
  have len: "length os = length (filter fst os) + length (filter (\<lambda>o'. \<not> fst o') os)"
    by (rule sum_length_filter_compl [symmetric])
  have "averageMs (record_all None os) = averageMs (Some s)" by (simp only: eq s)
  with record_all_counts [OF s refl] show ?thesis
    by (auto simp: averageMs_def Let_def EMPTY_STATS_def len)
qed

end
