(* ===== verification/Model_Catalog.thy ===== *)
theory Model_Catalog
  imports Js_Regex
begin

text \<open>
  Every model the user can run, its traits, and which one suits a task:
  \<open>contrib/hivemindide/common/modelCatalog.ts\<close>. Scores are sums of multiples of a quarter, so
  they are exact as doubles and as reals.
\<close>

datatype task_kind = Plan | Code | AskTask | Subagent | Summarize

fun task_of_string :: "string \<Rightarrow> task_kind option" where
  "task_of_string s =
     (if s = ''plan'' then Some Plan else if s = ''code'' then Some Code
      else if s = ''ask'' then Some AskTask else if s = ''subagent'' then Some Subagent
      else if s = ''summarize'' then Some Summarize else None)"

datatype level = Low | Medium | High
datatype cost_level = Free | Subscription | CLow | CMedium | CHigh
datatype model_kind = KLocal | KCli | KApi

fun level_of_string :: "string \<Rightarrow> level option" where
  "level_of_string s =
     (if s = ''low'' then Some Low else if s = ''medium'' then Some Medium
      else if s = ''high'' then Some High else None)"

fun cost_of_string :: "string \<Rightarrow> cost_level option" where
  "cost_of_string s =
     (if s = ''free'' then Some Free else if s = ''subscription'' then Some Subscription
      else if s = ''low'' then Some CLow else if s = ''medium'' then Some CMedium
      else if s = ''high'' then Some CHigh else None)"

record model_traits =
  reasoning :: level
  speed :: level
  cost :: cost_level
  tools :: "bool option"
  strengths :: "task_kind list"

datatype trait_source = Guess | Known | Measured | User

record catalog_entry =
  ce_route :: string
  ce_provider :: string
  ce_model :: string
  ce_kind :: model_kind
  ce_traits :: model_traits
  ce_sources :: "trait_source list"

definition AUTO_PROVIDER :: string where "AUTO_PROVIDER = ''Auto''"
definition AUTO_MODEL :: string where "AUTO_MODEL = ''by task''"

section \<open>What a model's name says\<close>

record family =
  f_match :: re
  f_reasoning :: level
  f_speed :: level
  f_cost :: cost_level
  f_tools :: "bool option"
  f_strengths :: "task_kind list"

definition opt_dash :: re where "opt_dash = ropt (ch (CHR ''-''))"

definition version_re :: re where
  "version_re = seqs [rdigit, ropt (seqs [ch (CHR ''.''), rplus rdigit]), opt_dash]"

definition size_re :: "string list \<Rightarrow> re" where
  "size_re ns = seqs [RAlt (RBol False) (RCls (\<lambda>c. \<not> is_digit c \<and> c \<noteq> CHR ''.'')),
     alts (map lit ns), ch (CHR ''b''), RWordB]"

definition FAMILIES :: "family list" where
  "FAMILIES =
    [\<lparr>f_match = lit ''opus'', f_reasoning = High, f_speed = Low, f_cost = CHigh, f_tools = Some True,
      f_strengths = [Plan, Code]\<rparr>,
     \<lparr>f_match = lit ''sonnet'', f_reasoning = High, f_speed = Medium, f_cost = CMedium,
      f_tools = Some True, f_strengths = [Code]\<rparr>,
     \<lparr>f_match = lit ''haiku'', f_reasoning = Medium, f_speed = High, f_cost = CLow,
      f_tools = Some True, f_strengths = [Subagent, Summarize, AskTask]\<rparr>,
     \<lparr>f_match = alts [seqs [lit ''gpt'', opt_dash, version_re, lit ''nano''],
                     seqs [lit ''gpt'', opt_dash, lit ''4o-mini'']],
      f_reasoning = Low, f_speed = High, f_cost = CLow, f_tools = Some True, f_strengths = [Summarize]\<rparr>,
     \<lparr>f_match = alts [seqs [lit ''gpt'', opt_dash, version_re, lit ''mini''],
                     seqs [ch (CHR ''o''), rdigit, lit ''-mini'']],
      f_reasoning = Medium, f_speed = High, f_cost = CLow, f_tools = Some True,
      f_strengths = [Subagent, AskTask]\<rparr>,
     \<lparr>f_match = alts [seqs [lit ''gpt'', opt_dash, lit ''5''], seqs [lit ''gpt'', opt_dash, lit ''4.1''],
                     seqs [RWordB, ch (CHR ''o''), cls ''34'', RWordB], lit ''codex''],
      f_reasoning = High, f_speed = Medium, f_cost = CMedium, f_tools = Some True,
      f_strengths = [Plan, Code]\<rparr>,
     \<lparr>f_match = seqs [lit ''gemini'', rstar rdot, lit ''pro''],
      f_reasoning = High, f_speed = Medium, f_cost = CMedium, f_tools = Some True, f_strengths = [Plan]\<rparr>,
     \<lparr>f_match = seqs [lit ''gemini'', rstar rdot, lit ''flash''],
      f_reasoning = Medium, f_speed = High, f_cost = CLow, f_tools = Some True,
      f_strengths = [Subagent, Summarize]\<rparr>,
     \<lparr>f_match = alts [lit ''coder'', lit ''codestral'', lit ''devstral''],
      f_reasoning = Medium, f_speed = Medium, f_cost = CLow, f_tools = None,
      f_strengths = [Code, Subagent]\<rparr>,
     \<lparr>f_match = alts [size_re [''0.5'', ''1.5'', ''1'', ''2'', ''3'', ''4''], lit ''tiny'', lit ''small''],
      f_reasoning = Low, f_speed = High, f_cost = CLow, f_tools = None, f_strengths = [Summarize]\<rparr>,
     \<lparr>f_match = size_re [''7'', ''8'', ''9'', ''12'', ''14''],
      f_reasoning = Medium, f_speed = Medium, f_cost = CLow, f_tools = None,
      f_strengths = [AskTask, Subagent]\<rparr>,
     \<lparr>f_match = size_re [''27'', ''30'', ''32'', ''70'', ''72''],
      f_reasoning = High, f_speed = Low, f_cost = CLow, f_tools = None, f_strengths = [Plan, Code]\<rparr>]"

definition cli_default_family :: family where
  "cli_default_family = \<lparr>f_match = REps, f_reasoning = High, f_speed = Medium, f_cost = CMedium,
     f_tools = Some True, f_strengths = [Code]\<rparr>"

definition guessTraits :: "string \<Rightarrow> model_kind \<Rightarrow> bool \<Rightarrow> model_traits \<times> bool" where
  "guessTraits model k cliDefault =
     (let name = js_lower model;
          family = (if cliDefault then Some cli_default_family
                    else List.find (\<lambda>f. re_test (f_match f) name) FAMILIES);
          c = (case k of KLocal \<Rightarrow> Free | KCli \<Rightarrow> Subscription
               | KApi \<Rightarrow> (case family of Some f \<Rightarrow> f_cost f | None \<Rightarrow> CMedium));
          ts = (if k = KCli then Some True else Option.bind family f_tools)
      in (\<lparr>reasoning = (case family of Some f \<Rightarrow> f_reasoning f | None \<Rightarrow> Medium),
           speed = (case family of Some f \<Rightarrow> f_speed f | None \<Rightarrow> Medium),
           cost = c, tools = ts,
           strengths = (case family of Some f \<Rightarrow> f_strengths f | None \<Rightarrow> [AskTask])\<rparr>,
          family \<noteq> None))"

section \<open>What was observed, and what the user set\<close>

record observed =
  toolless :: bool
  ob_averageMs :: "real option"
  successes :: "nat option"

record trait_overrides =
  o_reasoning :: "level option"
  o_speed :: "level option"
  o_cost :: "cost_level option"
  o_tools :: "bool option"
  o_strengths :: "task_kind list option"

definition no_overrides :: trait_overrides where
  "no_overrides = \<lparr>o_reasoning = None, o_speed = None, o_cost = None, o_tools = None, o_strengths = None\<rparr>"

definition MEASURED_MIN :: nat where "MEASURED_MIN = 3"

definition speedOf :: "real \<Rightarrow> level" where
  "speedOf ms = (if ms < 8000 then High else if ms < 30000 then Medium else Low)"

definition measured_speed :: "observed \<Rightarrow> real option" where
  "measured_speed ob =
     (case ob_averageMs ob of None \<Rightarrow> None
      | Some ms \<Rightarrow> if (case successes ob of Some n \<Rightarrow> n | None \<Rightarrow> 0) \<ge> MEASURED_MIN then Some ms else None)"

text \<open>The spreads \<open>{ ...traits, ...overrides }\<close>.\<close>

definition apply_observed :: "observed \<Rightarrow> model_traits \<Rightarrow> model_traits" where
  "apply_observed ob t =
     (let t1 = (if toolless ob then t\<lparr>tools := Some False\<rparr> else t)
      in case measured_speed ob of Some ms \<Rightarrow> t1\<lparr>speed := speedOf ms\<rparr> | None \<Rightarrow> t1)"

definition apply_overrides :: "trait_overrides \<Rightarrow> model_traits \<Rightarrow> model_traits" where
  "apply_overrides ov t =
     \<lparr>reasoning = (case o_reasoning ov of Some x \<Rightarrow> x | None \<Rightarrow> reasoning t),
      speed = (case o_speed ov of Some x \<Rightarrow> x | None \<Rightarrow> speed t),
      cost = (case o_cost ov of Some x \<Rightarrow> x | None \<Rightarrow> cost t),
      tools = (case o_tools ov of Some x \<Rightarrow> Some x | None \<Rightarrow> tools t),
      strengths = (case o_strengths ov of Some x \<Rightarrow> x | None \<Rightarrow> strengths t)\<rparr>"

definition catalogEntry ::
  "string \<Rightarrow> string \<Rightarrow> string \<Rightarrow> model_kind \<Rightarrow> observed option \<Rightarrow> trait_overrides option \<Rightarrow> bool \<Rightarrow> catalog_entry"
where
  "catalogEntry i provider model k ob ov cliDefault =
     (let (t0, known) = guessTraits model k cliDefault;
          s0 = [if known \<or> cliDefault then Known else Guess];
          (t1, s1) = (case ob of None \<Rightarrow> (t0, s0)
                      | Some ob' \<Rightarrow> if toolless ob' \<or> measured_speed ob' \<noteq> None
                                   then (apply_observed ob' t0, s0 @ [Measured]) else (t0, s0));
          (t2, s2) = (case ov of None \<Rightarrow> (t1, s1)
                      | Some ov' \<Rightarrow> if ov' \<noteq> no_overrides
                                   then (apply_overrides ov' t1, s1 @ [User]) else (t1, s1))
      in \<lparr>ce_route = i, ce_provider = provider, ce_model = model, ce_kind = k, ce_traits = t2,
          ce_sources = s2\<rparr>)"

section \<open>Which model suits a task\<close>

record task_weights =
  w_reasoning :: real
  w_speed :: real
  w_cost :: real
  w_tools :: bool

fun WEIGHTS :: "task_kind \<Rightarrow> task_weights" where
  "WEIGHTS Plan = \<lparr>w_reasoning = 3, w_speed = 1/4, w_cost = 1, w_tools = False\<rparr>"
| "WEIGHTS Code = \<lparr>w_reasoning = 2, w_speed = 1, w_cost = 1/2, w_tools = True\<rparr>"
| "WEIGHTS AskTask = \<lparr>w_reasoning = 3/2, w_speed = 3/2, w_cost = 1, w_tools = False\<rparr>"
| "WEIGHTS Subagent = \<lparr>w_reasoning = 1, w_speed = 2, w_cost = 3/2, w_tools = True\<rparr>"
| "WEIGHTS Summarize = \<lparr>w_reasoning = 1/2, w_speed = 2, w_cost = 2, w_tools = False\<rparr>"

fun LEVEL :: "level \<Rightarrow> real" where
  "LEVEL Low = 0" | "LEVEL Medium = 1" | "LEVEL High = 2"

fun COST :: "cost_level \<Rightarrow> real" where
  "COST Free = 2" | "COST Subscription = 3/2" | "COST CLow = 3/2" | "COST CMedium = 1" | "COST CHigh = 0"

definition STRENGTH_BONUS :: real where "STRENGTH_BONUS = 3/2"
definition UNKNOWN_TOOLS_PENALTY :: real where "UNKNOWN_TOOLS_PENALTY = 1"

definition task_score :: "task_kind \<Rightarrow> model_traits \<Rightarrow> real" where
  "task_score task t =
     (let w = WEIGHTS task in
      w_reasoning w * LEVEL (reasoning t) + w_speed w * LEVEL (speed t) + w_cost w * COST (cost t)
      + (if task \<in> set (strengths t) then STRENGTH_BONUS else 0)
      - (if w_tools w \<and> tools t = None then UNKNOWN_TOOLS_PENALTY else 0))"

definition can_do :: "task_kind \<Rightarrow> (string \<Rightarrow> bool) \<Rightarrow> catalog_entry \<Rightarrow> bool" where
  "can_do task av e \<longleftrightarrow>
     av (ce_route e) \<and> \<not> (w_tools (WEIGHTS task) \<and> tools (ce_traits e) = Some False)"

definition rankForTask ::
  "catalog_entry list \<Rightarrow> task_kind \<Rightarrow> (string \<Rightarrow> bool) \<Rightarrow> (catalog_entry \<times> real) list" where
  "rankForTask entries task av =
     sort_key (\<lambda>r. - snd r)
       (map (\<lambda>e. (e, task_score task (ce_traits e))) (filter (can_do task av) entries))"

definition plan_mode_re :: re where
  "plan_mode_re = alts [lit ''plan'', lit ''architect'', lit ''design'']"

definition ask_mode_re :: re where
  "ask_mode_re = alts [lit ''ask'', lit ''explain'', lit ''question'', lit ''review'']"

definition taskForMode :: "string option \<Rightarrow> task_kind" where
  "taskForMode modeName =
     (let name = js_lower (case modeName of Some m \<Rightarrow> m | None \<Rightarrow> []) in
      if re_test plan_mode_re name then Plan else if re_test ask_mode_re name then AskTask else Code)"

definition is_label_char :: "char \<Rightarrow> bool" where
  "is_label_char c \<longleftrightarrow> (let n = (of_char (js_lower_char c) :: nat) in (97 \<le> n \<and> n \<le> 122) \<or> n = 45)"

definition task_label_re :: re where
  "task_label_re = seqs [RBol False, rstar rspace, ch (CHR ''[''), RGroup 1 (rplus (RCls is_label_char)),
     ch (CHR '']''), rstar rspace, RGroup 2 (rstar rdot), REol False]"

fun kind_of_label :: "string option \<Rightarrow> task_kind" where
  "kind_of_label None = Subagent"
| "kind_of_label (Some l) =
     (if l = ''plan'' \<or> l = ''design'' then Plan
      else if l = ''code'' \<or> l = ''implement'' \<or> l = ''fix'' \<or> l = ''test'' then Subagent
      else if l = ''research'' \<or> l = ''review'' \<or> l = ''explain'' then AskTask
      else if l = ''summarize'' \<or> l = ''docs'' then Summarize
      else Subagent)"

definition parseTaskLabel :: "string \<Rightarrow> task_kind \<times> string" where
  "parseTaskLabel task =
     (let m = re_exec task_label_re task;
          text = (case re_cap m 2 of Some t \<Rightarrow> js_trim t | None \<Rightarrow> [])
      in (kind_of_label (map_option js_lower (re_cap m 1)), if text \<noteq> [] then text else js_trim task))"

section \<open>Overrides read from settings\<close>

fun js_entries :: "js_val \<Rightarrow> (string \<times> js_val) list" where
  "js_entries (JObj kvs) = kvs"
| "js_entries (JArr vs) = zip (map show_nat [0..<length vs]) vs"
| "js_entries _ = []"

fun is_object :: "js_val \<Rightarrow> bool" where
  "is_object (JObj _) = True"
| "is_object (JArr _) = True"
| "is_object _ = False"

definition parse_override :: "js_val \<Rightarrow> trait_overrides" where
  "parse_override raw =
     \<lparr>o_reasoning = Option.bind (js_str (js_get raw ''reasoning'')) level_of_string,
      o_speed = Option.bind (js_str (js_get raw ''speed'')) level_of_string,
      o_cost = Option.bind (js_str (js_get raw ''cost'')) cost_of_string,
      o_tools = js_bool (js_get raw ''tools''),
      o_strengths = map_option (List.map_filter (\<lambda>v. Option.bind (js_str v) task_of_string))
                      (js_arr (js_get raw ''strengths''))\<rparr>"

definition parseTraitOverrides :: "js_val \<Rightarrow> (string \<times> trait_overrides) list" where
  "parseTraitOverrides value =
     (if \<not> is_object value then []
      else fold (\<lambda>(route, raw) m.
                  if is_object raw \<and> parse_override raw \<noteq> no_overrides
                  then AList.update route (parse_override raw) m else m)
             (js_entries value) [])"

section \<open>Properties\<close>

lemma rank_sorted: "sorted_wrt (\<lambda>x y. snd y \<le> snd x) (rankForTask es task av)"
proof -
  have "sorted (map (\<lambda>r. - snd r) (rankForTask es task av))" by (simp add: rankForTask_def)
  then show ?thesis by (simp add: sorted_map)
qed

text \<open>Ranking a task lists exactly the available entries that can do it (none without
  tools when the task runs as an agent), each with its score, best first, and entries with equal
  scores keep the catalog's order.\<close>

lemma rank_is_best_first:
  "mset (map fst (rankForTask es task av)) = mset (filter (can_do task av) es) \<and>
   sorted_wrt (\<lambda>x y. snd y \<le> snd x) (rankForTask es task av) \<and>
   (\<forall>s. filter (\<lambda>r. snd r = s) (rankForTask es task av) =
        map (\<lambda>e. (e, s)) (filter (\<lambda>e. task_score task (ce_traits e) = s) (filter (can_do task av) es)))"
proof -
  let ?rs = "map (\<lambda>e. (e, task_score task (ce_traits e))) (filter (can_do task av) es)"
  have "mset (rankForTask es task av) = mset ?rs" by (simp add: rankForTask_def)
  then have "image_mset fst (mset (rankForTask es task av)) = image_mset fst (mset ?rs)" by simp
  then have m: "mset (map fst (rankForTask es task av)) = mset (filter (can_do task av) es)"
    by (simp add: comp_def flip: mset_map)
  have st: "filter (\<lambda>r. snd r = s) (rankForTask es task av) =
      map (\<lambda>e. (e, s)) (filter (\<lambda>e. task_score task (ce_traits e) = s) (filter (can_do task av) es))" for s
  proof -
    have "filter (\<lambda>r. - snd r = - s) (rankForTask es task av) = filter (\<lambda>r. - snd r = - s) ?rs"
      unfolding rankForTask_def by (rule sort_key_stable)
    then show ?thesis by (simp add: filter_map comp_def cong: filter_cong)
  qed
  from m st rank_sorted show ?thesis by blast
qed

lemma toolless_entry:
  assumes "Option.bind ov o_tools = None"
  shows "tools (ce_traits (catalogEntry i p m k (Some ob) ov d)) =
    (if toolless ob then Some False else tools (fst (guessTraits m k d)))"
  using assms
  by (auto simp: catalogEntry_def apply_observed_def apply_overrides_def Let_def case_prod_beta
      split: option.splits)

text \<open>A model that was seen to fail because it cannot call tools is never ranked for a
  task that runs as an agent, unless the user set the trait by hand.\<close>

lemma toolless_never_runs_agents:
  assumes "toolless ob" and "Option.bind ov o_tools = None" and "task = Code \<or> task = Subagent"
    and "e = catalogEntry i p m k (Some ob) ov d"
  shows "e \<notin> fst ` set (rankForTask es task av)"
proof
  assume "e \<in> fst ` set (rankForTask es task av)"
  then have "can_do task av e" by (auto simp: rankForTask_def)
  moreover have "tools (ce_traits e) = Some False" using assms toolless_entry by simp
  ultimately show False using assms(3) by (auto simp: can_do_def)
qed

lemma toolless_never_runs_agents_witness:
  "catalogEntry ''Local/qwen'' ''Local'' ''qwen'' KLocal (Some \<lparr>toolless = True, ob_averageMs = None, successes = None\<rparr>) None False
     \<notin> fst ` set (rankForTask [catalogEntry ''Local/qwen'' ''Local'' ''qwen'' KLocal
         (Some \<lparr>toolless = True, ob_averageMs = None, successes = None\<rparr>) None False] Code (\<lambda>_. True))"
  by (rule toolless_never_runs_agents [where ob = "\<lparr>toolless = True, ob_averageMs = None, successes = None\<rparr>"])
    simp_all

end
