(* ===== verification/Serviced_Service.thy ===== *)
theory Serviced_Service
  imports Serviced_Routing Model_Catalog
begin

text \<open>
  The serviced-AI service of a window: combos and defaults read from settings, the usage of every
  route, the rotation of the combos and what survives a restart:
  \<open>browser/serviced/servicedAIService.ts\<close>. The three stored maps are kept as values (their JSON
  round trip through the storage service is not modelled); the delayed save is a flag and the
  step that runs it. The change event is not modelled.
\<close>

record stored_state =
  stored_stats :: "(string \<times> route_stats) list"
  stored_lastGood :: "(string \<times> string) list"
  stored_toolless :: "string list"

record serviced_state =
  combos_setting :: js_val
  defaultRoute_setting :: js_val
  traits_setting :: js_val
  taskRoutes_setting :: js_val
  sv_stats :: "(string \<times> route_stats) list"
  sv_lastGood :: "(string \<times> string) list"
  sv_turns :: "(string \<times> nat) list"
  sv_toolless :: "string list"
  save_scheduled :: bool
  stored :: stored_state

text \<open>The constructor: what a window starts from, given the settings and the storage.\<close>

definition sv_start :: "js_val \<Rightarrow> js_val \<Rightarrow> js_val \<Rightarrow> js_val \<Rightarrow> stored_state \<Rightarrow> serviced_state" where
  "sv_start c d t r st = \<lparr>combos_setting = c, defaultRoute_setting = d, traits_setting = t,
     taskRoutes_setting = r, sv_stats = stored_stats st, sv_lastGood = stored_lastGood st,
     sv_turns = [], sv_toolless = js_uniq (stored_toolless st), save_scheduled = False, stored = st\<rparr>"

definition sv_persist :: "serviced_state \<Rightarrow> serviced_state" where
  "sv_persist s = s\<lparr>stored := \<lparr>stored_stats = sv_stats s, stored_lastGood = sv_lastGood s,
     stored_toolless = sv_toolless s\<rparr>\<rparr>"

definition sv_run_save :: "serviced_state \<Rightarrow> serviced_state" where
  "sv_run_save s = (if save_scheduled s then (sv_persist s)\<lparr>save_scheduled := False\<rparr> else s)"

definition sv_combos :: "serviced_state \<Rightarrow> combo list" where
  "sv_combos s = parseCombos (combos_setting s)"

definition sv_defaultRoute :: "serviced_state \<Rightarrow> string option" where
  "sv_defaultRoute s =
     (case js_str (defaultRoute_setting s) of None \<Rightarrow> None
      | Some d \<Rightarrow> if js_trim d = [] then None else Some (js_trim d))"

definition setDefaultRoute :: "string option \<Rightarrow> serviced_state \<Rightarrow> serviced_state" where
  "setDefaultRoute i s =
     s\<lparr>defaultRoute_setting := JStr (case i of Some x \<Rightarrow> x | None \<Rightarrow> [])\<rparr>"

definition sv_route_stats :: "string \<Rightarrow> serviced_state \<Rightarrow> route_stats option" where
  "sv_route_stats r s = map_of (sv_stats s) r"

definition sv_record :: "string \<Rightarrow> bool \<Rightarrow> real \<Rightarrow> real \<Rightarrow> string option \<Rightarrow> serviced_state \<Rightarrow> serviced_state" where
  "sv_record r ok ms now error s =
     s\<lparr>sv_stats := AList.update r (recordOutcome (map_of (sv_stats s) r) ok ms now error) (sv_stats s),
       save_scheduled := True\<rparr>"

definition resetStats :: "serviced_state \<Rightarrow> serviced_state" where
  "resetStats s = sv_persist (s\<lparr>sv_stats := []\<rparr>)"

definition planCombo ::
  "string \<Rightarrow> (string \<Rightarrow> bool) \<Rightarrow> (nat \<Rightarrow> real) \<Rightarrow> serviced_state \<Rightarrow> string list \<times> serviced_state" where
  "planCombo name av rnd s =
     (case List.find (\<lambda>c. combo_name c = name) (sv_combos s) of
        None \<Rightarrow> ([], s)
      | Some c \<Rightarrow>
          (let t = (case map_of (sv_turns s) name of Some t \<Rightarrow> t | None \<Rightarrow> 0);
               s' = s\<lparr>sv_turns := AList.update name (t + 1) (sv_turns s)\<rparr>
           in (orderComboTargets c \<lparr>stats = map_of (sv_stats s'), available = av, turn = t,
                  lastGood = map_of (sv_lastGood s') name, random = rnd\<rparr>, s')))"

definition comboSucceeded :: "string \<Rightarrow> string \<Rightarrow> serviced_state \<Rightarrow> serviced_state" where
  "comboSucceeded name r s =
     s\<lparr>sv_lastGood := AList.update name r (sv_lastGood s), save_scheduled := True\<rparr>"

definition isToolless :: "string \<Rightarrow> serviced_state \<Rightarrow> bool" where
  "isToolless r s \<longleftrightarrow> r \<in> set (sv_toolless s)"

definition markToolless :: "string \<Rightarrow> serviced_state \<Rightarrow> serviced_state" where
  "markToolless r s =
     (if isToolless r s then s else sv_persist (s\<lparr>sv_toolless := sv_toolless s @ [r]\<rparr>))"

definition traitOverrides :: "serviced_state \<Rightarrow> (string \<times> trait_overrides) list" where
  "traitOverrides s = parseTraitOverrides (traits_setting s)"

fun task_key :: "task_kind \<Rightarrow> string" where
  "task_key Plan = ''plan''" | "task_key Code = ''code''" | "task_key AskTask = ''ask''"
| "task_key Subagent = ''subagent''" | "task_key Summarize = ''summarize''"

definition taskRoute :: "task_kind \<Rightarrow> serviced_state \<Rightarrow> string option" where
  "taskRoute task s =
     (case js_str (js_get (taskRoutes_setting s) (task_key task)) of None \<Rightarrow> None
      | Some v \<Rightarrow> (let t = js_trim v in if t \<noteq> [] \<and> t \<noteq> ''auto'' then Some t else None))"

definition setTaskRoute :: "task_kind \<Rightarrow> string option \<Rightarrow> serviced_state \<Rightarrow> serviced_state" where
  "setTaskRoute task r s =
     (let all = js_entries (taskRoutes_setting s)
      in s\<lparr>taskRoutes_setting := JObj
          (case r of Some x \<Rightarrow> if x \<noteq> [] then AList.update (task_key task) (JStr x) all
                               else AList.delete (task_key task) all
           | None \<Rightarrow> AList.delete (task_key task) all)\<rparr>)"

section \<open>Properties\<close>

lemma planCombo_turn:
  "List.find (\<lambda>c. combo_name c = name) (sv_combos s) = Some c \<Longrightarrow>
   map_of (sv_turns (snd (planCombo name av rnd s))) name' =
     (if name' = name then Some (Suc (case map_of (sv_turns s) name of Some t \<Rightarrow> t | None \<Rightarrow> 0))
      else map_of (sv_turns s) name')"
  by (simp add: planCombo_def Let_def update_conv')

lemma planCombo_round_robin:
  assumes "List.find (\<lambda>c. combo_name c = name) (sv_combos s) = Some c" "strategy c = RoundRobin"
  shows "fst (planCombo name (\<lambda>_. True) rnd s) =
    rotate (case map_of (sv_turns s) name of Some t \<Rightarrow> t | None \<Rightarrow> 0) (map route (unique_targets (targets c)))"
  unfolding planCombo_def assms(1) option.case Let_def fst_conv orderComboTargets_def assms(2)
    round_robin_rotate
  by (simp add: rotate_map)

lemma planCombo_frame [simp]:
  "sv_combos (snd (planCombo name av rnd s)) = sv_combos s"
  "sv_stats (snd (planCombo name av rnd s)) = sv_stats s"
  "sv_lastGood (snd (planCombo name av rnd s)) = sv_lastGood s"
  "sv_toolless (snd (planCombo name av rnd s)) = sv_toolless s"
  by (simp_all add: planCombo_def Let_def sv_combos_def split: option.split)

text \<open>Planning the same combo again and again.\<close>

fun plan_starts :: "nat \<Rightarrow> string \<Rightarrow> serviced_state \<Rightarrow> string list" where
  "plan_starts 0 name s = []"
| "plan_starts (Suc n) name s =
     (let (order, s') = planCombo name (\<lambda>_. True) (\<lambda>_. 0) s in hd order # plan_starts n name s')"

definition turn_of :: "string \<Rightarrow> serviced_state \<Rightarrow> nat" where
  "turn_of name s = (case map_of (sv_turns s) name of Some t \<Rightarrow> t | None \<Rightarrow> 0)"

lemma turn_of_plan:
  "List.find (\<lambda>c. combo_name c = name) (sv_combos s) = Some c \<Longrightarrow>
   turn_of name (snd (planCombo name av rnd s)) = Suc (turn_of name s)"
  unfolding turn_of_def by (subst planCombo_turn) simp_all

lemma plan_starts_eq:
  assumes "List.find (\<lambda>c. combo_name c = name) (sv_combos s) = Some c" "strategy c = RoundRobin"
  shows "plan_starts n name s =
    map (\<lambda>k. hd (rotate (turn_of name s + k) (map route (unique_targets (targets c))))) [0..<n]"
  using assms(1)
proof (induction n arbitrary: s)
  case (Suc n)
  let ?r = "map route (unique_targets (targets c))" and ?t = "turn_of name s"
  let ?s' = "snd (planCombo name (\<lambda>_. True) (\<lambda>_. 0) s)"
  have "plan_starts (Suc n) name s = hd (rotate ?t ?r) # plan_starts n name ?s'"
    using planCombo_round_robin [OF Suc.prems assms(2)] by (simp add: case_prod_beta turn_of_def)
  also have "plan_starts n name ?s' = map (\<lambda>k. hd (rotate (Suc ?t + k) ?r)) [0..<n]"
    using Suc.IH [of ?s'] Suc.prems turn_of_plan [OF Suc.prems] by (simp only: planCombo_frame)
  also have "hd (rotate ?t ?r) # map (\<lambda>k. hd (rotate (Suc ?t + k) ?r)) [0..<n] =
      map (\<lambda>k. hd (rotate (?t + k) ?r)) (0 # map Suc [0..<n])"
    by simp
  also have "0 # map Suc [0..<n] = [0..<Suc n]" by (simp add: map_Suc_upt upt_conv_Cons del: upt_Suc)
  finally show ?case .
qed simp

text \<open>The service advances a round-robin combo by one target per planned turn, whatever the
  combo's turn counter was, so consecutive turns start on every distinct target once per round.\<close>

lemma planned_turns_rotate:
  assumes "List.find (\<lambda>c. combo_name c = name) (sv_combos s) = Some c" and "strategy c = RoundRobin"
    and "targets c \<noteq> []" and "n = length (unique_targets (targets c))"
  shows "mset (plan_starts n name s) = mset (js_uniq (map route (targets c)))"
proof -
  let ?r = "map route (unique_targets (targets c))"
  let ?t = "turn_of name s"
  have "set ?r = set (map route (targets c))" by (simp only: routes_unique_targets set_js_uniq)
  with assms(3) have ne: "?r \<noteq> []" by (cases "targets c") auto
  have "plan_starts n name s = map (\<lambda>k. ?r ! ((?t + k) mod length ?r)) [0..<length ?r]"
    using plan_starts_eq [OF assms(1,2)] ne by (simp add: assms(4) hd_rotate_conv_nth)
  also have "\<dots> = rotate ?t ?r" by (rule nth_equalityI) (simp_all add: nth_rotate)
  finally show ?thesis by (simp add: routes_unique_targets)
qed

definition demo_serviced :: serviced_state where
  "demo_serviced = sv_start
     (JArr [JObj [(''name'', JStr ''fast''), (''strategy'', JStr ''round-robin''),
                  (''targets'', JArr [JStr ''A/x'', JStr ''B/y''])]])
     JUndef JUndef (JObj []) \<lparr>stored_stats = [], stored_lastGood = [], stored_toolless = []\<rparr>"

lemma demo_serviced_combos: "sv_combos demo_serviced =
    [\<lparr>combo_name = ''fast'', strategy = RoundRobin,
      targets = [\<lparr>route = ''A/x'', weight = None\<rparr>, \<lparr>route = ''B/y'', weight = None\<rparr>]\<rparr>]"
  by code_simp

lemma planned_turns_rotate_witness:
  "mset (plan_starts 2 ''fast'' demo_serviced) = {#''A/x'', ''B/y''#}"
proof -
  let ?c = "\<lparr>combo_name = ''fast'', strategy = RoundRobin,
      targets = [\<lparr>route = ''A/x'', weight = None\<rparr>, \<lparr>route = ''B/y'', weight = None\<rparr>]\<rparr>"
  have "mset (plan_starts 2 ''fast'' demo_serviced) = mset (js_uniq (map route (targets ?c)))"
    by (rule planned_turns_rotate)
      (simp_all add: demo_serviced_combos unique_targets_def js_map_of_def)
  then show ?thesis by (simp add: js_uniq_def)
qed

lemma toolless_sets [simp]:
  "sv_toolless (sv_record r ok ms now e s) = sv_toolless s"
  "sv_toolless (comboSucceeded n r s) = sv_toolless s"
  "sv_toolless (resetStats s) = sv_toolless s"
  "sv_toolless (sv_run_save s) = sv_toolless s"
  by (simp_all add: sv_record_def comboSucceeded_def resetStats_def sv_persist_def sv_run_save_def)

lemma isToolless_mark: "isToolless q (markToolless r s) \<longleftrightarrow> q = r \<or> isToolless q s"
  by (auto simp: isToolless_def markToolless_def sv_persist_def)

text \<open>What is written down at once: a route marked toolless, and a reset of the statistics.\<close>

lemma markToolless_stored:
  "stored_toolless (stored s) = sv_toolless s \<Longrightarrow>
   stored_toolless (stored (markToolless r s)) = sv_toolless (markToolless r s)"
  by (simp add: markToolless_def sv_persist_def)

lemma restart_after_save:
  assumes "save_scheduled s"
  shows "sv_route_stats r (sv_start c d t q (stored (sv_run_save s))) = sv_route_stats r s"
  using assms by (simp add: sv_run_save_def sv_persist_def sv_start_def sv_route_stats_def)

lemma restart_toolless:
  assumes "stored_toolless (stored s) = sv_toolless s"
  shows "isToolless q (sv_start c d t r (stored (markToolless x s))) \<longleftrightarrow> q = x \<or> isToolless q s"
  using markToolless_stored [OF assms, of x] isToolless_mark [of q x s]
  by (simp add: isToolless_def sv_start_def)


section \<open>Writing the settings\<close>

fun strategy_string :: "combo_strategy \<Rightarrow> string" where
  "strategy_string Priority = ''priority''" | "strategy_string RoundRobin = ''round-robin''"
| "strategy_string Weighted = ''weighted''" | "strategy_string Random = ''random''"
| "strategy_string LeastUsed = ''least-used''" | "strategy_string LastGood = ''last-good''"
| "strategy_string Fastest = ''fastest''"

definition target_val :: "combo_target \<Rightarrow> js_val" where
  "target_val t = JObj ((''route'', JStr (route t)) # (case weight t of Some w \<Rightarrow> [(''weight'', JNum w)] | None \<Rightarrow> []))"

definition combo_val :: "combo \<Rightarrow> js_val" where
  "combo_val c = JObj [(''name'', JStr (combo_name c)), (''strategy'', JStr (strategy_string (strategy c))),
     (''targets'', JArr (map target_val (targets c)))]"

definition saveCombos :: "combo list \<Rightarrow> serviced_state \<Rightarrow> serviced_state" where
  "saveCombos cs s = s\<lparr>combos_setting := JArr (map combo_val cs)\<rparr>"

fun level_string :: "level \<Rightarrow> string" where
  "level_string Low = ''low''" | "level_string Medium = ''medium''" | "level_string High = ''high''"

fun cost_string :: "cost_level \<Rightarrow> string" where
  "cost_string Free = ''free''" | "cost_string Subscription = ''subscription''" | "cost_string CLow = ''low''"
| "cost_string CMedium = ''medium''" | "cost_string CHigh = ''high''"

definition opt_entry :: "string \<Rightarrow> ('a \<Rightarrow> js_val) \<Rightarrow> 'a option \<Rightarrow> (string \<times> js_val) list" where
  "opt_entry k f v = (case v of Some x \<Rightarrow> [(k, f x)] | None \<Rightarrow> [])"

definition overrides_val :: "trait_overrides \<Rightarrow> js_val" where
  "overrides_val o1 = JObj (opt_entry ''reasoning'' (JStr \<circ> level_string) (o_reasoning o1)
     @ opt_entry ''speed'' (JStr \<circ> level_string) (o_speed o1) @ opt_entry ''cost'' (JStr \<circ> cost_string) (o_cost o1)
     @ opt_entry ''tools'' JBool (o_tools o1)
     @ opt_entry ''strengths'' (JArr \<circ> map (JStr \<circ> task_key)) (o_strengths o1))"

definition setTraitOverrides :: "string \<Rightarrow> trait_overrides option \<Rightarrow> serviced_state \<Rightarrow> serviced_state" where
  "setTraitOverrides r ov s =
     (let all = traitOverrides s;
          next = (case ov of Some x \<Rightarrow> if x \<noteq> no_overrides then AList.update r x all else AList.delete r all
                  | None \<Rightarrow> AList.delete r all)
      in s\<lparr>traits_setting := JObj (map (map_prod id overrides_val) next)\<rparr>)"

lemma parse_written [simp]:
  "strategy_of_string (strategy_string x) = Some x" "level_of_string (level_string l) = Some l"
  "cost_of_string (cost_string c) = Some c" "task_of_string (task_key t) = Some t"
  by (cases x, simp_all) (cases l, simp_all, (cases c, simp_all)?, (cases t, simp_all)?)

definition target_writable :: "combo_target \<Rightarrow> bool" where
  "target_writable t \<longleftrightarrow> route t \<noteq> [] \<and> trimmed (route t) \<and> (case weight t of Some w \<Rightarrow> 0 < w | None \<Rightarrow> True)"

lemma parse_target_val: "target_writable t \<Longrightarrow> parse_target (target_val t) = Some t"
  by (cases t) (auto simp: parse_target_def target_val_def target_writable_def js_trim_id split: option.splits)

text \<open>A combo as the settings page makes it: names and routes without space around them, weights that count.\<close>

definition combo_writable :: "combo \<Rightarrow> bool" where
  "combo_writable c \<longleftrightarrow> combo_name c \<noteq> [] \<and> trimmed (combo_name c) \<and>
     list_all target_writable (targets c)"

lemma parse_targets_val:
  "list_all target_writable ts \<Longrightarrow>
   List.map_filter parse_target (map target_val ts) = ts"
  by (induction ts) (simp_all add: List.map_filter_simps parse_target_val)

lemma parse_combo_vals:
  "list_all combo_writable cs \<Longrightarrow> distinct (map combo_name cs) \<Longrightarrow> set seen \<inter> set (map combo_name cs) = {} \<Longrightarrow>
   parse_combo_entries seen (map combo_val cs) = cs"
proof (induction cs arbitrary: seen)
  case (Cons c cs)
  then have "parse_combo_entries (combo_name c # seen) (map combo_val cs) = cs" by auto
  moreover have "js_get (combo_val c) ''name'' = JStr (combo_name c)" "js_get (combo_val c) ''targets'' = JArr (map target_val (targets c))"
    "js_get (combo_val c) ''strategy'' = JStr (strategy_string (strategy c))" by (simp_all add: combo_val_def)
  moreover have "parse_targets (JArr (map target_val (targets c))) = targets c"
    using Cons.prems(1) by (simp add: parse_targets_def combo_writable_def parse_targets_val)
  moreover have "parse_strategy (JStr (strategy_string (strategy c))) = strategy c"
    by (simp add: parse_strategy_def del: strategy_of_string.simps)
  ultimately show ?case using Cons.prems
    by (cases c) (auto simp: combo_writable_def trimmed_name_def js_trim_id)
qed simp

text \<open>The combos that are saved are read back as they were.\<close>

lemma saved_combos_are_read:
  "list_all combo_writable cs \<Longrightarrow> distinct (map combo_name cs) \<Longrightarrow> sv_combos (saveCombos cs s) = cs"
  by (simp add: sv_combos_def saveCombos_def parseCombos_def parse_combo_vals)

lemma parse_tasks: "List.map_filter (\<lambda>v. Option.bind (js_str v) task_of_string) (map (JStr \<circ> task_key) ts) = ts"
  by (induction ts) (simp_all add: List.map_filter_simps del: task_of_string.simps)

lemma parse_override_val: "parse_override (overrides_val x) = x"
proof (cases x)
  case (fields a b c d e)
  show ?thesis unfolding fields parse_override_def
    by (cases a; cases b; cases c; cases d; cases e)
      (simp_all add: overrides_val_def opt_entry_def parse_tasks
        del: level_of_string.simps cost_of_string.simps task_of_string.simps)
qed

lemma parse_overrides_fold:
  "list_all (\<lambda>(r, x). x \<noteq> no_overrides) xs \<Longrightarrow>
   fold (\<lambda>(route, raw) m. if is_object raw \<and> parse_override raw \<noteq> no_overrides then AList.update route (parse_override raw) m else m)
     (map (map_prod id overrides_val) xs) m = fold (\<lambda>(r, x). AList.update r x) xs m"
  by (induction xs arbitrary: m) (auto simp: parse_override_val overrides_val_def [THEN arg_cong [where f = is_object]])


lemma parsed_overrides:
  "distinct (map fst (parseTraitOverrides v)) \<and> list_all (\<lambda>(r, x). x \<noteq> no_overrides) (parseTraitOverrides v)"
proof -
  let ?f = "\<lambda>(route, raw) m. if is_object raw \<and> parse_override raw \<noteq> no_overrides then AList.update route (parse_override raw) m else m"
  have upd: "list_all (\<lambda>(r, x). x \<noteq> no_overrides) (AList.update k y m)"
    if "list_all (\<lambda>(r, x). x \<noteq> no_overrides) m" "y \<noteq> no_overrides" for k y and m :: "(string \<times> trait_overrides) list"
    using that by (induction m) auto
  have "distinct (map fst (fold ?f es m)) \<and> list_all (\<lambda>(r, x). x \<noteq> no_overrides) (fold ?f es m)"
    if "distinct (map fst m) \<and> list_all (\<lambda>(r, x). x \<noteq> no_overrides) m" for es and m :: "(string \<times> trait_overrides) list"
    using that by (induction es arbitrary: m) (auto simp: distinct_update upd)
  then show ?thesis by (simp add: parseTraitOverrides_def)
qed

lemma map_of_fold_distinct:
  "distinct (map fst xs) \<Longrightarrow> map_of (fold (\<lambda>(r, x). AList.update r x) xs m) k = (case map_of xs k of Some v \<Rightarrow> Some v | None \<Rightarrow> map_of m k)"
proof (induction xs arbitrary: m)
  case (Cons x xs)
  obtain r y where x: "x = (r, y)" by fastforce
  then have "map_of xs r = None" using Cons.prems by (simp add: map_of_eq_None_iff)
  then show ?case using Cons x by (auto simp: update_conv' split: option.split)
qed simp

text \<open>A correction the user makes is read back, none of the others changes, and an empty one removes it.\<close>

lemma override_is_read:
  "map_of (traitOverrides (setTraitOverrides r ov s)) k =
     (if k = r then (case ov of Some x \<Rightarrow> if x = no_overrides then None else Some x | None \<Rightarrow> None)
      else map_of (traitOverrides s) k)"
proof -
  let ?all = "traitOverrides s"
  define xs where "xs = (case ov of Some x \<Rightarrow> if x \<noteq> no_overrides then AList.update r x ?all else AList.delete r ?all
                  | None \<Rightarrow> AList.delete r ?all)"
  have all: "distinct (map fst ?all)" "list_all (\<lambda>(r, x). x \<noteq> no_overrides) ?all"
    using parsed_overrides by (auto simp: traitOverrides_def)
  have upd: "list_all (\<lambda>(r, x). x \<noteq> no_overrides) (AList.update k y m)"
    if "list_all (\<lambda>(r, x). x \<noteq> no_overrides) m" "y \<noteq> no_overrides" for k y and m :: "(string \<times> trait_overrides) list"
    using that by (induction m) auto
  have del: "list_all (\<lambda>(r, x). x \<noteq> no_overrides) (AList.delete r ?all)" using all(2) by (auto simp: AList.delete_eq list_all_iff)
  have d: "distinct (map fst xs)" using all(1) by (auto simp: xs_def distinct_update distinct_delete split: option.split)
  have ne: "list_all (\<lambda>(r, x). x \<noteq> no_overrides) xs" using all(2) upd del by (auto simp: xs_def split: option.split)
  have "traitOverrides (setTraitOverrides r ov s) = fold (\<lambda>(r, x). AList.update r x) xs []"
    unfolding traitOverrides_def setTraitOverrides_def Let_def
    by (simp add: parseTraitOverrides_def parse_overrides_fold [OF ne] flip: xs_def [unfolded traitOverrides_def])
  then have "map_of (traitOverrides (setTraitOverrides r ov s)) k = map_of xs k"
    using map_of_fold_distinct [OF d] by (simp split: option.split)
  then show ?thesis by (auto simp: xs_def update_conv' delete_conv' split: option.split)
qed

end
