(* ===== verification/Shell_Agent.thy ===== *)
theory Shell_Agent
  imports Shell_Routes Failover_Service Serviced_Service
begin

text \<open>
  The routes a window offers, the catalog built from them, how a route is planned into the targets
  a turn tries, and the sessions those turns run in: \<open>browser/shell/shellAgentService.ts\<close>. The
  world is what the service reads: the CLIs found, the local models, the failover service and the
  serviced-AI service. Asking whether a provider rests uses the pure reading \<open>resting\<close>; that the
  cleaning up such a reading does is not observable is \<open>expiring_store.get_pure\<close>.
\<close>

record cli_agent =
  cli_id :: string
  cli_name :: string
  cli_models :: "string list"

record shell_world =
  useInstalledClis :: bool
  detected :: "cli_agent list"
  localEnabled :: bool
  localModels :: "string list"
  fo :: failover_state
  sv :: serviced_state

definition COMBO_PROVIDER :: string where "COMBO_PROVIDER = ''Combo''"

definition cliAgents :: "shell_world \<Rightarrow> cli_agent list" where
  "cliAgents w = (if useInstalledClis w then detected w else [])"

definition cliAgentFor :: "shell_world \<Rightarrow> shell_route \<Rightarrow> cli_agent option" where
  "cliAgentFor w r = List.find (\<lambda>a. cli_name a = rprovider r) (cliAgents w)"

definition groupOf :: "shell_world \<Rightarrow> shell_route \<Rightarrow> route_group" where
  "groupOf w r =
     (if rprovider r = AUTO_PROVIDER \<or> rprovider r = COMBO_PROVIDER then Hivemind
      else if isLocalRoute r then LocalGroup
      else if cliAgentFor w r \<noteq> None then Cli else Service)"

definition mk_route :: "string \<Rightarrow> string \<Rightarrow> shell_route" where
  "mk_route p m = \<lparr>rid = routeId p m, rprovider = p, rmodel = m\<rparr>"

definition taken_names :: "shell_world \<Rightarrow> string list" where
  "taken_names w = [LOCAL_ROUTE_PROVIDER, COMBO_PROVIDER, AUTO_PROVIDER] @ map cli_name (cliAgents w)"

definition model_routes :: "shell_world \<Rightarrow> shell_route list" where
  "model_routes w =
     (if localEnabled w then localRoutes (localModels w) else [])
     @ concat (map (\<lambda>a. map (mk_route (cli_name a)) (cli_models a)) (cliAgents w))
     @ shellRoutes (filter (\<lambda>p. pname p \<notin> set (taken_names w)) (fo_providers (fo w)))"

definition combo_routes :: "shell_world \<Rightarrow> shell_route list" where
  "combo_routes w =
     map (\<lambda>c. mk_route COMBO_PROVIDER (combo_name c))
       (filter (\<lambda>c. targets c \<noteq> []) (sv_combos (sv w)))"

definition world_routes :: "shell_world \<Rightarrow> shell_route list" where
  "world_routes w =
     (if model_routes w \<noteq> [] then [mk_route AUTO_PROVIDER AUTO_MODEL] else [])
     @ model_routes w @ combo_routes w"

definition getRoute :: "shell_world \<Rightarrow> string option \<Rightarrow> shell_route option" where
  "getRoute w i = findRoute (world_routes w) i"

definition defaultRoute :: "shell_world \<Rightarrow> shell_route option" where
  "defaultRoute w =
     (case findRoute (world_routes w) (sv_defaultRoute (sv w)) of
        Some r \<Rightarrow> Some r
      | None \<Rightarrow> (case world_routes w of [] \<Rightarrow> None | r # _ \<Rightarrow> Some r))"

definition resting :: "shell_world \<Rightarrow> int \<Rightarrow> string \<Rightarrow> bool" where
  "resting w now p \<longleftrightarrow> fst (cd_get (fo_cooldowns (fo w)) p now) \<noteq> None"

definition catalog :: "shell_world \<Rightarrow> catalog_entry list" where
  "catalog w =
     map (\<lambda>r.
        let cli = cliAgentFor w r;
            st = sv_route_stats (rid r) (sv w);
            ob = \<lparr>toolless = isToolless (rid r) (sv w), ob_averageMs = averageMs st,
                  successes = (case st of Some s \<Rightarrow> Some (requests s - failures s) | None \<Rightarrow> Some 0)\<rparr>
        in catalogEntry (rid r) (rprovider r) (rmodel r)
             (if isLocalRoute r then KLocal else if cli \<noteq> None then KCli else KApi)
             (Some ob) (map_of (traitOverrides (sv w)) (rid r))
             (cli \<noteq> None \<and> (rmodel r = ''default'' \<or> rmodel r = ''auto'')))
       (filter (\<lambda>r. rprovider r \<noteq> AUTO_PROVIDER \<and> rprovider r \<noteq> COMBO_PROVIDER) (world_routes w))"

definition route_awake :: "shell_world \<Rightarrow> int \<Rightarrow> shell_route list \<Rightarrow> string \<Rightarrow> bool" where
  "route_awake w now routes i =
     (case findRoute routes (Some i) of None \<Rightarrow> False | Some r \<Rightarrow> \<not> resting w now (rprovider r))"

definition world_rank :: "shell_world \<Rightarrow> int \<Rightarrow> task_kind \<Rightarrow> (catalog_entry \<times> real) list" where
  "world_rank w now task = rankForTask (catalog w) task (route_awake w now (world_routes w))"

definition routeForTask :: "shell_world \<Rightarrow> int \<Rightarrow> task_kind \<Rightarrow> shell_route option" where
  "routeForTask w now task =
     (case findRoute (world_routes w) (taskRoute task (sv w)) of
        Some pinned \<Rightarrow>
          if rprovider pinned \<noteq> AUTO_PROVIDER then Some pinned
          else (case world_rank w now task of [] \<Rightarrow> None
                | (e, _) # _ \<Rightarrow> findRoute (world_routes w) (Some (ce_route e)))
      | None \<Rightarrow> (case world_rank w now task of [] \<Rightarrow> None
                | (e, _) # _ \<Rightarrow> findRoute (world_routes w) (Some (ce_route e))))"

text \<open>
  \<open>plan\<close> calls itself on the route Auto stands for; \<open>None\<close> is running out of fuel. Planning a
  combo advances its rotation.
\<close>

fun plan_fuel ::
  "nat \<Rightarrow> int \<Rightarrow> (nat \<Rightarrow> real) \<Rightarrow> shell_route \<Rightarrow> shell_world \<Rightarrow> (shell_route list \<times> shell_world) option" where
  "plan_fuel 0 now rnd r w = None"
| "plan_fuel (Suc n) now rnd r w =
     (if rprovider r = AUTO_PROVIDER
      then (case routeForTask w now AskTask of
              Some q \<Rightarrow> plan_fuel n now rnd q w
            | None \<Rightarrow> Some ([], w))
      else if rprovider r \<noteq> COMBO_PROVIDER then Some ([r], w)
      else (let routes = filter (\<lambda>q. rprovider q \<noteq> COMBO_PROVIDER) (world_routes w);
                (ids, s') = planCombo (rmodel r) (route_awake w now routes) rnd (sv w)
            in Some (List.map_filter (\<lambda>i. findRoute routes (Some i)) ids, w\<lparr>sv := s'\<rparr>)))"

definition plan :: "int \<Rightarrow> (nat \<Rightarrow> real) \<Rightarrow> shell_route \<Rightarrow> shell_world \<Rightarrow> (shell_route list \<times> shell_world) option"
where "plan now rnd r w = plan_fuel 2 now rnd r w"

section \<open>Sessions\<close>

text \<open>
  A session of a key runs on one backend (\<open>None\<close>: the runtime, \<open>Some\<close>: a CLI's id). What the
  shell service answers is a parameter: whether a resume succeeds, and the id of a new session.
\<close>

record shell_session =
  sess_id :: string
  sess_backend :: "string option"
  sess_route :: "string option"

record session_table =
  sessions :: "(string \<times> shell_session) list"
  resumable :: "(string \<times> string) list"
  ownSessions :: "string list"

definition same_backend :: "string option \<Rightarrow> string \<Rightarrow> bool" where
  "same_backend cli previous =
     (case cli of Some a \<Rightarrow> prefix (''cli:'' @ a @ '':'') previous
      | None \<Rightarrow> \<not> prefix ''cli:'' previous)"

definition open_new ::
  "(string \<Rightarrow> string option) \<Rightarrow> string \<Rightarrow> string \<Rightarrow> string option \<Rightarrow> string option \<Rightarrow> session_table \<Rightarrow>
   shell_session \<times> session_table" where
  "open_new resume_session new_id key resume cli t =
     (let previous = (case map_of (resumable t) key of Some p \<Rightarrow> Some p | None \<Rightarrow> resume);
          resumed = (case previous of None \<Rightarrow> None
                     | Some p \<Rightarrow> if p \<noteq> [] \<and> same_backend cli p then resume_session p else None);
          i = (case resumed of Some r \<Rightarrow> r | None \<Rightarrow> new_id);
          se = \<lparr>sess_id = i, sess_backend = cli, sess_route = None\<rparr>
      in (se, t\<lparr>resumable := AList.delete key (resumable t),
                sessions := AList.update key se (sessions t),
                ownSessions := (if i \<in> set (ownSessions t) then ownSessions t else ownSessions t @ [i])\<rparr>))"

definition open_session ::
  "(string \<Rightarrow> string option) \<Rightarrow> string \<Rightarrow> string \<Rightarrow> string option \<Rightarrow> string option \<Rightarrow> session_table \<Rightarrow>
   shell_session \<times> session_table" where
  "open_session resume_session new_id key resume cli t =
     (case map_of (sessions t) key of
        Some existing \<Rightarrow>
          if sess_backend existing = cli then (existing, t)
          else open_new resume_session new_id key None cli (t\<lparr>sessions := AList.delete key (sessions t)\<rparr>)
      | None \<Rightarrow> open_new resume_session new_id key resume cli t)"

text \<open>The runtime exits: every open session becomes resumable.\<close>

definition runtime_exited :: "session_table \<Rightarrow> session_table" where
  "runtime_exited t =
     t\<lparr>resumable := fold (\<lambda>(k, se) m. AList.update k (sess_id se) m) (sessions t) (resumable t),
       sessions := []\<rparr>"

section \<open>Starting the runtime\<close>

record launch_data =
  l_overlay :: "overlay_entry list"
  l_secrets :: "(string \<times> string) list"

definition launch_providers :: "(string \<times> string option) option \<Rightarrow> shell_world \<Rightarrow> failover_provider list" where
  "launch_providers local w =
     (let ps = filter (\<lambda>p. pname p \<noteq> LOCAL_ROUTE_PROVIDER) (fo_providers (fo w));
          ms = map rmodel (filter isLocalRoute (world_routes w))
      in case (local, ms) of
           (Some (url, _), m # rest) \<Rightarrow>
             \<lparr>pname = LOCAL_ROUTE_PROVIDER, purl = url, pmodel = m, pmodels = Some rest, penabled = None\<rparr> # ps
         | _ \<Rightarrow> ps)"

definition provider_key :: "(string \<times> string option) option \<Rightarrow> shell_world \<Rightarrow> failover_provider \<Rightarrow> string" where
  "provider_key local w p =
     (let k = (if pname p = LOCAL_ROUTE_PROVIDER then Option.bind local snd
               else remote_key (remoteFor p (fo w)))
      in case k of Some x \<Rightarrow> if x \<noteq> [] then x else KEYLESS_PLACEHOLDER | None \<Rightarrow> KEYLESS_PLACEHOLDER)"

definition launch :: "(string \<times> string option) option \<Rightarrow> shell_world \<Rightarrow> launch_data" where
  "launch local w =
     (let ps = launch_providers local w;
          ov = buildShellOverlay ps (case shellRoutes ps of [] \<Rightarrow> None | r # _ \<Rightarrow> Some r)
      in \<lparr>l_overlay = overlay ov,
          l_secrets = fold (\<lambda>p m. AList.update (the (map_of (keyVariables ov) (pname p))) (provider_key local w p) m)
                        ps []\<rparr>)"

section \<open>Planning always ends\<close>

lemma routeId_auto: "routeId p m = routeId AUTO_PROVIDER AUTO_MODEL \<Longrightarrow> p = AUTO_PROVIDER"
proof -
  assume e: "routeId p m = routeId AUTO_PROVIDER AUTO_MODEL"
  have "CHR ''/'' \<notin> set p"
  proof
    assume "CHR ''/'' \<in> set p"
    then have "filter (\<lambda>c. c = CHR ''/'') p \<noteq> []" by (auto simp: filter_empty_conv)
    then have "2 \<le> length (filter (\<lambda>c. c = CHR ''/'') (routeId p m))"
      by (cases "filter (\<lambda>c. c = CHR ''/'') p") (simp_all add: routeId_def)
    then show False unfolding e by (simp add: routeId_def AUTO_PROVIDER_def AUTO_MODEL_def)
  qed
  moreover have "CHR ''/'' \<notin> set AUTO_PROVIDER" by (simp add: AUTO_PROVIDER_def)
  ultimately show "p = AUTO_PROVIDER" using e routeId_inj by blast
qed

lemma findRoute_Some: "findRoute rs (Some i) = Some r \<Longrightarrow> r \<in> set rs \<and> rid r = i"
  by (auto simp: findRoute_def split: if_splits dest: find_Some_set)

lemma findRoute_set: "findRoute rs i = Some r \<Longrightarrow> r \<in> set rs"
  by (cases i) (auto simp: findRoute_def split: if_splits dest: find_Some_set)

lemma world_routes_id: "r \<in> set (world_routes w) \<Longrightarrow> rid r = routeId (rprovider r) (rmodel r)"
  by (auto simp: world_routes_def model_routes_def combo_routes_def mk_route_def localRoutes_def
      shellRoutes_in split: if_splits)

lemma ce_route_entry [simp]: "ce_route (catalogEntry i p m k ob ov d) = i"
  by (simp add: catalogEntry_def case_prod_beta Let_def)

lemma catalog_route:
  "e \<in> set (catalog w) \<Longrightarrow> \<exists>r\<in>set (world_routes w). ce_route e = rid r \<and> rprovider r \<noteq> AUTO_PROVIDER"
  unfolding catalog_def Let_def by auto

lemma world_rank_catalog: "(e, x) \<in> set (world_rank w now task) \<Longrightarrow> e \<in> set (catalog w)"
  by (auto simp: world_rank_def rankForTask_def)

lemma best_not_auto:
  assumes "world_rank w now task = (e, x) # others" "findRoute (world_routes w) (Some (ce_route e)) = Some q"
  shows "\<not> (rprovider q = AUTO_PROVIDER \<and> rmodel q = AUTO_MODEL)"
proof
  assume a: "rprovider q = AUTO_PROVIDER \<and> rmodel q = AUTO_MODEL"
  obtain r where r: "r \<in> set (world_routes w)" "ce_route e = rid r" "rprovider r \<noteq> AUTO_PROVIDER"
    using catalog_route world_rank_catalog [of e x w now task] assms(1) by auto
  have q: "q \<in> set (world_routes w)" "rid q = rid r" using findRoute_Some [OF assms(2)] r(2) by auto
  have "rid q = routeId AUTO_PROVIDER AUTO_MODEL" using a world_routes_id [OF q(1)] by simp
  with q(2) world_routes_id [OF r(1)] r(3) routeId_auto show False by metis
qed

lemma auto_only_by_task:
  assumes "q \<in> set (world_routes w)" "rprovider q = AUTO_PROVIDER"
    and "\<forall>a\<in>set (cliAgents w). cli_name a \<noteq> AUTO_PROVIDER"
  shows "rmodel q = AUTO_MODEL"
  using assms
  by (auto simp: world_routes_def model_routes_def combo_routes_def mk_route_def localRoutes_def
      shellRoutes_in taken_names_def AUTO_PROVIDER_def LOCAL_ROUTE_PROVIDER_def COMBO_PROVIDER_def
      split: if_splits)

lemma routeForTask_not_auto:
  assumes "routeForTask w now task = Some q" "\<forall>a\<in>set (cliAgents w). cli_name a \<noteq> AUTO_PROVIDER"
  shows "rprovider q \<noteq> AUTO_PROVIDER"
proof -
  consider "rprovider q \<noteq> AUTO_PROVIDER"
    | e x others where "world_rank w now task = (e, x) # others"
        "findRoute (world_routes w) (Some (ce_route e)) = Some q"
    using assms(1) by (auto simp: routeForTask_def split: option.splits if_splits list.splits)
  then show ?thesis
  proof cases
    case 2
    then show ?thesis using best_not_auto auto_only_by_task findRoute_set assms(2) by blast
  qed
qed

text \<open>
  Planning a turn always returns: the route that Auto stands for is never Auto again,
  so the recursion is at most one level deep (for installed CLIs not named like the Auto entry).
\<close>

lemma plan_returns:
  assumes "\<forall>a\<in>set (cliAgents w). cli_name a \<noteq> AUTO_PROVIDER"
  shows "\<exists>rs w'. plan now rnd r w = Some (rs, w')"
proof -
  have one: "\<exists>rs w'. plan_fuel (Suc 0) now rnd q w = Some (rs, w')" if "rprovider q \<noteq> AUTO_PROVIDER" for q
    using that by (auto simp: case_prod_beta Let_def)
  show ?thesis
  proof (cases "rprovider r = AUTO_PROVIDER")
    case True
    then show ?thesis using one routeForTask_not_auto [OF _ assms]
      by (auto simp: plan_def numeral_2_eq_2 simp del: plan_fuel.simps(2) split: option.split
          intro: plan_fuel.simps(2) [THEN ssubst])
  next
    case False
    then show ?thesis by (auto simp: plan_def numeral_2_eq_2 case_prod_beta Let_def)
  qed
qed

definition demo_world :: shell_world where
  "demo_world = \<lparr>useInstalledClis = True,
     detected = [\<lparr>cli_id = ''claude'', cli_name = ''Claude Code'', cli_models = [''default'']\<rparr>],
     localEnabled = True, localModels = [''qwen''], fo = demo_failover, sv = demo_serviced\<rparr>"

section \<open>Keys and sessions stay apart\<close>

lemma launch_providers_distinct: "distinct (map pname (launch_providers local w))"
proof -
  have d: "distinct (map pname (filter (\<lambda>p. pname p \<noteq> LOCAL_ROUTE_PROVIDER) (fo_providers (fo w))))"
    using allProviders_storable [of "fo w"] by (simp add: fo_providers_def distinct_map_filter)
  then show ?thesis
    by (auto simp: launch_providers_def Let_def split: option.splits list.splits prod.splits)
qed

lemma fold_update_other:
  "k \<notin> f ` set ps \<Longrightarrow> map_of (fold (\<lambda>p m. AList.update (f p) (g p) m) ps m) k = map_of m k"
  by (induction ps arbitrary: m) (auto simp: update_conv')

lemma fold_update_nth:
  "distinct (map f ps) \<Longrightarrow> i < length ps \<Longrightarrow>
   map_of (fold (\<lambda>p m. AList.update (f p) (g p) m) ps m) (f (ps ! i)) = Some (g (ps ! i))"
proof (induction ps arbitrary: m i)
  case (Cons p ps)
  show ?case
  proof (cases i)
    case 0
    then show ?thesis using Cons.prems fold_update_other [of "f p" f ps g] by (simp add: update_conv')
  next
    case (Suc j)
    with Cons show ?thesis by simp
  qed
qed simp

text \<open>
  Property C31: the secrets handed to the runtime give every provider its own key under the variable
  its route names: the key stored for it (the placeholder when it has none), the local server's for
  the local models, and never the key of another provider.
\<close>

theorem launch_secrets_match:
  assumes "i < length (launch_providers local w)" and "p = launch_providers local w ! i"
  shows "\<exists>routes r. hd (l_overlay (launch local w)) = LlmProviders routes \<and>
     map_of routes (pname p) = Some r \<and> baseURL r = openAiBaseUrl (purl p) \<and>
     map_of (l_secrets (launch local w)) (apiKeyEnv r) = Some (provider_key local w p)"
proof -
  let ?ps = "launch_providers local w"
  obtain vars routes where r: "overlay_routes 0 ?ps [] [] = (vars, routes)" by fastforce
  note nth = overlay_routes_nth [OF launch_providers_distinct r]
  let ?f = "\<lambda>q. the (map_of vars (pname q))"
  have f: "?f (?ps ! j) = keyVariable j" if "j < length ?ps" for j
    using nth [OF that] by simp
  have "distinct (map ?f ?ps)"
    unfolding distinct_conv_nth by (auto simp: f)
  from fold_update_nth [OF this assms(1), of "provider_key local w" "[]"]
  have "map_of (l_secrets (launch local w)) (keyVariable i) = Some (provider_key local w p)"
    using assms f by (simp add: launch_def buildShellOverlay_def r Let_def)
  with nth [OF assms(1)] assms(2) show ?thesis
    by (simp add: launch_def buildShellOverlay_def r Let_def)
qed

lemma launch_secrets_match_witness:
  "\<exists>routes r. hd (l_overlay (launch (Some (''http://127.0.0.1:8080'', None)) demo_world)) = LlmProviders routes \<and>
     map_of routes ''Local'' = Some r \<and>
     map_of (l_secrets (launch (Some (''http://127.0.0.1:8080'', None)) demo_world)) (apiKeyEnv r) = Some ''none''"
proof -
  let ?l = "Some (''http://127.0.0.1:8080'', None)"
  let ?ps = "launch_providers ?l demo_world"
  have "isLocalRoute \<lparr>rid = ''Local/qwen'', rprovider = ''Local'', rmodel = ''qwen''\<rparr>"
    by (simp add: isLocalRoute_def LOCAL_ROUTE_PROVIDER_def)
  then have "\<exists>rest. map rmodel (filter isLocalRoute (world_routes demo_world)) = ''qwen'' # rest"
    by (simp add: world_routes_def model_routes_def demo_world_def localRoutes_def js_uniq_def
        LOCAL_ROUTE_PROVIDER_def routeId_def mk_route_def isLocalRoute_def AUTO_PROVIDER_def)
  then have p: "0 < length ?ps" "pname (?ps ! 0) = ''Local''"
    by (auto simp: launch_providers_def LOCAL_ROUTE_PROVIDER_def)
  then have "provider_key ?l demo_world (?ps ! 0) = ''none''"
    by (simp add: provider_key_def LOCAL_ROUTE_PROVIDER_def KEYLESS_PLACEHOLDER_def)
  with launch_secrets_match [OF p(1) refl] p(2) show ?thesis by auto
qed

lemma open_new_spec:
  assumes "open_new f new_id key res cli t = (se, t')"
  shows "sess_backend se = cli \<and> sessions t' = AList.update key se (sessions t) \<and>
    (sess_id se = new_id \<or> (\<exists>p. same_backend cli p \<and> f p = Some (sess_id se)))"
proof -
  let ?prev = "case map_of (resumable t) key of Some p \<Rightarrow> Some p | None \<Rightarrow> res"
  define resumed where "resumed = (case ?prev of None \<Rightarrow> None
      | Some p \<Rightarrow> if p \<noteq> [] \<and> same_backend cli p then f p else None)"
  have se: "se = \<lparr>sess_id = (case resumed of Some r \<Rightarrow> r | None \<Rightarrow> new_id), sess_backend = cli, sess_route = None\<rparr>"
    and t': "sessions t' = AList.update key se (sessions t)"
    using assms unfolding open_new_def Let_def resumed_def by auto
  have "\<exists>p. same_backend cli p \<and> f p = Some i" if "resumed = Some i" for i
    using that by (auto simp: resumed_def split: option.splits if_splits)
  with se t' show ?thesis by (cases resumed) auto
qed

lemma open_new_same_backend:
  "open_new (\<lambda>p. if same_backend cli p then f p else None) new_id key res cli t = open_new f new_id key res cli t"
  by (simp add: open_new_def cong: option.case_cong if_cong)

text \<open>A turn always gets a session of the backend its route runs on, and the service is
  never asked to resume a session of another backend: restricting it to sessions of that backend
  changes nothing.\<close>

lemma sessions_stay_on_backend:
  assumes "\<forall>k se. map_of (sessions t) k = Some se \<longrightarrow> P (sess_backend se) (sess_id se)"
    and "\<And>p i. same_backend cli p \<Longrightarrow> f p = Some i \<Longrightarrow> P cli i" and "P cli new_id"
    and "open_session f new_id key resume cli t = (se, t')"
  shows "sess_backend se = cli \<and> P cli (sess_id se) \<and>
    (\<forall>k se. map_of (sessions t') k = Some se \<longrightarrow> P (sess_backend se) (sess_id se)) \<and>
    open_session (\<lambda>p. if same_backend cli p then f p else None) new_id key resume cli t = (se, t')"
proof -
  have new: "sess_backend s1 = cli \<and> P cli (sess_id s1) \<and>
      (\<forall>k se. map_of (sessions t2) k = Some se \<longrightarrow> P (sess_backend se) (sess_id se)) \<and>
      open_new (\<lambda>p. if same_backend cli p then f p else None) new_id key res cli t1 = (s1, t2)"
    if "open_new f new_id key res cli t1 = (s1, t2)"
      "\<forall>k se. map_of (sessions t1) k = Some se \<longrightarrow> P (sess_backend se) (sess_id se)" for res t1 s1 t2
    using open_new_spec [OF that(1)] that open_new_same_backend assms(2,3) by (auto simp: update_conv')
  show ?thesis
  proof (cases "map_of (sessions t) key")
    case None
    with assms(4) new [of resume t] assms(1) show ?thesis by (simp add: open_session_def)
  next
    case (Some se0)
    show ?thesis
    proof (cases "sess_backend se0 = cli")
      case True
      with Some assms(1,4) show ?thesis by (auto simp: open_session_def)
    next
      case False
      have "\<forall>k se. map_of (AList.delete key (sessions t)) k = Some se \<longrightarrow> P (sess_backend se) (sess_id se)"
        using assms(1) by (auto simp: delete_conv')
      with Some False assms(4) new [of None "t\<lparr>sessions := AList.delete key (sessions t)\<rparr>"]
      show ?thesis by (simp add: open_session_def)
    qed
  qed
qed

lemma sessions_stay_on_backend_witness:
  "sess_backend (fst (open_session (\<lambda>p. Some p) ''new'' ''k'' (Some ''cli:codex:1'') (Some ''claude'')
     \<lparr>sessions = [], resumable = [], ownSessions = []\<rparr>)) = Some ''claude''"
proof -
  let ?t = "\<lparr>sessions = [], resumable = [], ownSessions = []\<rparr>"
  let ?o = "open_session (\<lambda>p. Some p) ''new'' ''k'' (Some ''cli:codex:1'') (Some ''claude'') ?t"
  have "?o = (fst ?o, snd ?o)" by simp
  from sessions_stay_on_backend [where P = "\<lambda>_ _. True", OF _ _ _ this] show ?thesis by simp
qed

end
