(* ===== verification/Cli_Events.thy ===== *)
theory Cli_Events
  imports Js_Regex Usage_Limits
begin

text \<open>
  One line of a headless agent CLI as the events it stands for:
  \<open>src/vs/platform/hivemindide/common/cliAgentEvents.ts\<close>. The line is what \<open>JSON.parse\<close> made of it;
  how \<open>String\<close> prints a number is an argument.
\<close>

datatype tool_status = InProgress | Completed | ToolFailed
datatype stop_reason = EndTurn | MaxTokens | MaxTurnRequests | Refusal | Cancelled

datatype cli_event =
    SessionEvent string
  | TextEvent string
  | ThoughtEvent string
  | ToolEvent string "string option" tool_status
  | LimitEvent bool "real option" "string option" "real option"  \<comment> \<open>rejected, resetsAt, limitType, utilization\<close>
  | DoneEvent "string option" "stop_reason option"

text \<open>\<open>String(v)\<close>, \<open>v.join(sep)\<close>, \<open>v ?? d\<close>, \<open>Object.keys(v)\<close> and \<open>v[key]\<close>.\<close>

fun js_string :: "(real \<Rightarrow> string) \<Rightarrow> js_val \<Rightarrow> string"
and js_items :: "(real \<Rightarrow> string) \<Rightarrow> js_val list \<Rightarrow> string list" where
  "js_string num JUndef = ''undefined''"
| "js_string num JNull = ''null''"
| "js_string num (JBool b) = (if b then ''true'' else ''false'')"
| "js_string num (JNum x) = num x"
| "js_string num (JStr s) = s"
| "js_string num (JArr vs) = js_join '','' (js_items num vs)"
| "js_string num (JObj kvs) = ''[object Object]''"
| "js_items num [] = []"
| "js_items num (v # vs) =
     (if v = JUndef \<or> v = JNull then [] else js_string num v) # js_items num vs"

definition js_or_default :: "js_val \<Rightarrow> js_val \<Rightarrow> js_val" where
  "js_or_default v d = (if v = JUndef \<or> v = JNull then d else v)"

fun js_keys :: "js_val \<Rightarrow> string list" where
  "js_keys (JObj kvs) = map fst kvs"
| "js_keys (JArr vs) = map show_nat [0..<length vs]"
| "js_keys (JStr s) = map show_nat [0..<length s]"
| "js_keys _ = []"

fun js_at :: "js_val \<Rightarrow> string \<Rightarrow> js_val" where
  "js_at (JArr vs) k = (case map_of (zip (map show_nat [0..<length vs]) vs) k of Some v \<Rightarrow> v | None \<Rightarrow> JUndef)"
| "js_at v k = js_get v k"

text \<open>\<open>typeof v === 'object' && v !== null\<close>.\<close>

fun js_object :: "js_val \<Rightarrow> bool" where
  "js_object (JObj _) = True"
| "js_object (JArr _) = True"
| "js_object _ = False"

definition truthy_str :: "js_val \<Rightarrow> string option" where
  "truthy_str v = (case js_str v of Some s \<Rightarrow> if s \<noteq> [] then Some s else None | None \<Rightarrow> None)"

section \<open>Titles\<close>

definition is_slash :: "char \<Rightarrow> bool" where
  "is_slash c \<longleftrightarrow> c = CHR ''/'' \<or> c = CHR 0x5C"

text \<open>The last part of a path: \<open>text.split(/[/\\]/).pop()\<close>.\<close>

definition last_part :: "string \<Rightarrow> string" where
  "last_part s = rev (takeWhile (\<lambda>c. \<not> is_slash c) (rev s))"

definition short_target :: "string \<Rightarrow> string" where
  "short_target s = (if list_ex is_slash s \<and> \<not> list_ex is_js_space s then last_part s else s)"

definition toolTitle :: "string \<Rightarrow> js_val \<Rightarrow> string" where
  "toolTitle name inp =
     (case List.find (\<lambda>v. truthy_str v \<noteq> None)
             (map (js_get inp) [''file_path'', ''path'', ''command'', ''pattern'', ''url'', ''query'']) of
        None \<Rightarrow> name
      | Some v \<Rightarrow>
          (let short = short_target (flatten_space (case truthy_str v of Some s \<Rightarrow> s | None \<Rightarrow> []))
           in name @ '': '' @ (if length short > 60 then take 59 short @ ellipsis else short)))"

definition contentOf :: "js_val \<Rightarrow> js_val list" where
  "contentOf event =
     (case js_get (js_get event ''message'') ''content'' of JArr vs \<Rightarrow> filter js_object vs | _ \<Rightarrow> [])"

section \<open>Claude Code and Cursor\<close>

definition assistant_block :: "(real \<Rightarrow> string) \<Rightarrow> js_val \<Rightarrow> cli_event list" where
  "assistant_block num block =
     (let kind = js_get block ''type'' in
      if kind = JStr ''text'' \<and> truthy_str (js_get block ''text'') \<noteq> None
      then [TextEvent (the (truthy_str (js_get block ''text'')))]
      else if kind = JStr ''thinking'' \<and> truthy_str (js_get block ''thinking'') \<noteq> None
      then [ThoughtEvent (the (truthy_str (js_get block ''thinking'')))]
      else if kind = JStr ''tool_use'' \<and> js_str (js_get block ''id'') \<noteq> None
      then [ToolEvent (the (js_str (js_get block ''id'')))
              (Some (toolTitle (js_string num (js_or_default (js_get block ''name'') (JStr ''tool''))) (js_get block ''input'')))
              InProgress]
      else [])"

definition result_block :: "js_val \<Rightarrow> cli_event list" where
  "result_block block =
     (case js_str (js_get block ''tool_use_id'') of
        Some i \<Rightarrow> if js_get block ''type'' = JStr ''tool_result''
                  then [ToolEvent i None (if js_truthy (js_get block ''is_error'') then ToolFailed else Completed)]
                  else []
      | None \<Rightarrow> [])"

definition strip_suffix :: "string \<Rightarrow> string \<Rightarrow> string" where
  "strip_suffix suf s = (if suffix suf s then take (length s - length suf) s else s)"

definition cursor_tool :: "js_val \<Rightarrow> cli_event list" where
  "cursor_tool event =
     (let call = js_get event ''tool_call'';
          key = (case js_keys call of [] \<Rightarrow> None | k # _ \<Rightarrow> Some k);
          args = (case key of Some k \<Rightarrow> js_get (js_at call k) ''args'' | None \<Rightarrow> JUndef);
          name = (case key of Some k \<Rightarrow> k | None \<Rightarrow> ''tool'')
      in [ToolEvent (case js_str (js_get event ''call_id'') of Some i \<Rightarrow> i | None \<Rightarrow> name)
            (Some (toolTitle (strip_suffix ''ToolCall'' name) args))
            (if js_get event ''subtype'' = JStr ''completed'' then Completed else InProgress)])"

text \<open>The first truthy value, as \<open>a || b || ...\<close> gives; the last one when none is.\<close>

fun js_first :: "js_val list \<Rightarrow> js_val" where
  "js_first [] = JUndef"
| "js_first [v] = v"
| "js_first (v # w # vs) = (if js_truthy v then v else js_first (w # vs))"

definition result_event :: "(real \<Rightarrow> string) \<Rightarrow> js_val \<Rightarrow> cli_event" where
  "result_event num event =
     (if \<not> js_truthy (js_get event ''is_error'') \<and> js_get event ''subtype'' \<noteq> JStr ''error''
      then DoneEvent None (Some EndTurn)
      else if js_get event ''subtype'' = JStr ''error_max_turns'' then DoneEvent None (Some MaxTurnRequests)
      else let errors = (case js_get event ''errors'' of JArr vs \<Rightarrow> js_join ''; '' (js_items num vs) | _ \<Rightarrow> [])
           in DoneEvent (Some (js_string num (js_first
                [js_get event ''result'', JStr errors, js_get event ''subtype'', JStr ''The CLI reported an error.'']))) None)"

definition parseStreamJson :: "(real \<Rightarrow> string) \<Rightarrow> js_val \<Rightarrow> cli_event list" where
  "parseStreamJson num event =
     (let kind = js_get event ''type'' in
      if kind = JStr ''system'' then
        (case js_str (js_get event ''session_id'') of
           Some i \<Rightarrow> if js_get event ''subtype'' = JStr ''init'' then [SessionEvent i] else []
         | None \<Rightarrow> [])
      else if kind = JStr ''rate_limit_event'' then
        (let info = js_get event ''rate_limit_info''
         in [LimitEvent (js_get info ''status'' = JStr ''rejected'') (js_num (js_get info ''resetsAt''))
               (js_str (js_get info ''rateLimitType'')) (js_num (js_get info ''utilization''))])
      else if kind = JStr ''assistant'' then concat (map (assistant_block num) (contentOf event))
      else if kind = JStr ''user'' then concat (map result_block (contentOf event))
      else if kind = JStr ''tool_call'' then cursor_tool event
      else if kind = JStr ''result'' then [result_event num event]
      else [])"

section \<open>Codex\<close>

definition codex_item :: "(real \<Rightarrow> string) \<Rightarrow> bool \<Rightarrow> js_val \<Rightarrow> cli_event list" where
  "codex_item num done item =
     (let i = js_string num (js_or_default (js_get item ''id'') (JStr ''item''));
          kind = js_get item ''type'';
          said = js_str (js_get item ''text'')
      in if kind = JStr ''agent_message'' then (if done \<and> said \<noteq> None then [TextEvent (the said)] else [])
         else if kind = JStr ''reasoning'' then (if done \<and> said \<noteq> None then [ThoughtEvent (the said)] else [])
         else if kind = JStr ''command_execution'' then
           [ToolEvent i (Some (toolTitle ''shell'' (JObj [(''command'', js_get item ''command'')])))
              (if \<not> done then InProgress
               else if js_get item ''exit_code'' = JNum 0 \<or> js_get item ''status'' = JStr ''completed''
               then Completed else ToolFailed)]
         else if kind \<in> {JStr ''file_change'', JStr ''mcp_tool_call'', JStr ''web_search''} then
           [ToolEvent i (Some (map (\<lambda>c. if c = CHR ''_'' then CHR '' '' else c) (js_string num kind)))
              (if done then Completed else InProgress)]
         else [])"

definition parseCodex :: "(real \<Rightarrow> string) \<Rightarrow> js_val \<Rightarrow> cli_event list" where
  "parseCodex num event =
     (let kind = js_get event ''type'' in
      if kind = JStr ''thread.started'' then
        (case js_str (js_get event ''thread_id'') of Some i \<Rightarrow> [SessionEvent i] | None \<Rightarrow> [])
      else if kind \<in> {JStr ''item.started'', JStr ''item.updated'', JStr ''item.completed''} then
        codex_item num (kind = JStr ''item.completed'') (js_get event ''item'')
      else if kind = JStr ''turn.completed'' then [DoneEvent None (Some EndTurn)]
      else if kind = JStr ''turn.failed'' then
        [DoneEvent (Some (js_string num (js_or_default (js_get (js_get event ''error'') ''message'') (JStr ''The turn failed.'')))) None]
      else if kind = JStr ''error'' then
        [DoneEvent (Some (js_string num (js_or_default (js_get event ''message'') (JStr ''The CLI reported an error.'')))) None]
      else [])"

definition parseCliAgentLine ::
  "(string \<Rightarrow> js_val option) \<Rightarrow> (real \<Rightarrow> string) \<Rightarrow> string \<Rightarrow> string \<Rightarrow> cli_event list" where
  "parseCliAgentLine json_parse num agent line =
     (case json_parse line of
        None \<Rightarrow> []
      | Some event \<Rightarrow>
          if \<not> js_object event then []
          else if agent = ''codex'' then parseCodex num event else parseStreamJson num event)"

section \<open>Model listings\<close>

definition is_id_char :: "char \<Rightarrow> bool" where
  "is_id_char c \<longleftrightarrow> is_digit c \<or> (let n = (of_char (js_lower_char c) :: nat) in 97 \<le> n \<and> n \<le> 122)"

definition model_line_re :: re where
  "model_line_re = seqs [RBol False, rstar rspace,
     ropt (RSeq (RAlt (cls ''-*'') (lit [CHR 0xE2, CHR 0x80, CHR 0xA2])) (rstar rspace)),
     RGroup 1 (seqs [RCls is_id_char, rstar (RCls (\<lambda>c. is_id_char c \<or> c \<in> set ''.-_:'')), RCls is_id_char]),
     RAlt rspace (REol False)]"

definition parseModelList :: "string \<Rightarrow> string list" where
  "parseModelList output =
     js_uniq (filter (\<lambda>i. js_lower i \<notin> {''available'', ''model'', ''models'', ''error'', ''usage'', ''you'', ''no''})
       (List.map_filter (\<lambda>line. re_cap (re_exec model_line_re line) 1) (js_split nl output)))"

section \<open>Titles fit on a line\<close>

lemma set_last_part: "set (last_part s) \<subseteq> set s"
  by (auto simp: last_part_def dest: set_takeWhileD)

lemma set_short_target: "set (short_target s) \<subseteq> set s"
  using set_last_part by (auto simp: short_target_def)

lemma eol_is_not_blank: "is_eol c \<Longrightarrow> c \<noteq> CHR '' ''"
  by (auto simp: is_eol_def)

text \<open>The title of a tool call is the tool's name, alone or followed by one line of at most
  60 characters (59 and the ellipsis), whatever the agent passed as its arguments.\<close>

lemma tool_title_is_short:
  "toolTitle name inp = name \<or>
   (\<exists>t. toolTitle name inp = name @ '': '' @ t \<and> length t < 60 + length ellipsis \<and> set t \<inter> {c. is_eol c} = {})"
proof (cases "List.find (\<lambda>v. truthy_str v \<noteq> None)
    (map (js_get inp) [''file_path'', ''path'', ''command'', ''pattern'', ''url'', ''query''])")
  case None
  then show ?thesis by (simp add: toolTitle_def)
next
  case (Some v)
  define short where "short = short_target (flatten_space (case truthy_str v of Some s \<Rightarrow> s | None \<Rightarrow> []))"
  let ?t = "if length short > 60 then take 59 short @ ellipsis else short"
  have t: "toolTitle name inp = name @ '': '' @ ?t"
    by (simp only: toolTitle_def Some option.case Let_def short_def)
  have "\<not> is_eol c" if "c \<in> set short" for c
    using that set_short_target flatten_space_spaces is_eol_space eol_is_not_blank unfolding short_def by blast
  moreover have "\<not> is_eol c" if "c \<in> set ellipsis" for c
    using that by (auto simp: ellipsis_def is_eol_def)
  ultimately have "set ?t \<inter> {c. is_eol c} = {}" by (auto dest: in_set_takeD)
  moreover have "length ?t < 60 + length ellipsis" by (simp add: ellipsis_def)
  ultimately show ?thesis using t by blast
qed

end
