(* ===== verification/Js_Lines.thy ===== *)
theory Js_Lines
  imports Js_Prelude
begin

text \<open>
  Reading a stream by lines, however its chunks cut them. Locale \<open>line_reader\<close> is the contract of a
  reader that keeps the rest of the last chunk in its state; the agent CLIs and the stream of a local
  model interpret it.
\<close>

text \<open>
  Output is read by lines: each complete line, trimmed and not empty, goes to the handler, the rest
  waits in the buffer. The runtime's output (\<open>hivemindShellMainService.ts\<close>) and the stream
  of a local model (\<open>localLlamaMainService.ts\<close>) are read the same way.
\<close>

definition feed_line :: "(string \<Rightarrow> 's \<Rightarrow> 's) \<Rightarrow> string \<Rightarrow> 's \<Rightarrow> 's" where
  "feed_line f line s = (if js_trim line \<noteq> [] then f (js_trim line) s else s)"

function drain_lines :: "(string \<Rightarrow> 's \<Rightarrow> 's) \<Rightarrow> string \<Rightarrow> 's \<Rightarrow> string \<times> 's" where
  "drain_lines f buf s =
     (case dropWhile (\<lambda>c. c \<noteq> nl) buf of
        [] \<Rightarrow> (buf, s)
      | _ # rest \<Rightarrow> drain_lines f rest (feed_line f (takeWhile (\<lambda>c. c \<noteq> nl) buf) s))"
  by pat_completeness auto
termination
proof (relation "measure (\<lambda>(f, buf, s). length buf)", goal_cases)
  case (2 f buf s c rest)
  then have "length (c # rest) \<le> length buf" by (metis length_dropWhile_le)
  then show ?case by simp
qed simp

declare drain_lines.simps [simp del]

text \<open>One chunk: what was kept and the chunk are drained, the rest is kept.\<close>

definition read_chunk ::
  "(string \<Rightarrow> 's \<Rightarrow> 's) \<Rightarrow> ('s \<Rightarrow> string) \<Rightarrow> (string \<Rightarrow> 's \<Rightarrow> 's) \<Rightarrow> string \<Rightarrow> 's \<Rightarrow> 's" where
  "read_chunk f buf put chunk s = (let (rest, s') = drain_lines f (buf s @ chunk) s in put rest s')"

section \<open>Lines\<close>

lemma drain_lines_no_line [simp]: "nl \<notin> set b \<Longrightarrow> drain_lines f b s = (b, s)"
proof -
  assume "nl \<notin> set b"
  then have "dropWhile (\<lambda>c. c \<noteq> nl) b = []" by (auto simp: dropWhile_eq_Nil_conv)
  then show ?thesis by (subst drain_lines.simps) (simp only: list.case)
qed

lemma drain_lines_line [simp]:
  "nl \<notin> set l \<Longrightarrow> drain_lines f (l @ nl # r) s = drain_lines f r (feed_line f l s)"
proof -
  assume "nl \<notin> set l"
  then have "\<forall>c\<in>set l. c \<noteq> nl" by auto
  then have "dropWhile (\<lambda>c. c \<noteq> nl) (l @ nl # r) = nl # r" "takeWhile (\<lambda>c. c \<noteq> nl) (l @ nl # r) = l"
    by simp_all
  then show ?thesis by (simp add: drain_lines.simps [of f "l @ nl # r"])
qed

lemma lines_induct [case_names rest line]:
  assumes "\<And>b. nl \<notin> set b \<Longrightarrow> P b" and "\<And>l r. nl \<notin> set l \<Longrightarrow> P r \<Longrightarrow> P (l @ nl # r)"
  shows "P b"
proof (induction b rule: length_induct)
  case (1 b)
  show ?case
  proof (cases "nl \<in> set b")
    case True
    then obtain l r where b: "b = l @ nl # r" "nl \<notin> set l" by (meson split_list_first)
    with 1 have "P r" by simp
    with b show ?thesis by (simp add: assms(2))
  qed (rule assms(1))
qed

lemma drain_lines_append:
  "drain_lines f (b @ c) s = drain_lines f (fst (drain_lines f b s) @ c) (snd (drain_lines f b s))"
  by (induction b arbitrary: s rule: lines_induct) simp_all

lemma drain_lines_rest: "nl \<notin> set (fst (drain_lines f b s))"
  by (induction b arbitrary: s rule: lines_induct) simp_all

lemma drain_lines_commute:
  assumes "\<And>l s. f l (g s) = g (f l s)"
  shows "drain_lines f b (g s) = (fst (drain_lines f b s), g (snd (drain_lines f b s)))"
proof (induction b arbitrary: s rule: lines_induct)
  case (line l r)
  have "feed_line f l (g s) = g (feed_line f l s)" by (simp add: feed_line_def assms)
  with line show ?case by simp
qed simp

lemma drain_lines_keeps:
  assumes "\<And>l s. P s \<Longrightarrow> P (f l s)"
  shows "P s \<Longrightarrow> P (snd (drain_lines f b s))"
  by (induction b arbitrary: s rule: lines_induct) (simp_all add: feed_line_def assms)

section \<open>Readers\<close>

locale line_reader =
  fixes f :: "string \<Rightarrow> 's \<Rightarrow> 's" and buf :: "'s \<Rightarrow> string" and put :: "string \<Rightarrow> 's \<Rightarrow> 's"
  assumes line_put: "f l (put b s) = put b (f l s)"
    and put_put: "put b (put c s) = put b s"
    and buf_put: "buf (put b s) = b"
begin

lemma read_append: "read_chunk f buf put d (read_chunk f buf put c s) = read_chunk f buf put (c @ d) s"
proof -
  define r where "r = fst (drain_lines f (buf s @ c) s)"
  define s' where "s' = snd (drain_lines f (buf s @ c) s)"
  have 1: "read_chunk f buf put c s = put r s'" by (simp add: read_chunk_def r_def s'_def split: prod.split)
  have "drain_lines f (r @ d) (put r s') = (fst (drain_lines f (r @ d) s'), put r (snd (drain_lines f (r @ d) s')))"
    by (rule drain_lines_commute) (rule line_put)
  moreover have "drain_lines f (buf s @ c @ d) s = drain_lines f (r @ d) s'"
    using drain_lines_append [of f "buf s @ c" d s] by (simp add: r_def s'_def)
  ultimately show ?thesis unfolding 1 by (simp add: read_chunk_def buf_put put_put split: prod.split)
qed

lemma reads_concat: "fold (read_chunk f buf put) (c # cs) s = read_chunk f buf put (concat (c # cs)) s"
proof (induction cs arbitrary: c)
  case (Cons d cs)
  have "fold (read_chunk f buf put) (c # d # cs) s = fold (read_chunk f buf put) ((c @ d) # cs) s"
    by (simp add: read_append)
  with Cons show ?case by simp
qed simp

end

end
