(* ===== verification/Cli_Run.thy ===== *)
theory Cli_Run
  imports Shell_Agent Cli_Events Js_Lines
begin

text \<open>
  The agent CLIs the main process runs headless, one process per turn:
  \<open>src/vs/platform/hivemindide/electron-main/cliAgents.ts\<close>. A running process is the sequence of
  what Node reports of it: chunks of its output, an error, its exit. The file system and the
  processes started to probe a CLI are arguments; so is \<open>path.join\<close>. The text is bytes, as the
  pipes decode them.
\<close>

section \<open>The command lines\<close>

datatype cli_permissions = ReadOnly | Edits | FullAccess

record cli_turn =
  ct_prompt :: string
  ct_cwd :: string
  ct_model :: string
  ct_permissions :: cli_permissions
  ct_session :: "string option"
  ct_resume :: bool

record cli_spec =
  spec_id :: string
  spec_name :: string
  spec_models :: "string list"
  listModels :: "string list option"
  presetSession :: bool
  signIn :: string
  spec_args :: "cli_turn \<Rightarrow> string list"

definition withModel :: "string \<Rightarrow> string \<Rightarrow> string list" where
  "withModel m flag = (if m \<noteq> [] \<and> m \<noteq> ''default'' then [flag, m] else [])"

text \<open>\<open>...(turn.session && b ? f(turn.session) : [])\<close>.\<close>

definition with_session :: "cli_turn \<Rightarrow> bool \<Rightarrow> (string \<Rightarrow> string list) \<Rightarrow> string list" where
  "with_session t b f =
     (case ct_session t of Some s \<Rightarrow> if s \<noteq> [] \<and> b then f s else [] | None \<Rightarrow> [])"

definition claude_args :: "cli_turn \<Rightarrow> string list" where
  "claude_args t =
     [''-p'', ct_prompt t, ''--output-format'', ''stream-json'', ''--verbose'', ''--permission-mode'',
      (case ct_permissions t of ReadOnly \<Rightarrow> ''default'' | FullAccess \<Rightarrow> ''bypassPermissions'' | Edits \<Rightarrow> ''acceptEdits'')]
     @ withModel (ct_model t) ''--model''
     @ with_session t True (\<lambda>s. [if ct_resume t then ''--resume'' else ''--session-id'', s])"

definition cursor_args :: "cli_turn \<Rightarrow> string list" where
  "cursor_args t =
     [''-p'', ct_prompt t, ''--output-format'', ''stream-json'', ''--trust'', ''--workspace'', ct_cwd t]
     @ (if ct_permissions t = FullAccess then [''--force''] else [])
     @ withModel (if ct_model t = ''auto'' then ''default'' else ct_model t) ''--model''
     @ with_session t (ct_resume t) (\<lambda>s. [''--resume'', s])"

definition codex_args :: "cli_turn \<Rightarrow> string list" where
  "codex_args t =
     [''exec'', ''--json'', ''--skip-git-repo-check'']
     @ (case ct_permissions t of ReadOnly \<Rightarrow> [''--sandbox'', ''read-only'']
        | FullAccess \<Rightarrow> [''--dangerously-bypass-approvals-and-sandbox''] | Edits \<Rightarrow> [''--full-auto''])
     @ withModel (ct_model t) ''-m''
     @ with_session t (ct_resume t) (\<lambda>s. [''resume'', s])
     @ [ct_prompt t]"

definition SPECS :: "cli_spec list" where
  "SPECS =
    [\<lparr>spec_id = ''claude'', spec_name = ''Claude Code'', spec_models = [''default'', ''opus'', ''sonnet'', ''haiku''],
      listModels = None, presetSession = True, signIn = ''run `claude` in a terminal and type /login'',
      spec_args = claude_args\<rparr>,
     \<lparr>spec_id = ''cursor-agent'', spec_name = ''Cursor'', spec_models = [''auto''],
      listModels = Some [''--list-models''], presetSession = False,
      signIn = ''run `cursor-agent login` in a terminal'', spec_args = cursor_args\<rparr>,
     \<lparr>spec_id = ''codex'', spec_name = ''Codex'', spec_models = [''default''],
      listModels = None, presetSession = False, signIn = ''run `codex login` in a terminal'',
      spec_args = codex_args\<rparr>]"

definition cliAgentSpec :: "string \<Rightarrow> cli_spec option" where
  "cliAgentSpec i = List.find (\<lambda>s. spec_id s = i) SPECS"

section \<open>The environment and what is installed\<close>

definition AGENT_SESSION_VARIABLES :: "string list" where
  "AGENT_SESSION_VARIABLES =
    [''CLAUDECODE'', ''CLAUDE_PID'', ''CLAUDE_EFFORT'', ''CLAUDE_AGENT_SDK_VERSION'', ''CLAUDE_CODE_ENTRYPOINT'',
     ''CLAUDE_CODE_EXECPATH'', ''CLAUDE_CODE_SESSION_ID'', ''CLAUDE_CODE_CHILD_SESSION'',
     ''CLAUDE_CODE_SESSION_ATTENDED'', ''CLAUDE_CODE_MESSAGING_SOCKET'', ''CLAUDE_CODE_MESSAGING_TOKEN'',
     ''CLAUDE_CODE_ENABLE_TASKS'', ''CLAUDE_CODE_ENABLE_SDK_FILE_CHECKPOINTING'', ''CLAUDE_CODE_SSE_PORT'']"

definition inherited_variable :: "string \<Rightarrow> bool" where
  "inherited_variable k \<longleftrightarrow> \<not> prefix ''ELECTRON_'' k \<and> \<not> prefix ''VSCODE_'' k \<and> k \<notin> set AGENT_SESSION_VARIABLES"

definition agentEnvironment :: "(string \<times> string) list \<Rightarrow> string \<Rightarrow> (string \<times> string) list" where
  "agentEnvironment env home =
     (let kept = filter (\<lambda>(k, v). inherited_variable k) env
      in if home \<noteq> [] then AList.update ''HOME'' home kept else kept)"

record installed_agent = cli_agent +
  agent_path :: string
  agent_version :: string

text \<open>The paths of a CLI are tried in order: the first that is executable and prints a version is it.\<close>

fun first_working ::
  "(string \<Rightarrow> bool) \<Rightarrow> (string \<Rightarrow> string list \<Rightarrow> string option) \<Rightarrow> string list \<Rightarrow> (string \<times> string) option" where
  "first_working access run [] = None"
| "first_working access run (p # ps) =
     (if access p then (case run p [''--version''] of Some v \<Rightarrow> Some (p, v) | None \<Rightarrow> first_working access run ps)
      else first_working access run ps)"

definition detected_models :: "(string \<Rightarrow> string list \<Rightarrow> string option) \<Rightarrow> string \<Rightarrow> cli_spec \<Rightarrow> string list" where
  "detected_models run p spec =
     (case listModels spec of None \<Rightarrow> spec_models spec
      | Some args \<Rightarrow>
          (let listed = parseModelList (case run p args of Some out \<Rightarrow> out | None \<Rightarrow> [])
           in if listed \<noteq> [] then listed else spec_models spec))"

definition detectCliAgents ::
  "(string \<Rightarrow> string \<Rightarrow> string) \<Rightarrow> bool \<Rightarrow> (string \<Rightarrow> bool) \<Rightarrow> (string \<Rightarrow> string list \<Rightarrow> string option) \<Rightarrow> string list
     \<Rightarrow> installed_agent list" where
  "detectCliAgents join win access run dirs =
     List.map_filter (\<lambda>spec.
       map_option (\<lambda>(p, v). \<lparr>cli_id = spec_id spec, cli_name = spec_name spec,
           cli_models = detected_models run p spec, agent_path = p,
           agent_version = js_trim (hd (js_split nl v))\<rparr>)
         (first_working access run
            (map (\<lambda>d. join d (if win then spec_id spec @ ''.cmd'' else spec_id spec)) dirs))) SPECS"

section \<open>One turn\<close>

datatype run_result = Finished stop_reason "string option" | Rejected string

record cli_run =
  cr_buffer :: string
  cr_session :: "string option"
  cr_limit :: "(real option \<times> string option) option"   \<comment> \<open>resetsAt and limitType of a refusal\<close>
  cr_settled :: "run_result option"
  cr_stderr :: string
  cr_events :: "cli_event list"                             \<comment> \<open>what \<open>onEvent\<close> was given, in order\<close>

definition start_run :: "cli_turn \<Rightarrow> cli_run" where
  "start_run t = \<lparr>cr_buffer = [], cr_session = ct_session t, cr_limit = None, cr_settled = None,
     cr_stderr = [], cr_events = []\<rparr>"

text \<open>The promise settles once: what comes later is ignored.\<close>

definition finish :: "run_result \<Rightarrow> cli_run \<Rightarrow> cli_run" where
  "finish r s = (if cr_settled s \<noteq> None then s else s\<lparr>cr_settled := Some r\<rparr>)"

definition sign_in_re :: re where
  "sign_in_re = alts [liti ''not logged in'', liti ''please run /login'', liti ''authentication required'',
     liti ''agent login'', liti ''codex login'']"

definition describe_error :: "cli_agent \<Rightarrow> cli_spec \<Rightarrow> string \<Rightarrow> string" where
  "describe_error ag spec e =
     (if re_test sign_in_re e
      then cli_name ag @ '' is not signed in on this machine: '' @ signIn spec @ '', then try again. ('' @ js_trim e @ '')''
      else cli_name ag @ '': '' @ js_trim e)"

definition limit_wait :: "real \<Rightarrow> real option \<Rightarrow> nat option" where
  "limit_wait now back =
     (case back of Some t \<Rightarrow> if t \<noteq> 0 then Some (nat (max 1 (js_round (t - now / 1000)))) else None | None \<Rightarrow> None)"

definition limit_details :: "real \<Rightarrow> (real option \<times> string option) option \<Rightarrow> string" where
  "limit_details now refused =
     (let ltype = (case refused of Some (_, Some k) \<Rightarrow> k | _ \<Rightarrow> []);
          wait = (case refused of Some (back, _) \<Rightarrow> limit_wait now back | None \<Rightarrow> None)
      in (if ltype \<noteq> [] then '' ('' @ map (\<lambda>c. if c = CHR ''_'' then CHR '' '' else c) ltype @ '')'' else [])
         @ (case wait of Some n \<Rightarrow> '' (retry after '' @ show_nat n @ ''s)'' | None \<Rightarrow> []))"

definition limitMessage :: "cli_agent \<Rightarrow> real \<Rightarrow> (real option \<times> string option) option \<Rightarrow> string" where
  "limitMessage ag now refused = cli_name ag @ '' usage limit reached'' @ limit_details now refused"

definition done_result :: "cli_agent \<Rightarrow> cli_spec \<Rightarrow> real \<Rightarrow> string option \<Rightarrow> stop_reason option \<Rightarrow> cli_run \<Rightarrow> run_result" where
  "done_result ag spec now error reason s =
     (case error of
        Some e \<Rightarrow>
          if e \<noteq> [] then
            Rejected (if cr_limit s \<noteq> None then limitMessage ag now (cr_limit s) @ '': '' @ e else describe_error ag spec e)
          else Finished (case reason of Some r \<Rightarrow> r | None \<Rightarrow> EndTurn) (cr_session s)
      | None \<Rightarrow> Finished (case reason of Some r \<Rightarrow> r | None \<Rightarrow> EndTurn) (cr_session s))"

definition on_event :: "cli_agent \<Rightarrow> cli_spec \<Rightarrow> real \<Rightarrow> cli_event \<Rightarrow> cli_run \<Rightarrow> cli_run" where
  "on_event ag spec now e s =
     (let s' = (case e of
          SessionEvent i \<Rightarrow> s\<lparr>cr_session := Some i\<rparr>
        | LimitEvent rej back ltype u \<Rightarrow> s\<lparr>cr_limit := if rej then Some (back, ltype) else None\<rparr>
        | DoneEvent error reason \<Rightarrow> finish (done_result ag spec now error reason s) s
        | _ \<Rightarrow> s)
      in s'\<lparr>cr_events := cr_events s' @ [e]\<rparr>)"

definition on_line ::
  "(string \<Rightarrow> js_val option) \<Rightarrow> (real \<Rightarrow> string) \<Rightarrow> cli_agent \<Rightarrow> cli_spec \<Rightarrow> real \<Rightarrow> string \<Rightarrow> cli_run \<Rightarrow> cli_run" where
  "on_line json num ag spec now line s =
     fold (on_event ag spec now) (parseCliAgentLine json num (cli_id ag) line) s"

definition on_stdout ::
  "(string \<Rightarrow> js_val option) \<Rightarrow> (real \<Rightarrow> string) \<Rightarrow> cli_agent \<Rightarrow> cli_spec \<Rightarrow> real \<Rightarrow> string \<Rightarrow> cli_run \<Rightarrow> cli_run" where
  "on_stdout json num ag spec now chunk s =
     (let (rest, s') = drain_lines (on_line json num ag spec now) (cr_buffer s @ chunk) s
      in s'\<lparr>cr_buffer := rest\<rparr>)"

definition last_chars :: "nat \<Rightarrow> string \<Rightarrow> string" where
  "last_chars n s = drop (length s - n) s"

definition on_stderr :: "string \<Rightarrow> cli_run \<Rightarrow> cli_run" where
  "on_stderr chunk s = s\<lparr>cr_stderr := last_chars 4000 (cr_stderr s @ chunk)\<rparr>"

definition on_error :: "cli_agent \<Rightarrow> string \<Rightarrow> cli_run \<Rightarrow> cli_run" where
  "on_error ag e s = finish (Rejected (cli_name ag @ '' could not start: '' @ e)) s"

definition last_lines :: "nat \<Rightarrow> string \<Rightarrow> string" where
  "last_lines n s = (let ls = js_split nl s in js_join [nl] (drop (length ls - n) ls))"

definition on_exit :: "cli_agent \<Rightarrow> cli_spec \<Rightarrow> real \<Rightarrow> nat \<Rightarrow> string option \<Rightarrow> cli_run \<Rightarrow> cli_run" where
  "on_exit ag spec now code signal s =
     (if signal \<noteq> None \<and> signal \<noteq> Some [] then finish (Finished Cancelled (cr_session s)) s
      else if cr_limit s \<noteq> None then finish (Rejected (limitMessage ag now (cr_limit s))) s
      else if code = 0 then finish (Finished EndTurn (cr_session s)) s
      else finish (Rejected
        (if js_trim (cr_stderr s) \<noteq> []
         then describe_error ag spec (last_lines 6 (js_trim (cr_stderr s)))
         else cli_name ag @ '' exited with code '' @ show_nat code)) s)"

text \<open>What Node reports of the process, one report after another.\<close>

datatype report = Stdout string | Stderr string | SpawnError string | Exit nat "string option"

fun on_report ::
  "(string \<Rightarrow> js_val option) \<Rightarrow> (real \<Rightarrow> string) \<Rightarrow> cli_agent \<Rightarrow> cli_spec \<Rightarrow> real \<times> report \<Rightarrow> cli_run \<Rightarrow> cli_run" where
  "on_report json num ag spec (now, Stdout c) s = on_stdout json num ag spec now c s"
| "on_report json num ag spec (now, Stderr c) s = on_stderr c s"
| "on_report json num ag spec (now, SpawnError e) s = on_error ag e s"
| "on_report json num ag spec (now, Exit code signal) s = on_exit ag spec now code signal s"

definition runCliTurn ::
  "(string \<Rightarrow> js_val option) \<Rightarrow> (real \<Rightarrow> string) \<Rightarrow> cli_agent \<Rightarrow> cli_turn \<Rightarrow> (real \<times> report) list \<Rightarrow> cli_run" where
  "runCliTurn json num ag t reports =
     (case cliAgentSpec (cli_id ag) of
        None \<Rightarrow> (start_run t)\<lparr>cr_settled := Some (Rejected (''Unknown agent CLI '' @ cli_id ag))\<rparr>
      | Some spec \<Rightarrow> fold (on_report json num ag spec) reports (start_run t))"

section \<open>Output is read by lines, however it arrives\<close>

lemma finish_buffer [simp]: "finish r (s\<lparr>cr_buffer := x\<rparr>) = (finish r s)\<lparr>cr_buffer := x\<rparr>"
  by (simp add: finish_def)

lemma on_event_buffer:
  "on_event ag spec now e (s\<lparr>cr_buffer := x\<rparr>) = (on_event ag spec now e s)\<lparr>cr_buffer := x\<rparr>"
proof -
  have d: "done_result ag spec now er re (s\<lparr>cr_buffer := x\<rparr>) = done_result ag spec now er re s" for er re
    by (simp add: done_result_def split: option.split)
  show ?thesis by (cases e) (simp_all add: on_event_def d finish_def Let_def)
qed

lemma on_line_buffer:
  "on_line json num ag spec now l (s\<lparr>cr_buffer := x\<rparr>) = (on_line json num ag spec now l s)\<lparr>cr_buffer := x\<rparr>"
proof -
  have "fold (on_event ag spec now) es (s\<lparr>cr_buffer := x\<rparr>) = (fold (on_event ag spec now) es s)\<lparr>cr_buffer := x\<rparr>"
    for es s by (induction es arbitrary: s) (simp_all add: on_event_buffer)
  then show ?thesis by (simp add: on_line_def)
qed

interpretation cli: line_reader "on_line json num ag spec now" cr_buffer "\<lambda>b s. s\<lparr>cr_buffer := b\<rparr>"
  for json num ag spec now
  by unfold_locales (simp_all add: on_line_buffer)

lemma on_stdout_read:
  "on_stdout json num ag spec now = read_chunk (on_line json num ag spec now) cr_buffer (\<lambda>b s. s\<lparr>cr_buffer := b\<rparr>)"
  by (intro ext) (simp add: on_stdout_def read_chunk_def)

text \<open>How the pipe cuts the output of a CLI into chunks changes nothing: the events that are
  delivered, the result of the turn and what waits in the buffer are those of the whole output at once.\<close>

lemma chunks_do_not_matter:
  "fold (on_stdout json num ag spec now) (c # cs) s = on_stdout json num ag spec now (concat (c # cs)) s"
  unfolding on_stdout_read by (rule cli.reads_concat)

section \<open>A turn settles once\<close>

lemma finish_settled [simp]: "cr_settled s = Some r \<Longrightarrow> finish q s = s"
  by (simp add: finish_def)

lemma finish_settles [simp]: "cr_settled (finish q s) \<noteq> None"
  by (simp add: finish_def)

lemma on_event_settled: "cr_settled s = Some r \<Longrightarrow> cr_settled (on_event ag spec now e s) = Some r"
  by (cases e) (simp_all add: on_event_def)

lemma on_line_settled:
  "cr_settled s = Some r \<Longrightarrow> cr_settled (on_line json num ag spec now l s) = Some r"
  unfolding on_line_def by (rule fold_invariant [where Q = "\<lambda>_. True"]) (simp_all add: on_event_settled)

lemma on_stdout_settled:
  "cr_settled s = Some r \<Longrightarrow> cr_settled (on_stdout json num ag spec now c s) = Some r"
  using drain_lines_keeps [where P = "\<lambda>s. cr_settled s = Some r" and f = "on_line json num ag spec now"]
  by (simp add: on_stdout_def on_line_settled split: prod.split) (metis on_line_settled snd_conv)

lemma on_report_settled:
  "cr_settled s = Some r \<Longrightarrow> cr_settled (on_report json num ag spec x s) = Some r"
  by (cases x; cases "snd x")
    (auto simp: on_stdout_settled on_stderr_def on_error_def on_exit_def)

lemma reports_settled:
  "cr_settled s = Some r \<Longrightarrow> cr_settled (fold (on_report json num ag spec) rs s) = Some r"
  by (rule fold_invariant [where Q = "\<lambda>_. True"]) (simp_all add: on_report_settled)

lemma exit_settles: "\<exists>r. cr_settled (on_report json num ag spec (now, Exit code sig) s) = Some r"
  by (simp add: on_exit_def flip: not_None_eq)

text \<open>
  Property C22: a turn settles, and once: as soon as the exit of the process is reported there is a
  result, and whatever is reported after a result leaves it as it is.
\<close>

theorem turn_settles_once:
  "((now, Exit code sig) \<in> set rs \<longrightarrow> cr_settled (runCliTurn json num ag t rs) \<noteq> None) \<and>
   (cr_settled (runCliTurn json num ag t rs) = Some r \<longrightarrow>
    cr_settled (runCliTurn json num ag t (rs @ later)) = Some r)"
proof (cases "cliAgentSpec (cli_id ag)")
  case (Some spec)
  let ?run = "\<lambda>rs. fold (on_report json num ag spec) rs (start_run t)"
  have "cr_settled (?run rs) \<noteq> None" if "(now, Exit code sig) \<in> set rs"
  proof -
    note m = that
    obtain a b where "rs = a @ (now, Exit code sig) # b" using split_list [OF m] by blast
    moreover obtain r where "cr_settled (on_report json num ag spec (now, Exit code sig) (?run a)) = Some r"
      using exit_settles by blast
    ultimately have "cr_settled (?run rs) = Some r" using reports_settled by (simp del: on_report.simps)
    then show ?thesis by simp
  qed
  then show ?thesis by (simp add: runCliTurn_def Some reports_settled)
qed (simp add: runCliTurn_def)

definition demo_cli :: cli_agent where
  "demo_cli = \<lparr>cli_id = ''claude'', cli_name = ''Claude Code'', cli_models = [''default'']\<rparr>"

definition demo_cli_turn :: cli_turn where
  "demo_cli_turn = \<lparr>ct_prompt = ''hi'', ct_cwd = ''/w'', ct_model = ''opus'', ct_permissions = ReadOnly,
     ct_session = None, ct_resume = False\<rparr>"

lemma turn_settles_once_witness:
  "\<exists>r. cr_settled (runCliTurn (\<lambda>_. None) (\<lambda>_. []) demo_cli demo_cli_turn [(0, Exit 0 None)]) = Some r \<and>
     cr_settled (runCliTurn (\<lambda>_. None) (\<lambda>_. []) demo_cli demo_cli_turn ([(0, Exit 0 None)] @ [(1, Exit 1 None)])) = Some r"
proof -
  let ?run = "\<lambda>rs. cr_settled (runCliTurn (\<lambda>_. None) (\<lambda>_. []) demo_cli demo_cli_turn rs)"
  have "?run [(0, Exit 0 None)] \<noteq> None"
    by (rule turn_settles_once [THEN conjunct1, THEN mp]) simp
  then obtain r where r: "?run [(0, Exit 0 None)] = Some r" by blast
  moreover have "?run ([(0, Exit 0 None)] @ [(1, Exit 1 None)]) = Some r"
    by (rule turn_settles_once [THEN conjunct2, THEN mp, OF r])
  ultimately show ?thesis by blast
qed

text \<open>
  Node may report the exit before it has handed over the last output. A refused or failed turn then
  counts as ended well: the error the CLI printed comes after the result.
\<close>

lemma exit_before_the_last_output:
  assumes "cliAgentSpec (cli_id ag) = Some spec" "cr_limit (fold (on_report json num ag spec) rs (start_run t)) = None"
    and "cr_settled (fold (on_report json num ag spec) rs (start_run t)) = None"
  shows "\<exists>i. cr_settled (runCliTurn json num ag t (rs @ [(now, Exit 0 None), (now', Stdout c)])) =
    Some (Finished EndTurn i)"
proof -
  let ?s = "fold (on_report json num ag spec) rs (start_run t)"
  have "cr_settled (on_exit ag spec now 0 None ?s) = Some (Finished EndTurn (cr_session ?s))"
    using assms by (simp add: on_exit_def finish_def)
  then have "cr_settled (on_stdout json num ag spec now' c (on_exit ag spec now 0 None ?s)) =
      Some (Finished EndTurn (cr_session ?s))" by (rule on_stdout_settled)
  then show ?thesis using assms(1) by (simp add: runCliTurn_def)
qed

section \<open>What failover makes of the errors of a turn\<close>

lemma sublist_js_lower: "js_lower w = w \<Longrightarrow> sublist w (js_lower (a @ w @ b))"
  by (simp add: js_lower_def sublist_def) metis

lemma limitMessage_wait:
  assumes "limit_wait now back = Some n"
  shows "limitMessage ag now (Some (back, limit_type)) =
    limitMessage ag now (Some (None, limit_type)) @ '' ('' @ ''retry after '' @ show_nat n @ ''s'' @ '')''"
proof -
  have "limit_wait now None = None" by (simp add: limit_wait_def)
  then show ?thesis using assms by (cases limit_type) (simp_all add: limitMessage_def limit_details_def)
qed

lemma limitMessage_quota: "sublist ''usage limit'' (js_lower (limitMessage ag now refused @ rest))"
proof -
  have "limitMessage ag now refused @ rest =
      (cli_name ag @ '' '') @ ''usage limit'' @ ('' reached'' @ limit_details now refused @ rest)"
    by (simp add: limitMessage_def)
  moreover have "js_lower ''usage limit'' = ''usage limit''" by (simp add: js_lower_def js_lower_char_def)
  ultimately show ?thesis using sublist_js_lower by metis
qed

text \<open>
  Property C21: a plan limit reaches failover as what it is. A turn that ends after its CLI reported
  a refusal (with a failed result, or by exiting) is rejected with an error that classifies as a
  spent quota, and the wait failover reads from it is the time left until the limit resets, rounded
  to a second and at least one.
\<close>

theorem usage_limits_reach_failover:
  assumes "cr_settled s = None" "cr_limit s = Some (Some back, limit_type)" "back \<noteq> 0" "e \<noteq> []"
    and name: "\<not> sublist ''retry after '' (js_lower (limitMessage ag now (Some (None, limit_type)) @ '' ('' @ ''retry after''))"
    and s': "s' = on_exit ag spec now code None s \<or> s' = on_event ag spec now (DoneEvent (Some e) reason) s"
  shows "\<exists>m. cr_settled s' = Some (Rejected m) \<and>
    classifyProviderError m = \<lparr>kind = Quota,
      retryAfterMs = Some (1000 * max 1 (js_round (back - now / 1000))), message = m\<rparr>"
proof -
  define n where "n = nat (max 1 (js_round (back - now / 1000)))"
  define pre where "pre = limitMessage ag now (Some (None, limit_type)) @ '' (''"
  have w: "limit_wait now (Some back) = Some n" using assms(3) by (simp add: limit_wait_def n_def)
  have lm: "limitMessage ag now (cr_limit s) = pre @ ''retry after '' @ show_nat n @ ''s'' @ '')''"
    unfolding assms(2) limitMessage_wait [OF w] pre_def by simp
  have "\<exists>rest. cr_settled s' = Some (Rejected (limitMessage ag now (cr_limit s) @ rest))"
    using s'
  proof
    assume "s' = on_exit ag spec now code None s"
    then show ?thesis using assms(1,2) by (intro exI [of _ "[]"]) (simp add: on_exit_def finish_def)
  next
    assume "s' = on_event ag spec now (DoneEvent (Some e) reason) s"
    then show ?thesis using assms(1,2,4)
      by (intro exI [of _ "'': '' @ e"]) (simp add: on_event_def finish_def done_result_def)
  qed
  then obtain rest where r: "cr_settled s' = Some (Rejected (limitMessage ag now (cr_limit s) @ rest))" ..
  let ?m = "limitMessage ag now (cr_limit s) @ rest"
  have m: "?m = pre @ ''retry after '' @ show_nat n @ ''s'' @ ('')'' @ rest)"
    unfolding lm by simp
  have "\<not> sublist ''retry after '' (js_lower (pre @ ''retry after''))"
    unfolding pre_def append_assoc by (rule name)
  moreover have "\<not> word_at ('')'' @ rest)" by (simp add: word_at_def is_word_def)
  ultimately have "retryAfterMs (classifyProviderError ?m) = Some (1000 * int n)"
    unfolding m by (rule retry_after_roundtrip)
  moreover have "kind (classifyProviderError ?m) = Quota"
    by (rule quota_wording_wins [of "''usage limit''"]) (simp, rule limitMessage_quota)
  moreover have "message (classifyProviderError ?m) = ?m" by (simp add: classifyProviderError_def)
  moreover have "int n = max 1 (js_round (back - now / 1000))" by (simp add: n_def)
  ultimately show ?thesis using r by (intro exI [of _ ?m]) (simp add: provider_failure.equality)
qed

lemma usage_limits_reach_failover_witness:
  "\<exists>m. cr_settled (on_exit demo_cli (hd SPECS) 1000000 1 None
      (on_event demo_cli (hd SPECS) 999000 (LimitEvent True (Some 1060) (Some ''five_hour'') None) (start_run demo_cli_turn)))
    = Some (Rejected m) \<and>
   classifyProviderError m = \<lparr>kind = Quota, retryAfterMs = Some (1000 * max 1 (js_round (1060 - 1000000 / 1000))), message = m\<rparr>"
proof (rule usage_limits_reach_failover [where e = "''x''" and limit_type = "Some ''five_hour''" and code = 1
      and spec = "hd SPECS" and s = "on_event demo_cli (hd SPECS) 999000 (LimitEvent True (Some 1060) (Some ''five_hour'') None) (start_run demo_cli_turn)"])
  show "\<not> sublist ''retry after '' (js_lower (limitMessage demo_cli 1000000 (Some (None, Some ''five_hour'')) @ '' ('' @ ''retry after''))"
    by code_simp
qed (simp_all add: on_event_def start_run_def)

text \<open>A CLI that is not signed in is a reason to fail over, never an error of the request:
  whatever words it said it with, and whatever stands around them.\<close>

lemma signed_out_cli_fails_over:
  assumes "re_test sign_in_re e"
  shows "isFailoverReason (kind (classifyProviderError (describe_error ag spec e)))"
proof -
  let ?alt = "alts [liti ''signed'', liti ''logged'']" and ?t = "''not '' @ ''signed'' @ '' in''"
  have "accepts ?alt ''signed''" by (rule accepts_alts [of "liti ''signed''"]) (simp_all add: accepts_liti)
  then have "accepts (RSeq (liti ''not '') (RSeq ?alt (liti '' in''))) ?t"
    by (intro accepts_seq accepts_liti refl)
  then have "accepts AUTH ?t" unfolding AUTH_def by (intro accepts_alts) (simp_all add: re_build)
  moreover have "describe_error ag spec e = (cli_name ag @ '' is '') @ ?t @
      ('' on this machine: '' @ signIn spec @ '', then try again. ('' @ js_trim e @ '')'')"
    using assms by (simp add: describe_error_def)
  then have "sublist ?t (describe_error ag spec e)" by (metis sublist_appendI)
  ultimately have "re_test AUTH (describe_error ag spec e)" by (rule accepts_test)
  then show ?thesis by (simp add: classifyProviderError_def classify_kind_def isFailoverReason_def Let_def)
qed

lemma signed_out_cli_fails_over_witness:
  "isFailoverReason (kind (classifyProviderError (describe_error demo_cli (hd SPECS) ''Not logged in'')))"
  by (rule signed_out_cli_fails_over) code_simp

section \<open>Permissions\<close>

definition write_flags :: "string set" where
  "write_flags = {''bypassPermissions'', ''acceptEdits'', ''--force'', ''--full-auto'',
     ''--dangerously-bypass-approvals-and-sandbox''}"



section \<open>What detection finds\<close>

lemma first_working_Some:
  "first_working access run ps = Some (p, v) \<Longrightarrow> p \<in> set ps \<and> access p \<and> run p [''--version''] = Some v"
  by (induction ps) (auto split: if_splits option.splits)

lemma first_working_first:
  "first_working access run ps = Some (p, v) \<Longrightarrow>
   \<exists>a b. ps = a @ p # b \<and> (\<forall>q\<in>set a. \<not> access q \<or> run q [''--version''] = None)"
proof (induction ps)
  case (Cons q qs)
  show ?case
  proof (cases "access q \<and> run q [''--version''] \<noteq> None")
    case True
    with Cons.prems show ?thesis by (intro exI [of _ "[]"] exI [of _ qs]) auto
  next
    case False
    with Cons.prems have "first_working access run qs = Some (p, v)" by (auto split: if_splits option.splits)
    with Cons.IH obtain a b where "qs = a @ p # b" "\<forall>q\<in>set a. \<not> access q \<or> run q [''--version''] = None" by blast
    with False show ?thesis by (intro exI [of _ "q # a"] exI [of _ b]) auto
  qed
qed simp

lemma detected_models_some: "spec \<in> set SPECS \<Longrightarrow> detected_models run p spec \<noteq> []"
  by (auto simp: detected_models_def Let_def SPECS_def split: option.splits)

lemma in_set_map_filter: "y \<in> set (List.map_filter g xs) \<longleftrightarrow> (\<exists>x\<in>set xs. g x = Some y)"
  by (force simp: map_filter_def)

lemma detected_agent:
  assumes "a \<in> set (detectCliAgents join win access run dirs)"
  obtains spec v where "spec \<in> set SPECS" "cli_id a = spec_id spec" "cli_name a = spec_name spec"
    "cli_models a = detected_models run (agent_path a) spec"
    "first_working access run (map (\<lambda>d. join d (if win then spec_id spec @ ''.cmd'' else spec_id spec)) dirs)
       = Some (agent_path a, v)"
proof -
  let ?ps = "\<lambda>spec. map (\<lambda>d. join d (if win then spec_id spec @ ''.cmd'' else spec_id spec)) dirs"
  from assms obtain spec where spec: "spec \<in> set SPECS" and
    "map_option (\<lambda>(p, v). \<lparr>cli_id = spec_id spec, cli_name = spec_name spec,
        cli_models = detected_models run p spec, agent_path = p,
        agent_version = js_trim (hd (js_split nl v))\<rparr>) (first_working access run (?ps spec)) = Some a"
    unfolding detectCliAgents_def in_set_map_filter by blast
  then obtain p v where pv: "first_working access run (?ps spec) = Some (p, v)"
    "a = \<lparr>cli_id = spec_id spec, cli_name = spec_name spec, cli_models = detected_models run p spec,
       agent_path = p, agent_version = js_trim (hd (js_split nl v))\<rparr>"
    unfolding map_option_eq_Some by (elim exE conjE) (simp split: prod.splits)
  show ?thesis
    by (rule that [OF spec]) (simp_all only: pv cli_agent.simps installed_agent.simps)
qed

lemma specs_by_id: "spec \<in> set SPECS \<Longrightarrow> cliAgentSpec (spec_id spec) = Some spec"
proof -
  have "distinct (map spec_id SPECS)" by (simp add: SPECS_def)
  then show "spec \<in> set SPECS \<Longrightarrow> ?thesis" unfolding cliAgentSpec_def by (rule find_by_key)
qed

lemma distinct_map_filter_keys:
  assumes "\<And>x y. g x = Some y \<Longrightarrow> f y = h x" "distinct (map h xs)"
  shows "distinct (map f (List.map_filter g xs))"
proof -
  have "set (map f (List.map_filter g xs)) \<subseteq> set (map h xs)" for xs
    using assms(1) by (fastforce simp: map_filter_def)
  then show ?thesis using assms(2)
  proof (induction xs)
    case (Cons x xs)
    then have "f y \<notin> set (map f (List.map_filter g xs))" if "g x = Some y" for y
      using assms(1) [OF that] by (metis distinct.simps(2) list.simps(9) subset_iff)
    with Cons show ?case by (auto simp: map_filter_simps split: option.split)
  qed (simp add: map_filter_simps)
qed

text \<open>Every agent CLI that is detected can be run: it is one the editor knows how to start,
  at the first path that is executable and answered for its version, with at least one model, each
  CLI at most once, and under a provider name that hides none of the editor's own routes.\<close>

lemma detected_agents_can_run:
  "distinct (map cli_id (detectCliAgents join win access run dirs)) \<and>
   (\<forall>a \<in> set (detectCliAgents join win access run dirs).
      (\<exists>spec front later. cliAgentSpec (cli_id a) = Some spec \<and> cli_name a = spec_name spec \<and>
         map (\<lambda>d. join d (if win then spec_id spec @ ''.cmd'' else spec_id spec)) dirs = front @ agent_path a # later \<and>
         (\<forall>q\<in>set front. \<not> access q \<or> run q [''--version''] = None)) \<and>
      access (agent_path a) \<and> run (agent_path a) [''--version''] \<noteq> None \<and>
      cli_models a \<noteq> [] \<and> cli_name a \<notin> {LOCAL_ROUTE_PROVIDER, COMBO_PROVIDER, AUTO_PROVIDER})"
proof (intro conjI ballI)
  show "distinct (map cli_id (detectCliAgents join win access run dirs))"
    unfolding detectCliAgents_def
    by (rule distinct_map_filter_keys [where h = spec_id]) (auto simp: SPECS_def)
next
  fix a assume "a \<in> set (detectCliAgents join win access run dirs)"
  then obtain spec v where a: "spec \<in> set SPECS" "cli_id a = spec_id spec" "cli_name a = spec_name spec"
      "cli_models a = detected_models run (agent_path a) spec"
      "first_working access run (map (\<lambda>d. join d (if win then spec_id spec @ ''.cmd'' else spec_id spec)) dirs)
         = Some (agent_path a, v)"
    by (rule detected_agent)
  from first_working_first [OF a(5)] a(1-3) specs_by_id
  show "\<exists>spec front later. cliAgentSpec (cli_id a) = Some spec \<and> cli_name a = spec_name spec \<and>
      map (\<lambda>d. join d (if win then spec_id spec @ ''.cmd'' else spec_id spec)) dirs = front @ agent_path a # later \<and>
      (\<forall>q\<in>set front. \<not> access q \<or> run q [''--version''] = None)"
    by metis
  from first_working_Some [OF a(5)] show "access (agent_path a)" "run (agent_path a) [''--version''] \<noteq> None"
    by simp_all
  show "cli_models a \<noteq> []" using a(1,4) detected_models_some by simp
  show "cli_name a \<notin> {LOCAL_ROUTE_PROVIDER, COMBO_PROVIDER, AUTO_PROVIDER}"
    using a(1,3) by (auto simp: SPECS_def LOCAL_ROUTE_PROVIDER_def COMBO_PROVIDER_def AUTO_PROVIDER_def)
qed

definition demo_detected :: "installed_agent list" where
  "demo_detected = detectCliAgents (\<lambda>d f. d @ ''/'' @ f) False (\<lambda>p. p = ''/usr/bin/codex'')
     (\<lambda>p args. Some ''codex 1.0'') [''/opt'', ''/usr/bin'']"

lemma detected_agents_can_run_witness:
  "\<exists>a\<in>set demo_detected. agent_path a = ''/usr/bin/codex'' \<and>
     cli_name a \<notin> {LOCAL_ROUTE_PROVIDER, COMBO_PROVIDER, AUTO_PROVIDER}"
proof -
  define a where "a = hd demo_detected"
  have "demo_detected \<noteq> []" by code_simp
  then have a: "a \<in> set demo_detected" unfolding a_def by (rule hd_in_set)
  have p: "agent_path a = ''/usr/bin/codex''" unfolding a_def by code_simp
  have "cli_name a \<notin> {LOCAL_ROUTE_PROVIDER, COMBO_PROVIDER, AUTO_PROVIDER}"
    by (rule detected_agents_can_run [THEN conjunct2, THEN bspec, THEN conjunct2, THEN conjunct2, THEN conjunct2,
          THEN conjunct2, OF a [unfolded demo_detected_def]])
  with a p show ?thesis by blast
qed

end
