(* ===== verification/Shell_Runtime.thy ===== *)
theory Shell_Runtime
  imports Cli_Run Machine_Stats
begin

text \<open>
  The main process side of the hivemind shell: the runtime it starts and talks to in JSON-RPC, the
  permission requests it passes on, the sessions and turns of the windows:
  \<open>src/vs/platform/hivemindide/electron-main/hivemindShellMainService.ts\<close>. Promises are explicit:
  a call in flight is an id in \<open>pending\<close>, its settlement an entry of \<open>settled\<close>; what the service
  writes to a runtime, fires at the windows or does to a process is appended to the state. Runtimes
  have an identity, as the code compares the objects. \<open>JSON.stringify\<close> and fresh UUIDs are arguments.
\<close>

section \<open>State\<close>

record rpc_runtime =
  fingerprint :: string
  pending :: "nat list"        \<comment> \<open>keys of the \<open>pending\<close> map, oldest first\<close>
  nextId :: nat
  rt_stderr :: string
  exited :: bool

datatype rpc_result = Resolved js_val | Errored string

record permission_request =
  pr_runtime :: nat
  pr_rpcId :: js_val
  pr_session :: js_val

record cli_session =
  cs_agent :: cli_agent
  cs_permissions :: cli_permissions
  cs_cwd :: string
  cs_model :: string
  cs_session :: "string option"
  cs_started :: bool

record turn_route =
  tr_provider :: "string option"
  tr_model :: "string option"
  tr_local :: bool
  tr_endpoint :: "string option"

datatype shell_event =
    EvText js_val js_val
  | EvThought js_val js_val
  | EvTool js_val js_val js_val js_val        \<comment> \<open>session, toolCallId, title, status\<close>
  | EvUsage js_val real real
  | EvLimit string string bool "string option" "real option" "real option"
  | EvStart string turn_route
  | EvTruncated string "string option" real real
  | EvEnd string

text \<open>Where a call of \<open>prompt\<close> is: before it has a runtime, waiting for one, on a CLI, or over.\<close>

datatype prompt_phase =
    Begun string turn_route
  | Waiting string turn_route nat nat         \<comment> \<open>on the runtime and its call\<close>
  | OnCli string turn_route
  | Ended string

record permission_event =
  pe_id :: string
  pe_session :: js_val
  pe_title :: js_val
  pe_options :: js_val

record shell_main =
  runtimes :: "nat \<rightharpoonup> rpc_runtime"
  current :: "nat option"
  starting :: bool
  newborn :: "nat option"      \<comment> \<open>the object \<open>start\<close> has made and waits for\<close>
  activePrompts :: "string list"
  permissionRequests :: "(string \<times> permission_request) list"
  cliSessions :: "(string \<times> cli_session) list"
  sessionRoutes :: "(string \<times> string) list"
  providerUrls :: "(string \<times> string) list"
  sent :: "(nat \<times> js_val) list"                 \<comment> \<open>what each runtime was written\<close>
  settled :: "(nat \<times> nat \<times> rpc_result) list"    \<comment> \<open>runtime, call id, result\<close>
  fired :: "shell_event list"
  asked :: "permission_event list"
  answered :: "string list"                     \<comment> \<open>\<open>onDidResolvePermission\<close>\<close>
  exits :: "string list"                        \<comment> \<open>\<open>onDidExit\<close>\<close>
  killed :: "nat list"                          \<comment> \<open>runtimes whose process was killed\<close>
  killedTurns :: "string list"                  \<comment> \<open>CLI sessions whose child was killed\<close>
  prompts :: "nat \<rightharpoonup> prompt_phase"

definition alive :: "shell_main \<Rightarrow> nat \<Rightarrow> bool" where
  "alive s r \<longleftrightarrow> (case runtimes s r of Some rt \<Rightarrow> \<not> exited rt | None \<Rightarrow> False)"

definition fire :: "shell_event \<Rightarrow> shell_main \<Rightarrow> shell_main" where
  "fire e s = s\<lparr>fired := fired s @ [e]\<rparr>"

section \<open>Permission requests\<close>

definition send :: "nat \<Rightarrow> js_val \<Rightarrow> shell_main \<Rightarrow> shell_main" where
  "send r m s = s\<lparr>sent := sent s @ [(r, m)]\<rparr>"

definition permission_reply :: "js_val \<Rightarrow> string option \<Rightarrow> js_val" where
  "permission_reply rpcId opt =
     JObj [(''jsonrpc'', JStr ''2.0''), (''id'', rpcId),
       (''result'', JObj [(''outcome'',
          case opt of
            Some i \<Rightarrow> if i \<noteq> [] then JObj [(''outcome'', JStr ''selected''), (''optionId'', JStr i)]
                      else JObj [(''outcome'', JStr ''cancelled'')]
          | None \<Rightarrow> JObj [(''outcome'', JStr ''cancelled'')])])]"

definition respondPermission :: "string \<Rightarrow> string option \<Rightarrow> shell_main \<Rightarrow> shell_main" where
  "respondPermission i opt s =
     (case map_of (permissionRequests s) i of
        None \<Rightarrow> s
      | Some q \<Rightarrow>
          (let s1 = s\<lparr>permissionRequests := AList.delete i (permissionRequests s)\<rparr>;
               s2 = (if alive s1 (pr_runtime q) then send (pr_runtime q) (permission_reply (pr_rpcId q) opt) s1 else s1)
           in s2\<lparr>answered := answered s2 @ [i]\<rparr>))"

definition cancelPermissions :: "(permission_request \<Rightarrow> bool) \<Rightarrow> shell_main \<Rightarrow> shell_main" where
  "cancelPermissions match s =
     fold (\<lambda>(i, q) s. if match q then respondPermission i None s else s) (permissionRequests s) s"

section \<open>JSON-RPC\<close>

text \<open>A call of a dead runtime is rejected at once; it never has an id.\<close>

definition rpc_call :: "nat \<Rightarrow> string \<Rightarrow> js_val \<Rightarrow> shell_main \<Rightarrow> nat option \<times> shell_main" where
  "rpc_call r m params s =
     (case runtimes s r of
        None \<Rightarrow> (None, s)
      | Some rt \<Rightarrow>
          if exited rt then (None, s)
          else (Some (nextId rt),
            send r (JObj [(''jsonrpc'', JStr ''2.0''), (''id'', JNum (real (nextId rt))), (''method'', JStr m), (''params'', params)])
              (s\<lparr>runtimes := (runtimes s)(r \<mapsto> rt\<lparr>pending := pending rt @ [nextId rt], nextId := nextId rt + 1\<rparr>)\<rparr>)))"

definition error_text :: "(real \<Rightarrow> string) \<Rightarrow> (js_val \<Rightarrow> string) \<Rightarrow> js_val \<Rightarrow> string" where
  "error_text num stringify e =
     js_string num (js_or_default (js_get e ''message'') (JStr ''The hivemind shell reported an error.''))
     @ (case js_get e ''data'' of JUndef \<Rightarrow> [] | JStr d \<Rightarrow> '' '' @ d | d \<Rightarrow> '' '' @ stringify d)"

definition onUpdate :: "js_val \<Rightarrow> shell_main \<Rightarrow> shell_main" where
  "onUpdate params s =
     (let sid = js_get params ''sessionId''; u = js_get params ''update'';
          said = js_get (js_get u ''content'') ''text'';
          text_ok = (js_get (js_get u ''content'') ''type'' = JStr ''text'' \<and> js_truthy said)
      in if js_get u ''sessionUpdate'' = JStr ''agent_message_chunk'' then
           (if text_ok then fire (EvText sid said) s else s)
         else if js_get u ''sessionUpdate'' = JStr ''agent_thought_chunk'' then
           (if text_ok then fire (EvThought sid said) s else s)
         else if js_get u ''sessionUpdate'' \<in> {JStr ''tool_call'', JStr ''tool_call_update''} then
           (if js_truthy (js_get u ''toolCallId'')
            then fire (EvTool sid (js_get u ''toolCallId'') (js_or_default (js_get u ''title'') JUndef) (js_get u ''status'')) s
            else s)
         else if js_get u ''sessionUpdate'' = JStr ''usage_update'' then
           (case (js_num (js_get u ''used''), js_num (js_get u ''size'')) of
              (Some a, Some b) \<Rightarrow> fire (EvUsage sid a b) s
            | _ \<Rightarrow> s)
         else s)"

definition pending_call :: "rpc_runtime \<Rightarrow> js_val \<Rightarrow> nat option" where
  "pending_call rt i = List.find (\<lambda>n. i = JNum (real n)) (pending rt)"

definition settle_call :: "nat \<Rightarrow> nat \<Rightarrow> rpc_result \<Rightarrow> shell_main \<Rightarrow> shell_main" where
  "settle_call r n res s =
     (case runtimes s r of None \<Rightarrow> s
      | Some rt \<Rightarrow> s\<lparr>runtimes := (runtimes s)(r \<mapsto> rt\<lparr>pending := removeAll n (pending rt)\<rparr>),
                   settled := settled s @ [(r, n, res)]\<rparr>)"

text \<open>
  One line of the runtime's output. \<open>JSON.parse\<close> is an argument. On a line that is the JSON
  \<open>null\<close> the code throws before it does anything; every other value has no properties or some.
\<close>

definition onMessage ::
  "(string \<Rightarrow> js_val option) \<Rightarrow> (real \<Rightarrow> string) \<Rightarrow> (js_val \<Rightarrow> string) \<Rightarrow> string \<Rightarrow> nat \<Rightarrow> string \<Rightarrow> shell_main \<Rightarrow> shell_main" where
  "onMessage json num stringify uuid r line s =
     (case (json line, runtimes s r) of
        (Some m, Some rt) \<Rightarrow>
          (let i = js_get m ''id''; meth = js_get m ''method''; params = js_get m ''params'' in
           if meth = JUndef \<and> i \<noteq> JUndef then
             (case pending_call rt i of
                None \<Rightarrow> s
              | Some n \<Rightarrow> settle_call r n
                  (if js_truthy (js_get m ''error'') then Errored (error_text num stringify (js_get m ''error''))
                   else Resolved (js_get m ''result'')) s)
           else if meth = JStr ''session/update'' \<and> js_truthy params then onUpdate params s
           else if meth = JStr ''session/request_permission'' \<and> i \<noteq> JUndef \<and> js_truthy params then
             s\<lparr>permissionRequests := AList.update uuid
                 \<lparr>pr_runtime = r, pr_rpcId = i, pr_session = js_get params ''sessionId''\<rparr> (permissionRequests s),
               asked := asked s @ [\<lparr>pe_id = uuid, pe_session = js_get params ''sessionId'',
                 pe_title = js_or_default (js_get (js_get params ''toolCall'') ''title'')
                   (js_or_default (js_get (js_get params ''toolCall'') ''name'') (JStr ''a tool'')),
                 pe_options = js_or_default (js_get params ''options'') (JArr [])\<rparr>]\<rparr>
           else if i \<noteq> JUndef \<and> js_truthy meth then
             send r (JObj [(''jsonrpc'', JStr ''2.0''), (''id'', i),
               (''error'', JObj [(''code'', JNum (-32601)),
                  (''message'', JStr (js_string num meth @ '' is not supported by HivemindIDE''))])]) s
           else s)
      | _ \<Rightarrow> s)"

section \<open>The life of a runtime\<close>

definition kill_runtime :: "nat option \<Rightarrow> shell_main \<Rightarrow> shell_main" where
  "kill_runtime c s =
     (case c of Some r \<Rightarrow> if alive s r then s\<lparr>killed := killed s @ [r]\<rparr> else s | None \<Rightarrow> s)"

datatype ensure_step =
    Keep shell_main            \<comment> \<open>the running runtime will do\<close>
  | AwaitStart shell_main      \<comment> \<open>another call is starting one: wait and look again\<close>
  | Start shell_main

definition ensureStarted :: "string \<Rightarrow> (string \<times> string) list \<Rightarrow> shell_main \<Rightarrow> ensure_step" where
  "ensureStarted fp urls s =
     (if (case current s of None \<Rightarrow> False
          | Some r \<Rightarrow> (case runtimes s r of None \<Rightarrow> False
              | Some rt \<Rightarrow> \<not> exited rt \<and> (fingerprint rt = fp \<or> activePrompts s \<noteq> [])))
      then Keep s
      else if starting s then AwaitStart s
      else Start ((kill_runtime (current s) s)\<lparr>providerUrls := urls, starting := True\<rparr>))"

text \<open>
  \<open>start\<close>: the process is spawned and asked to initialize; \<open>r\<close> is the new object. It becomes the
  current runtime when the answer is there; when that fails the process is killed.
\<close>

definition spawn_runtime :: "nat \<Rightarrow> string \<Rightarrow> js_val \<Rightarrow> shell_main \<Rightarrow> shell_main" where
  "spawn_runtime r fp params s =
     snd (rpc_call r ''initialize'' params
       (s\<lparr>runtimes := (runtimes s)(r \<mapsto>
          \<lparr>fingerprint = fp, pending = [], nextId = 1, rt_stderr = [], exited = False\<rparr>),
          newborn := Some r\<rparr>))"

definition start_done :: "shell_main \<Rightarrow> shell_main" where
  "start_done s = s\<lparr>current := newborn s, starting := False, newborn := None\<rparr>"

definition start_failed :: "shell_main \<Rightarrow> shell_main" where
  "start_failed s = (kill_runtime (newborn s) s)\<lparr>starting := False, newborn := None\<rparr>"

definition stop_runtime :: "shell_main \<Rightarrow> shell_main" where
  "stop_runtime s = (kill_runtime (current s) s)\<lparr>current := None\<rparr>"

definition runtime_stderr :: "nat \<Rightarrow> string \<Rightarrow> shell_main \<Rightarrow> shell_main" where
  "runtime_stderr r chunk s =
     (case runtimes s r of None \<Rightarrow> s
      | Some rt \<Rightarrow> s\<lparr>runtimes := (runtimes s)(r \<mapsto> rt\<lparr>rt_stderr := last_chars 4000 (rt_stderr rt @ chunk)\<rparr>)\<rparr>)"

definition gone_text :: "string \<Rightarrow> string \<Rightarrow> string" where
  "gone_text reason err =
     ''The hivemind shell stopped ('' @ reason @ '').'' @ (if err \<noteq> [] then nl # last_lines 8 (js_trim err) else [])"

definition onGone :: "nat \<Rightarrow> string \<Rightarrow> shell_main \<Rightarrow> shell_main" where
  "onGone r reason s =
     (case runtimes s r of None \<Rightarrow> s
      | Some rt \<Rightarrow>
          if exited rt then s
          else
            let error = gone_text reason (rt_stderr rt);
                s1 = s\<lparr>runtimes := (runtimes s)(r \<mapsto> rt\<lparr>exited := True\<rparr>)\<rparr>;
                s2 = fold (\<lambda>n. settle_call r n (Errored error)) (pending rt) s1;
                s3 = cancelPermissions (\<lambda>q. pr_runtime q = r) s2
            in if current s3 = Some r
               then s3\<lparr>current := None, activePrompts := [], exits := exits s3 @ [error]\<rparr> else s3)"

section \<open>Sessions\<close>

record acp_choice =
  ac_value :: js_val
  ac_name :: js_val
  ac_group :: js_val

record session_info =
  si_id :: js_val
  si_routes :: "acp_choice list"
  si_route :: js_val
  si_efforts :: "acp_choice list"
  si_effort :: js_val

definition js_list :: "js_val \<Rightarrow> js_val list" where
  "js_list v = (case js_arr v of Some vs \<Rightarrow> vs | None \<Rightarrow> [])"

definition select_option :: "js_val \<Rightarrow> string \<Rightarrow> js_val" where
  "select_option options i =
     (case List.find (\<lambda>opt. js_get opt ''id'' = JStr i \<and> js_get opt ''type'' \<in> {JUndef, JStr ''select''}) (js_list options) of
        Some opt \<Rightarrow> opt | None \<Rightarrow> JUndef)"

definition option_choices :: "js_val \<Rightarrow> acp_choice list" where
  "option_choices opt =
     concat (map (\<lambda>c.
       if js_get c ''group'' \<noteq> JUndef then
         map (\<lambda>d. \<lparr>ac_value = js_get d ''value'', ac_name = js_get d ''name'', ac_group = js_get c ''name''\<rparr>)
           (js_list (js_get c ''options''))
       else if js_get c ''value'' \<noteq> JUndef then
         [\<lparr>ac_value = js_get c ''value'', ac_name = js_get c ''name'', ac_group = JUndef\<rparr>]
       else []) (js_list (js_get opt ''options'')))"

definition toSession :: "js_val \<Rightarrow> js_val \<Rightarrow> session_info" where
  "toSession sid options =
     (let m = select_option options ''model''; e = select_option options ''reasoning_effort''
      in \<lparr>si_id = sid, si_routes = option_choices m, si_route = js_get m ''currentValue'',
          si_efforts = option_choices e, si_effort = js_get e ''currentValue''\<rparr>)"

definition remember :: "string \<Rightarrow> session_info \<Rightarrow> shell_main \<Rightarrow> shell_main" where
  "remember sid info s =
     (case js_str (si_route info) of
        Some r \<Rightarrow> if r \<noteq> [] then s\<lparr>sessionRoutes := AList.update sid r (sessionRoutes s)\<rparr> else s
      | None \<Rightarrow> s)"

definition CLI_SESSION_PREFIX :: string where "CLI_SESSION_PREFIX = ''cli:''"

definition cliAgent :: "cli_agent list \<Rightarrow> cli_agent list \<Rightarrow> string \<Rightarrow> string + cli_agent" where
  "cliAgent known fresh i =
     (case List.find (\<lambda>a. cli_id a = i) known of Some a \<Rightarrow> Inr a
      | None \<Rightarrow> (case List.find (\<lambda>a. cli_id a = i) fresh of Some a \<Rightarrow> Inr a
          | None \<Rightarrow> Inl (''The '' @ (case cliAgentSpec i of Some spec \<Rightarrow> spec_name spec | None \<Rightarrow> i)
                      @ '' CLI is not installed on this machine any more.'')))"

definition is_preset :: "cli_agent \<Rightarrow> bool" where
  "is_preset a = (case cliAgentSpec (cli_id a) of Some spec \<Rightarrow> presetSession spec | None \<Rightarrow> False)"

definition openCliSession ::
  "string \<Rightarrow> string \<Rightarrow> cli_agent \<Rightarrow> cli_permissions \<Rightarrow> bool \<Rightarrow> shell_main \<Rightarrow> shell_main" where
  "openCliSession i cwd a perm resume s =
     s\<lparr>cliSessions := AList.update i
        \<lparr>cs_agent = a, cs_permissions = perm, cs_cwd = cwd,
         cs_model = (case cli_models a of m # _ \<Rightarrow> m | [] \<Rightarrow> ''default''),
         cs_session = (if is_preset a then (case js_split (CHR '':'') i of _ # _ # u # _ \<Rightarrow> Some u | _ \<Rightarrow> None) else None),
         cs_started = (is_preset a \<and> resume)\<rparr> (cliSessions s)\<rparr>"

definition cli_session_id :: "string \<Rightarrow> string \<Rightarrow> string" where
  "cli_session_id agent uuid = CLI_SESSION_PREFIX @ agent @ '':'' @ uuid"

definition resume_cli ::
  "string \<Rightarrow> string \<Rightarrow> cli_agent \<Rightarrow> cli_permissions \<Rightarrow> shell_main \<Rightarrow> shell_main" where
  "resume_cli sid cwd a perm s =
     (if map_of (cliSessions s) sid \<noteq> None then s else openCliSession sid cwd a perm True s)"

definition setOption_cli :: "string \<Rightarrow> string \<Rightarrow> string \<Rightarrow> shell_main \<Rightarrow> shell_main" where
  "setOption_cli sid configId v s =
     (case map_of (cliSessions s) sid of
        Some cs \<Rightarrow> if configId = ''model'' then s\<lparr>cliSessions := AList.update sid (cs\<lparr>cs_model := v\<rparr>) (cliSessions s)\<rparr> else s
      | None \<Rightarrow> s)"

text \<open>\<open>new URL(url).hostname\<close> is an argument, \<open>None\<close> where the constructor throws.\<close>

definition isLoopbackUrl :: "(string \<Rightarrow> string option) \<Rightarrow> string option \<Rightarrow> bool" where
  "isLoopbackUrl hostname url =
     (case hostname (case url of Some u \<Rightarrow> u | None \<Rightarrow> []) of
        Some h \<Rightarrow> h = ''localhost'' \<or> h = ''[::1]'' \<or> h = ''::1'' \<or> prefix ''127.'' h
      | None \<Rightarrow> False)"

text \<open>\<open>const [provider, model] = v\<close>, which takes a string apart too.\<close>

fun first_two :: "js_val \<Rightarrow> (js_val \<times> js_val) option" where
  "first_two (JArr (a # b # _)) = Some (a, b)"
| "first_two (JStr (a # b # _)) = Some (JStr [a], JStr [b])"
| "first_two _ = None"

definition no_route :: turn_route where
  "no_route = \<lparr>tr_provider = None, tr_model = None, tr_local = False, tr_endpoint = None\<rparr>"

definition routeOf ::
  "(string \<Rightarrow> js_val option) \<Rightarrow> (string \<Rightarrow> string option) \<Rightarrow> string \<Rightarrow> shell_main \<Rightarrow> turn_route" where
  "routeOf json hostname sid s =
     (case map_of (cliSessions s) sid of
        Some cs \<Rightarrow> \<lparr>tr_provider = Some (cli_name (cs_agent cs)),
                   tr_model = (if cs_model cs = ''default'' then None else Some (cs_model cs)),
                   tr_local = False, tr_endpoint = None\<rparr>
      | None \<Rightarrow>
          (case Option.bind (json (case map_of (sessionRoutes s) sid of Some r \<Rightarrow> r | None \<Rightarrow> [])) first_two of
             Some (JStr p, JStr m) \<Rightarrow>
               (let e = map_of (providerUrls s) p
                in \<lparr>tr_provider = Some p, tr_model = Some m,
                    tr_local = (p = LOCAL_ROUTE_PROVIDER \<or> isLoopbackUrl hostname e), tr_endpoint = e\<rparr>)
           | _ \<Rightarrow> no_route))"

definition providerUrlsOf :: "overlay_entry list \<Rightarrow> (string \<times> string) list" where
  "providerUrlsOf es =
     fold (\<lambda>e urls. case e of
        LlmProviders routes \<Rightarrow> fold (\<lambda>(name, r). AList.update name (baseURL r)) routes urls
      | _ \<Rightarrow> urls) es []"

section \<open>Turns on the runtime\<close>

definition prompt_begin ::
  "(string \<Rightarrow> js_val option) \<Rightarrow> (string \<Rightarrow> string option) \<Rightarrow> nat \<Rightarrow> string \<Rightarrow> shell_main \<Rightarrow> shell_main" where
  "prompt_begin json hostname tok sid s =
     (let via = routeOf json hostname sid s
      in (fire (EvStart sid via) s)\<lparr>prompts := (prompts s)(tok \<mapsto>
            (if map_of (cliSessions s) sid \<noteq> None then OnCli sid via else Begun sid via))\<rparr>)"

text \<open>\<open>trunc\<close> is what \<open>ollamaTruncationSince\<close> found in the log.\<close>

definition prompt_end :: "nat \<Rightarrow> string \<Rightarrow> turn_route \<Rightarrow> ollama_truncation option \<Rightarrow> shell_main \<Rightarrow> shell_main" where
  "prompt_end tok sid via trunc s =
     (let s1 = (case (tr_local via, trunc) of
          (True, Some c) \<Rightarrow> fire (EvTruncated sid (tr_model via) (cut_sent c) (cut_kept c)) s
        | _ \<Rightarrow> s)
      in (fire (EvEnd sid) s1)\<lparr>prompts := (prompts s1)(tok \<mapsto> Ended sid)\<rparr>)"

definition prompt_send :: "nat \<Rightarrow> js_val \<Rightarrow> ollama_truncation option \<Rightarrow> shell_main \<Rightarrow> shell_main" where
  "prompt_send tok params trunc s =
     (case prompts s tok of
        Some (Begun sid via) \<Rightarrow>
          if starting s then s
          else (case current s of
            Some r \<Rightarrow>
              if alive s r then
                (case rpc_call r ''session/prompt'' params (s\<lparr>activePrompts := List.insert sid (activePrompts s)\<rparr>) of
                   (Some n, s') \<Rightarrow> s'\<lparr>prompts := (prompts s')(tok \<mapsto> Waiting sid via r n)\<rparr>
                 | (None, s') \<Rightarrow> s')
              else prompt_end tok sid via trunc s
          | None \<Rightarrow> prompt_end tok sid via trunc s)
      | _ \<Rightarrow> s)"

definition has_settled :: "shell_main \<Rightarrow> nat \<Rightarrow> nat \<Rightarrow> bool" where
  "has_settled s r n \<longleftrightarrow> (\<exists>(r', n', _) \<in> set (settled s). r' = r \<and> n' = n)"

definition prompt_settled :: "nat \<Rightarrow> ollama_truncation option \<Rightarrow> shell_main \<Rightarrow> shell_main" where
  "prompt_settled tok trunc s =
     (case prompts s tok of
        Some (Waiting sid via r n) \<Rightarrow>
          if has_settled s r n
          then prompt_end tok sid via trunc (s\<lparr>activePrompts := removeAll sid (activePrompts s)\<rparr>) else s
      | _ \<Rightarrow> s)"

definition prompt_cli_over :: "nat \<Rightarrow> cli_session \<Rightarrow> shell_main \<Rightarrow> shell_main" where
  "prompt_cli_over tok cs s =
     (case prompts s tok of
        Some (OnCli sid via) \<Rightarrow> prompt_end tok sid via None
          (if map_of (cliSessions s) sid \<noteq> None
           then s\<lparr>cliSessions := AList.update sid cs (cliSessions s)\<rparr> else s)
      | _ \<Rightarrow> s)"

definition cancel :: "string \<Rightarrow> shell_main \<Rightarrow> shell_main" where
  "cancel sid s =
     (if map_of (cliSessions s) sid \<noteq> None then s\<lparr>killedTurns := killedTurns s @ [sid]\<rparr>
      else cancelPermissions (\<lambda>q. pr_session q = JStr sid)
        (case current s of
           Some r \<Rightarrow> if alive s r
             then send r (JObj [(''jsonrpc'', JStr ''2.0''), (''method'', JStr ''session/cancel''),
                    (''params'', JObj [(''sessionId'', JStr sid)])]) s else s
         | None \<Rightarrow> s))"

definition closeSession :: "string \<Rightarrow> shell_main \<Rightarrow> shell_main" where
  "closeSession sid s =
     (if map_of (cliSessions s) sid \<noteq> None
      then s\<lparr>killedTurns := killedTurns s @ [sid], cliSessions := AList.delete sid (cliSessions s)\<rparr>
      else
        let s1 = cancelPermissions (\<lambda>q. pr_session q = JStr sid) s
        in case current s1 of
             Some r \<Rightarrow> if alive s1 r
               then snd (rpc_call r ''session/close'' (JObj [(''sessionId'', JStr sid)]) s1) else s1
           | None \<Rightarrow> s1)"

definition announce :: "shell_event \<Rightarrow> shell_main \<Rightarrow> shell_main" where
  "announce e s = (case e of EvStart _ _ \<Rightarrow> fire e s | EvEnd _ \<Rightarrow> fire e s | _ \<Rightarrow> s)"

section \<open>Turns on an agent CLI\<close>

text \<open>The events of one CLI process as the windows hear them; messages are kept apart as paragraphs.\<close>

fun cli_shell_events :: "string \<Rightarrow> cli_agent \<Rightarrow> bool \<Rightarrow> cli_event list \<Rightarrow> shell_event list" where
  "cli_shell_events sid a wrote [] = []"
| "cli_shell_events sid a wrote (e # es) =
     (case e of
        TextEvent t \<Rightarrow> EvText (JStr sid) (JStr (if wrote then [nl, nl] @ t else t)) # cli_shell_events sid a True es
      | ThoughtEvent t \<Rightarrow> EvThought (JStr sid) (JStr t) # cli_shell_events sid a wrote es
      | ToolEvent i title st \<Rightarrow>
          EvTool (JStr sid) (JStr i) (case title of Some t \<Rightarrow> JStr t | None \<Rightarrow> JUndef)
            (JStr (case st of InProgress \<Rightarrow> ''in_progress'' | Completed \<Rightarrow> ''completed'' | ToolFailed \<Rightarrow> ''failed''))
          # cli_shell_events sid a wrote es
      | LimitEvent rej back ltype util \<Rightarrow>
          EvLimit sid (cli_id a) rej ltype back util # cli_shell_events sid a wrote es
      | _ \<Rightarrow> cli_shell_events sid a wrote es)"

definition cli_turn_of :: "cli_session \<Rightarrow> string \<Rightarrow> cli_turn" where
  "cli_turn_of cs text = \<lparr>ct_prompt = text, ct_cwd = cs_cwd cs, ct_model = cs_model cs,
     ct_permissions = cs_permissions cs, ct_session = cs_session cs, ct_resume = cs_started cs\<rparr>"

text \<open>What a run of the CLI leaves behind: its result, the session, the events that were fired.\<close>

definition promptCliOnce ::
  "(cli_turn \<Rightarrow> cli_run) \<Rightarrow> string \<Rightarrow> string \<Rightarrow> cli_session \<Rightarrow> run_result option \<times> cli_session \<times> shell_event list" where
  "promptCliOnce run sid text cs =
     (let out = run (cli_turn_of cs text);
          cs' = (case cr_settled out of
                   Some (Finished why i) \<Rightarrow>
                     cs\<lparr>cs_session := (case i of Some x \<Rightarrow> Some x | None \<Rightarrow> cs_session cs), cs_started := True\<rparr>
                 | _ \<Rightarrow> cs)
      in (cr_settled out, cs', cli_shell_events sid (cs_agent cs) False (cr_events out)))"

definition recover :: "string \<Rightarrow> cli_session \<Rightarrow> string \<Rightarrow> cli_session option" where
  "recover uuid cs e =
     (if \<not> cs_started cs \<and> re_test (liti ''already in use'') e then Some (cs\<lparr>cs_started := True\<rparr>)
      else if cs_started cs \<and> re_test (liti ''no conversation found'') e
      then Some (cs\<lparr>cs_session := Some uuid, cs_started := False\<rparr>)
      else None)"

text \<open>\<open>runs\<close> gives the process of each attempt; the list of the turns that were started is returned.\<close>

function promptCli ::
  "(nat \<Rightarrow> cli_turn \<Rightarrow> cli_run) \<Rightarrow> string \<Rightarrow> string \<Rightarrow> string \<Rightarrow> nat \<Rightarrow> cli_session
     \<Rightarrow> run_result option \<times> cli_session \<times> cli_turn list" where
  "promptCli runs uuid sid text attempt cs =
     (case promptCliOnce (runs attempt) sid text cs of
        (Some (Rejected e), cs', _) \<Rightarrow>
          (if attempt > 0 \<or> \<not> is_preset (cs_agent cs) then (Some (Rejected e), cs', [cli_turn_of cs text])
           else case recover uuid cs' e of
                  None \<Rightarrow> (Some (Rejected e), cs', [cli_turn_of cs text])
                | Some cs'' \<Rightarrow>
                    (let (res, c, turns) = promptCli runs uuid sid text (attempt + 1) cs''
                     in (res, c, cli_turn_of cs text # turns)))
      | (res, cs', _) \<Rightarrow> (res, cs', [cli_turn_of cs text]))"
  by pat_completeness auto
termination by (relation "measure (\<lambda>(runs, uuid, sid, text, attempt, cs). 1 - attempt)") auto

declare promptCli.simps [simp del]

section \<open>Finding Node and the runtime\<close>

definition MIN_NODE :: "nat list" where "MIN_NODE = [22, 19]"

fun compareVersions :: "nat list \<Rightarrow> nat list \<Rightarrow> int" where
  "compareVersions [] [] = 0"
| "compareVersions (a # as) [] = (if a \<noteq> 0 then int a else compareVersions as [])"
| "compareVersions [] (b # bs) = (if b \<noteq> 0 then - int b else compareVersions [] bs)"
| "compareVersions (a # as) (b # bs) = (if a \<noteq> b then int a - int b else compareVersions as bs)"

definition isNewEnough :: "nat list \<Rightarrow> bool" where
  "isNewEnough v \<longleftrightarrow> compareVersions v MIN_NODE \<ge> 0"

definition node_version_re :: re where
  "node_version_re = seqs [RBol False, ch (CHR ''v''), RGroup 1 (rplus rdigit), ch (CHR ''.''),
     RGroup 2 (rplus rdigit), ch (CHR ''.''), RGroup 3 (rplus rdigit)]"

definition nodeVersion :: "(string \<Rightarrow> string option) \<Rightarrow> string \<Rightarrow> nat list option" where
  "nodeVersion print_version path =
     (case print_version path of None \<Rightarrow> None
      | Some out \<Rightarrow>
          (let m = re_exec node_version_re (js_trim out)
           in case (re_cap m 1, re_cap m 2, re_cap m 3) of
                (Some a, Some b, Some c) \<Rightarrow> Some [read_nat a, read_nat b, read_nat c]
              | _ \<Rightarrow> None))"

definition better_node ::
  "(string \<Rightarrow> string option) \<Rightarrow> string \<Rightarrow> (string \<times> nat list) option \<Rightarrow> (string \<times> nat list) option" where
  "better_node print_version path best =
     (case nodeVersion print_version path of
        Some v \<Rightarrow> if isNewEnough v \<and> (case best of None \<Rightarrow> True | Some (_, w) \<Rightarrow> compareVersions v w > 0)
                 then Some (path, v) else best
      | None \<Rightarrow> best)"

datatype node_error = NotANode string | TooOld string | NoNode

definition resolveNode ::
  "(string \<Rightarrow> string option) \<Rightarrow> string list \<Rightarrow> string option \<Rightarrow> node_error + string" where
  "resolveNode print_version candidates configured =
     (let c = (case configured of Some c \<Rightarrow> js_trim c | None \<Rightarrow> [])
      in if c \<noteq> [] then
           (case nodeVersion print_version c of
              None \<Rightarrow> Inl (NotANode c)
            | Some v \<Rightarrow> if isNewEnough v then Inr c else Inl (TooOld c))
         else (case fold (better_node print_version) (js_uniq candidates) None of
                 Some (p, _) \<Rightarrow> Inr p | None \<Rightarrow> Inl NoNode))"

section \<open>Every interleaving\<close>

definition shell_start :: shell_main where
  "shell_start = \<lparr>runtimes = Map.empty, current = None, starting = False, newborn = None, activePrompts = [],
     permissionRequests = [], cliSessions = [], sessionRoutes = [], providerUrls = [], sent = [], settled = [],
     fired = [], asked = [], answered = [], exits = [], killed = [], killedTurns = [], prompts = Map.empty\<rparr>"

fun phase_session :: "prompt_phase \<Rightarrow> string option" where
  "phase_session (Begun sid _) = Some sid"
| "phase_session (Waiting sid _ _ _) = Some sid"
| "phase_session (OnCli sid _) = Some sid"
| "phase_session (Ended _) = None"

text \<open>The session a turn occupies, as long as it is not over.\<close>

definition turn_session :: "shell_main \<Rightarrow> nat \<Rightarrow> string option" where
  "turn_session s tok = Option.bind (prompts s tok) phase_session"

text \<open>
  One step of the service: a call from a window, something Node reports of a process, a promise that
  goes on. Requests get fresh UUIDs, objects are new, and a window runs one turn of a session at a time.
\<close>

inductive main_step :: "(string \<Rightarrow> js_val option) \<Rightarrow> (real \<Rightarrow> string) \<Rightarrow> (js_val \<Rightarrow> string) \<Rightarrow> (string \<Rightarrow> string option) \<Rightarrow>
    shell_main \<Rightarrow> shell_main \<Rightarrow> bool"
  for json :: "string \<Rightarrow> js_val option" and num :: "real \<Rightarrow> string" and stringify :: "js_val \<Rightarrow> string"
    and hostname :: "string \<Rightarrow> string option" where
  Ensure: "ensureStarted fp urls s \<in> {Keep s', AwaitStart s', Start s'} \<Longrightarrow> main_step json num stringify hostname s s'"
| Spawn: "starting s \<Longrightarrow> newborn s = None \<Longrightarrow> runtimes s r = None \<Longrightarrow>
    main_step json num stringify hostname s (spawn_runtime r fp params s)"
| Started: "newborn s \<noteq> None \<Longrightarrow> main_step json num stringify hostname s (start_done s)"
| StartFailed: "starting s \<Longrightarrow> main_step json num stringify hostname s (start_failed s)"
| Stop: "main_step json num stringify hostname s (stop_runtime s)"
| Call: "main_step json num stringify hostname s (snd (rpc_call r m params s))"
| Message: "uuid \<notin> pe_id ` set (asked s) \<Longrightarrow>
    main_step json num stringify hostname s (onMessage json num stringify uuid r line s)"
| ErrOutput: "main_step json num stringify hostname s (runtime_stderr r chunk s)"
| Gone: "main_step json num stringify hostname s (onGone r reason s)"
| Respond: "main_step json num stringify hostname s (respondPermission i opt s)"
| Remember: "main_step json num stringify hostname s (remember sid info s)"
| OpenCli: "main_step json num stringify hostname s (openCliSession i cwd a perm res s)"
| SetModel: "main_step json num stringify hostname s (setOption_cli sid conf v s)"
| Begin: "prompts s tok = None \<Longrightarrow> \<forall>t. turn_session s t \<noteq> Some sid \<Longrightarrow>
    main_step json num stringify hostname s (prompt_begin json hostname tok sid s)"
| Send: "main_step json num stringify hostname s (prompt_send tok params trunc s)"
| Answer: "main_step json num stringify hostname s (prompt_settled tok trunc s)"
| CliOver: "main_step json num stringify hostname s (prompt_cli_over tok cs s)"
| Cancel: "main_step json num stringify hostname s (cancel sid s)"
| Close: "main_step json num stringify hostname s (closeSession sid s)"
| Announce: "main_step json num stringify hostname s (announce e s)"

definition main_reaches ::
  "(string \<Rightarrow> js_val option) \<Rightarrow> (real \<Rightarrow> string) \<Rightarrow> (js_val \<Rightarrow> string) \<Rightarrow> (string \<Rightarrow> string option) \<Rightarrow> shell_main \<Rightarrow> bool" where
  "main_reaches json num stringify hostname s \<longleftrightarrow> (main_step json num stringify hostname)\<^sup>*\<^sup>* shell_start s"

end
