(* ===== verification/Notch_Service.thy ===== *)
theory Notch_Service
  imports Notch Machine_Stats Shell_Runtime
begin

text \<open>
  The notch at the top of the screen: \<open>src/vs/platform/hivemindide/electron-main/hivemindNotchMainService.ts\<close>
  and the feed of a window, \<open>browser/usageNotch/macbookNotchBridge.ts\<close>. The state of the service with what
  it asks of Electron (the window, the power-save blockers, the pages pushed, the processes stopped)
  is a record; every callback is a function on it and \<open>notch_run\<close> the relation of their steps.
  Outputs of the tools and displays are arguments. The fixed labels of the page are left out.
\<close>

section \<open>What the service is told\<close>

record ring_window =
  rw_label :: string
  rw_percent :: "real option"
  rw_severity :: severity
  rw_reset :: "string option"
  rw_exhausted :: bool

record notch_ring =
  nr_id :: string
  nr_label :: string
  nr_glyph :: string
  nr_percent :: "real option"
  nr_severity :: severity
  nr_detail :: string
  nr_windows :: "ring_window list"

record window_wish =
  ww_enabled :: bool
  ww_rings :: "notch_ring list"
  ww_keepAwake :: "bool option"

record offered_option =
  oo_id :: string
  oo_name :: string
  oo_kind :: string

record asked_permission =
  ap_id :: string
  ap_session :: string
  ap_title :: string
  ap_options :: "offered_option list"

datatype notch_event =
    NText string                       \<comment> \<open>\<open>text\<close> or \<open>thought\<close> of the session\<close>
  | NTool string step_event
  | NUsage string int int
  | NStart string turn_route
  | NTruncated string int int
  | NEnd string
  | NLimit string

section \<open>The state\<close>

record shown_port =
  sp_port :: listening_port
  sp_own :: bool

record system_stats =
  ss_cpu :: "real option"
  ss_memoryUsed :: "real option"
  ss_memoryTotal :: real
  ss_battery :: "battery_state option"
  ss_thermal :: string

record shown_permission =
  sh_id :: string
  sh_heading :: string
  sh_command :: string
  sh_options :: "offered_option list"

record page_state =
  pg_width :: real
  pg_height :: real
  pg_phase :: notch_phase
  pg_agent :: "string option"
  pg_route :: "string option"
  pg_steps :: "Notch.notch_step list"
  pg_rings :: "notch_ring list"
  pg_permission :: "shown_permission option"
  pg_mode :: keep_awake_mode
  pg_reason :: "keep_awake_reason option"
  pg_status :: string
  pg_system :: "system_stats option"
  pg_ports :: "shown_port list option"

type_synonym system_key = "int \<times> int option \<times> battery_state option \<times> string \<times> shown_port list option"

record notch_service =
  nm_windows :: "(int \<times> window_wish) list"
  nm_rings :: "notch_ring list"
  nm_notch :: "notch_rect option"
  nm_detected :: bool
  nm_detecting :: bool
  nm_probing :: bool                   \<comment> \<open>\<open>osascript\<close> has not answered yet\<close>
  nm_window :: bool
  nm_pageReady :: bool
  nm_agent :: "string option"
  nm_steps :: notch_steps
  nm_lastEventAt :: int
  nm_open :: "string list"
  nm_routes :: "(string \<times> turn_route) list"
  nm_gpu :: "gpu_stats option"
  nm_offload :: "model_offload option"
  nm_gpuKey :: "(gpu_stats option \<times> model_offload option) option"
  nm_gpuReading :: "(string option \<times> string option) option"
  nm_context :: "(string \<times> (int \<times> int)) list"
  nm_truncated :: "(string \<times> (int \<times> int)) list"
  nm_current :: "string option"
  nm_phaseDue :: "int option"
  nm_permissions :: "asked_permission list"
  nm_lastPushed :: "notch_phase option"
  nm_lastCursor :: "(int \<times> int) option"
  nm_setting :: bool
  nm_mode :: keep_awake_mode
  nm_hourUntil :: int
  nm_lastTurnEndAt :: int
  nm_blocker :: "nat option"
  nm_awakeDue :: "int option"
  nm_macTab :: bool
  nm_system :: "system_stats option"
  nm_ports :: "shown_port list option"
  nm_systemKey :: "system_key option"
  nm_systemReading :: "real option option"
  nm_cpuBefore :: "(string \<times> real) list list"
  nm_bounds :: "(int \<times> real) option"   \<comment> \<open>what the service query of its surroundings, from here on\<close>
  nm_clicks :: bool
  nm_held :: "nat list"
  nm_nextBlocker :: nat
  nm_pushed :: "page_state list"
  nm_cursors :: "(int \<times> int) list"
  nm_active :: "bool list"
  nm_responded :: "(string \<times> string) list"
  nm_stopped :: "shown_port list"
  nm_focused :: nat

text \<open>The machine, and the moment a callback runs at.\<close>

record notch_host =
  nh_mac :: bool
  nh_win :: bool
  nh_pid :: nat
  nh_json :: "string \<Rightarrow> js_val option"
  nh_num :: "real \<Rightarrow> string"

record notch_moment =
  at_ms :: int
  at_cpus :: "(string \<times> real) list list"

section \<open>Words and rings\<close>

definition WINDOW_WIDTH :: int where "WINDOW_WIDTH = 640"
definition WINDOW_HEIGHT :: int where "WINDOW_HEIGHT = 420"

definition dot :: string where "dot = '' '' @ [CHR 0xC2, CHR 0xB7] @ '' ''"
definition degrees :: string where "degrees = [CHR 0xC2, CHR 0xB0] @ ''C''"

definition severityOfPercent :: "real option \<Rightarrow> severity" where
  "severityOfPercent percent =
     (case percent of None \<Rightarrow> SevUnknown
      | Some p \<Rightarrow> if p \<ge> 90 then SevCritical else if p \<ge> 70 then SevHigh else if p \<ge> 50 then SevElevated else SevOk)"

definition contextPercent :: "(int \<times> int) option \<Rightarrow> real option" where
  "contextPercent ctx =
     (case ctx of Some (used, whole) \<Rightarrow>
        if whole > 0 then Some (min 100 (max 0 (of_int used / of_int whole * 100))) else None
      | None \<Rightarrow> None)"

definition notch_tokens :: "int \<Rightarrow> string" where
  "notch_tokens n =
     (if n \<ge> 1000000 then to_fixed1 (of_int n / 1000000) @ ''M''
      else if n \<ge> 10000 then show_int (js_round (of_int n / 1000)) @ ''k''
      else if n \<ge> 1000 then to_fixed1 (of_int n / 1000) @ ''k''
      else show_int n)"

definition PERMISSION_ORDER :: "string list" where
  "PERMISSION_ORDER = [''reject_once'', ''reject_always'', ''allow_always'', ''allow_once'']"

definition agentName :: "string \<Rightarrow> string" where
  "agentName sid =
     (case js_split (CHR '':'') sid of
        pre # agent # _ \<Rightarrow>
          if pre = ''cli'' \<and> agent \<noteq> [] then (case cliAgentSpec agent of Some spec \<Rightarrow> spec_name spec | None \<Rightarrow> agent)
          else ''Hivemind agent''
      | _ \<Rightarrow> ''Hivemind agent'')"

definition displayName :: "notch_service \<Rightarrow> string \<Rightarrow> string" where
  "displayName s sid =
     (if prefix ''cli:'' sid then agentName sid
      else case Option.bind (map_of (nm_routes s) sid) tr_model of Some m \<Rightarrow> m | None \<Rightarrow> agentName sid)"

definition shown_route :: "notch_service \<Rightarrow> turn_route option" where
  "shown_route s = (case nm_current s of Some (c # cs) \<Rightarrow> map_of (nm_routes s) (c # cs) | _ \<Rightarrow> None)"

definition routeLine :: "notch_service \<Rightarrow> string option" where
  "routeLine s =
     (case shown_route s of
        None \<Rightarrow> None
      | Some r \<Rightarrow>
          (case nonempty_text (tr_provider r) of
             None \<Rightarrow> None
           | Some p \<Rightarrow> if tr_local r then Some (p @ dot @ ''local'')
                       else if nonempty_text (tr_model r) \<noteq> None then Some p else None))"

definition bar :: "string \<Rightarrow> real option \<Rightarrow> severity \<Rightarrow> string option \<Rightarrow> ring_window" where
  "bar l p sev r = \<lparr>rw_label = l, rw_percent = p, rw_severity = sev, rw_reset = r, rw_exhausted = False\<rparr>"

definition shown_of :: "notch_service \<Rightarrow> (string \<times> 'a) list \<Rightarrow> 'a option" where
  "shown_of s m = (case nm_current s of Some (c # cs) \<Rightarrow> map_of m (c # cs) | _ \<Rightarrow> None)"

definition localRing :: "notch_host \<Rightarrow> notch_service \<Rightarrow> notch_ring option" where
  "localRing h s =
     (case shown_route s of
        None \<Rightarrow> None
      | Some r \<Rightarrow>
          (case (tr_local r, nonempty_text (tr_model r)) of
             (True, Some model) \<Rightarrow>
               (let ctx = shown_of s (nm_context s);
                    percent = contextPercent ctx;
                    sev = severityOfPercent percent;
                    tokens = map_option (\<lambda>(used, whole). notch_tokens used @ '' of '' @ notch_tokens whole @ '' tokens'') ctx;
                    cut = shown_of s (nm_truncated s);
                    here = (if nh_mac h then ''On this Mac'' else ''On this computer'');
                    cut_bar = (case cut of None \<Rightarrow> [] | Some (given, kept) \<Rightarrow>
                      [bar ''Prompt cut off'' (Some 100) SevCritical
                         (Some (notch_tokens kept @ '' of '' @ notch_tokens given @ '' tokens kept''))]);
                    ctx_bar = (if ctx = None then [] else [bar ''Context window'' percent sev tokens]);
                    gpu_bar = (case nm_offload s of None \<Rightarrow> [] | Some off \<Rightarrow>
                      [bar ''Model in GPU memory'' (Some (gpuPercent off)) SevOk (Some (formatBytes (bytes off) @ '' model''))])
                in Some \<lparr>nr_id = ''local'', nr_label = model, nr_glyph = ''LM'',
                    nr_percent = (if cut \<noteq> None then Some 100 else percent),
                    nr_severity = (if cut \<noteq> None then SevCritical else sev),
                    nr_detail = (if cut \<noteq> None then ''Prompt cut off''
                      else case nm_offload s of
                             Some off \<Rightarrow> here @ dot @ show_int (js_round (gpuPercent off)) @ ''% GPU''
                           | None \<Rightarrow> here),
                    nr_windows = cut_bar @ ctx_bar @ gpu_bar\<rparr>)
           | _ \<Rightarrow> None))"

definition backend_name :: "gpu_backend \<Rightarrow> string" where
  "backend_name b = (case b of Metal \<Rightarrow> ''Metal'' | Cuda \<Rightarrow> ''CUDA'')"

definition gpuRing :: "notch_host \<Rightarrow> notch_service \<Rightarrow> notch_ring option" where
  "gpuRing h s =
     (case (shown_route s, nm_gpu s) of
        (Some r, Some g) \<Rightarrow>
          if \<not> tr_local r then None
          else
            (let ram = (case memoryTotal g of Some t \<Rightarrow> if t = 0 then None else Some t | None \<Rightarrow> None);
                 memory = (case (memoryUsed g, ram) of (Some u, Some t) \<Rightarrow> Some (u / t * 100) | _ \<Rightarrow> None);
                 memoryText = (case memoryUsed g of None \<Rightarrow> None | Some u \<Rightarrow>
                   Some (case ram of Some t \<Rightarrow> formatBytes u @ '' of '' @ formatBytes t | None \<Rightarrow> formatBytes u));
                 parts = [backend_name (gpu_backend g)]
                   @ (case memoryUsed g of Some u \<Rightarrow> [formatBytes u] | None \<Rightarrow> [])
                   @ (case temperatureC g of Some t \<Rightarrow> [nh_num h t @ degrees] | None \<Rightarrow> [])
             in Some \<lparr>nr_id = ''gpu'',
                  nr_label = (case cores g of
                    Some n \<Rightarrow> if n = 0 then gpu_name g else gpu_name g @ dot @ nh_num h n @ ''-core GPU''
                  | None \<Rightarrow> gpu_name g),
                  nr_glyph = ''GPU'', nr_percent = gpu_utilization g,
                  nr_severity = (case memory of Some m \<Rightarrow> if m \<ge> 90 then SevHigh else SevOk | None \<Rightarrow> SevOk),
                  nr_detail = js_join dot parts,
                  nr_windows = bar ''GPU busy'' (gpu_utilization g) SevOk (Some (backend_name (gpu_backend g)))
                    # (case memoryText of Some t \<Rightarrow> [bar ''GPU memory'' memory (severityOfPercent memory) (Some t)] | None \<Rightarrow> [])\<rparr>)
      | _ \<Rightarrow> None)"

definition turns_open :: "notch_service \<Rightarrow> bool" where
  "turns_open s \<longleftrightarrow> nm_open s \<noteq> []"

definition service_phase :: "int \<Rightarrow> notch_service \<Rightarrow> notch_phase" where
  "service_phase now s = notchPhase (nm_permissions s \<noteq> []) (turns_open s) (nm_lastEventAt s) now"

definition awake_reason :: "int \<Rightarrow> notch_service \<Rightarrow> keep_awake_reason option" where
  "awake_reason now s =
     keepAwakeReason (nm_mode s) (nm_setting s) (turns_open s) (nm_lastTurnEndAt s) (nm_hourUntil s) now"

definition keepAwakeStatus :: "notch_host \<Rightarrow> int \<Rightarrow> notch_service \<Rightarrow> string" where
  "keepAwakeStatus h now s =
     (case awake_reason now s of
        Some ForOn \<Rightarrow> ''Awake until you turn it off''
      | Some ForHour \<Rightarrow> ''Awake for '' @ show_int (max 1 \<lceil>(of_int (nm_hourUntil s - now) :: real) / 60000\<rceil>) @ '' more min''
      | Some ForAgents \<Rightarrow> if turns_open s then ''Awake while agents work'' else ''Awake a moment after the last run''
      | None \<Rightarrow>
          if nm_mode s = KeepOff then (if nh_mac h then ''Off: the Mac may sleep'' else ''Off: the computer may sleep'')
          else if nm_setting s then ''Stays awake when an agent runs'' else ''Off'')"

definition shown_options :: "offered_option list \<Rightarrow> offered_option list" where
  "shown_options os =
     map (\<lambda>x. x\<lparr>oo_name := clampText (oo_name x) 24\<rparr>)
       (take 3 (sort_key (\<lambda>x. index_of (oo_kind x) PERMISSION_ORDER) os))"

definition page_of :: "notch_host \<Rightarrow> int \<Rightarrow> notch_rect \<Rightarrow> notch_service \<Rightarrow> page_state" where
  "page_of h now n s =
     \<lparr>pg_width = rwidth (place n), pg_height = rheight (place n), pg_phase = service_phase now s,
      pg_agent = nm_agent s, pg_route = routeLine s, pg_steps = steps (nm_steps s),
      pg_rings = List.map_filter id [localRing h s, gpuRing h s] @ nm_rings s,
      pg_permission = (case nm_permissions s of [] \<Rightarrow> None | p # _ \<Rightarrow>
        Some \<lparr>sh_id = ap_id p, sh_heading = displayName s (ap_session p) @ '' wants to run'',
              sh_command = clampText (ap_title p) 600, sh_options = shown_options (ap_options p)\<rparr>),
      pg_mode = nm_mode s, pg_reason = awake_reason now s, pg_status = keepAwakeStatus h now s,
      pg_system = (if nm_macTab s then nm_system s else None),
      pg_ports = (if nm_macTab s then nm_ports s else None)\<rparr>"

definition push :: "notch_host \<Rightarrow> int \<Rightarrow> notch_service \<Rightarrow> notch_service" where
  "push h now s =
     (case nm_notch s of
        Some n \<Rightarrow>
          if nm_window s \<and> nm_pageReady s then s\<lparr>nm_lastPushed := Some (service_phase now s), nm_pushed := nm_pushed s @ [page_of h now n s]\<rparr>
          else s
      | None \<Rightarrow> s)"

section \<open>The operations\<close>

text \<open>Keep Awake: the blocker, and the timer that looks again when its reason can lapse.\<close>

definition releaseBlocker :: "notch_service \<Rightarrow> notch_service" where
  "releaseBlocker s =
     (case nm_blocker s of
        Some b \<Rightarrow> s\<lparr>nm_blocker := None, nm_held := removeAll b (nm_held s)\<rparr>
      | None \<Rightarrow> s)"

definition startBlocker :: "notch_service \<Rightarrow> notch_service" where
  "startBlocker s =
     s\<lparr>nm_blocker := Some (nm_nextBlocker s), nm_held := nm_nextBlocker s # nm_held s, nm_nextBlocker := Suc (nm_nextBlocker s)\<rparr>"

definition awake_lapses :: "int \<Rightarrow> notch_service \<Rightarrow> int list" where
  "awake_lapses now s =
     filter (\<lambda>ms. ms > 0)
       ((if nm_mode s = KeepHour then [nm_hourUntil s - now] else [])
        @ (if awake_reason now s = Some ForAgents \<and> \<not> turns_open s
           then [nm_lastTurnEndAt s + KEEP_AWAKE_GRACE_MS - now] else []))"

definition reconcileKeepAwake :: "notch_host \<Rightarrow> int \<Rightarrow> notch_service \<Rightarrow> notch_service" where
  "reconcileKeepAwake h now s =
     (let reason = awake_reason now s;
          s1 = (if reason \<noteq> None \<and> nm_blocker s = None then startBlocker s
                else if reason = None then releaseBlocker s else s);
          due = (case awake_lapses now s of [] \<Rightarrow> None | l # ls \<Rightarrow> Some (now + (foldl min l ls + 50)));
          s2 = s1\<lparr>nm_awakeDue := due\<rparr>
      in push h now (if nm_mode s2 = KeepHour \<and> now \<ge> nm_hourUntil s2 then s2\<lparr>nm_mode := KeepAuto\<rparr> else s2))"

text \<open>The window.\<close>

definition wanted :: "notch_service \<Rightarrow> bool" where
  "wanted s \<longleftrightarrow> (\<exists>x\<in>set (nm_windows s). ww_enabled (snd x))"

definition position :: "notch_service \<Rightarrow> notch_service" where
  "position s =
     (case nm_notch s of
        Some n \<Rightarrow>
          if nm_window s
          then s\<lparr>nm_bounds := Some (js_round (rx (place n) + rwidth (place n) / 2 - of_int WINDOW_WIDTH / 2), ry (place n))\<rparr>
          else s
      | None \<Rightarrow> s)"

definition open_window :: "notch_service \<Rightarrow> notch_service" where
  "open_window s =
     (let s1 = position (s\<lparr>nm_window := True, nm_pageReady := False, nm_clicks := False\<rparr>)
      in s1\<lparr>nm_active := nm_active s1 @ [True]\<rparr>)"

definition close_window :: "notch_service \<Rightarrow> notch_service" where
  "close_window s =
     (if nm_window s then s\<lparr>nm_window := False, nm_macTab := False, nm_active := nm_active s @ [False]\<rparr> else s)"

definition reconcile :: "notch_host \<Rightarrow> int \<Rightarrow> notch_service \<Rightarrow> notch_service" where
  "reconcile h now s =
     (let show_it = wanted s \<and> nm_notch s \<noteq> None in
      if show_it \<and> \<not> nm_window s then open_window s
      else if \<not> show_it \<and> nm_window s then close_window s
      else push h now (position s))"

text \<open>
  \<open>detect\<close> keeps the promise of a detection that runs. Only on a Mac does it wait for anything: elsewhere
  its body is over, and has cleared the promise, before the promise is stored.
\<close>

definition detect :: "notch_host \<Rightarrow> notch_display \<Rightarrow> rect \<Rightarrow> notch_service \<Rightarrow> notch_service" where
  "detect h primary workArea s =
     (if nm_detecting s then s
      else if nh_mac h then s\<lparr>nm_detecting := True, nm_probing := True\<rparr>
      else s\<lparr>nm_notch := Some (virtualNotch primary workArea False), nm_detected := True, nm_detecting := True\<rparr>)"

text \<open>The screens AppKit named, as numbers.\<close>

definition screen_of :: "js_val \<Rightarrow> notch_screen" where
  "screen_of v =
     (let num = (\<lambda>k j. case js_num (js_get (js_get v k) j) of Some x \<Rightarrow> x | None \<Rightarrow> 0) in
      \<lparr>frame = \<lparr>rx = num ''frame'' ''x'', ry = num ''frame'' ''y'', rwidth = num ''frame'' ''width'', rheight = num ''frame'' ''height''\<rparr>,
       safeTop = (case js_num (js_get v ''safeTop'') of Some x \<Rightarrow> x | None \<Rightarrow> 0),
       leftArea = \<lparr>sx = num ''leftArea'' ''x'', swidth = num ''leftArea'' ''width''\<rparr>,
       rightArea = \<lparr>sx = num ''rightArea'' ''x'', swidth = num ''rightArea'' ''width''\<rparr>\<rparr>)"

text \<open>\<open>out\<close> is \<open>None\<close> when \<open>osascript\<close> failed.\<close>

definition findHardwareNotch :: "notch_host \<Rightarrow> string option \<Rightarrow> notch_display list \<Rightarrow> notch_rect option" where
  "findHardwareNotch h out displays =
     (case out of None \<Rightarrow> None
      | Some printed \<Rightarrow> findNotch (map screen_of (parseNotchProbe (nh_json h) (js_trim printed))) displays)"

definition probe_answers :: "notch_host \<Rightarrow> int \<Rightarrow> string option \<Rightarrow> notch_display list \<Rightarrow> notch_display \<Rightarrow> rect \<Rightarrow> notch_service \<Rightarrow> notch_service" where
  "probe_answers h now out displays primary workArea s =
     (if \<not> nm_probing s then s
      else reconcile h now (s\<lparr>nm_probing := False, nm_detecting := False, nm_detected := True,
             nm_notch := Some (case findHardwareNotch h out displays of Some n \<Rightarrow> n | None \<Rightarrow> virtualNotch primary workArea True)\<rparr>))"

definition update_window :: "notch_host \<Rightarrow> int \<Rightarrow> notch_display \<Rightarrow> rect \<Rightarrow> int \<Rightarrow> window_wish \<Rightarrow> notch_service \<Rightarrow> notch_service" where
  "update_window h now primary workArea win wish s =
     (let s1 = s\<lparr>nm_windows := AList.update win wish (nm_windows s)\<rparr>;
          s2 = (if ww_enabled wish then s1\<lparr>nm_rings := ww_rings wish\<rparr> else s1);
          s3 = reconcileKeepAwake h now (s2\<lparr>nm_setting := (\<exists>x\<in>set (nm_windows s2). ww_keepAwake (snd x) \<noteq> Some False)\<rparr>)
      in if wanted s3 \<and> \<not> nm_detected s3
         then (let s4 = detect h primary workArea s3 in if nm_probing s4 then s4 else reconcile h now s4)
         else reconcile h now s3)"

definition displays_changed :: "notch_host \<Rightarrow> int \<Rightarrow> notch_display \<Rightarrow> rect \<Rightarrow> notch_service \<Rightarrow> notch_service" where
  "displays_changed h now primary workArea s =
     (if \<not> nm_window s then s
      else let s1 = detect h primary workArea (s\<lparr>nm_detected := False\<rparr>)
        in if nm_probing s1 then s1 else reconcile h now s1)"

definition window_destroyed :: "notch_host \<Rightarrow> int \<Rightarrow> int \<Rightarrow> notch_service \<Rightarrow> notch_service" where
  "window_destroyed h now win s =
     (if map_of (nm_windows s) win = None then s
      else reconcile h now (s\<lparr>nm_windows := AList.delete win (nm_windows s)\<rparr>))"

text \<open>What the agents do.\<close>

definition show_session :: "string \<Rightarrow> notch_service \<Rightarrow> notch_service" where
  "show_session sid s = s\<lparr>nm_current := Some sid, nm_agent := Some (displayName s sid)\<rparr>"

definition add_turn :: "string \<Rightarrow> notch_service \<Rightarrow> notch_service" where
  "add_turn sid s = s\<lparr>nm_open := List.insert sid (nm_open s)\<rparr>"

text \<open>An event of a tool, or \<open>None\<close> for text and thoughts.\<close>

definition agent_spoke :: "notch_host \<Rightarrow> int \<Rightarrow> string \<Rightarrow> step_event option \<Rightarrow> notch_service \<Rightarrow> notch_service" where
  "agent_spoke h now sid tool s =
     (let wasWorking = (service_phase now s = Working);
          s1 = (if sid \<in> set (nm_open s) then s else reconcileKeepAwake h now (add_turn sid s));
          s2 = (show_session sid s1)\<lparr>nm_lastEventAt := now\<rparr>;
          s3 = (case tool of
                  Some e \<Rightarrow> s2\<lparr>nm_steps := applyNotchStep (nm_steps s2) sid e\<rparr>
                | None \<Rightarrow> if sessionId (nm_steps s2) \<noteq> Some sid then s2\<lparr>nm_steps := \<lparr>sessionId = Some sid, steps = []\<rparr>\<rparr> else s2);
          s4 = s3\<lparr>nm_phaseDue := Some (now + NOTCH_STUCK_MS)\<rparr>
      in if tool \<noteq> None \<or> \<not> wasWorking then push h now s4 else s4)"

definition rounded_percent :: "real option \<Rightarrow> int" where
  "rounded_percent x = js_round (case x of Some p \<Rightarrow> p | None \<Rightarrow> -1)"

definition onShellEvent :: "notch_host \<Rightarrow> int \<Rightarrow> notch_event \<Rightarrow> notch_service \<Rightarrow> notch_service" where
  "onShellEvent h now e s =
     (case e of
        NEnd sid \<Rightarrow>
          if sid \<in> set (nm_open s)
          then push h now (reconcileKeepAwake h now
                 (s\<lparr>nm_open := removeAll sid (nm_open s), nm_lastEventAt := now, nm_lastTurnEndAt := now,
                    nm_phaseDue := Some (now + NOTCH_DONE_MS)\<rparr>))
          else s
      | NTruncated sid given kept \<Rightarrow> push h now (s\<lparr>nm_truncated := AList.update sid (given, kept) (nm_truncated s)\<rparr>)
      | NStart sid rt \<Rightarrow>
          (let s1 = add_turn sid (s\<lparr>nm_truncated := AList.delete sid (nm_truncated s), nm_routes := AList.update sid rt (nm_routes s)\<rparr>);
               s2 = show_session sid (reconcileKeepAwake h now s1)
           in push h now (s2\<lparr>nm_lastEventAt := now, nm_phaseDue := Some (now + NOTCH_STUCK_MS)\<rparr>))
      | NUsage sid used whole \<Rightarrow>
          (let before = contextPercent (map_of (nm_context s) sid);
               s1 = s\<lparr>nm_context := AList.update sid (used, whole) (nm_context s)\<rparr>
           in if nm_current s = Some sid \<and> rounded_percent before \<noteq> rounded_percent (contextPercent (Some (used, whole)))
              then push h now s1 else s1)
      | NLimit sid \<Rightarrow> s
      | NText sid \<Rightarrow> agent_spoke h now sid None s
      | NTool sid tool \<Rightarrow> agent_spoke h now sid (Some tool) s)"

definition permission_asked :: "notch_host \<Rightarrow> int \<Rightarrow> asked_permission \<Rightarrow> notch_service \<Rightarrow> notch_service" where
  "permission_asked h now p s = push h now (s\<lparr>nm_permissions := nm_permissions s @ [p]\<rparr>)"

fun drop_first :: "string \<Rightarrow> asked_permission list \<Rightarrow> asked_permission list" where
  "drop_first i [] = []"
| "drop_first i (p # ps) = (if ap_id p = i then ps else p # drop_first i ps)"

definition permission_resolved :: "notch_host \<Rightarrow> int \<Rightarrow> string \<Rightarrow> notch_service \<Rightarrow> notch_service" where
  "permission_resolved h now i s =
     (if i \<in> ap_id ` set (nm_permissions s) then push h now (s\<lparr>nm_permissions := drop_first i (nm_permissions s)\<rparr>) else s)"

text \<open>
  Readings that take a while: each starts only when none runs, with what it is about, and lands later.
  \<open>lsof\<close>, \<open>vm_stat\<close> and \<open>pmset\<close> give \<open>None\<close> when they fail; so does the endpoint.
\<close>

definition refreshSystem :: "notch_moment \<Rightarrow> notch_service \<Rightarrow> notch_service" where
  "refreshSystem t s =
     (if \<not> nm_macTab s \<or> nm_systemReading s \<noteq> None then s
      else s\<lparr>nm_systemReading := Some (cpuPercent (nm_cpuBefore s) (at_cpus t)), nm_cpuBefore := at_cpus t\<rparr>)"

definition own_command :: "string \<Rightarrow> bool" where
  "own_command command \<longleftrightarrow> prefix ''HivemindIDE'' command"

definition shown_ports :: "nat \<Rightarrow> string \<Rightarrow> shown_port list" where
  "shown_ports pid out =
     map (\<lambda>p. \<lparr>sp_port = p\<lparr>port_command := clampText (port_command p) 40\<rparr>, sp_own = (port_pid p = pid \<or> own_command (port_command p))\<rparr>)
       (filter (\<lambda>p. \<not> isSystemListener (port_command p)) (parseLsofListening out))"

record tool_outputs =
  to_vm :: "string option"
  to_batt :: "string option"
  to_lsof :: "string option"
  to_free :: real
  to_total :: real
  to_thermal :: string

definition system_read :: "notch_host \<Rightarrow> int \<Rightarrow> tool_outputs \<Rightarrow> notch_service \<Rightarrow> notch_service" where
  "system_read h now got s =
     (case nm_systemReading s of
        None \<Rightarrow> s
      | Some cpu \<Rightarrow>
          (let mac = (\<lambda>x. if nh_mac h then nonempty_text x else None);
               stats = \<lparr>ss_cpu = cpu,
                 ss_memoryUsed = (case mac (to_vm got) of Some out \<Rightarrow> parseVmStat out
                   | None \<Rightarrow> if nh_mac h then None else Some (to_total got - to_free got)),
                 ss_memoryTotal = to_total got,
                 ss_battery = Option.bind (mac (to_batt got)) parsePmsetBattery,
                 ss_thermal = to_thermal got\<rparr>;
               ports = (if nh_win h then None else map_option (shown_ports (nh_pid h)) (to_lsof got));
               key = (js_round (case cpu of Some c \<Rightarrow> c | None \<Rightarrow> -1),
                      map_option (\<lambda>m. js_round (m / 10 ^ 8)) (ss_memoryUsed stats),
                      ss_battery stats, ss_thermal stats, ports);
               s1 = s\<lparr>nm_system := Some stats, nm_ports := ports, nm_systemReading := None\<rparr>
           in if Some key \<noteq> nm_systemKey s then push h now (s1\<lparr>nm_systemKey := Some key\<rparr>) else s1))"

definition refreshGpu :: "notch_service \<Rightarrow> notch_service" where
  "refreshGpu s =
     (case shown_route s of
        Some r \<Rightarrow> if \<not> tr_local r \<or> nm_gpuReading s \<noteq> None then s else s\<lparr>nm_gpuReading := Some (tr_endpoint r, tr_model r)\<rparr>
      | None \<Rightarrow> s)"

definition readGpu :: "notch_host \<Rightarrow> real \<Rightarrow> string option \<Rightarrow> gpu_stats option" where
  "readGpu h ram out =
     (case nonempty_text out of
        None \<Rightarrow> None
      | Some printed \<Rightarrow> if nh_mac h then parseIoregGpu printed (Some ram) else parseNvidiaSmi printed)"

definition readOffload :: "notch_host \<Rightarrow> string option \<times> string option \<Rightarrow> string option \<Rightarrow> model_offload option" where
  "readOffload h query body =
     (case (nonempty_text (fst query), nonempty_text (snd query), body) of
        (Some _, Some model, Some txt) \<Rightarrow>
          List.find (\<lambda>m. off_model m = model \<or> off_model m = model @ '':latest'') (parseOllamaPs (nh_json h) txt)
      | _ \<Rightarrow> None)"

definition gpu_read :: "notch_host \<Rightarrow> int \<Rightarrow> real \<Rightarrow> string option \<Rightarrow> string option \<Rightarrow> notch_service \<Rightarrow> notch_service" where
  "gpu_read h now ram out body s =
     (case nm_gpuReading s of
        None \<Rightarrow> s
      | Some query \<Rightarrow>
          (let gpu = readGpu h ram out; off = readOffload h query body;
               s1 = s\<lparr>nm_gpuReading := None\<rparr>
           in if nm_gpuKey s \<noteq> Some (gpu, off)
              then push h now (s1\<lparr>nm_gpuKey := Some (gpu, off), nm_gpu := gpu, nm_offload := off\<rparr>) else s1))"

definition pushCursor :: "notch_host \<Rightarrow> int \<Rightarrow> int \<times> int \<Rightarrow> notch_service \<Rightarrow> notch_service" where
  "pushCursor h now key s =
     (if \<not> nm_window s \<or> \<not> nm_pageReady s then s
      else let s1 = (if nm_lastPushed s \<noteq> Some (service_phase now s) then push h now s else s)
        in if nm_lastCursor s1 \<noteq> Some key then s1\<lparr>nm_lastCursor := Some key, nm_cursors := nm_cursors s1 @ [key]\<rparr> else s1)"

text \<open>What the page asks for.\<close>

definition stopPort :: "real \<Rightarrow> real \<Rightarrow> notch_service \<Rightarrow> notch_service" where
  "stopPort pid p s =
     (case List.find (\<lambda>x. real (port_pid (sp_port x)) = pid \<and> real (port (sp_port x)) = p)
             (case nm_ports s of Some ps \<Rightarrow> ps | None \<Rightarrow> []) of
        None \<Rightarrow> s
      | Some listed \<Rightarrow> if sp_own listed \<or> pid \<noteq> of_int \<lfloor>pid\<rfloor> \<or> pid \<le> 1 then s else s\<lparr>nm_stopped := nm_stopped s @ [listed]\<rparr>)"

definition stop_looks_again :: "notch_moment \<Rightarrow> notch_service \<Rightarrow> notch_service" where
  "stop_looks_again t s = refreshSystem t (s\<lparr>nm_systemKey := None\<rparr>)"

definition KEEP_AWAKE_MODES :: "(string \<times> keep_awake_mode) list" where
  "KEEP_AWAKE_MODES = [(''auto'', KeepAuto), (''hour'', KeepHour), (''on'', KeepOn), (''off'', KeepOff)]"

definition NOTCH_MESSAGE_PREFIX :: string where "NOTCH_MESSAGE_PREFIX = ''hivemind-notch:''"

definition set_mode :: "notch_host \<Rightarrow> int \<Rightarrow> keep_awake_mode \<Rightarrow> notch_service \<Rightarrow> notch_service" where
  "set_mode h now mode s =
     reconcileKeepAwake h now (s\<lparr>nm_mode := mode, nm_hourUntil := (if mode = KeepHour then now + KEEP_AWAKE_HOUR_MS else 0)\<rparr>)"

definition answer_permission :: "js_val \<Rightarrow> js_val \<Rightarrow> notch_service \<Rightarrow> notch_service" where
  "answer_permission i opt s =
     (case List.find (\<lambda>p. JStr (ap_id p) = i) (nm_permissions s) of
        None \<Rightarrow> s
      | Some request \<Rightarrow>
          (case js_str opt of
             Some x \<Rightarrow> if x \<in> oo_id ` set (ap_options request) then s\<lparr>nm_responded := nm_responded s @ [(ap_id request, x)]\<rparr> else s
           | None \<Rightarrow> s))"

definition page_message :: "notch_host \<Rightarrow> notch_moment \<Rightarrow> js_val \<Rightarrow> notch_service \<Rightarrow> notch_service" where
  "page_message h t m s =
     (let kind = js_get m ''type'' in
      if kind = JStr ''ready'' then push h (at_ms t) (s\<lparr>nm_pageReady := True\<rparr>)
      else if kind = JStr ''hover'' then (if nm_window s then s\<lparr>nm_clicks := (js_get m ''inside'' = JBool True)\<rparr> else s)
      else if kind = JStr ''focus'' \<or> kind = JStr ''settings'' then s\<lparr>nm_focused := Suc (nm_focused s)\<rparr>
      else if kind = JStr ''tab'' then
        (let s1 = s\<lparr>nm_macTab := (js_get m ''tab'' = JStr ''mac'')\<rparr>
         in if nm_macTab s1 then refreshSystem t (s1\<lparr>nm_systemKey := None\<rparr>) else s1)
      else if kind = JStr ''keepAwake'' then
        (case Option.bind (js_str (js_get m ''mode'')) (map_of KEEP_AWAKE_MODES) of
           Some mode \<Rightarrow> set_mode h (at_ms t) mode s
         | None \<Rightarrow> s)
      else if kind = JStr ''stopPort'' then
        (case (js_get m ''pid'', js_get m ''port'') of (JNum pid, JNum p) \<Rightarrow> stopPort pid p s | _ \<Rightarrow> s)
      else if kind = JStr ''permission'' then answer_permission (js_get m ''id'') (js_get m ''optionId'') s
      else s)"

definition onPageMessage :: "notch_host \<Rightarrow> notch_moment \<Rightarrow> string \<Rightarrow> notch_service \<Rightarrow> notch_service" where
  "onPageMessage h t raw s =
     (if \<not> prefix NOTCH_MESSAGE_PREFIX raw \<or> length raw > 4096 then s
      else case nh_json h (drop (length NOTCH_MESSAGE_PREFIX) raw) of
             None \<Rightarrow> s
           | Some m \<Rightarrow> page_message h t m s)"

text \<open>The timers: each is due at a time, and fires then or later.\<close>

definition awake_timer :: "notch_host \<Rightarrow> int \<Rightarrow> notch_service \<Rightarrow> notch_service" where
  "awake_timer h now s = reconcileKeepAwake h now (s\<lparr>nm_awakeDue := None\<rparr>)"

definition onPhaseTimer :: "notch_host \<Rightarrow> int \<Rightarrow> notch_service \<Rightarrow> notch_service" where
  "onPhaseTimer h now s = push h now (s\<lparr>nm_phaseDue := None\<rparr>)"

definition notch_start :: "(string \<times> real) list list \<Rightarrow> notch_service" where
  "notch_start cpus =
     \<lparr>nm_windows = [], nm_rings = [], nm_notch = None, nm_detected = False, nm_detecting = False, nm_probing = False,
      nm_window = False, nm_pageReady = False, nm_agent = None, nm_steps = \<lparr>sessionId = None, steps = []\<rparr>, nm_lastEventAt = 0,
      nm_open = [], nm_routes = [], nm_gpu = None, nm_offload = None, nm_gpuKey = None, nm_gpuReading = None,
      nm_context = [], nm_truncated = [], nm_current = None, nm_phaseDue = None, nm_permissions = [], nm_lastPushed = None,
      nm_lastCursor = None, nm_setting = True, nm_mode = KeepAuto, nm_hourUntil = 0, nm_lastTurnEndAt = 0, nm_blocker = None,
      nm_awakeDue = None, nm_macTab = False, nm_system = None, nm_ports = None, nm_systemKey = None, nm_systemReading = None,
      nm_cpuBefore = cpus, nm_bounds = None, nm_clicks = False, nm_held = [], nm_nextBlocker = 0, nm_pushed = [], nm_cursors = [],
      nm_active = [], nm_responded = [], nm_stopped = [], nm_focused = 0\<rparr>"

inductive notch_run :: "notch_host \<Rightarrow> notch_service \<Rightarrow> notch_service \<Rightarrow> bool" for h where
  Update: "notch_run h s (update_window h now primary area win wish s)"
| Probe: "notch_run h s (probe_answers h now out displays primary area s)"
| Displays: "notch_run h s (displays_changed h now primary area s)"
| Destroyed: "notch_run h s (window_destroyed h now win s)"
| Closed: "notch_run h s (close_window s)"
| Agent: "notch_run h s (onShellEvent h now e s)"
| Asked: "notch_run h s (permission_asked h now p s)"
| Resolved: "notch_run h s (permission_resolved h now i s)"
| Page: "notch_run h s (onPageMessage h t raw s)"
| System: "notch_run h s (refreshSystem t s)"
| SystemRead: "notch_run h s (system_read h now got s)"
| LookAgain: "notch_run h s (stop_looks_again t s)"
| Gpu: "notch_run h s (refreshGpu s)"
| GpuRead: "notch_run h s (gpu_read h now ram out body s)"
| Cursor: "notch_run h s (pushCursor h now key s)"
| Awake: "nm_awakeDue s = Some due \<Longrightarrow> due \<le> now \<Longrightarrow> notch_run h s (awake_timer h now s)"
| Phase: "nm_phaseDue s = Some due \<Longrightarrow> due \<le> now \<Longrightarrow> notch_run h s (onPhaseTimer h now s)"


section \<open>What a window reports\<close>

definition toRing :: "(real \<Rightarrow> string) \<Rightarrow> provider_limits \<Rightarrow> real \<Rightarrow> notch_ring" where
  "toRing intl p now =
     (let window = headlineWindow p now;
          percent = Option.bind window effectivePercent
      in \<lparr>nr_id = lim_id p, nr_label = lim_label p, nr_glyph = glyph p, nr_percent = percent, nr_severity = severityOf percent,
          nr_detail = (case window of
              None \<Rightarrow> if observedAt p = None then ''No reading yet'' else ''Awaiting a new reading''
            | Some w \<Rightarrow> (case resetsAt w of Some r \<Rightarrow> win_label w @ dot @ formatResets intl r now | None \<Rightarrow> win_label w)),
          nr_windows = map (\<lambda>w. \<lparr>rw_label = win_label w, rw_percent = effectivePercent w, rw_severity = severityOf (effectivePercent w),
              rw_reset = map_option (\<lambda>r. formatResets intl r now) (resetsAt w), rw_exhausted = exhausted w\<rparr>) (liveWindows p now)\<rparr>)"

definition bridge_wish :: "(real \<Rightarrow> string) \<Rightarrow> bool option \<Rightarrow> bool option \<Rightarrow> provider_limits list \<Rightarrow> real \<Rightarrow> window_wish" where
  "bridge_wish intl useNotch keep providers now =
     (let enabled = (useNotch \<noteq> Some False)
      in \<lparr>ww_enabled = enabled, ww_rings = (if enabled then map (\<lambda>p. toRing intl p now) providers else []),
          ww_keepAwake = Some (keep \<noteq> Some False)\<rparr>)"

definition bridge_disposed :: window_wish where
  "bridge_disposed = \<lparr>ww_enabled = False, ww_rings = [], ww_keepAwake = Some False\<rparr>"

section \<open>Keep Awake\<close>

text \<open>What Keep Awake rests on; most callbacks leave all of it alone.\<close>

definition awake_part :: "notch_service \<Rightarrow> string list \<times> bool \<times> keep_awake_mode \<times> int \<times> int \<times> nat option \<times> int option \<times> nat list" where
  "awake_part s = (nm_open s, nm_setting s, nm_mode s, nm_hourUntil s, nm_lastTurnEndAt s, nm_blocker s, nm_awakeDue s, nm_held s)"

definition held_ok :: "notch_service \<Rightarrow> bool" where
  "held_ok s \<longleftrightarrow> nm_held s = (case nm_blocker s of Some b \<Rightarrow> [b] | None \<Rightarrow> [])"

definition agents_hold :: "notch_service \<Rightarrow> bool" where
  "agents_hold s \<longleftrightarrow> turns_open s \<and> nm_setting s"

definition awake_ok :: "notch_service \<Rightarrow> bool" where
  "awake_ok s \<longleftrightarrow> held_ok s \<and>
     (nm_mode s = KeepOff \<longrightarrow> nm_blocker s = None) \<and>
     (nm_mode s = KeepOn \<longrightarrow> nm_blocker s \<noteq> None) \<and>
     (agents_hold s \<and> nm_mode s \<noteq> KeepOff \<longrightarrow> nm_blocker s \<noteq> None) \<and>
     (nm_mode s = KeepHour \<longrightarrow> nm_blocker s \<noteq> None \<and> nm_awakeDue s = Some (nm_hourUntil s + 50)) \<and>
     (nm_blocker s \<noteq> None \<and> nm_mode s = KeepAuto \<and> \<not> agents_hold s \<longrightarrow>
        nm_setting s \<and> nm_awakeDue s = Some (nm_lastTurnEndAt s + KEEP_AWAKE_GRACE_MS + 50))"

lemma awake_ok_cong:
  assumes "awake_part s' = awake_part s"
  shows "awake_ok s' = awake_ok s"
  using assms by (simp add: awake_part_def awake_ok_def held_ok_def agents_hold_def turns_open_def)

lemma push_awake [simp]: "awake_part (push h now s) = awake_part s"
  by (simp add: push_def awake_part_def split: option.split)

lemma awake_ok_push [simp]: "awake_ok (push h now s) = awake_ok s"
  by (rule awake_ok_cong) simp

lemma held_ok_blocker [simp]: "held_ok s \<Longrightarrow> held_ok (releaseBlocker s)"
  "nm_blocker s = None \<Longrightarrow> held_ok s \<Longrightarrow> held_ok (startBlocker s)"
  by (auto simp: held_ok_def releaseBlocker_def startBlocker_def split: option.split)

text \<open>Looking at the reason puts everything right, whatever changed before.\<close>

lemma reconcileKeepAwake_ok:
  assumes "held_ok s"
  shows "awake_ok (reconcileKeepAwake h now s)"
proof -
  have [simp]: "awake_lapses now s = (if nm_mode s = KeepHour \<and> now < nm_hourUntil s then [nm_hourUntil s - now]
      else if awake_reason now s = Some ForAgents \<and> \<not> turns_open s then [nm_lastTurnEndAt s + KEEP_AWAKE_GRACE_MS - now] else [])"
    by (auto simp: awake_lapses_def awake_reason_def keepAwakeReason_def split: if_splits)
  show ?thesis using assms
    unfolding reconcileKeepAwake_def Let_def awake_ok_push
    apply (cases "nm_mode s"; cases "nm_blocker s")
    apply (auto simp: awake_ok_def held_ok_def agents_hold_def turns_open_def awake_reason_def keepAwakeReason_def
        releaseBlocker_def startBlocker_def)
    done
qed


lemma window_awake [simp]:
  "awake_part (position s) = awake_part s" "awake_part (open_window s) = awake_part s" "awake_part (close_window s) = awake_part s"
  by (simp_all add: position_def open_window_def close_window_def awake_part_def Let_def split: option.split)

lemma reconcile_awake [simp]: "awake_part (reconcile h now s) = awake_part s"
  by (simp add: reconcile_def Let_def)

lemma detect_awake [simp]: "awake_part (detect h primary area s) = awake_part s"
  by (simp add: detect_def awake_part_def)

lemma awake_part_fields [simp]:
  "awake_part (s\<lparr>nm_windows := a\<rparr>) = awake_part s" "awake_part (s\<lparr>nm_rings := b\<rparr>) = awake_part s"
  "awake_part (s\<lparr>nm_notch := c\<rparr>) = awake_part s" "awake_part (s\<lparr>nm_detected := d\<rparr>) = awake_part s"
  "awake_part (s\<lparr>nm_detecting := d\<rparr>) = awake_part s" "awake_part (s\<lparr>nm_probing := d\<rparr>) = awake_part s"
  "awake_part (s\<lparr>nm_steps := e\<rparr>) = awake_part s" "awake_part (s\<lparr>nm_phaseDue := f\<rparr>) = awake_part s"
  "awake_part (s\<lparr>nm_lastEventAt := g\<rparr>) = awake_part s" "awake_part (s\<lparr>nm_context := i\<rparr>) = awake_part s"
  "awake_part (s\<lparr>nm_truncated := i\<rparr>) = awake_part s" "awake_part (s\<lparr>nm_permissions := j\<rparr>) = awake_part s"
  "awake_part (s\<lparr>nm_systemKey := k\<rparr>) = awake_part s" "awake_part (s\<lparr>nm_macTab := d\<rparr>) = awake_part s"
  "awake_part (s\<lparr>nm_pageReady := d\<rparr>) = awake_part s" "awake_part (s\<lparr>nm_clicks := d\<rparr>) = awake_part s"
  "awake_part (s\<lparr>nm_focused := l\<rparr>) = awake_part s" "awake_part (s\<lparr>nm_lastCursor := m\<rparr>) = awake_part s"
  "awake_part (s\<lparr>nm_cursors := n\<rparr>) = awake_part s" "awake_part (s\<lparr>nm_responded := p\<rparr>) = awake_part s"
  "awake_part (s\<lparr>nm_stopped := q\<rparr>) = awake_part s" "awake_part (s\<lparr>nm_gpuReading := r\<rparr>) = awake_part s"
  "awake_part (s\<lparr>nm_gpu := t\<rparr>) = awake_part s" "awake_part (s\<lparr>nm_offload := u\<rparr>) = awake_part s"
  "awake_part (s\<lparr>nm_gpuKey := v\<rparr>) = awake_part s" "awake_part (s\<lparr>nm_system := w\<rparr>) = awake_part s"
  "awake_part (s\<lparr>nm_ports := x\<rparr>) = awake_part s" "awake_part (s\<lparr>nm_systemReading := y\<rparr>) = awake_part s"
  "awake_part (s\<lparr>nm_cpuBefore := z\<rparr>) = awake_part s" "awake_part (s\<lparr>nm_current := aa\<rparr>) = awake_part s"
  "awake_part (s\<lparr>nm_agent := aa\<rparr>) = awake_part s" "awake_part (s\<lparr>nm_routes := ab\<rparr>) = awake_part s"
  by (simp_all add: awake_part_def)

lemma quiet_awake [simp]:
  "awake_part (probe_answers h now out displays primary area s) = awake_part s"
  "awake_part (displays_changed h now primary area s) = awake_part s"
  "awake_part (window_destroyed h now win s) = awake_part s"
  "awake_part (permission_asked h now p s) = awake_part s"
  "awake_part (permission_resolved h now pn s) = awake_part s"
  "awake_part (refreshSystem t s) = awake_part s"
  "awake_part (stop_looks_again t s) = awake_part s"
  "awake_part (system_read h now got s) = awake_part s"
  "awake_part (refreshGpu s) = awake_part s"
  "awake_part (gpu_read h now ram out body s) = awake_part s"
  "awake_part (pushCursor h now key s) = awake_part s"
  "awake_part (onPhaseTimer h now s) = awake_part s"
  "awake_part (stopPort pid prt s) = awake_part s"
  "awake_part (answer_permission pid2 opt s) = awake_part s"
  "awake_part (show_session sid s) = awake_part s"
  by (simp_all add: probe_answers_def displays_changed_def window_destroyed_def permission_asked_def permission_resolved_def
      refreshSystem_def stop_looks_again_def system_read_def refreshGpu_def gpu_read_def pushCursor_def onPhaseTimer_def
      stopPort_def answer_permission_def show_session_def Let_def split: option.split)

text \<open>The invariant as a predicate of that part, so that simplification drops what leaves it alone.\<close>

definition awake_inv :: "string list \<times> bool \<times> keep_awake_mode \<times> int \<times> int \<times> nat option \<times> int option \<times> nat list \<Rightarrow> bool" where
  "awake_inv p \<longleftrightarrow> (\<exists>s. awake_part s = p \<and> awake_ok s)"

lemma awake_ok_inv: "awake_ok s \<longleftrightarrow> awake_inv (awake_part s)"
  unfolding awake_inv_def using awake_ok_cong by blast

lemma awake_ok_held: "awake_ok s \<Longrightarrow> held_ok s"
  by (simp add: awake_ok_def)

lemma reconcileKeepAwake_inv:
  assumes "awake_ok s" "nm_blocker s' = nm_blocker s" "nm_held s' = nm_held s"
  shows "awake_inv (awake_part (reconcileKeepAwake h now s'))"
  unfolding awake_ok_inv [symmetric] using assms by (intro reconcileKeepAwake_ok) (simp add: held_ok_def awake_ok_def)

lemma add_turn_fields [simp]: "nm_blocker (add_turn sid s) = nm_blocker s" "nm_held (add_turn sid s) = nm_held s"
  by (simp_all add: add_turn_def)

lemma agent_spoke_ok:
  assumes "awake_ok s"
  shows "awake_ok (agent_spoke h now sid tool s)"
  using assms reconcileKeepAwake_inv [OF assms, of "add_turn sid s" h now]
  by (simp add: awake_ok_inv agent_spoke_def Let_def split: option.split)

lemma onShellEvent_ok:
  assumes "awake_ok s"
  shows "awake_ok (onShellEvent h now e s)"
  using assms agent_spoke_ok [OF assms] reconcileKeepAwake_inv [OF assms]
  by (cases e) (simp_all add: onShellEvent_def Let_def awake_ok_inv)

lemma page_message_ok:
  assumes "awake_ok s"
  shows "awake_ok (page_message h t m s)"
  using assms reconcileKeepAwake_inv [OF assms]
  by (simp add: awake_ok_inv page_message_def set_mode_def Let_def split: option.split js_val.split)

interpretation notch: step_invariant "notch_run h" "notch_start cpus" awake_ok for h cpus
proof
  show "awake_ok (notch_start cpus)"
    by (simp add: awake_ok_def held_ok_def notch_start_def agents_hold_def turns_open_def)
  show "awake_ok s'" if "notch_run h s s'" "awake_ok s" for s s'
    using that
  proof cases
    case (Update now primary area win wish)
    then show ?thesis using reconcileKeepAwake_inv [OF that(2)]
      by (simp add: awake_ok_inv update_window_def Let_def)
  next
    case (Page t raw)
    then show ?thesis using that(2) page_message_ok [OF that(2)] by (simp add: onPageMessage_def split: option.split)
  next
    case (Awake due now)
    then show ?thesis using reconcileKeepAwake_inv [OF that(2)] by (simp add: awake_ok_inv awake_timer_def)
  next
    case (Agent now e)
    then show ?thesis using onShellEvent_ok [OF that(2)] by simp
  qed (use that(2) in \<open>simp_all add: awake_ok_inv\<close>)
qed

section \<open>What the page can make the service do\<close>

text \<open>The ports and the programs stopped: only a reading and a message about a port touch them.\<close>

lemma push_ports [simp]: "nm_ports (push h now s) = nm_ports s" "nm_stopped (push h now s) = nm_stopped s"
  "nm_permissions (push h now s) = nm_permissions s" "nm_responded (push h now s) = nm_responded s"
  by (simp_all add: push_def split: option.split)

lemma keep_awake_ports [simp]:
  "nm_ports (reconcileKeepAwake h now s) = nm_ports s" "nm_stopped (reconcileKeepAwake h now s) = nm_stopped s"
  "nm_permissions (reconcileKeepAwake h now s) = nm_permissions s" "nm_responded (reconcileKeepAwake h now s) = nm_responded s"
  by (simp_all add: reconcileKeepAwake_def startBlocker_def releaseBlocker_def Let_def split: option.split)

lemma window_ports [simp]:
  "nm_ports (position s) = nm_ports s" "nm_stopped (position s) = nm_stopped s"
  "nm_ports (open_window s) = nm_ports s" "nm_stopped (open_window s) = nm_stopped s"
  "nm_ports (close_window s) = nm_ports s" "nm_stopped (close_window s) = nm_stopped s"
  "nm_ports (reconcile h now s) = nm_ports s" "nm_stopped (reconcile h now s) = nm_stopped s"
  "nm_ports (detect h primary area s) = nm_ports s" "nm_stopped (detect h primary area s) = nm_stopped s"
  by (simp_all add: position_def open_window_def close_window_def reconcile_def detect_def Let_def split: option.split)

lemma reading_ports [simp]:
  "nm_ports (refreshSystem t s) = nm_ports s" "nm_stopped (refreshSystem t s) = nm_stopped s"
  "nm_responded (refreshSystem t s) = nm_responded s"
  "nm_ports (refreshGpu s) = nm_ports s" "nm_stopped (refreshGpu s) = nm_stopped s"
  "nm_ports (gpu_read h now ram out body s) = nm_ports s" "nm_stopped (gpu_read h now ram out body s) = nm_stopped s"
  "nm_ports (pushCursor h now key s) = nm_ports s" "nm_stopped (pushCursor h now key s) = nm_stopped s"
  "nm_ports (agent_spoke h now sid tool s) = nm_ports s" "nm_stopped (agent_spoke h now sid tool s) = nm_stopped s"
  "nm_stopped (system_read h now got s) = nm_stopped s"
  "nm_ports (answer_permission x y s) = nm_ports s" "nm_stopped (answer_permission x y s) = nm_stopped s"
  "nm_ports (stopPort pid prt s) = nm_ports s" "nm_responded (stopPort pid prt s) = nm_responded s"
  by (simp_all add: refreshSystem_def refreshGpu_def gpu_read_def pushCursor_def agent_spoke_def system_read_def add_turn_def
      answer_permission_def stopPort_def show_session_def Let_def split: option.split)

lemma event_ports [simp]: "nm_ports (onShellEvent h now e s) = nm_ports s" "nm_stopped (onShellEvent h now e s) = nm_stopped s"
  by (cases e; simp add: onShellEvent_def show_session_def add_turn_def Let_def)+

definition another_program :: "notch_host \<Rightarrow> shown_port \<Rightarrow> bool" where
  "another_program h x \<longleftrightarrow> \<not> isSystemListener (port_command (sp_port x)) \<and>
     sp_own x = (port_pid (sp_port x) = nh_pid h \<or> own_command (port_command (sp_port x)))"

definition ports_ok :: "notch_host \<Rightarrow> notch_service \<Rightarrow> bool" where
  "ports_ok h s \<longleftrightarrow> (\<forall>x\<in>set (case nm_ports s of Some ps \<Rightarrow> ps | None \<Rightarrow> []). another_program h x) \<and>
     (\<forall>x\<in>set (nm_stopped s). another_program h x \<and> \<not> sp_own x \<and> port_pid (sp_port x) > 1)"

lemma prefix_take: "length p \<le> n \<Longrightarrow> n \<le> length c \<Longrightarrow> prefix p (take n c @ e) \<longleftrightarrow> prefix p c"
  for p :: "'a list"
proof -
  assume n: "length p \<le> n" "n \<le> length c"
  then have "take (length p) (take n c @ e) = take (length p) c" by simp
  then show ?thesis by (metis append_eq_conv_conj prefix_def)
qed

lemma clamped_own: "own_command (clampText c 40) = own_command c"
  using prefix_take [of "''HivemindIDE''" 39 c ellipsis] by (simp add: own_command_def clampText_def)

lemma clamped_system: "isSystemListener (clampText c 40) \<Longrightarrow> isSystemListener c"
proof (cases "length c > 40")
  case True
  have "\<forall>x\<in>set SYSTEM_LISTENERS. length x < 40" by (simp add: SYSTEM_LISTENERS_def)
  moreover have "length (clampText c 40) \<ge> 40" using True by (simp add: clampText_def ellipsis_def)
  ultimately show "isSystemListener (clampText c 40) \<Longrightarrow> ?thesis" by (auto simp: isSystemListener_def)
qed (simp add: clampText_def)

lemma shown_ports_ok: "x \<in> set (shown_ports (nh_pid h) out) \<Longrightarrow> another_program h x"
  by (auto simp: shown_ports_def another_program_def clamped_own dest: clamped_system)

lemma system_read_ports:
  "nm_ports (system_read h now got s) =
     (if nm_systemReading s = None then nm_ports s else if nh_win h then None else map_option (shown_ports (nh_pid h)) (to_lsof got))"
  by (cases "nm_systemReading s") (simp_all add: system_read_def Let_def)

lemma system_read_ok: "ports_ok h s \<Longrightarrow> ports_ok h (system_read h now got s)"
  by (cases "to_lsof got") (simp_all add: ports_ok_def system_read_ports shown_ports_ok)

lemma stopPort_cases:
  obtains "stopPort pid prt s = s"
  | x ps where "nm_ports s = Some ps" "x \<in> set ps" "\<not> sp_own x" "port_pid (sp_port x) > 1"
      "stopPort pid prt s = s\<lparr>nm_stopped := nm_stopped s @ [x]\<rparr>"
proof (cases "stopPort pid prt s = s")
  case False
  obtain ps where ps: "nm_ports s = Some ps" using False by (cases "nm_ports s") (simp_all add: stopPort_def)
  obtain x where x: "List.find (\<lambda>x. real (port_pid (sp_port x)) = pid \<and> real (port (sp_port x)) = prt) ps = Some x"
    using False ps by (auto simp: stopPort_def split: option.splits)
  then have "x \<in> set ps" "real (port_pid (sp_port x)) = pid" by (auto simp: find_Some_iff)
  with False x ps show ?thesis using that(2) [OF ps] by (auto simp: stopPort_def split: if_splits)
qed (use that in blast)

lemma stopPort_ok:
  assumes "ports_ok h s"
  shows "ports_ok h (stopPort pid prt s)"
  by (rule stopPort_cases [of pid prt s]) (use assms in \<open>auto simp: ports_ok_def\<close>)


lemma answer_permission_cases:
  "nm_responded (answer_permission i opt s) = nm_responded s \<or>
   (\<exists>p\<in>set (nm_permissions s). \<exists>x\<in>oo_id ` set (ap_options p). nm_responded (answer_permission i opt s) = nm_responded s @ [(ap_id p, x)])"
proof (cases "List.find (\<lambda>p. JStr (ap_id p) = i) (nm_permissions s)")
  case (Some p)
  then have "p \<in> set (nm_permissions s)" by (auto simp: find_Some_iff)
  then show ?thesis using Some by (auto simp: answer_permission_def split: option.split)
qed (simp add: answer_permission_def)

lemma page_answers:
  "nm_responded (page_message h t m s) = nm_responded s \<or>
   (\<exists>p\<in>set (nm_permissions s). \<exists>x\<in>oo_id ` set (ap_options p). nm_responded (page_message h t m s) = nm_responded s @ [(ap_id p, x)])"
  using answer_permission_cases [of "js_get m ''id''" "js_get m ''optionId''" s]
  by (simp add: page_message_def set_mode_def Let_def split: option.split js_val.split)

lemma onPageMessage_answers:
  "nm_responded (onPageMessage h t raw s) = nm_responded s \<or>
   (\<exists>p\<in>set (nm_permissions s). \<exists>x\<in>oo_id ` set (ap_options p). nm_responded (onPageMessage h t raw s) = nm_responded s @ [(ap_id p, x)])"
  unfolding onPageMessage_def using page_answers [of h t _ s] by (simp split: option.split)

lemma page_message_ports:
  assumes "ports_ok h s"
  shows "ports_ok h (page_message h t m s)"
  using assms stopPort_ok [OF assms]
  by (simp add: page_message_def set_mode_def ports_ok_def Let_def split: option.split js_val.split)

interpretation stopping: step_invariant "notch_run h" "notch_start cpus" "ports_ok h" for h cpus
proof
  show "ports_ok h (notch_start cpus)" by (simp add: ports_ok_def notch_start_def)
  show "ports_ok h s'" if "notch_run h s s'" "ports_ok h s" for s s'
    using that
  proof cases
    case (Page t raw)
    then show ?thesis using that(2) page_message_ports [OF that(2)] by (simp add: onPageMessage_def split: option.split)
  next
    case (SystemRead now got)
    then show ?thesis using system_read_ok [OF that(2)] by simp
  qed (use that(2) in \<open>simp_all add: ports_ok_def update_window_def probe_answers_def displays_changed_def window_destroyed_def
        permission_asked_def permission_resolved_def stop_looks_again_def awake_timer_def onPhaseTimer_def Let_def\<close>)
qed

section \<open>The timer of Keep Awake\<close>

lemma push_fields [simp]:
  "nm_mode (push h now s) = nm_mode s" "nm_held (push h now s) = nm_held s" "nm_open (push h now s) = nm_open s"
  "nm_setting (push h now s) = nm_setting s" "nm_lastTurnEndAt (push h now s) = nm_lastTurnEndAt s"
  "nm_awakeDue (push h now s) = nm_awakeDue s"
  by (simp_all add: push_def split: option.split)

lemma awake_timer_fields [simp]:
  "nm_open (awake_timer h now s) = nm_open s" "nm_setting (awake_timer h now s) = nm_setting s"
  "nm_lastTurnEndAt (awake_timer h now s) = nm_lastTurnEndAt s"
  by (simp_all add: awake_timer_def reconcileKeepAwake_def releaseBlocker_def startBlocker_def Let_def split: option.split)

lemma awake_timer_ok: "awake_ok s \<Longrightarrow> awake_ok (awake_timer h now s)"
  unfolding awake_timer_def by (intro reconcileKeepAwake_ok) (simp add: held_ok_def awake_ok_def)

lemma awake_timer_hour_over:
  "nm_mode s = KeepHour \<Longrightarrow> nm_hourUntil s \<le> now \<Longrightarrow> nm_mode (awake_timer h now s) = KeepAuto"
  by (simp add: awake_timer_def reconcileKeepAwake_def releaseBlocker_def startBlocker_def Let_def split: option.split)

lemma awake_timer_grace_over:
  assumes "awake_ok s" "nm_mode s = KeepAuto" "\<not> agents_hold s" "nm_lastTurnEndAt s + KEEP_AWAKE_GRACE_MS \<le> now"
  shows "nm_held (awake_timer h now s) = []"
proof -
  have "awake_reason now (s\<lparr>nm_awakeDue := None\<rparr>) = None"
    using assms(2-4) by (auto simp: awake_reason_def keepAwakeReason_def agents_hold_def turns_open_def)
  then show ?thesis using assms(1)
    by (auto simp: awake_timer_def reconcileKeepAwake_def releaseBlocker_def awake_ok_def held_ok_def Let_def split: option.splits)
qed

lemma agents_hold_timer [simp]: "agents_hold (awake_timer h now s) = agents_hold s"
  by (simp add: agents_hold_def turns_open_def)

lemma auto_due:
  "awake_ok s \<Longrightarrow> nm_held s \<noteq> [] \<Longrightarrow> nm_mode s = KeepAuto \<Longrightarrow> \<not> agents_hold s \<Longrightarrow>
   nm_awakeDue s = Some (nm_lastTurnEndAt s + KEEP_AWAKE_GRACE_MS + 50)"
  by (auto simp: awake_ok_def held_ok_def split: option.splits)

section \<open>Properties\<close>

text \<open>
  Property C33: Property C1. Agents at work keep the computer awake, and nothing else is left behind: in every state the
  service gets to, at most the one blocker it knows of is held; while a turn is open and a window wants it the
  blocker is held unless Keep Awake is off; and when it is off none is.
\<close>

theorem awake_while_agents_work:
  assumes "(notch_run h)\<^sup>*\<^sup>* (notch_start cpus) s"
  shows "nm_held s = (case nm_blocker s of Some b \<Rightarrow> [b] | None \<Rightarrow> []) \<and>
    (turns_open s \<and> nm_setting s \<and> nm_mode s \<noteq> KeepOff \<longrightarrow> nm_held s \<noteq> []) \<and>
    (nm_mode s = KeepOff \<longrightarrow> nm_held s = [])"
  using notch.reached_inv [OF assms] by (auto simp: awake_ok_def held_ok_def agents_hold_def)


text \<open>
  Property C34: Property C3. The page of the notch can only do what it may: in every state the service gets to, every
  program it was ever told to stop was one it listed as listening, is not HivemindIDE itself, neither its main
  process nor a helper, is no system service and is not process 0 or 1; and whatever text arrives from the
  page, it answers at most one permission request, one still open, with an option the agent offered.
\<close>

theorem page_can_only_do_what_it_may:
  assumes "(notch_run h)\<^sup>*\<^sup>* (notch_start cpus) s"
  shows "(\<forall>x\<in>set (nm_stopped s). port_pid (sp_port x) > 1 \<and> port_pid (sp_port x) \<noteq> nh_pid h \<and>
      \<not> own_command (port_command (sp_port x)) \<and> \<not> isSystemListener (port_command (sp_port x))) \<and>
    (\<forall>t raw. nm_responded (onPageMessage h t raw s) = nm_responded s \<or>
      (\<exists>p\<in>set (nm_permissions s). \<exists>x\<in>oo_id ` set (ap_options p).
         nm_responded (onPageMessage h t raw s) = nm_responded s @ [(ap_id p, x)]))"
proof
  show "\<forall>x\<in>set (nm_stopped s). port_pid (sp_port x) > 1 \<and> port_pid (sp_port x) \<noteq> nh_pid h \<and>
      \<not> own_command (port_command (sp_port x)) \<and> \<not> isSystemListener (port_command (sp_port x))"
    using stopping.reached_inv [OF assms] by (auto simp: ports_ok_def another_program_def)
  show "\<forall>t raw. nm_responded (onPageMessage h t raw s) = nm_responded s \<or>
      (\<exists>p\<in>set (nm_permissions s). \<exists>x\<in>oo_id ` set (ap_options p).
         nm_responded (onPageMessage h t raw s) = nm_responded s @ [(ap_id p, x)])"
    using onPageMessage_answers by blast
qed


text \<open>A run for the witnesses: a turn that ends, and the System tab with two programs on it.\<close>

definition demo_host :: notch_host where
  "demo_host = \<lparr>nh_mac = False, nh_win = False, nh_pid = 7,
     nh_json = map_of [(''tab'', JObj [(''type'', JStr ''tab''), (''tab'', JStr ''mac'')]),
       (''stop'', JObj [(''type'', JStr ''stopPort''), (''pid'', JNum 42), (''port'', JNum 3000)])],
     nh_num = (\<lambda>_. [])\<rparr>"

definition demo_route :: turn_route where
  "demo_route = \<lparr>tr_provider = Some ''Local'', tr_model = Some ''m'', tr_local = True, tr_endpoint = None\<rparr>"

definition demo_idle :: notch_service where
  "demo_idle = onShellEvent demo_host 2000 (NEnd ''s'') (onShellEvent demo_host 1000 (NStart ''s'' demo_route) (notch_start []))"

definition demo_lsof :: string where
  "demo_lsof = js_join [nl] [''p7'', ''cHivemindIDE'', ''n*:4000'', ''p42'', ''cnode'', ''n*:3000'']"

definition demo_moment :: notch_moment where "demo_moment = \<lparr>at_ms = 3000, at_cpus = []\<rparr>"

definition demo_ports :: notch_service where
  "demo_ports = onPageMessage demo_host demo_moment (NOTCH_MESSAGE_PREFIX @ ''stop'')
     (system_read demo_host 3000 \<lparr>to_vm = None, to_batt = None, to_lsof = Some demo_lsof, to_free = 1, to_total = 2, to_thermal = []\<rparr>
       (onPageMessage demo_host demo_moment (NOTCH_MESSAGE_PREFIX @ ''tab'') (notch_start [])))"

lemma demo_idle_reached: "(notch_run demo_host)\<^sup>*\<^sup>* (notch_start []) demo_idle"
  unfolding demo_idle_def by (meson Agent rtranclp.rtrancl_into_rtrancl rtranclp.rtrancl_refl)

lemma demo_ports_reached: "(notch_run demo_host)\<^sup>*\<^sup>* (notch_start []) demo_ports"
  unfolding demo_ports_def by (meson Page SystemRead rtranclp.rtrancl_into_rtrancl rtranclp.rtrancl_refl)

lemma demo_idle_state:
  "nm_held demo_idle = [0]" "nm_mode demo_idle = KeepAuto" "nm_open demo_idle = []" "nm_awakeDue demo_idle = Some 122050"
  by (simp_all add: demo_idle_def notch_start_def onShellEvent_def add_turn_def show_session_def Let_def
      reconcileKeepAwake_def awake_lapses_def awake_reason_def keepAwakeReason_def turns_open_def startBlocker_def
      releaseBlocker_def push_def KEEP_AWAKE_GRACE_MS_def)

lemma demo_shown_ports:
  "shown_ports 7 demo_lsof =
     [\<lparr>sp_port = \<lparr>port_pid = 42, port_command = ''node'', port = 3000, address = ''*''\<rparr>, sp_own = False\<rparr>,
      \<lparr>sp_port = \<lparr>port_pid = 7, port_command = ''HivemindIDE'', port = 4000, address = ''*''\<rparr>, sp_own = True\<rparr>]"
  by code_simp

lemma demo_ports_stopped: "map (port_pid \<circ> sp_port) (nm_stopped demo_ports) = [42]"
  by (simp add: demo_ports_def onPageMessage_def NOTCH_MESSAGE_PREFIX_def demo_host_def page_message_def refreshSystem_def
      notch_start_def system_read_def stopPort_def demo_shown_ports push_def Let_def)

lemma awake_while_agents_work_witness:
  "nm_held demo_idle = [0] \<and> nm_blocker demo_idle = Some 0"
  using awake_while_agents_work [OF demo_idle_reached] demo_idle_state(1) by (auto split: option.splits)


lemma page_can_only_do_what_it_may_witness:
  "map (port_pid \<circ> sp_port) (nm_stopped demo_ports) = [42] \<and> list_all (\<lambda>x. port_pid (sp_port x) \<noteq> 7) (nm_stopped demo_ports)"
  using page_can_only_do_what_it_may [OF demo_ports_reached] demo_ports_stopped by (simp add: list_all_iff demo_host_def)

section \<open>Other facts\<close>

text \<open>The two modules colour a percentage alike.\<close>

lemma severityOfPercent_is_severityOf: "severityOfPercent p = severityOf p"
  by (simp add: severityOfPercent_def severityOf_def)

text \<open>Whenever the pointer is sampled the page shows the phase of that moment.\<close>

lemma cursor_keeps_the_phase:
  assumes "nm_window s" "nm_pageReady s" "nm_notch s = Some n"
  shows "nm_lastPushed (pushCursor h now key s) = Some (service_phase now s)"
  using assms by (simp add: pushCursor_def push_def Let_def)

text \<open>The window is centred on the notch to half a point.\<close>

lemma window_is_centred:
  assumes "nm_window s" "nm_notch s = Some n"
  obtains x where "nm_bounds (position s) = Some (x, ry (place n))"
    "\<bar>of_int x + of_int WINDOW_WIDTH / 2 - (rx (place n) + rwidth (place n) / 2)\<bar> \<le> 1 / 2"
proof -
  let ?r = "rx (place n) + rwidth (place n) / 2 - of_int WINDOW_WIDTH / 2"
  have "\<bar>of_int (js_round ?r) - ?r\<bar> \<le> 1 / 2" unfolding js_round_def by linarith
  moreover have "nm_bounds (position s) = Some (js_round ?r, ry (place n))" using assms by (simp add: position_def)
  ultimately show ?thesis using that by (auto simp: abs_minus_commute algebra_simps)
qed

text \<open>
  A turn whose end was lost stops counting as working after a quarter of an hour, but the computer stays awake
  for it without end.
\<close>

lemma lost_end_keeps_awake:
  assumes "awake_ok s" "turns_open s" "nm_setting s" "nm_mode s \<noteq> KeepOff" "nm_permissions s = []"
    and "now - nm_lastEventAt s \<ge> NOTCH_STUCK_MS"
  shows "service_phase now s = PhaseIdle \<and> nm_held s \<noteq> []"
  using assms by (auto simp: service_phase_def notchPhase_def awake_ok_def agents_hold_def held_ok_def)

text \<open>Text of a session that arrives after its end opens a turn that has no end.\<close>

lemma reconcileKeepAwake_open [simp]: "nm_open (reconcileKeepAwake h now s) = nm_open s"
  by (simp add: reconcileKeepAwake_def releaseBlocker_def startBlocker_def Let_def split: option.split)

lemma late_text_opens_a_turn: "set (nm_open (onShellEvent h now (NText sid) s)) = insert sid (set (nm_open s))"
  by (auto simp: onShellEvent_def agent_spoke_def show_session_def add_turn_def Let_def)

text \<open>A window that is destroyed leaves its wish to keep the computer awake behind.\<close>

lemma destroyed_window_keeps_its_wish: "nm_setting (window_destroyed h now win s) = nm_setting s"
  using quiet_awake(3) [of h now win s] by (simp add: awake_part_def)

text \<open>Elsewhere than on a Mac the first detection is the only one: the drawn notch stays where it was.\<close>

lemma drawn_notch_never_moves:
  assumes "\<not> nh_mac h" "\<not> nm_probing s" "\<not> nm_detecting s"
  shows "nm_notch (displays_changed h now primary' area' (detect h primary area s)) = Some (virtualNotch primary area False)"
  using assms
  by (simp add: displays_changed_def detect_def reconcile_def open_window_def close_window_def position_def push_def Let_def
      split: option.split)

text \<open>While another session works, text of a session takes the card over, but the page is not told.\<close>

lemma other_session_is_not_shown:
  assumes "service_phase now s = Working" "sid \<in> set (nm_open s)"
  shows "nm_pushed (onShellEvent h now (NText sid) s) = nm_pushed s \<and> nm_current (onShellEvent h now (NText sid) s) = Some sid"
  using assms by (simp add: onShellEvent_def agent_spoke_def show_session_def Let_def)

text \<open>Of the four kinds of options only three are shown: what is left out is the one that allows once.\<close>

lemma allow_once_is_not_offered:
  "map oo_kind (shown_options
     [\<lparr>oo_id = ''1'', oo_name = ''Allow'', oo_kind = ''allow_once''\<rparr>, \<lparr>oo_id = ''2'', oo_name = ''Always'', oo_kind = ''allow_always''\<rparr>,
      \<lparr>oo_id = ''3'', oo_name = ''Reject'', oo_kind = ''reject_once''\<rparr>, \<lparr>oo_id = ''4'', oo_name = ''Never'', oo_kind = ''reject_always''\<rparr>])
   = [''reject_once'', ''reject_always'', ''allow_always'']"
  by code_simp

end
