(* ===== verification/Shell_Turn.thy ===== *)
theory Shell_Turn
  imports Shell_Agent
begin

text \<open>
  One turn of the Hivemind shell: the loop that runs a prompt on a route and, when the route fails,
  moves to the combo's next target or to a backup provider: \<open>runShellTurn\<close>, \<open>continuation\<close> and
  \<open>stoppedMessage\<close> of \<open>browser/shell/shellChatAgent.ts\<close>. One iteration of the loop is \<open>turn_step\<close>;
  what the outside world does in it (the outcome of the attempt, the user's pick, cancellation, what
  other windows and calls change meanwhile) is its argument. Progress messages are not modelled.
\<close>

definition SHELL_RESUME_PROMPT :: string where
  "SHELL_RESUME_PROMPT = ''Your previous reply was cut off because its model provider failed. Continue exactly where you stopped.''"

definition SHELL_HANDOFF_NOTE :: string where
  "SHELL_HANDOFF_NOTE = ''Another agent started on this request and was cut off when its model provider failed. Carry on from where it stopped; do not repeat what it already did. What it had written:''"

definition blank_line :: string where "blank_line = [nl, nl]"

record turn_state =
  ts_prompt :: string
  ts_text :: string
  ts_combo :: "string option"
  ts_queue :: "shell_route list"
  ts_tried :: "string set"
  ans_text :: string
  ans_route :: shell_route
  ans_switches :: "string list"
  ans_session :: "string option"

text \<open>How an attempt on the current route ends, with the text it streamed and the time it took.\<close>

datatype attempt =
    Done string string real          \<comment> \<open>streamed text, session id\<close>
  | Failed string string real bool   \<comment> \<open>streamed text, error message, cancelled\<close>

record turn_env =
  env_attempt :: attempt
  env_during :: "shell_world \<Rightarrow> shell_world"   \<comment> \<open>what changes while the attempt runs\<close>
  env_now :: int
  env_pick :: "failover_provider list \<Rightarrow> user_pick"
  env_pick_cancelled :: bool
  env_cancelled :: bool              \<comment> \<open>cancelled once a backup was chosen\<close>
  env_meanwhile :: "failover_state \<Rightarrow> failover_state"

datatype turn_outcome =
    Next shell_world turn_state
  | Returned shell_world turn_state
  | Threw shell_world turn_state string

definition backend :: "shell_world \<Rightarrow> shell_route \<Rightarrow> string" where
  "backend w r = (case cliAgentFor w r of Some a \<Rightarrow> cli_id a | None \<Rightarrow> ''runtime'')"

definition continuation :: "shell_world \<Rightarrow> turn_state \<Rightarrow> shell_route \<Rightarrow> string" where
  "continuation w t q =
     (if backend w q = backend w (ans_route t)
      then (if ans_text t \<noteq> [] \<or> ts_text t \<noteq> ts_prompt t then SHELL_RESUME_PROMPT else ts_prompt t)
      else (if ans_text t \<noteq> [] then ts_prompt t @ blank_line @ SHELL_HANDOFF_NOTE @ blank_line @ ans_text t
            else ts_prompt t))"

definition stoppedMessage :: "failover_state \<Rightarrow> string \<Rightarrow> provider_failure \<Rightarrow> string" where
  "stoppedMessage s name f =
     (let what = name @ '' '' @ describeFailure f @ '': '' @ message f in
      if fo_mode s = Off then what
      else if fo_providers s = [] then
        what @ blank_line @ ''To continue on another provider when this happens, run HivemindIDE: Add AI Provider'' @ ellipsis @ '' Then reply \"continue\".''
      else what @ blank_line @ ''Reply \"continue\" to resume this answer.'')"

definition cli_backups :: "shell_world \<Rightarrow> failover_provider list" where
  "cli_backups w = map (\<lambda>a. \<lparr>pname = cli_name a, purl = ''cli:'' @ cli_id a,
     pmodel = (case cli_models a of [] \<Rightarrow> ''default'' | m # _ \<Rightarrow> m), pmodels = None, penabled = None\<rparr>)
     (cliAgents w)"

definition record_world :: "shell_route \<Rightarrow> bool \<Rightarrow> real \<Rightarrow> int \<Rightarrow> string option \<Rightarrow> shell_world \<Rightarrow> shell_world" where
  "record_world r ok ms now err w = w\<lparr>sv := sv_record (rid r) ok ms (of_int now) err (sv w)\<rparr>"

text \<open>The \<open>catch\<close> branch, once the error is known not to be about tools.\<close>

definition switch_note :: "turn_state \<Rightarrow> provider_failure \<Rightarrow> string \<Rightarrow> shell_route \<Rightarrow> string" where
  "switch_note t f combo q = rid (ans_route t) @ '' failed ('' @ describeFailure f @ ''). Combo '' @ combo
     @ '' continued on '' @ rid q @ ''.''"

definition failover_note :: "turn_state \<Rightarrow> provider_failure \<Rightarrow> shell_route \<Rightarrow> string" where
  "failover_note t f q = rprovider (ans_route t) @ '' '' @ describeFailure f @ ''. Continued on ''
     @ rprovider q @ '' ('' @ rmodel q @ '').''"

definition move_to :: "shell_world \<Rightarrow> turn_state \<Rightarrow> shell_route \<Rightarrow> string \<Rightarrow> turn_state" where
  "move_to w t q note = t\<lparr>ans_switches := ans_switches t @ [note], ts_text := continuation w t q, ans_route := q\<rparr>"

definition ask_failover ::
  "turn_env \<Rightarrow> provider_failure \<Rightarrow> string \<Rightarrow> shell_world \<Rightarrow> turn_state \<Rightarrow> turn_outcome" where
  "ask_failover e f msg w t =
     (if \<not> isFailoverReason (kind f) then Threw w t msg
      else let (nxt, s') = chooseNext (rprovider (ans_route t)) (ts_tried t) (cli_backups w) (env_now e)
                              (env_pick e) (env_pick_cancelled e) (env_meanwhile e) (fo w);
               w' = w\<lparr>fo := s'\<rparr>;
               nextRoute = Option.bind nxt (\<lambda>p. getRoute w' (Some (routeId (pname p) (pmodel p))))
           in if env_cancelled e then Returned w' t
              else (case nextRoute of
                      None \<Rightarrow> Threw w' t (stoppedMessage (fo w') (rprovider (ans_route t)) f)
                    | Some q \<Rightarrow> Next w' (move_to w' t q (failover_note t f q))))"

definition handle_failure ::
  "turn_env \<Rightarrow> string \<Rightarrow> real \<Rightarrow> shell_world \<Rightarrow> turn_state \<Rightarrow> turn_outcome" where
  "handle_failure e msg ms w t =
     (let w1 = record_world (ans_route t) False ms (env_now e) (Some msg) w;
          f = classifyProviderError msg;
          w2 = (if isFailoverReason (kind f)
                then w1\<lparr>fo := markFailed (rprovider (ans_route t)) f (env_now e) (fo w1)\<rparr> else w1);
          t1 = t\<lparr>ts_queue := tl (ts_queue t)\<rparr>
      in case (ts_combo t, ts_queue t) of
           (Some combo, q # _) \<Rightarrow> Next w2 (move_to w2 t1 q (switch_note t1 f combo q))
         | _ \<Rightarrow> ask_failover e f msg w2 t1)"

definition turn_step :: "turn_env \<Rightarrow> shell_world \<Rightarrow> turn_state \<Rightarrow> turn_outcome" where
  "turn_step e w0 t0 =
     (let t = t0\<lparr>ts_tried := insert (rprovider (ans_route t0)) (ts_tried t0)\<rparr>;
          r = ans_route t; w = env_during e w0 in
      if isToolless (rid r) (sv w0) then
        \<comment> \<open>a plain streamed answer, outside the \<open>try\<close>\<close>
        (case env_attempt e of
           Done txt _ ms \<Rightarrow> Returned (record_world r True ms (env_now e) None w) (t\<lparr>ans_text := ans_text t @ txt\<rparr>)
         | Failed txt msg _ _ \<Rightarrow> Threw w (t\<lparr>ans_text := ans_text t @ txt\<rparr>) msg)
      else (case env_attempt e of
           Done txt sid ms \<Rightarrow>
             (let w1 = record_world r True ms (env_now e) None w;
                  w2 = (case ts_combo t of Some c \<Rightarrow> w1\<lparr>sv := comboSucceeded c (rid r) (sv w1)\<rparr> | None \<Rightarrow> w1)
              in Returned w2 (t\<lparr>ans_text := ans_text t @ txt, ans_session := Some sid\<rparr>))
         | Failed txt msg ms cancelled \<Rightarrow>
             (let t' = t\<lparr>ans_text := ans_text t @ txt\<rparr> in
              if cancelled then Threw w t' msg
              else if isToolSupportError msg then Next (w\<lparr>sv := markToolless (rid r) (sv w)\<rparr>) t'
              else handle_failure e msg ms w t')))"

text \<open>The loop, with fuel; \<open>None\<close> is still running.\<close>

fun turn_loop :: "nat \<Rightarrow> (nat \<Rightarrow> turn_env) \<Rightarrow> nat \<Rightarrow> shell_world \<Rightarrow> turn_state \<Rightarrow> turn_outcome option" where
  "turn_loop 0 es k w t = None"
| "turn_loop (Suc n) es k w t =
     (case turn_step (es k) w t of
        Next w' t' \<Rightarrow> turn_loop n es (Suc k) w' t'
      | out \<Rightarrow> Some out)"

definition start_turn :: "string \<Rightarrow> shell_route \<Rightarrow> shell_route list \<Rightarrow> shell_route \<Rightarrow> turn_state" where
  "start_turn prompt asked queue first = \<lparr>ts_prompt = prompt, ts_text = prompt,
     ts_combo = (if rprovider asked = COMBO_PROVIDER then Some (rmodel asked) else None),
     ts_queue = queue, ts_tried = {}, ans_text = [], ans_route = first, ans_switches = [],
     ans_session = None\<rparr>"

definition runShellTurn ::
  "nat \<Rightarrow> string \<Rightarrow> shell_route \<Rightarrow> (nat \<Rightarrow> real) \<Rightarrow> int \<Rightarrow> (nat \<Rightarrow> turn_env) \<Rightarrow> shell_world \<Rightarrow> turn_outcome option"
where
  "runShellTurn fuel prompt asked rnd now es w =
     (case plan now rnd asked w of
        None \<Rightarrow> None
      | Some ([], w') \<Rightarrow> Some (Threw w' (start_turn prompt asked [] asked)
          (''The combo '' @ rmodel asked @ '' has no targets it can run on. Add some in the Serviced AI tab.''))
      | Some (first # queue, w') \<Rightarrow> turn_loop fuel es 0 w' (start_turn prompt asked queue first))"

section \<open>The turn ends\<close>

text \<open>
  What the world has to keep for the loop to end: the names of the providers and CLIs stay within a
  finite set and contain no slash (so a route id names its provider). Nothing is asked of how attempts end, of the user, or of the order of the failures.
\<close>

definition fo_ok :: "string set \<Rightarrow> failover_state \<Rightarrow> bool" where
  "fo_ok U s \<longleftrightarrow> (\<forall>p\<in>set (fo_providers s). pname p \<in> U \<and> CHR ''/'' \<notin> set (pname p)) \<and>
     distinct (map fst (fo_cooldowns s))"

definition world_ok :: "string set \<Rightarrow> shell_world \<Rightarrow> bool" where
  "world_ok U w \<longleftrightarrow> fo_ok U (fo w) \<and>
     (\<forall>a\<in>set (cliAgents w). cli_name a \<in> U \<and> CHR ''/'' \<notin> set (cli_name a))"

definition env_ok :: "string set \<Rightarrow> turn_env \<Rightarrow> bool" where
  "env_ok U e \<longleftrightarrow>
     (\<forall>w. world_ok U w \<longrightarrow> world_ok U (env_during e w)) \<and>
     (\<forall>s. fo_ok U s \<longrightarrow> fo_ok U (env_meanwhile e s))"

lemma fo_ok_cong:
  "providers_setting s' = providers_setting s \<Longrightarrow> distinct (map fst (fo_cooldowns s')) \<Longrightarrow> fo_ok U s \<Longrightarrow> fo_ok U s'"
  by (simp add: fo_ok_def fo_providers_def allProviders_def)

lemma distinct_cd_ops:
  assumes "distinct (map fst c)"
  shows "distinct (map fst (snd (cd_get c p now)))" "distinct (map fst (snd (cd_mark c p f now)))"
  using assms cd_ok_get [of c p now] cd_ok_mark [of c p f now] by (simp_all add: cd_ok_def)

lemma distinct_thread_filter:
  "distinct (map fst c) \<Longrightarrow>
   distinct (map fst (snd (thread_filter (\<lambda>c p. cd_get c p now) nm keep c ps)))"
proof (induction ps arbitrary: c)
  case (Cons p ps)
  show ?case
  proof (cases "keep p")
    case True
    from distinct_cd_ops(1) [OF Cons.prems] Cons.IH True show ?thesis
      by (simp add: case_prod_beta Let_def)
  next
    case False
    with Cons show ?thesis by simp
  qed
qed simp

lemma fo_ok_choose_begin:
  assumes "fo_ok U s"
  shows "fo_ok U (snd (choose_begin failed tried extra now s))"
proof -
  let ?fc = "fallback_candidates failed tried extra now s"
  have d: "distinct (map fst (fo_cooldowns s))" using assms by (simp add: fo_ok_def)
  then have d1: "distinct (map fst (snd ?fc))"
    by (simp add: fallback_candidates_def availableFallbacks_def distinct_thread_filter)
  have "providers_setting (snd (choose_begin failed tried extra now s)) = providers_setting s"
    by (auto simp: choose_begin_def fo_cooldown_def case_prod_beta Let_def split: list.split option.split)
  moreover have "distinct (map fst (fo_cooldowns (snd (choose_begin failed tried extra now s))))"
    using d d1 distinct_cd_ops(1) [OF d1]
    by (auto simp: choose_begin_def fo_cooldown_def case_prod_beta Let_def split: list.split option.split)
  ultimately show ?thesis using assms by (rule fo_ok_cong)
qed

lemma fo_ok_choose_end: "fo_ok U s \<Longrightarrow> fo_ok U (snd (choose_end failed cs cd pick cancelled s))"
  by (rule fo_ok_cong [of _ s])
    (auto simp: choose_end_def setMode_def fo_ok_def split: option.split prod.split)

lemma fo_ok_chooseNext:
  assumes "fo_ok U s" "\<forall>s. fo_ok U s \<longrightarrow> fo_ok U (meanwhile s)"
  shows "fo_ok U (snd (chooseNext failed tried extra now user cancelled meanwhile s))"
  using fo_ok_choose_begin [OF assms(1), of failed tried extra now] assms(2) fo_ok_choose_end
  by (auto simp: chooseNext_def split: prod.split choice_step.split)

lemma world_ok_sv [simp]: "world_ok U (w\<lparr>sv := s\<rparr>) = world_ok U w"
  by (simp add: world_ok_def cliAgents_def)

lemma world_ok_fo: "world_ok U w \<Longrightarrow> fo_ok U s \<Longrightarrow> world_ok U (w\<lparr>fo := s\<rparr>)"
  by (simp add: world_ok_def cliAgents_def)

lemma world_ok_record [simp]: "world_ok U (record_world r ok ms now err w) = world_ok U w"
  by (simp add: record_world_def)

lemma fo_ok_markFailed: "fo_ok U s \<Longrightarrow> fo_ok U (markFailed p f now s)"
  by (rule fo_ok_cong [of _ s]) (auto simp: markFailed_def fo_ok_def intro: distinct_cd_ops)

text \<open>The route a backup's id leads to is the backup's own provider.\<close>

lemma getRoute_provider:
  assumes "world_ok U w" "getRoute w (Some (routeId n m)) = Some q" "CHR ''/'' \<notin> set n"
  shows "rprovider q = n"
proof -
  have q: "q \<in> set (world_routes w)" "rid q = routeId n m"
    using assms(2) findRoute_Some by (auto simp: getRoute_def)
  have "CHR ''/'' \<notin> set (rprovider q)"
    using q(1) assms(1)
    by (auto simp: world_routes_def model_routes_def combo_routes_def mk_route_def localRoutes_def
        shellRoutes_in AUTO_PROVIDER_def LOCAL_ROUTE_PROVIDER_def COMBO_PROVIDER_def world_ok_def
        fo_ok_def split: if_splits)
  then show ?thesis using q world_routes_id [OF q(1)] routeId_inj [OF _ assms(3)] by metis
qed

text \<open>Providers not tried yet, and the work left.\<close>

definition untried :: "string set \<Rightarrow> turn_state \<Rightarrow> nat" where
  "untried U t = card (U - insert (rprovider (ans_route t)) (ts_tried t))"

definition work_left :: "string set \<Rightarrow> shell_world \<Rightarrow> turn_state \<Rightarrow> nat" where
  "work_left U w t = 2 * (length (ts_queue t) + untried U t) +
     (if isToolless (rid (ans_route t)) (sv w) then 0 else 1)"

lemma untried_le:
  assumes "finite U" "insert (rprovider (ans_route t)) (ts_tried t) \<subseteq> ts_tried t'"
  shows "untried U t' \<le> untried U t"
  unfolding untried_def using assms by (intro card_mono) auto

lemma untried_less:
  assumes "finite U" "ts_tried t' = insert (rprovider (ans_route t)) (ts_tried t)"
    and "rprovider (ans_route t') \<in> U" "rprovider (ans_route t') \<notin> ts_tried t'"
  shows "untried U t' < untried U t"
  unfolding untried_def using assms by (intro psubset_card_mono) auto

lemma ask_failover_Next:
  assumes "ask_failover e f msg w t = Next w' t'"
    and "chooseNext (rprovider (ans_route t)) (ts_tried t) (cli_backups w) (env_now e)
      (env_pick e) (env_pick_cancelled e) (env_meanwhile e) (fo w) = (nxt, s')"
  shows "\<exists>p q. nxt = Some p \<and> getRoute (w\<lparr>fo := s'\<rparr>) (Some (routeId (pname p) (pmodel p))) = Some q \<and>
    w' = w\<lparr>fo := s'\<rparr> \<and> t' = move_to w' t q (failover_note t f q)"
proof -
  let ?g = "Option.bind nxt (\<lambda>p. getRoute (w\<lparr>fo := s'\<rparr>) (Some (routeId (pname p) (pmodel p))))"
  have out: "ask_failover e f msg w t =
    (if \<not> isFailoverReason (kind f) then Threw w t msg
     else if env_cancelled e then Returned (w\<lparr>fo := s'\<rparr>) t
     else (case ?g of
             None \<Rightarrow> Threw (w\<lparr>fo := s'\<rparr>) t (stoppedMessage (fo (w\<lparr>fo := s'\<rparr>)) (rprovider (ans_route t)) f)
           | Some q \<Rightarrow> Next (w\<lparr>fo := s'\<rparr>) (move_to (w\<lparr>fo := s'\<rparr>) t q (failover_note t f q))))"
    unfolding ask_failover_def Let_def assms(2) prod.case by (rule refl)
  obtain q where g: "?g = Some q"
    using assms(1) unfolding out by (cases ?g) (simp_all split: if_splits)
  then obtain p where p: "nxt = Some p"
      "getRoute (w\<lparr>fo := s'\<rparr>) (Some (routeId (pname p) (pmodel p))) = Some q"
    by (cases nxt) simp_all
  have "Next w' t' = Next (w\<lparr>fo := s'\<rparr>) (move_to (w\<lparr>fo := s'\<rparr>) t q (failover_note t f q))"
    using assms(1) unfolding out g by (cases "isFailoverReason (kind f)"; cases "env_cancelled e"; simp)
  with p show ?thesis by blast
qed

lemma ask_failover_progress:
  assumes "ask_failover e f msg w t = Next w' t'" "world_ok U w" "env_ok U e"
  shows "world_ok U w' \<and> ts_queue t' = ts_queue t \<and> ts_tried t' = ts_tried t \<and>
    rprovider (ans_route t') \<in> U \<and> rprovider (ans_route t') \<notin> ts_tried t"
proof -
  let ?c = "chooseNext (rprovider (ans_route t)) (ts_tried t) (cli_backups w) (env_now e)
      (env_pick e) (env_pick_cancelled e) (env_meanwhile e) (fo w)"
  obtain nxt s' where c: "?c = (nxt, s')" by fastforce
  note progress = ask_failover_Next [OF assms(1) c]
  obtain p q where p: "nxt = Some p"
      and q: "getRoute (w\<lparr>fo := s'\<rparr>) (Some (routeId (pname p) (pmodel p))) = Some q"
      and w': "w' = w\<lparr>fo := s'\<rparr>" and t': "t' = move_to w' t q (failover_note t f q)"
    using progress by blast
  have fo: "fo_ok U (fo w)" using assms(2) by (simp add: world_ok_def)
  then have "fo_ok U s'" using fo_ok_chooseNext [OF fo, of "env_meanwhile e"] assms(3) c
    by (metis env_ok_def snd_conv)
  then have ok: "world_ok U w'" using assms(2) w' by (simp add: world_ok_fo)
  have "p \<in> set (fo_providers (fo w)) \<union> set (cli_backups w) \<and> pname p \<notin> ts_tried t"
    using chooseNext_sound_aux [of "fo w"] c p fo by (auto simp: fo_ok_def)
  moreover then have "pname p \<in> U" "CHR ''/'' \<notin> set (pname p)"
    using assms(2) by (auto simp: world_ok_def fo_ok_def cli_backups_def)
  moreover have "rprovider q = pname p"
    using getRoute_provider [OF ok] q w' \<open>CHR ''/'' \<notin> set (pname p)\<close> by blast
  ultimately show ?thesis using ok t' by (simp add: move_to_def)
qed

lemma turn_step_Next:
  assumes "turn_step e w t = Next w' t'"
  shows "\<exists>txt msg ms. env_attempt e = Failed txt msg ms False \<and> \<not> isToolless (rid (ans_route t)) (sv w) \<and>
    (let t1 = t\<lparr>ts_tried := insert (rprovider (ans_route t)) (ts_tried t), ans_text := ans_text t @ txt\<rparr>;
         w1 = env_during e w
     in if isToolSupportError msg
        then w' = w1\<lparr>sv := markToolless (rid (ans_route t)) (sv w1)\<rparr> \<and> t' = t1
        else handle_failure e msg ms w1 t1 = Next w' t')"
proof (cases "isToolless (rid (ans_route t)) (sv w)")
  case True
  with assms show ?thesis by (simp add: turn_step_def Let_def split: attempt.splits)
next
  case False
  show ?thesis
  proof (cases "env_attempt e")
    case (Done str sid ms)
    with assms False show ?thesis by (simp add: turn_step_def Let_def)
  next
    case (Failed str msg ms c)
    with assms False show ?thesis by (simp add: turn_step_def Let_def split: if_splits)
  qed
qed

lemma handle_failure_Next:
  assumes "handle_failure e msg ms w t = Next w' t'" "world_ok U w" "env_ok U e"
  shows "world_ok U w' \<and> ts_tried t' = ts_tried t \<and>
    (length (ts_queue t') < length (ts_queue t) \<or>
     length (ts_queue t') \<le> length (ts_queue t) \<and>
       rprovider (ans_route t') \<in> U \<and> rprovider (ans_route t') \<notin> ts_tried t)"
proof -
  let ?f = "classifyProviderError msg"
  define w2 where "w2 = (let w1 = record_world (ans_route t) False ms (env_now e) (Some msg) w in
      if isFailoverReason (kind ?f)
      then w1\<lparr>fo := markFailed (rprovider (ans_route t)) ?f (env_now e) (fo w1)\<rparr> else w1)"
  let ?t1 = "t\<lparr>ts_queue := tl (ts_queue t)\<rparr>"
  have fow: "fo_ok U (fo w)" using assms(2) by (simp add: world_ok_def)
  have "world_ok U w2"
    unfolding w2_def Let_def
    using assms(2) world_ok_fo fo_ok_markFailed [OF fow] by (simp add: record_world_def)
  show ?thesis
  proof (cases "\<exists>combo q qs. ts_combo t = Some combo \<and> ts_queue t = q # qs")
    case True
    then obtain combo q qs where c: "ts_combo t = Some combo" "ts_queue t = q # qs" by blast
    then have "w' = w2 \<and> t' = move_to w2 ?t1 q (switch_note ?t1 ?f combo q)"
      using assms(1) by (auto simp: handle_failure_def w2_def Let_def)
    with c \<open>world_ok U w2\<close> show ?thesis by (simp add: move_to_def)
  next
    case False
    then have "ask_failover e ?f msg w2 ?t1 = Next w' t'"
      using assms(1) by (auto simp: handle_failure_def w2_def Let_def split: option.splits list.splits)
    from ask_failover_progress [OF this \<open>world_ok U w2\<close> assms(3)] show ?thesis by simp
  qed
qed

lemma turn_step_progress:
  assumes "turn_step e w t = Next w' t'" "world_ok U w" "env_ok U e" "finite U"
  shows "world_ok U w' \<and> work_left U w' t' < work_left U w t"
proof -
  let ?p = "rprovider (ans_route t)"
  obtain str msg ms where a: "\<not> isToolless (rid (ans_route t)) (sv w)"
    and n: "let t1 = t\<lparr>ts_tried := insert ?p (ts_tried t), ans_text := ans_text t @ str\<rparr>; w1 = env_during e w
     in if isToolSupportError msg
        then w' = w1\<lparr>sv := markToolless (rid (ans_route t)) (sv w1)\<rparr> \<and> t' = t1
        else handle_failure e msg ms w1 t1 = Next w' t'"
    using turn_step_Next [OF assms(1)] by blast
  let ?t1 = "t\<lparr>ts_tried := insert ?p (ts_tried t), ans_text := ans_text t @ str\<rparr>"
  have ok: "world_ok U (env_during e w)" using assms(2,3) by (simp add: env_ok_def)
  have left: "work_left U w t = 2 * (length (ts_queue t) + untried U t) + 1"
    using a by (simp add: work_left_def)
  show ?thesis
  proof (cases "isToolSupportError msg")
    case True
    with n have w': "w' = (env_during e w)\<lparr>sv := markToolless (rid (ans_route t)) (sv (env_during e w))\<rparr>"
      and t': "t' = ?t1" by (simp_all add: Let_def)
    have "work_left U w' t' = 2 * (length (ts_queue t) + untried U t)"
      by (simp add: w' t' work_left_def untried_def isToolless_mark)
    with left ok w' show ?thesis by simp
  next
    case False
    with n have "handle_failure e msg ms (env_during e w) ?t1 = Next w' t'" by (simp add: Let_def)
    from handle_failure_Next [OF this ok assms(3)]
    have h: "world_ok U w'" "ts_tried t' = insert ?p (ts_tried t)"
      "length (ts_queue t') < length (ts_queue t) \<or> length (ts_queue t') \<le> length (ts_queue t) \<and>
        rprovider (ans_route t') \<in> U \<and> rprovider (ans_route t') \<notin> ts_tried t'" by simp_all
    have "length (ts_queue t') + untried U t' < length (ts_queue t) + untried U t"
      using h(3) untried_le [of U t t', OF assms(4)] untried_less [OF assms(4) h(2)] h(2) by fastforce
    with left h(1) show ?thesis by (simp add: work_left_def)
  qed
qed

lemma turn_loop_ends:
  assumes "finite U" "\<forall>k. env_ok U (es k)" "world_ok U w" "work_left U w t < n"
  shows "turn_loop n es k w t \<noteq> None"
  using assms(3,4)
proof (induction n arbitrary: k w t)
  case (Suc n)
  show ?case
  proof (cases "turn_step (es k) w t")
    case (Next w' t')
    have e: "env_ok U (es k)" using assms(2) by blast
    from turn_step_progress [OF Next Suc.prems(1) e assms(1)] Suc.prems(2)
    have "turn_loop n es (Suc k) w' t' \<noteq> None" by (intro Suc.IH) auto
    with Next show ?thesis by simp
  qed simp_all
qed simp

lemma plan_fuel_world:
  "plan_fuel n now rnd r w = Some (rs, w') \<Longrightarrow> \<exists>s. w' = w\<lparr>sv := s\<rparr>"
proof (induction n arbitrary: r)
  case (Suc n)
  have same: "\<exists>s. w = w\<lparr>sv := s\<rparr>" by (rule exI [of _ "sv w"]) simp
  show ?case
  proof (cases "rprovider r = AUTO_PROVIDER")
    case True
    show ?thesis
    proof (cases "routeForTask w now AskTask")
      case None
      with Suc.prems True same show ?thesis by simp
    next
      case (Some q)
      with Suc True show ?thesis by simp
    qed
  next
    case False
    with Suc.prems same show ?thesis
      by (cases "rprovider r = COMBO_PROVIDER") (auto simp: Let_def case_prod_beta)
  qed
qed simp

lemma runShellTurn_returns:
  assumes "finite U" and "\<forall>k. env_ok U (es k)" and "world_ok U w"
    and "\<forall>a\<in>set (cliAgents w). cli_name a \<noteq> AUTO_PROVIDER"
  shows "\<exists>N. \<forall>fuel\<ge>N. runShellTurn fuel prompt asked rnd now es w \<noteq> None"
proof -
  obtain rs w' where p: "plan now rnd asked w = Some (rs, w')" using plan_returns [OF assms(4)] by blast
  show ?thesis
  proof (cases rs)
    case Nil
    with p show ?thesis by (simp add: runShellTurn_def)
  next
    case (Cons first queue)
    let ?t = "start_turn prompt asked queue first"
    have "world_ok U w'" using plan_fuel_world p assms(3) unfolding plan_def by fastforce
    then have "\<forall>fuel\<ge>Suc (work_left U w' ?t). turn_loop fuel es 0 w' ?t \<noteq> None"
      using turn_loop_ends [OF assms(1,2), of w' ?t _ 0] by (simp add: less_eq_Suc_le)
    with p Cons show ?thesis by (auto simp: runShellTurn_def)
  qed
qed



section \<open>The order of the routes\<close>

text \<open>The states a turn goes through: \<open>k\<close> rounds after its start.\<close>

inductive turn_reaches ::
  "(nat \<Rightarrow> turn_env) \<Rightarrow> shell_world \<Rightarrow> turn_state \<Rightarrow> nat \<Rightarrow> shell_world \<Rightarrow> turn_state \<Rightarrow> bool"
  for es w0 t0 where
  reaches_start: "turn_reaches es w0 t0 0 w0 t0"
| reaches_step: "turn_reaches es w0 t0 k w t \<Longrightarrow> turn_step (es k) w t = Next w' t' \<Longrightarrow>
    turn_reaches es w0 t0 (Suc k) w' t'"

inductive_cases turn_reaches_Suc: "turn_reaches es w0 t0 (Suc k) w t"

lemma ask_failover_keeps:
  assumes "ask_failover e f msg w t = Next w' t'"
  shows "ts_queue t' = ts_queue t \<and> ts_combo t' = ts_combo t \<and> ts_prompt t' = ts_prompt t \<and>
    ans_text t' = ans_text t \<and> ts_tried t' = ts_tried t"
proof -
  obtain nxt s' where c: "chooseNext (rprovider (ans_route t)) (ts_tried t) (cli_backups w) (env_now e)
      (env_pick e) (env_pick_cancelled e) (env_meanwhile e) (fo w) = (nxt, s')" by fastforce
  from ask_failover_Next [OF assms c] show ?thesis by (auto simp: move_to_def)
qed

lemma handle_failure_keeps:
  assumes "handle_failure e msg ms w t = Next w' t'"
  shows "ts_queue t' = tl (ts_queue t) \<and> ts_combo t' = ts_combo t \<and>
    (ts_combo t \<noteq> None \<longrightarrow> ts_queue t \<noteq> [] \<longrightarrow> ans_route t' = hd (ts_queue t))"
proof (cases "\<exists>c q qs. ts_combo t = Some c \<and> ts_queue t = q # qs")
  case True
  with assms show ?thesis by (auto simp: handle_failure_def Let_def move_to_def)
next
  case False
  then obtain w2 where "ask_failover e (classifyProviderError msg) msg w2
      (t\<lparr>ts_queue := tl (ts_queue t)\<rparr>) = Next w' t'"
    using assms by (auto simp: handle_failure_def Let_def split: option.splits list.splits)
  from ask_failover_keeps [OF this] False show ?thesis by (cases "ts_queue t") auto
qed

text \<open>
  Property C2: a turn on a combo works down the plan in order: whatever has failed, it is on the
  planned target it has come to, with exactly the later targets queued, until none is left.
\<close>

theorem turn_walks_the_combo:
  assumes "turn_reaches es w0 (start_turn prompt asked queue first) k w t"
    and "rprovider asked = COMBO_PROVIDER"
  shows "\<exists>j\<le>k. ts_queue t = drop j queue \<and> (j \<le> length queue \<longrightarrow> ans_route t = (first # queue) ! j)"
proof -
  have "ts_combo t = Some (rmodel asked) \<and>
    (\<exists>j\<le>k. ts_queue t = drop j queue \<and> (j \<le> length queue \<longrightarrow> ans_route t = (first # queue) ! j))"
    using assms(1)
  proof induction
    case reaches_start
    then show ?case using assms(2) by (simp add: start_turn_def)
  next
    case (reaches_step k w t w' t')
    then obtain j where j: "ts_combo t = Some (rmodel asked)" "j \<le> k" "ts_queue t = drop j queue"
      "j \<le> length queue \<longrightarrow> ans_route t = (first # queue) ! j" by blast
    obtain str msg ms where n: "let t1 = t\<lparr>ts_tried := insert (rprovider (ans_route t)) (ts_tried t), ans_text := ans_text t @ str\<rparr>; w1 = env_during (es k) w
     in if isToolSupportError msg
        then w' = w1\<lparr>sv := markToolless (rid (ans_route t)) (sv w1)\<rparr> \<and> t' = t1
        else handle_failure (es k) msg ms w1 t1 = Next w' t'"
      using turn_step_Next [OF reaches_step(2)] by blast
    show ?case
    proof (cases "isToolSupportError msg")
      case True
      with n j show ?thesis by (auto simp: Let_def intro!: exI [of _ j])
    next
      case False
      with n have "handle_failure (es k) msg ms (env_during (es k) w)
        (t\<lparr>ts_tried := insert (rprovider (ans_route t)) (ts_tried t), ans_text := ans_text t @ str\<rparr>) = Next w' t'"
        by (simp add: Let_def)
      from handle_failure_keeps [OF this] j
      have h: "ts_queue t' = drop (Suc j) queue" "ts_combo t' = Some (rmodel asked)"
        "j < length queue \<longrightarrow> ans_route t' = queue ! j"
        by (simp_all add: drop_Suc tl_drop hd_drop_conv_nth)
      show ?thesis using h j(2) by (intro conjI exI [of _ "Suc j"]) auto
    qed
  qed
  then show ?thesis by blast
qed

definition demo_turn_env :: "nat \<Rightarrow> turn_env" where
  "demo_turn_env k = \<lparr>env_attempt = Failed ''so far'' ''boom'' 10 False, env_during = id, env_now = int k,
     env_pick = (\<lambda>ps. PickStop), env_pick_cancelled = False, env_cancelled = False, env_meanwhile = id\<rparr>"

lemma demo_combo_step:
  "\<exists>w' t'. turn_step (demo_turn_env 0) demo_world
     (start_turn ''fix it'' (mk_route COMBO_PROVIDER ''Daily'') [mk_route ''B'' ''m''] (mk_route ''A'' ''m'')) = Next w' t'"
proof -
  have "\<not> isToolSupportError ''boom''" by code_simp
  moreover have "\<not> isToolless i (sv demo_world)" for i
    by (simp add: isToolless_def demo_world_def demo_serviced_def sv_start_def)
  ultimately show ?thesis
    by (simp add: turn_step_def demo_turn_env_def handle_failure_def start_turn_def mk_route_def Let_def)
qed

lemma turn_walks_the_combo_witness:
  "\<exists>w' t'. turn_reaches demo_turn_env demo_world
     (start_turn ''fix it'' (mk_route COMBO_PROVIDER ''Daily'') [mk_route ''B'' ''m''] (mk_route ''A'' ''m'')) (Suc 0) w' t' \<and>
   (\<exists>j\<le>Suc 0. ts_queue t' = drop j [mk_route ''B'' ''m''])"
proof -
  let ?t = "start_turn ''fix it'' (mk_route COMBO_PROVIDER ''Daily'') [mk_route ''B'' ''m''] (mk_route ''A'' ''m'')"
  obtain w' t' where "turn_step (demo_turn_env 0) demo_world ?t = Next w' t'" using demo_combo_step by blast
  then have r: "turn_reaches demo_turn_env demo_world ?t (Suc 0) w' t'"
    using reaches_step [OF reaches_start] by blast
  have "rprovider (mk_route COMBO_PROVIDER ''Daily'') = COMBO_PROVIDER" by (simp add: mk_route_def)
  from turn_walks_the_combo [OF r this] r show ?thesis by blast
qed

end
