(* ===== verification/Hivemind_Service.thy ===== *)
theory Hivemind_Service
  imports Hivemind_Node
begin

text \<open>
  The node graph and its writers: \<open>browser/hivemind/hivemindService.ts\<close>. The files are a map from
  path to text; the operations the service queues per node are single steps. A date is its UTC
  fields and its ISO string. Change events, trust and the folder set-up are outside the model.
\<close>

record hm_node =
  nd_header :: hm_header
  nd_uri :: string
  nd_goal :: string
  nd_handoff :: string
  nd_files :: "string list"
  nd_chatSession :: "string option"
  nd_killed :: bool
  nd_route :: "string option"
  nd_shellSession :: "string option"

record hm_turn =
  question :: string
  answer :: string
  turn_files :: "string list"
  turn_model :: "string option"
  interrupted :: bool
  switches :: "string list"
  turn_route :: "string option"
  turn_shellSession :: "string option"

record hm_state =
  hm_folder :: "string option"
  hm_files :: "string \<rightharpoonup> string"
  hm_nodes :: "hm_node list"
  deletedIds :: "string list"
  blockedSessions :: "string list"
  runningIds :: "string list"
  hm_author :: string

record hm_date =
  date :: utc_date
  iso :: string

definition MAX_LOG_ENTRIES :: nat where "MAX_LOG_ENTRIES = 30"
definition MAX_FILES :: nat where "MAX_FILES = 30"
definition LOG_ANSWER_CHARS :: nat where "LOG_ANSWER_CHARS = 1500"
definition HANDOFF_ANSWER_CHARS :: nat where "HANDOFF_ANSWER_CHARS = 700"

section \<open>Text\<close>

definition isKilled :: "hm_document \<Rightarrow> bool" where
  "isKilled d \<longleftrightarrow> (''killed'', ''true'') \<in> set (extraHeader d)"

definition setExtraHeader :: "string \<Rightarrow> string option \<Rightarrow> hm_document \<Rightarrow> hm_document" where
  "setExtraHeader key value d =
     (case nonempty_opt value of None \<Rightarrow> d
      | Some v \<Rightarrow> d\<lparr>extraHeader := AList.update key v (extraHeader d)\<rparr>)"

definition fence :: string where "fence = [backtick, backtick, backtick]"

definition code_block_re :: re where
  "code_block_re = seqs [lit fence, RStar False rany, RAlt (lit fence) (REol False)]"

definition withoutCode :: "string \<Rightarrow> string" where
  "withoutCode markdown = re_replace_all code_block_re '' (code) '' markdown"

definition excerpt :: "string \<Rightarrow> nat \<Rightarrow> string" where
  "excerpt s limit =
     (let flat = flatten_space s in if length flat > limit then take (limit - 1) flat @ ellipsis else flat)"

definition formatTime :: "utc_date \<Rightarrow> string" where
  "formatTime d = show_nat (utc_year d) @ ''-'' @ pad2 (utc_month d + 1) @ ''-'' @ pad2 (utc_day d) @ '' ''
     @ pad2 (utc_hour d) @ '':'' @ pad2 (utc_minute d) @ '' UTC''"

text \<open>\<open>log.split(/(?=^### )/m)\<close>: a piece starts at each line that starts with \<open>###\<close> and a space.\<close>

fun log_pieces :: "string list \<Rightarrow> string \<times> string list" where
  "log_pieces [] = ([], [])"
| "log_pieces (l # ls) =
     (case log_pieces ls of (body, es) \<Rightarrow>
        if prefix ''### '' l then ([], (l @ body) # es) else (l @ body, es))"

definition log_entries :: "string \<Rightarrow> string list" where
  "log_entries s =
     (case log_pieces (split_lines s) of (first, es) \<Rightarrow>
        filter (\<lambda>e. e \<noteq> []) (map js_trim (first # es)))"

definition add_log_entry :: "string \<Rightarrow> hm_document \<Rightarrow> hm_document" where
  "add_log_entry entry d =
     (let entries = log_entries (getSection d ''Log'') @ [entry]
      in setSection d ''Log'' (js_join [nl, nl] (drop (length entries - MAX_LOG_ENTRIES) entries)))"

definition toNode :: "hm_document \<Rightarrow> string \<Rightarrow> hm_node" where
  "toNode d uri =
     \<lparr>nd_header = header d, nd_uri = uri, nd_goal = getSection d ''Goal'', nd_handoff = getSection d ''Handoff'',
      nd_files = parseFileList (getSection d ''Files''),
      nd_chatSession = map_of (extraHeader d) ''chatSession'', nd_killed = isKilled d,
      nd_route = map_of (extraHeader d) ''route'', nd_shellSession = map_of (extraHeader d) ''shellSession''\<rparr>"

section \<open>What a turn and a kill write\<close>

definition middle_dot :: string where "middle_dot = [CHR '' '', CHR 0xC2, CHR 0xB7, CHR '' '']"

definition handoff_text :: "string \<Rightarrow> utc_date \<Rightarrow> hm_turn \<Rightarrow> string" where
  "handoff_text author now t =
     (let asked = excerpt (question t) 400;
          said = excerpt (withoutCode (answer t)) HANDOFF_ANSWER_CHARS
      in js_join [nl]
        [''Last request ('' @ author @ '', '' @ formatTime now @ ''): '' @ asked,
         [],
         (if interrupted t
          then ''The answer was cut off part-way. What it had written so far: '' @ (if said \<noteq> [] then said else ''(nothing yet)'')
          else ''Latest answer, in short: '' @ said),
         [],
         (if interrupted t
          then ''Next: resume that answer (in HivemindIDE, reply \"continue\" in the same chat).''
          else ''Next: continue from the latest answer, or mark this node done if the goal is met.'')])"

definition log_entry :: "string \<Rightarrow> utc_date \<Rightarrow> hm_turn \<Rightarrow> string" where
  "log_entry author now t =
     (let said = excerpt (answer t) LOG_ANSWER_CHARS
      in js_join [nl]
        ([''### '' @ formatTime now @ middle_dot @ author,
          ''**Asked:** '' @ excerpt (question t) 600,
          [],
          ''**'' @ (if interrupted t then ''Answered (cut off)'' else ''Answered'') @ '':** ''
            @ (if said \<noteq> [] then said else ''(no text)'')]
         @ (if switches t \<noteq> [] then [[], ''**Switched provider:** '' @ js_join '' '' (switches t)] else [])))"

definition record_document :: "string \<Rightarrow> hm_date \<Rightarrow> hm_turn \<Rightarrow> hm_document \<Rightarrow> hm_document" where
  "record_document author now t d =
     (let h = header d;
          d1 = d\<lparr>header := h\<lparr>hstatus := (if interrupted t then StPaused else StActive),
                   hmodel := (case turn_model t of Some m \<Rightarrow> Some m | None \<Rightarrow> hmodel h), updated := iso now\<rparr>\<rparr>;
          d2 = setExtraHeader ''shellSession'' (turn_shellSession t) (setExtraHeader ''route'' (turn_route t) d1);
          d3 = setSection d2 ''Handoff'' (handoff_text author (date now) t);
          files = take MAX_FILES (js_uniq (parseFileList (getSection d3 ''Files'') @ turn_files t));
          d4 = setSection d3 ''Files'' (js_join [nl] (map (\<lambda>f. ''- '' @ f) files))
      in add_log_entry (log_entry author (date now) t) d4)"

definition kill_document :: "string \<Rightarrow> hm_date \<Rightarrow> hm_document \<Rightarrow> hm_document" where
  "kill_document author now d =
     (let d1 = d\<lparr>header := (header d)\<lparr>hstatus := StDone, updated := iso now\<rparr>\<rparr>;
          d2 = setExtraHeader ''killed'' (Some ''true'') d1;
          d3 = setSection d2 ''Handoff'' ''Killed. This run was stopped from the review and should not be resumed.''
      in add_log_entry (js_join [nl] [''### '' @ formatTime (date now) @ middle_dot @ author,
                                      ''Killed. The run was stopped from the review.'']) d3)"

definition status_document :: "hm_status \<Rightarrow> hm_date \<Rightarrow> hm_document \<Rightarrow> hm_document" where
  "status_document st now d = d\<lparr>header := (header d)\<lparr>hstatus := st, updated := iso now\<rparr>\<rparr>"

section \<open>The service\<close>

definition getNode :: "string \<Rightarrow> hm_state \<Rightarrow> hm_node option" where
  "getNode i s = List.find (\<lambda>n. hid (nd_header n) = i) (hm_nodes s)"

definition findByChatSession :: "string \<Rightarrow> hm_state \<Rightarrow> hm_node option" where
  "findByChatSession session s = List.find (\<lambda>n. nd_chatSession n = Some session) (hm_nodes s)"

definition setRunning :: "string \<Rightarrow> bool \<Rightarrow> hm_state \<Rightarrow> hm_state" where
  "setRunning i running s =
     s\<lparr>runningIds := (if running then (if i \<in> set (runningIds s) then runningIds s else runningIds s @ [i])
                     else filter (\<lambda>j. j \<noteq> i) (runningIds s))\<rparr>"

definition node_document :: "string \<Rightarrow> hm_state \<Rightarrow> (hm_node \<times> hm_document) option" where
  "node_document i s =
     (case getNode i s of
        None \<Rightarrow> None
      | Some n \<Rightarrow> (case hm_files s (nd_uri n) of
          None \<Rightarrow> None
        | Some content \<Rightarrow> map_option (Pair n) (parseHivemindNode content)))"

definition replaceNode :: "hm_node \<Rightarrow> hm_state \<Rightarrow> hm_state" where
  "replaceNode n s =
     s\<lparr>hm_nodes := n # filter (\<lambda>m. hid (nd_header m) \<noteq> hid (nd_header n)) (hm_nodes s)\<rparr>"

definition write_document :: "hm_node \<Rightarrow> hm_document \<Rightarrow> hm_state \<Rightarrow> hm_state" where
  "write_document n d s =
     replaceNode (toNode d (nd_uri n)) (s\<lparr>hm_files := (hm_files s)(nd_uri n \<mapsto> serializeHivemindNode d)\<rparr>)"

definition recordTurn :: "string \<Rightarrow> hm_date \<Rightarrow> hm_turn \<Rightarrow> hm_state \<Rightarrow> hm_state" where
  "recordTurn i now t s =
     (case node_document i s of
        None \<Rightarrow> s
      | Some (n, d) \<Rightarrow>
          if isKilled d \<or> i \<in> set (deletedIds s) then s
          else write_document n (record_document (hm_author s) now t d) s)"

definition killNode :: "string \<Rightarrow> hm_date \<Rightarrow> hm_state \<Rightarrow> hm_state" where
  "killNode i now s =
     (case node_document i s of
        None \<Rightarrow> s
      | Some (n, d) \<Rightarrow> if isKilled d then s else write_document n (kill_document (hm_author s) now d) s)"

definition setStatus :: "string \<Rightarrow> hm_status \<Rightarrow> hm_date \<Rightarrow> hm_state \<Rightarrow> hm_state" where
  "setStatus i st now s =
     (case node_document i s of
        None \<Rightarrow> s
      | Some (n, d) \<Rightarrow> if hstatus (header d) = st then s else write_document n (status_document st now d) s)"

definition beginDelete :: "string \<Rightarrow> hm_state \<Rightarrow> hm_state" where
  "beginDelete i s =
     (case getNode i s of
        None \<Rightarrow> s
      | Some n \<Rightarrow>
          s\<lparr>deletedIds := List.insert i (deletedIds s),
            blockedSessions := (case nonempty_opt (nd_chatSession n) of
                                  Some c \<Rightarrow> List.insert c (blockedSessions s) | None \<Rightarrow> blockedSessions s)\<rparr>)"

text \<open>The timer that lets a deleted chat record again.\<close>

definition unblock :: "string \<Rightarrow> hm_state \<Rightarrow> hm_state" where
  "unblock c s = s\<lparr>blockedSessions := filter (\<lambda>x. x \<noteq> c) (blockedSessions s)\<rparr>"

text \<open>\<open>removed\<close>: whether deleting the file succeeded; a failure is only logged.\<close>

definition deleteNode :: "bool \<Rightarrow> string \<Rightarrow> hm_state \<Rightarrow> hm_state" where
  "deleteNode removed i s0 =
     (let s = beginDelete i s0 in
      case getNode i s of
        None \<Rightarrow> s
      | Some n \<Rightarrow>
          s\<lparr>hm_files := (if removed then (hm_files s)(nd_uri n := None) else hm_files s),
            hm_nodes := filter (\<lambda>m. hid (nd_header m) \<noteq> i) (hm_nodes s),
            runningIds := filter (\<lambda>j. j \<noteq> i) (runningIds s)\<rparr>)"

record node_init =
  init_title :: string
  init_goal :: string
  init_agent :: string
  init_model :: "string option"
  init_parent :: "string option"
  init_chatSession :: "string option"
  init_route :: "string option"

definition new_document :: "string \<Rightarrow> hm_date \<Rightarrow> (nat \<Rightarrow> real) \<Rightarrow> node_init \<Rightarrow> hm_document" where
  "new_document author now random p =
     (let flat = take 80 (flatten_space (init_title p));
          name = (if flat \<noteq> [] then flat else ''Untitled work'');
          opt = (\<lambda>k v. case nonempty_opt v of Some x \<Rightarrow> [(k, x)] | None \<Rightarrow> [])
      in \<lparr>header = \<lparr>hid = newHivemindNodeId name (date now) random, htitle = name, hparent = init_parent p,
            hstatus = StActive, hauthor = author, hagent = init_agent p, hmodel = init_model p,
            created = iso now, updated = iso now\<rparr>,
          extraHeader = opt ''chatSession'' (init_chatSession p) @ opt ''route'' (init_route p),
          sections = [(''Goal'', js_trim (init_goal p)), (''Handoff'', ''Just started.''), (''Files'', []), (''Log'', [])]\<rparr>)"

definition node_path :: "string \<Rightarrow> string \<Rightarrow> string" where
  "node_path folder i = folder @ ''/nodes/'' @ i @ ''.md''"

definition createNode :: "hm_date \<Rightarrow> (nat \<Rightarrow> real) \<Rightarrow> node_init \<Rightarrow> hm_state \<Rightarrow> hm_node option \<times> hm_state" where
  "createNode now random p s =
     (case hm_folder s of
        None \<Rightarrow> (None, s)
      | Some folder \<Rightarrow>
          if (case nonempty_opt (init_chatSession p) of Some c \<Rightarrow> c \<in> set (blockedSessions s) | None \<Rightarrow> False)
          then (None, s)
          else (let d = new_document (hm_author s) now random p;
                    uri = node_path folder (hid (header d));
                    n = toNode d uri
                in (Some n, s\<lparr>hm_files := (hm_files s)(uri \<mapsto> serializeHivemindNode d), hm_nodes := n # hm_nodes s\<rparr>)))"

section \<open>Project notes\<close>

definition comment_re :: re where
  "comment_re = seqs [lit ''<!--'', RStar False rany, lit ''-->'']"

text \<open>\<open>#{1,6}\<close>\<close>

fun hashes :: "nat \<Rightarrow> re" where
  "hashes 0 = ch (CHR ''#'')"
| "hashes (Suc n) = RSeq (ch (CHR ''#'')) (ropt (hashes n))"

definition empty_heading_re :: re where
  "empty_heading_re = seqs [RBol True, hashes 5, ch (CHR '' ''), rstar rdot, ch nl,
     RLook (seqs [rstar rspace, RAlt (RSeq (hashes 5) (ch (CHR '' ''))) (REol True)])]"

definition notes_title_re :: re where
  "notes_title_re = seqs [RBol True, lit ''# Project notes'', rstar rspace, REol True]"

definition clean_notes :: "string \<Rightarrow> string" where
  "clean_notes text =
     js_trim (re_replace_first notes_title_re [] (re_replace_all empty_heading_re [] (re_replace_all comment_re [] text)))"

definition readProjectNotes :: "hm_state \<Rightarrow> string option" where
  "readProjectNotes s =
     (case hm_folder s of None \<Rightarrow> None
      | Some folder \<Rightarrow>
          (case hm_files s (folder @ ''/project.md'') of None \<Rightarrow> None
           | Some text \<Rightarrow> if text = [] then None else nonempty_opt (Some (clean_notes text))))"

section \<open>Loading the graph\<close>

text \<open>
  A stable sort by a comparison (\<open>localeCompare\<close>, an argument: \<open>le a b\<close> says \<open>a\<close> does not come
  after \<open>b\<close>).
\<close>

fun insort_by :: "('a \<Rightarrow> 'a \<Rightarrow> bool) \<Rightarrow> 'a \<Rightarrow> 'a list \<Rightarrow> 'a list" where
  "insort_by le x [] = [x]"
| "insort_by le x (y # ys) = (if le x y then x # y # ys else y # insort_by le x ys)"

definition sort_by :: "('a \<Rightarrow> 'a \<Rightarrow> bool) \<Rightarrow> 'a list \<Rightarrow> 'a list" where
  "sort_by le xs = foldr (insort_by le) xs []"

definition MAX_NODES :: nat where "MAX_NODES = 500"

definition path_name :: "string \<Rightarrow> string" where
  "path_name p = last (js_split (CHR ''/'') p)"

definition loadNodes :: "(string \<Rightarrow> string \<Rightarrow> bool) \<Rightarrow> string list \<Rightarrow> hm_state \<Rightarrow> hm_state" where
  "loadNodes le listing s =
     (case hm_folder s of
        None \<Rightarrow> s
      | Some folder \<Rightarrow>
          (let entries = take MAX_NODES (sort_by (\<lambda>a b. le (path_name b) (path_name a))
                           (filter (suffix ''.md'') listing));
               nodes = List.map_filter (\<lambda>uri. case hm_files s uri of
                          None \<Rightarrow> None
                        | Some content \<Rightarrow> map_option (\<lambda>d. toNode d uri) (parseHivemindNode content)) entries
           in s\<lparr>hm_nodes := sort_by (\<lambda>a b. le (updated (nd_header b)) (updated (nd_header a))) nodes\<rparr>))"

section \<open>A killed run stays stopped\<close>

definition date_ok :: "hm_date \<Rightarrow> bool" where
  "date_ok now \<longleftrightarrow> value_ok (iso now) \<and> iso now \<noteq> []"

definition known_ok :: "hm_header \<Rightarrow> bool" where
  "known_ok h \<longleftrightarrow> (\<forall>(k, v)\<in>set (known_fields_of h). value_ok v) \<and>
     hid h \<noteq> [] \<and> htitle h \<noteq> [] \<and> hauthor h \<noteq> [] \<and> hagent h \<noteq> [] \<and>
     hparent h \<noteq> Some [] \<and> hmodel h \<noteq> Some [] \<and> (updated h = [] \<longrightarrow> created h = [])"

definition extra_ok :: "(string \<times> string) list \<Rightarrow> bool" where
  "extra_ok es \<longleftrightarrow> (\<forall>(k, v)\<in>set es. key_ok k \<and> value_ok v \<and> k \<notin> set KNOWN_KEYS \<and> v \<noteq> [])"

lemma known_keys_ok: "k \<in> set KNOWN_KEYS \<Longrightarrow> key_ok k"
  by (auto simp: KNOWN_KEYS_def key_ok_def trimmed_def is_js_space_def nl_def cr_def)

lemma header_ok_split: "header_ok d \<longleftrightarrow> known_ok (header d) \<and> extra_ok (extraHeader d)"
proof -
  have k: "\<forall>kv\<in>set (known_fields_of (header d)). key_ok (fst kv)"
    using known_fields_keys [of "header d"] known_keys_ok by (metis image_eqI list.set_map)
  show ?thesis
    unfolding header_ok_def known_ok_def extra_ok_def header_fields_split set_append ball_Un case_prod_beta
    using k by blast
qed

lemma status_ok: "value_ok (show_status st)"
  by (cases st) (simp_all add: show_status_def value_ok_def trimmed_def is_js_space_def nl_def cr_def unquote_def)

lemma known_ok_update:
  "known_ok h \<Longrightarrow> date_ok now \<Longrightarrow> known_ok (h\<lparr>hstatus := st, updated := iso now\<rparr>)"
  using status_ok [of st] by (auto simp: known_ok_def known_fields_of_def date_ok_def)

lemma extra_ok_update:
  assumes "extra_ok es" "key_ok k" "value_ok v" "k \<notin> set KNOWN_KEYS" "v \<noteq> []"
  shows "extra_ok (AList.update k v es)"
  using assms set_update_subset [of k v es] by (fastforce simp: extra_ok_def)

lemma setSection_header [simp]:
  "header (setSection d h b) = header d" "extraHeader (setSection d h b) = extraHeader d"
  by (simp_all add: setSection_def)

lemma add_log_entry_header [simp]:
  "header (add_log_entry e d) = header d" "extraHeader (add_log_entry e d) = extraHeader d"
  by (simp_all add: add_log_entry_def Let_def)

lemma killed_key_ok: "key_ok ''killed'' \<and> value_ok ''true'' \<and> ''killed'' \<notin> set KNOWN_KEYS"
  by code_simp

lemma kill_document_ok:
  assumes "header_ok d" "date_ok now"
  shows "header_ok (kill_document a now d) \<and> isKilled (kill_document a now d)"
proof -
  have h: "header (kill_document a now d) = (header d)\<lparr>hstatus := StDone, updated := iso now\<rparr>"
    "extraHeader (kill_document a now d) = AList.update ''killed'' ''true'' (extraHeader d)"
    by (simp_all add: kill_document_def Let_def setExtraHeader_def nonempty_opt_def)
  have "map_of (AList.update ''killed'' ''true'' (extraHeader d)) ''killed'' = Some ''true''"
    by (simp add: update_conv')
  then have "isKilled (kill_document a now d)" unfolding isKilled_def h by (rule map_of_SomeD)
  with assms killed_key_ok show ?thesis
    by (simp add: header_ok_split h known_ok_update extra_ok_update)
qed

lemma status_document_ok:
  "header_ok d \<Longrightarrow> date_ok now \<Longrightarrow> header_ok (status_document st now d)"
  by (simp add: header_ok_split status_document_def known_ok_update)

text \<open>The file at a path is gone, or records a killed run.\<close>

definition killed_at :: "string \<Rightarrow> hm_state \<Rightarrow> bool" where
  "killed_at u s \<longleftrightarrow> (case hm_files s u of None \<Rightarrow> True
     | Some content \<Rightarrow> (case parseHivemindNode content of None \<Rightarrow> False | Some d \<Rightarrow> isKilled d \<and> header_ok d))"

lemma killed_at_written:
  assumes "header_ok d" "isKilled d"
  shows "killed_at u (write_document n d s) \<longleftrightarrow> u = nd_uri n \<or> killed_at u s"
  using parse_serialize_header [OF assms(1)] assms
  by (auto simp: killed_at_def write_document_def replaceNode_def isKilled_def header_ok_split)

lemma getNode_write:
  assumes "getNode i s = Some n"
  shows "\<exists>n'. getNode i (write_document n d s) = Some n' \<and> nd_uri n' = nd_uri n"
proof (cases "hid (header d) = i")
  case True
  then show ?thesis by (simp add: getNode_def write_document_def replaceNode_def toNode_def)
next
  case False
  have "List.find P (filter Q xs) = Some x" if "List.find P xs = Some x" "\<And>y. P y \<Longrightarrow> Q y" for P Q and xs :: "hm_node list" and x
    using that by (induction xs) (auto split: if_splits)
  from this [OF assms [unfolded getNode_def], of "\<lambda>m. hid (nd_header m) \<noteq> hid (header d)"] False
  show ?thesis by (auto simp: getNode_def write_document_def replaceNode_def toNode_def)
qed

text \<open>
  What any window, chat or timer can do to the service, one operation at a time, while no new node
  is given the path \<open>u\<close> (a new id has the minute and four random characters).
\<close>

inductive hm_step :: "string \<Rightarrow> hm_state \<Rightarrow> hm_state \<Rightarrow> bool" for u where
  step_record: "hm_step u s (recordTurn i now t s)"
| step_kill: "date_ok now \<Longrightarrow> hm_step u s (killNode i now s)"
| step_status: "date_ok now \<Longrightarrow> hm_step u s (setStatus i st now s)"
| step_running: "hm_step u s (setRunning i b s)"
| step_begin_delete: "hm_step u s (beginDelete i s)"
| step_unblock: "hm_step u s (unblock c s)"
| step_delete: "hm_step u s (deleteNode removed i s)"
| step_load: "hm_step u s (loadNodes le listing s)"
| step_create: "\<forall>f. node_path f (hid (header (new_document (hm_author s) now random p))) \<noteq> u \<Longrightarrow>
    hm_step u s (snd (createNode now random p s))"

inductive_cases hm_stepE: "hm_step u s s'"

lemma node_documentD:
  "node_document i s = Some (n, d) \<Longrightarrow>
   getNode i s = Some n \<and> (\<exists>c. hm_files s (nd_uri n) = Some c \<and> parseHivemindNode c = Some d)"
  by (auto simp: node_document_def split: option.splits)

lemma killed_at_other: "nd_uri n \<noteq> u \<Longrightarrow> killed_at u (write_document n d s) = killed_at u s"
  by (simp add: killed_at_def write_document_def replaceNode_def)

lemma killed_document:
  "killed_at u s \<Longrightarrow> node_document i s = Some (n, d) \<Longrightarrow> nd_uri n = u \<Longrightarrow> isKilled d \<and> header_ok d"
  by (auto simp: killed_at_def dest: node_documentD)

lemma isKilled_status [simp]: "isKilled (status_document st now d) = isKilled d"
  by (simp add: isKilled_def status_document_def)

lemma record_killed:
  assumes "killed_at u s"
  shows "hm_files (recordTurn i now t s) u = hm_files s u"
proof (cases "node_document i s")
  case (Some nd)
  obtain n d where nd: "nd = (n, d)" by fastforce
  show ?thesis
  proof (cases "nd_uri n = u")
    case True
    then have "isKilled d" using killed_document assms Some nd by blast
    with Some nd show ?thesis by (simp add: recordTurn_def)
  next
    case False
    with Some nd show ?thesis by (simp add: recordTurn_def write_document_def replaceNode_def)
  qed
qed (simp add: recordTurn_def)

lemma killed_at_files: "hm_files s' u = hm_files s u \<Longrightarrow> killed_at u s' = killed_at u s"
  by (simp add: killed_at_def)

lemma killed_at_step:
  assumes "hm_step u s s'" "killed_at u s"
  shows "killed_at u s'"
  using assms(1)
proof cases
  case (step_record i now t)
  with record_killed assms(2) killed_at_files show ?thesis by metis
next
  case (step_kill now i)
  show ?thesis
  proof (cases "node_document i s")
    case (Some nd)
    obtain n d where nd: "nd = (n, d)" by fastforce
    show ?thesis
    proof (cases "nd_uri n = u")
      case True
      then have "isKilled d" using killed_document assms(2) Some nd by blast
      with Some nd step_kill assms(2) show ?thesis by (simp add: killNode_def)
    next
      case False
      with Some nd step_kill assms(2) killed_at_other show ?thesis by (simp add: killNode_def)
    qed
  qed (use step_kill assms(2) in \<open>simp add: killNode_def\<close>)
next
  case (step_status now i st)
  show ?thesis
  proof (cases "node_document i s")
    case (Some nd)
    obtain n d where nd: "nd = (n, d)" by fastforce
    have "killed_at u (write_document n (status_document st now d) s)"
    proof (cases "nd_uri n = u")
      case True
      then have "isKilled d \<and> header_ok d" using killed_document assms(2) Some nd by blast
      with True show ?thesis
        using killed_at_written [of "status_document st now d"] status_document_ok step_status(2) by simp
    next
      case False
      with assms(2) killed_at_other show ?thesis by simp
    qed
    with Some nd step_status assms(2) show ?thesis by (simp add: setStatus_def)
  qed (use step_status assms(2) in \<open>simp add: setStatus_def\<close>)
next
  case (step_create now random p)
  have "hm_files (snd (createNode now random p s)) u = hm_files s u"
    using step_create(2) by (auto simp: createNode_def Let_def split: option.split)
  with step_create(1) assms(2) killed_at_files show ?thesis by metis
qed (use assms(2) in \<open>auto simp: killed_at_def setRunning_def beginDelete_def unblock_def deleteNode_def
    loadNodes_def Let_def split: option.splits\<close>)

lemma killed_at_reachable: "(hm_step u)\<^sup>*\<^sup>* s s' \<Longrightarrow> killed_at u s \<Longrightarrow> killed_at u s'"
  by (induction rule: rtranclp_induct) (use killed_at_step in blast)+

lemma killNode_killed:
  assumes "node_document i s = Some (n, d)" "header_ok d" "date_ok now"
  shows "killed_at (nd_uri n) (killNode i now s)"
proof (cases "isKilled d")
  case True
  with assms node_documentD [OF assms(1)] show ?thesis by (auto simp: killNode_def killed_at_def)
next
  case False
  with assms killed_at_written [of "kill_document (hm_author s) now d"] kill_document_ok [OF assms(2,3)]
  show ?thesis by (simp add: killNode_def)
qed

text \<open>
  Property C37: a killed run stays stopped: whatever the windows, chats and timers do afterwards, a
  turn recorded at any later time for any node leaves the killed run's file as it is.
\<close>

theorem killed_runs_stay_stopped:
  assumes "node_document i s = Some (n, d)" and "header_ok d" and "date_ok now"
    and "(hm_step (nd_uri n))\<^sup>*\<^sup>* (killNode i now s) s'"
  shows "hm_files (recordTurn j now' t s') (nd_uri n) = hm_files s' (nd_uri n)"
  using record_killed killed_at_reachable [OF assms(4)] killNode_killed [OF assms(1-3)] by blast

definition demo_state :: hm_state where
  "demo_state = \<lparr>hm_folder = Some ''/w/.hivemind'',
     hm_files = [''/w/.hivemind/nodes/a.md'' \<mapsto> serializeHivemindNode demo_document],
     hm_nodes = [toNode demo_document ''/w/.hivemind/nodes/a.md''], deletedIds = [], blockedSessions = [],
     runningIds = [], hm_author = ''Bima''\<rparr>"

definition demo_date :: hm_date where
  "demo_date = \<lparr>date = \<lparr>utc_year = 2026, utc_month = 8, utc_day = 25, utc_hour = 2, utc_minute = 15\<rparr>, iso = ''2026-09-25T02:15:00Z''\<rparr>"

definition demo_turn :: hm_turn where
  "demo_turn = \<lparr>question = ''go on'', answer = ''done'', turn_files = [], turn_model = None, interrupted = False,
     switches = [], turn_route = None, turn_shellSession = None\<rparr>"

lemma killed_runs_stay_stopped_witness:
  "let s = setStatus ''20260925-fix'' StActive demo_date (killNode ''20260925-fix'' demo_date demo_state)
   in hm_files (recordTurn ''20260925-fix'' demo_date demo_turn s) ''/w/.hivemind/nodes/a.md'' =
      hm_files s ''/w/.hivemind/nodes/a.md''"
proof -
  let ?n = "toNode demo_document ''/w/.hivemind/nodes/a.md''"
  let ?d = "demo_document\<lparr>sections := ordered_sections (sections demo_document)\<rparr>"
  have "parseHivemindNode (serializeHivemindNode demo_document) = Some ?d"
    using parse_serialize_sections [OF demo_document_ok] .
  then have n: "node_document ''20260925-fix'' demo_state = Some (?n, ?d)"
    by (simp add: node_document_def getNode_def demo_state_def toNode_def) (simp add: demo_document_def)
  have h: "header_ok ?d" using demo_document_ok by (simp add: document_ok_def header_ok_split)
  have t: "date_ok demo_date" by code_simp
  have u: "nd_uri ?n = ''/w/.hivemind/nodes/a.md''" by (simp add: toNode_def)
  show ?thesis unfolding Let_def
    using killed_runs_stay_stopped [OF n h t, unfolded u] step_status [OF t] by (blast intro: r_into_rtranclp)
qed

end
