(* ===== verification/Chat_Text.thy ===== *)
theory Chat_Text
  imports Shell_Turn Hivemind_Service
begin

text \<open>
  What the chat agent makes of text: the context blocks of a prompt, the tasks of a plan, titles,
  and the messages replayed to a model without tools (\<open>browser/shell/shellChatAgent.ts\<close>). \<open>\p{L}\<close>
  is an argument, the letters of Unicode. Where the code measures a text it put an ellipsis into,
  the ellipsis counts as the one code unit it is.
\<close>

section \<open>Context blocks\<close>

record context_block =
  label :: string
  block_text :: string
  automatic :: bool

definition MAX_ATTACHMENT_CHARS :: nat where "MAX_ATTACHMENT_CHARS = 60000"
definition MAX_AUTOMATIC_CHARS :: nat where "MAX_AUTOMATIC_CHARS = 2000"
definition SHELL_CONTEXT_CHARS :: nat where "SHELL_CONTEXT_CHARS = 60000"
definition MAX_CONTINUED_NODE_CHARS :: nat where "MAX_CONTINUED_NODE_CHARS = 6000"
definition MAX_HIVEMIND_CONTEXT_CHARS :: nat where "MAX_HIVEMIND_CONTEXT_CHARS = 2500"
definition TOOLLESS_HISTORY_CHARS :: nat where "TOOLLESS_HISTORY_CHARS = 12000"
definition MAX_SUBAGENTS :: nat where "MAX_SUBAGENTS = 4"

definition block_body :: "nat \<Rightarrow> context_block \<Rightarrow> string" where
  "block_body room b =
     (if length (block_text b) > room then take room (block_text b) @ [nl] @ ellipsis else block_text b)"

definition format_block :: "nat \<Rightarrow> context_block \<Rightarrow> string" where
  "format_block room b =
     ''<context source=\"'' @ label b @ ''\">'' @ [nl] @ block_body room b @ [nl] @ ''</context>''"

text \<open>\<open>formatted.length\<close>.\<close>

definition formatted_length :: "nat \<Rightarrow> context_block \<Rightarrow> nat" where
  "formatted_length room b = 31 + length (label b) +
     (if length (block_text b) > room then room + 2 else length (block_text b))"

text \<open>\<open>remaining\<close> may fall below zero by the length of a label.\<close>

fun context_parts :: "int \<Rightarrow> context_block list \<Rightarrow> string list" where
  "context_parts remaining [] = []"
| "context_parts remaining (b # bs) =
     (if remaining < 200 then []
      else (let room = nat (remaining - 100)
            in format_block room b # context_parts (remaining - int (formatted_length room b)) bs))"

definition formatContext :: "context_block list \<Rightarrow> nat \<Rightarrow> string" where
  "formatContext blocks budget =
     js_join [nl] (context_parts (int budget) (filter (\<lambda>b. \<not> automatic b) blocks @ filter automatic blocks))"

section \<open>Tasks and titles\<close>

definition wants_re :: re where
  "wants_re = seqs [RWordB, alts [liti ''spawn'', seqs [liti ''sub'', ropt (ch (CHR ''-'')), liti ''agent'', ropt (chi (CHR ''s''))],
     liti ''multiple agents''], RWordB]"

definition wantsSubagents :: "string \<Rightarrow> bool" where
  "wantsSubagents msg = re_test wants_re msg"

definition bullet_re :: re where
  "bullet_re = RAlt (cls ''-*'') (RSeq (rplus rdigit) (cls ''.)''))"

definition tick_fence :: string where
  "tick_fence = [CHR 0x60, CHR 0x60, CHR 0x60]"

definition fence_re :: re where
  "fence_re = seqs [RBol False, rstar rspace, ropt (RSeq bullet_re (rplus rspace)), RAlt (lit tick_fence) (lit ''~~~'')]"

definition task_re :: re where
  "task_re = seqs [RBol False, rstar rspace, bullet_re, rplus rspace, RGroup 1 (RSeq rnspace (rstar rdot)), REol False]"

definition emphasis_re :: re where
  "emphasis_re = alts [lit ''**'', lit ''__'', ch (CHR 0x60)]"

definition plain_text :: "string \<Rightarrow> string" where
  "plain_text s = js_trim (re_replace_all emphasis_re [] s)"

text \<open>\<open>/\p{L}{3}/u\<close>.\<close>

definition has_word :: "(char \<Rightarrow> bool) \<Rightarrow> string \<Rightarrow> bool" where
  "has_word letter s = re_test (seqs [RCls letter, RCls letter, RCls letter]) s"

definition task_of_line :: "(char \<Rightarrow> bool) \<Rightarrow> string \<Rightarrow> string option" where
  "task_of_line letter line =
     (case re_cap (re_exec task_re line) 1 of
        None \<Rightarrow> None
      | Some t \<Rightarrow> if plain_text t \<noteq> [] \<and> has_word letter (plain_text t) then Some (plain_text t) else None)"

fun tasks_of_lines :: "(char \<Rightarrow> bool) \<Rightarrow> bool \<Rightarrow> string list \<Rightarrow> string list" where
  "tasks_of_lines letter inFence [] = []"
| "tasks_of_lines letter inFence (l # ls) =
     (if re_test fence_re l then tasks_of_lines letter (\<not> inFence) ls
      else if inFence then tasks_of_lines letter inFence ls
      else case task_of_line letter l of
             Some t \<Rightarrow> t # tasks_of_lines letter inFence ls
           | None \<Rightarrow> tasks_of_lines letter inFence ls)"

definition parseTasks :: "(char \<Rightarrow> bool) \<Rightarrow> string \<Rightarrow> string list" where
  "parseTasks letter text = tasks_of_lines letter False (js_split nl text)"

definition chat_oneLine :: "string \<Rightarrow> string" where
  "chat_oneLine s = flatten_space s"

definition heading_re :: re where
  "heading_re = seqs [RBol False, rstar rspace, alts [rplus (ch (CHR ''#'')), cls ''-*>'', RSeq (rplus rdigit) (cls ''.)'')], rplus rspace]"

definition title_line :: "string \<Rightarrow> string" where
  "title_line l = plain_text (re_replace_first heading_re [] l)"

definition trim_end :: "string \<Rightarrow> string" where
  "trim_end s = rev (dropWhile is_js_space (rev s))"

definition titleOf :: "(char \<Rightarrow> bool) \<Rightarrow> string \<Rightarrow> string" where
  "titleOf letter text =
     (let line = (case List.find (has_word letter) (map title_line (js_split nl text)) of
                    Some l \<Rightarrow> l | None \<Rightarrow> chat_oneLine text)
      in if length line > 80 then trim_end (take 79 line) @ ellipsis else line)"

definition taskLabel :: "task_kind \<Rightarrow> string" where
  "taskLabel task = (case task of Plan \<Rightarrow> ''Planning'' | Code \<Rightarrow> ''Coding'' | AskTask \<Rightarrow> ''Answering''
     | Subagent \<Rightarrow> ''Sub-agent work'' | Summarize \<Rightarrow> ''Summarizing'')"

definition modelLabel :: "string \<Rightarrow> string" where
  "modelLabel i =
     (let p = takeWhile (\<lambda>c. c \<noteq> CHR ''/'') i
      in if length p = length i then i else p @ middle_dot @ drop (length p + 1) i)"

section \<open>A model without tools\<close>

text \<open>Earlier turns as request and reply, oldest first; the newest that fit are replayed.\<close>

fun earlier_turns :: "nat \<Rightarrow> (string \<times> string) list \<Rightarrow> (string \<times> string) list" where
  "earlier_turns used [] = []"
| "earlier_turns used (t # newest_first) =
     (let used' = used + length (fst t) + length (snd t)
      in if used' > TOOLLESS_HISTORY_CHARS then [] else earlier_turns used' newest_first @ [t])"

datatype chat_role = SystemRole | UserRole | AssistantRole

definition TOOLLESS_SYSTEM_PROMPT :: string where
  "TOOLLESS_SYSTEM_PROMPT = js_join [nl]
    [''You are HivemindIDE'' @ [CHR 0x27] @ ''s coding assistant. Answer in Markdown and keep answers focused. Put code in fenced blocks with a language tag.'',
     ''You cannot read, edit or run anything yourself: work from the <context> blocks you are given, and say so when you need to see code you have not been shown.'']"

definition toolless_messages :: "string \<Rightarrow> (string \<times> string) list \<Rightarrow> (chat_role \<times> string) list" where
  "toolless_messages prompt history =
     (SystemRole, TOOLLESS_SYSTEM_PROMPT)
     # concat (map (\<lambda>(asked, said). [(UserRole, asked), (AssistantRole, said)]) (earlier_turns 0 (rev history)))
     @ [(UserRole, prompt)]"

section \<open>Bounds\<close>

lemma length_format_block:
  "length (format_block room b) = formatted_length room b + (if length (block_text b) > room then length ellipsis - 1 else 0)"
  by (simp add: format_block_def formatted_length_def block_body_def ellipsis_def)

lemma context_parts_fit:
  assumes "\<forall>b\<in>set bs. length (label b) \<le> 67" "0 \<le> R"
  shows "\<exists>rooms. context_parts R bs = map2 format_block rooms bs \<and>
    int (sum_list (map2 formatted_length rooms bs)) \<le> R"
  using assms
proof (induction bs arbitrary: R)
  case (Cons b bs)
  show ?case
  proof (cases "R < 200")
    case True
    then show ?thesis using Cons.prems by (intro exI [of _ "[]"]) simp
  next
    case False
    let ?room = "nat (R - 100)"
    have f: "int (formatted_length ?room b) \<le> R"
      using Cons.prems(1) False by (auto simp: formatted_length_def)
    then obtain rooms where r: "context_parts (R - int (formatted_length ?room b)) bs = map2 format_block rooms bs"
      "int (sum_list (map2 formatted_length rooms bs)) \<le> R - int (formatted_length ?room b)"
      using Cons.IH [of "R - int (formatted_length ?room b)"] Cons.prems by auto
    then show ?thesis using False by (intro exI [of _ "?room # rooms"]) (simp add: Let_def)
  qed
qed simp

text \<open>
  The newest earlier turns that fit are replayed, and no older one would have fit.
\<close>

lemma earlier_turns_fit:
  "used \<le> TOOLLESS_HISTORY_CHARS \<Longrightarrow>
   \<exists>n. earlier_turns used ts = rev (take n ts) \<and>
     used + sum_list (map (\<lambda>t. length (fst t) + length (snd t)) (take n ts)) \<le> TOOLLESS_HISTORY_CHARS \<and>
     (n < length ts \<longrightarrow>
       TOOLLESS_HISTORY_CHARS < used + sum_list (map (\<lambda>t. length (fst t) + length (snd t)) (take (Suc n) ts)))"
proof (induction ts arbitrary: used)
  case (Cons t ts)
  let ?u = "used + length (fst t) + length (snd t)"
  show ?case
  proof (cases "?u > TOOLLESS_HISTORY_CHARS")
    case True
    then show ?thesis using Cons.prems by (intro exI [of _ 0]) (simp add: Let_def)
  next
    case False
    then obtain n where n: "earlier_turns ?u ts = rev (take n ts)"
      "?u + sum_list (map (\<lambda>t. length (fst t) + length (snd t)) (take n ts)) \<le> TOOLLESS_HISTORY_CHARS"
      "n < length ts \<longrightarrow>
         TOOLLESS_HISTORY_CHARS < ?u + sum_list (map (\<lambda>t. length (fst t) + length (snd t)) (take (Suc n) ts))"
      using Cons.IH [of ?u] by auto
    then show ?thesis using False by (intro exI [of _ "Suc n"]) (simp add: Let_def add.assoc)
  qed
qed simp

section \<open>Tasks and titles are plain text\<close>

lemma plain_text_trimmed [simp]: "trimmed (plain_text s)"
  by (simp add: plain_text_def)

lemma plain_text_set:
  assumes "c \<in> set (plain_text s)"
  shows "c \<in> set s \<and> c \<noteq> CHR 0x60"
proof -
  have "c \<in> set (re_replace_all emphasis_re [] s)" using assms set_js_trim by (auto simp: plain_text_def)
  moreover have "re_m emphasis_re (bef, CHR 0x60 # cs, []) \<noteq> []" for bef cs
    by (simp add: emphasis_re_def re_build)
  moreover have "length (fst (snd st)) < length v" if "st \<in> set (re_m emphasis_re (bef, v, []))" for bef v st
    using that by (auto simp: emphasis_re_def re_build split: list.splits if_splits)
  ultimately show ?thesis using replace_set [of "\<lambda>c. c = CHR 0x60" emphasis_re c "[]" s] by auto
qed

lemma tasks_of_lines_set:
  "t \<in> set (tasks_of_lines letter f ls) \<Longrightarrow> \<exists>l\<in>set ls. task_of_line letter l = Some t"
  by (induction letter f ls rule: tasks_of_lines.induct) (auto split: if_splits option.splits)

lemma parseTasks_plain:
  assumes "t \<in> set (parseTasks letter text)"
  shows "t \<noteq> [] \<and> trimmed t \<and> has_word letter t \<and> CHR 0x60 \<notin> set t"
proof -
  obtain l where "task_of_line letter l = Some t"
    using assms tasks_of_lines_set by (fastforce simp: parseTasks_def)
  then obtain x where "t = plain_text x" "t \<noteq> []" "has_word letter t"
    by (auto simp: task_of_line_def split: option.splits if_splits)
  then show ?thesis using plain_text_set by auto
qed

lemma titleOf_short:
  "length (titleOf letter text) \<le> 80 \<or> (\<exists>t. titleOf letter text = t @ ellipsis \<and> length t \<le> 79)"
proof -
  have "length (trim_end (take 79 s)) \<le> 79" for s
    using length_dropWhile_le [of is_js_space "rev (take 79 s)"] by (simp add: trim_end_def)
  then show ?thesis by (auto simp: titleOf_def Let_def)
qed

text \<open>
  Property C7: the context of a prompt fits its budget. The blocks used are the first ones of the
  user's own followed by the automatic ones, each whole or cut; with labels of at most 67 characters
  their lengths add up to no more than the budget.
\<close>

theorem context_fits:
  assumes "\<forall>b\<in>set blocks. length (label b) \<le> 67"
  shows "\<exists>rooms. formatContext blocks budget =
      js_join [nl] (map2 format_block rooms (filter (\<lambda>b. \<not> automatic b) blocks @ filter automatic blocks)) \<and>
    sum_list (map2 formatted_length rooms (filter (\<lambda>b. \<not> automatic b) blocks @ filter automatic blocks)) \<le> budget"
proof -
  have "\<forall>b\<in>set (filter (\<lambda>b. \<not> automatic b) blocks @ filter automatic blocks). length (label b) \<le> 67" using assms by auto
  from context_parts_fit [OF this, of "int budget"] show ?thesis unfolding formatContext_def by fastforce
qed

lemma context_fits_witness:
  "\<exists>rooms. formatContext [\<lparr>label = ''a.ts:1'', block_text = ''let x'', automatic = False\<rparr>] 300 =
      js_join [nl] (map2 format_block rooms [\<lparr>label = ''a.ts:1'', block_text = ''let x'', automatic = False\<rparr>]) \<and>
    sum_list (map2 formatted_length rooms [\<lparr>label = ''a.ts:1'', block_text = ''let x'', automatic = False\<rparr>]) \<le> 300"
  using context_fits [of "[\<lparr>label = ''a.ts:1'', block_text = ''let x'', automatic = False\<rparr>]" 300] by simp

text \<open>A longer label (the path of a file and its line) takes the context past its budget (of the 435 bytes, two more than code units are the ellipsis's).\<close>

lemma long_label_exceeds_budget:
  "length (formatContext [\<lparr>label = replicate 100 (CHR ''p''), block_text = replicate 900 (CHR ''x''), automatic = False\<rparr>] 400) = 435"
  by (simp add: formatContext_def format_block_def block_body_def ellipsis_def Let_def)

end
