(* ===== verification/Chat_Agent.thy ===== *)
theory Chat_Agent
  imports Chat_Text
begin

text \<open>
  The Chat panel's agent: \<open>invoke\<close>, the node of a chat, the context of its first turn, continuing a
  node, and splitting a request into sub-agents (\<open>browser/shell/shellChatAgent.ts\<close>). One call is a
  function of the request, the state of the services and \<open>chat_env\<close>, which holds what the outside
  decides in it: clocks, randomness, files, the turns' environments, what other calls do meanwhile.
  Progress parts that only inform are not modelled.
\<close>

section \<open>Requests\<close>

datatype chat_entry =
    LeftOut                                       \<comment> \<open>an implicit entry that is off, or the index of prompts\<close>
  | Pasted string string
  | TextEntry string string
  | FileEntry string "(nat \<times> nat) option" bool  \<comment> \<open>file, lines of a location, automatically added\<close>
  | OtherEntry

record chat_request =
  rq_message :: string
  rq_command :: "string option"
  rq_mode :: "string option"
  rq_instructions :: "string option"
  rq_model :: "string option"
  rq_session :: string
  rq_entries :: "chat_entry list"

record chat_state =
  ch_world :: shell_world
  ch_hm :: hm_state
  primed :: "string list"

record chat_env =
  ev_date :: hm_date
  ev_clock :: int
  ev_ids :: "nat \<Rightarrow> nat \<Rightarrow> real"              \<comment> \<open>the random digits of the \<open>k\<close>th node's id\<close>
  ev_combo :: "nat \<Rightarrow> real"
  ev_letter :: "char \<Rightarrow> bool"
  ev_read :: "string \<Rightarrow> string option"
  ev_uri_label :: "string \<Rightarrow> string"
  ev_relative :: "string \<Rightarrow> string"
  ev_include :: bool
  ev_fuel :: nat
  ev_turns :: "nat \<Rightarrow> turn_env"
  ev_during :: "hm_state \<Rightarrow> hm_state"
  ev_cancelled :: bool
  ev_ask :: bool
  ev_tasks_reply :: "string option"            \<comment> \<open>the planner's answer; \<open>None\<close> when it failed\<close>
  ev_pick :: "task_kind \<Rightarrow> string \<Rightarrow> shell_route option"
  ev_pick_cancelled :: bool
  ev_order :: "nat \<Rightarrow> nat list"             \<comment> \<open>the order in which so many sub-agents end\<close>
  ev_child_combo :: "nat \<Rightarrow> nat \<Rightarrow> real"
  ev_child_turns :: "nat \<Rightarrow> nat \<Rightarrow> turn_env"     \<comment> \<open>what happens in the turn of the \<open>k\<close>th sub-agent\<close>
  ev_child_world :: "nat \<Rightarrow> shell_world \<Rightarrow> shell_world" \<comment> \<open>the services as its turn finds them\<close>
  ev_world :: "shell_world \<Rightarrow> shell_world"     \<comment> \<open>what the turns, run in parallel, leave of the services\<close>

section \<open>Attachments\<close>

definition readResource :: "chat_env \<Rightarrow> string \<Rightarrow> (nat \<times> nat) option \<Rightarrow> context_block option" where
  "readResource e uri part =
     (case ev_read e uri of
        None \<Rightarrow> None
      | Some content \<Rightarrow>
          (let lines = js_split nl (crlf content);
               (first, last_line) = (case part of None \<Rightarrow> (1, length lines) | Some r \<Rightarrow> r)
           in Some \<lparr>label = ev_uri_label e uri @ '':'' @ show_nat first,
                    block_text = take MAX_ATTACHMENT_CHARS (js_join [nl] (drop (first - 1) (take last_line lines))),
                    automatic = False\<rparr>))"

definition read_entry :: "chat_env \<Rightarrow> chat_entry \<Rightarrow> context_block list \<times> string list" where
  "read_entry e entry =
     (case entry of
        Pasted name code \<Rightarrow> ([\<lparr>label = name, block_text = code, automatic = False\<rparr>], [])
      | TextEntry name t \<Rightarrow> ([\<lparr>label = name, block_text = take MAX_ATTACHMENT_CHARS t, automatic = False\<rparr>], [])
      | FileEntry uri part auto \<Rightarrow>
          (case readResource e uri part of
             None \<Rightarrow> ([], [])
           | Some b \<Rightarrow>
               if auto then ([b\<lparr>block_text := take MAX_AUTOMATIC_CHARS (block_text b), automatic := True\<rparr>], [])
               else ([b], [uri]))
      | _ \<Rightarrow> ([], []))"

definition readAttachments :: "chat_env \<Rightarrow> chat_request \<Rightarrow> context_block list \<times> string list" where
  "readAttachments e rq =
     (let rs = map (read_entry e) (rq_entries rq) in (concat (map fst rs), concat (map snd rs)))"

section \<open>The hivemind context\<close>

definition recent_line :: "hm_node \<Rightarrow> string" where
  "recent_line n =
     ''- ['' @ show_status (hstatus (nd_header n)) @ ''] '' @ htitle (nd_header n) @ '' ('' @ hauthor (nd_header n) @ '', ''
     @ hagent (nd_header n) @ '', node '' @ hid (nd_header n) @ ''): ''
     @ take 220 (re_replace_all (rplus rspace) '' '' (nd_handoff n))"

definition hivemindContext :: "chat_env \<Rightarrow> string \<Rightarrow> string option \<Rightarrow> hm_state \<Rightarrow> context_block option" where
  "hivemindContext e session exclude h =
     (if hm_folder h = None \<or> \<not> ev_include e then None
      else
        let this = map_option (\<lambda>n. hid (nd_header n)) (findByChatSession session h);
            notes = (case readProjectNotes h of Some t \<Rightarrow> t | None \<Rightarrow> []);
            recent = take 5 (filter (\<lambda>n. Some (hid (nd_header n)) \<noteq> this \<and> Some (hid (nd_header n)) \<noteq> exclude) (hm_nodes h));
            parts = (if notes \<noteq> [] then [''Project notes:'' @ [nl] @ take 1200 notes] else [])
              @ (if recent \<noteq> [] then [''Recent work in this project, newest first:'' @ [nl] @ js_join [nl] (map recent_line recent)]
                 else [])
        in if notes = [] \<and> recent = [] then None
           else Some \<lparr>label = ''.hivemind'', block_text = take MAX_HIVEMIND_CONTEXT_CHARS (js_join blank_line parts),
                      automatic = True\<rparr>)"

section \<open>Continuing a node\<close>

record chat_continuation =
  cn_parent :: hm_node
  cn_question :: string
  cn_block :: context_block

definition continue_re :: re where
  "continue_re = seqs [RBol False, rstar rspace, lit ''/continue'', RWordB]"

text \<open>\<open>s.trim().split(/\s+/)\<close>, the id and what follows it.\<close>

definition continue_words :: "string \<Rightarrow> string \<times> string list" where
  "continue_words msg =
     (case words_by is_js_space (re_replace_first continue_re [] msg) of [] \<Rightarrow> ([], []) | i # rest \<Rightarrow> (i, rest))"

definition continue_question :: "hm_node \<Rightarrow> string" where
  "continue_question n = js_join [nl]
     [''Continue this work, which '' @ hauthor (nd_header n) @ [CHR 0x27] @ ''s '' @ hagent (nd_header n) @ '' left ''
        @ (if hstatus (nd_header n) = StDone then ''done'' else ''unfinished'') @ ''.'',
      ''Goal: '' @ chat_oneLine (nd_goal n),
      ''Where it stands: '' @ chat_oneLine (nd_handoff n),
      ''Do the next step now. Start with one sentence on what you are doing.'']"

text \<open>\<open>Inl\<close> lists the nodes to pick from.\<close>

definition prepareContinuation :: "string \<Rightarrow> hm_state \<Rightarrow> hm_node list + chat_continuation" where
  "prepareContinuation msg h =
     (let (i, rest) = continue_words msg in
      case (if i \<noteq> [] then getNode i h else None) of
        None \<Rightarrow> Inl (take 8 (hm_nodes h))
      | Some n \<Rightarrow>
          (let text = (case hm_files h (nd_uri n) of Some t \<Rightarrow> t | None \<Rightarrow> []);
               asked = js_join '' '' rest
           in Inr \<lparr>cn_parent = n, cn_question = (if asked \<noteq> [] then asked else continue_question n),
                   cn_block = \<lparr>label = ''.hivemind/nodes/'' @ hid (nd_header n) @ ''.md'',
                     block_text = take MAX_CONTINUED_NODE_CHARS text, automatic = False\<rparr>\<rparr>))"

section \<open>The chat's node\<close>

definition SHELL_AGENT_NAME :: string where "SHELL_AGENT_NAME = ''Hivemind Shell''"

definition ensureSessionNode ::
  "chat_env \<Rightarrow> string \<Rightarrow> string \<Rightarrow> shell_route \<Rightarrow> string option \<Rightarrow> hm_state \<Rightarrow> hm_node option \<times> hm_state" where
  "ensureSessionNode e session asked r parent h =
     (if hm_folder h = None then (None, h)
      else case findByChatSession session h of
        Some n \<Rightarrow> (Some n, h)
      | None \<Rightarrow>
          (let parentNode = (case parent of Some p \<Rightarrow> if p \<noteq> [] then getNode p h else None | None \<Rightarrow> None)
           in createNode (ev_date e) (ev_ids e 0)
             \<lparr>init_title = (case parentNode of Some p \<Rightarrow> ''Continue: '' @ htitle (nd_header p)
                 | None \<Rightarrow> titleOf (ev_letter e) asked),
              init_goal = take 1000 asked, init_agent = SHELL_AGENT_NAME, init_model = Some (rid r),
              init_parent = parent, init_chatSession = Some session, init_route = Some (rid r)\<rparr> h))"

definition chat_record :: "chat_env \<Rightarrow> string \<Rightarrow> turn_state \<Rightarrow> string list \<Rightarrow> bool \<Rightarrow> hm_turn" where
  "chat_record e asked t files stopped =
     \<lparr>question = asked, answer = ans_text t, turn_files = js_uniq (map (ev_relative e) files),
      turn_model = Some (rid (ans_route t)), interrupted = stopped, switches = ans_switches t,
      turn_route = Some (rid (ans_route t)), turn_shellSession = ans_session t\<rparr>"

definition recordShellTurn ::
  "chat_env \<Rightarrow> hm_node option \<Rightarrow> string \<Rightarrow> turn_state \<Rightarrow> string list \<Rightarrow> bool \<Rightarrow> hm_state \<Rightarrow> hm_state" where
  "recordShellTurn e n asked t files stopped h =
     (case n of
        Some n \<Rightarrow> if hm_folder h = None then h
                  else recordTurn (hid (nd_header n)) (ev_date e) (chat_record e asked t files stopped) h
      | None \<Rightarrow> h)"

section \<open>Sub-agents\<close>

record child_plan =
  cp_task :: string
  cp_kind :: task_kind
  cp_route :: shell_route

definition spawn_tasks :: "chat_env \<Rightarrow> string \<Rightarrow> string list" where
  "spawn_tasks e asked =
     (let tasks = (case ev_tasks_reply e of Some txt \<Rightarrow> take MAX_SUBAGENTS (parseTasks (ev_letter e) txt) | None \<Rightarrow> []);
          brief = take 180 (chat_oneLine asked)
      in if length tasks < 2 then [''[plan] Work out the approach: '' @ brief, ''[code] Produce the result: '' @ brief]
         else tasks)"

definition plan_child :: "chat_env \<Rightarrow> shell_world \<Rightarrow> shell_route \<Rightarrow> string \<Rightarrow> child_plan" where
  "plan_child e w parent labelled =
     (let (kind, task) = parseTaskLabel labelled;
          suited = (case routeForTask w (ev_clock e) kind of Some r \<Rightarrow> r | None \<Rightarrow> parent);
          chosen = (if ev_ask e then ev_pick e kind task else Some suited)
      in \<lparr>cp_task = task, cp_kind = kind,
          cp_route = (case chosen of None \<Rightarrow> suited | Some r \<Rightarrow> if rprovider r = AUTO_PROVIDER then suited else r)\<rparr>)"

definition child_prompt :: "string \<Rightarrow> string \<Rightarrow> string" where
  "child_prompt task asked =
     ''You are a sub-agent of a larger request. Do this task and nothing else, then reply with the result.'' @ blank_line
     @ ''Task: '' @ task @ blank_line @ ''The larger request, for context: '' @ asked"

text \<open>The nodes of the children, created and running; a child without a node is not run.\<close>

fun create_children ::
  "chat_env \<Rightarrow> string \<Rightarrow> nat \<Rightarrow> child_plan list \<Rightarrow> hm_state \<Rightarrow> (child_plan \<times> hm_node) list \<times> hm_state" where
  "create_children e parent k [] h = ([], h)"
| "create_children e parent k (p # ps) h =
     (let (n, h1) = createNode (ev_date e) (ev_ids e k)
            \<lparr>init_title = titleOf (ev_letter e) (cp_task p), init_goal = cp_task p, init_agent = SHELL_AGENT_NAME,
             init_model = Some (rid (cp_route p)), init_parent = Some parent, init_chatSession = None,
             init_route = Some (rid (cp_route p))\<rparr> h
      in case n of
           None \<Rightarrow> create_children e parent (Suc k) ps h1
         | Some n \<Rightarrow>
             (let (cs, h2) = create_children e parent (Suc k) ps (setRunning (hid (nd_header n)) True h1)
              in ((p, n) # cs, h2)))"

text \<open>
  The turn of one sub-agent: \<open>runShellTurn\<close> on its own route with its own prompt. A failure becomes its
  answer, unless the request was cancelled. \<open>None\<close> is a turn that still runs.
\<close>

definition child_turn :: "chat_env \<Rightarrow> shell_world \<Rightarrow> string \<Rightarrow> nat \<Rightarrow> child_plan \<Rightarrow> turn_state option" where
  "child_turn e w asked k c =
     (case runShellTurn (ev_fuel e) (child_prompt (cp_task c) asked) (cp_route c) (ev_child_combo e k) (ev_clock e)
             (ev_child_turns e k) (ev_child_world e k w) of
        None \<Rightarrow> None
      | Some (Returned w' t) \<Rightarrow> Some t
      | Some (Next w' t) \<Rightarrow> Some t
      | Some (Threw w' t msg) \<Rightarrow>
          Some (if ev_cancelled e then t else t\<lparr>ans_text := ''_This agent failed: '' @ msg @ ''_''\<rparr>))"

fun collect :: "'a option list \<Rightarrow> 'a list option" where
  "collect [] = Some []"
| "collect (x # xs) = (case (x, collect xs) of (Some y, Some ys) \<Rightarrow> Some (y # ys) | _ \<Rightarrow> None)"

definition child_section :: "string \<Rightarrow> turn_state \<Rightarrow> string" where
  "child_section task t =
     ''## '' @ task @ middle_dot @ [CHR 0x60] @ rid (ans_route t) @ [CHR 0x60] @ blank_line @ js_trim (ans_text t)"

definition end_child :: "chat_env \<Rightarrow> child_plan \<times> hm_node \<Rightarrow> turn_state \<Rightarrow> hm_state \<Rightarrow> hm_state" where
  "end_child e c t h =
     setRunning (hid (nd_header (snd c))) False
       (recordShellTurn e (Some (snd c)) (cp_task (fst c)) t [] (ev_cancelled e) h)"

record spawn_result =
  sp_text :: string
  sp_routes :: "string list"

text \<open>
  The sub-agents end in some order; each is recorded on its node and stops running there when it ends.
\<close>

definition spawnShellSubagents ::
  "chat_env \<Rightarrow> shell_world \<Rightarrow> shell_route \<Rightarrow> string \<Rightarrow> hm_node \<Rightarrow> hm_state \<Rightarrow> (spawn_result \<times> hm_state) option" where
  "spawnShellSubagents e w parentRoute asked parent h =
     (if ev_ask e \<and> ev_pick_cancelled e then Some (\<lparr>sp_text = [], sp_routes = []\<rparr>, h)
      else
        let plans = map (plan_child e w parentRoute) (spawn_tasks e asked);
            (cs, h1) = create_children e (hid (nd_header parent)) 1 plans h
        in case collect (map (\<lambda>k. map_option (Pair (cs ! k)) (child_turn e w asked k (fst (cs ! k)))) (ev_order e (length cs))) of
             None \<Rightarrow> None
           | Some ends \<Rightarrow>
               Some (\<lparr>sp_text = js_join blank_line (map (\<lambda>(c, t). child_section (cp_task (fst c)) t) ends),
                      sp_routes = map (\<lambda>(c, t). rid (ans_route t)) ends\<rparr>,
                     fold (\<lambda>(c, t). end_child e c t) ends (ev_during e h1)))"

section \<open>One turn of a chat\<close>

datatype chat_reply =
    NoRoute
  | SignIn string string
  | WhichNode "hm_node list"
  | Answered string
  | CancelledReply
  | ErrorReply string string

definition chat_route :: "chat_env \<Rightarrow> chat_request \<Rightarrow> shell_world \<Rightarrow> shell_route option" where
  "chat_route e rq w =
     (let r = (case getRoute w (routeIdFromModelIdentifier (rq_model rq)) of Some r \<Rightarrow> Some r | None \<Rightarrow> defaultRoute w)
      in case r of
           Some r \<Rightarrow> if rprovider r = AUTO_PROVIDER then routeForTask w (ev_clock e) (taskForMode (rq_mode rq)) else Some r
         | None \<Rightarrow> None)"

definition login_re :: re where
  "login_re = seqs [RBol False, rstar rspace, ch (CHR ''/''), RAlt (liti ''login'') (liti ''logout''), RWordB]"

definition sign_in_reply :: "chat_request \<Rightarrow> shell_world \<Rightarrow> shell_route \<Rightarrow> chat_reply option" where
  "sign_in_reply rq w r =
     (case cliAgentFor w r of
        Some a \<Rightarrow> if re_test login_re (rq_message rq)
          then Some (SignIn (cli_name a) (if cli_id a = ''claude'' then ''claude'' else cli_id a @ '' login'')) else None
      | None \<Rightarrow> None)"

definition chat_prompt ::
  "chat_env \<Rightarrow> chat_request \<Rightarrow> string \<Rightarrow> chat_continuation option \<Rightarrow> hm_node option \<Rightarrow> string list \<Rightarrow> hm_state \<Rightarrow> string" where
  "chat_prompt e rq asked cn node primed_sessions h =
     (let read = fst (readAttachments e rq);
          parent = map_option (\<lambda>c. hid (nd_header (cn_parent c))) cn;
          fresh = (rq_session rq \<notin> set primed_sessions \<and> nonempty_opt (Option.bind node nd_shellSession) = None);
          blocks = (if fresh
            then (case cn of Some c \<Rightarrow> [cn_block c] | None \<Rightarrow> []) @ read
                 @ (case hivemindContext e (rq_session rq) parent h of Some b \<Rightarrow> [b] | None \<Rightarrow> [])
            else read)
      in js_join blank_line (filter (\<lambda>s. s \<noteq> [])
           [formatContext blocks SHELL_CONTEXT_CHARS, case rq_instructions rq of Some i \<Rightarrow> i | None \<Rightarrow> [], asked]))"

definition multitask_re :: re where
  "multitask_re = seqs [RBol False, liti ''multitask'', REol False]"

definition splits :: "chat_request \<Rightarrow> string \<Rightarrow> bool" where
  "splits rq asked \<longleftrightarrow>
     re_test multitask_re (case rq_mode rq of Some m \<Rightarrow> m | None \<Rightarrow> []) \<or> wantsSubagents asked"

definition with_session_of :: "hm_node option \<Rightarrow> turn_state \<Rightarrow> turn_state" where
  "with_session_of node t =
     t\<lparr>ans_session := (case ans_session t of Some i \<Rightarrow> Some i | None \<Rightarrow> Option.bind node nd_shellSession)\<rparr>"

definition used_models :: "string option \<Rightarrow> turn_state \<Rightarrow> string" where
  "used_models first t =
     (case first of
        Some f \<Rightarrow> if f \<noteq> [] \<and> f \<noteq> rid (ans_route t)
          then modelLabel f @ '' '' @ [CHR 0xE2, CHR 0x86, CHR 0x92] @ '' '' @ modelLabel (rid (ans_route t))
          else modelLabel (rid (ans_route t))
      | None \<Rightarrow> modelLabel (rid (ans_route t)))"

text \<open>What follows the turn of the chat itself; \<open>None\<close> is a turn that still runs.\<close>

definition finish_turn ::
  "chat_env \<Rightarrow> chat_request \<Rightarrow> string \<Rightarrow> string list \<Rightarrow> hm_node option \<Rightarrow> string option \<Rightarrow> turn_outcome \<Rightarrow> chat_state \<Rightarrow>
   chat_reply \<times> chat_state" where
  "finish_turn e rq asked files node first out s =
     (case out of
        Threw w t msg \<Rightarrow>
          (if ev_cancelled e then (CancelledReply, s\<lparr>ch_world := w\<rparr>)
           else (ErrorReply msg (modelLabel (rid (ans_route t))),
                 s\<lparr>ch_world := w, ch_hm := recordShellTurn e node asked (with_session_of node t) files True (ch_hm s)\<rparr>))
      | Returned w t \<Rightarrow> (Answered (used_models first t),
          s\<lparr>ch_world := w, primed := List.insert (rq_session rq) (primed s),
            ch_hm := recordShellTurn e node asked (with_session_of node t) files (ev_cancelled e) (ch_hm s)\<rparr>)
      | Next w t \<Rightarrow> (CancelledReply, s\<lparr>ch_world := w\<rparr>))"

definition spawn_turn ::
  "chat_env \<Rightarrow> chat_request \<Rightarrow> string \<Rightarrow> string list \<Rightarrow> hm_node \<Rightarrow> shell_route \<Rightarrow> chat_state \<Rightarrow>
   (chat_reply \<times> chat_state) option" where
  "spawn_turn e rq asked files node r s =
     (case spawnShellSubagents e (ch_world s) r asked node (ch_hm s) of
        None \<Rightarrow> None
      | Some (sp, h) \<Rightarrow>
          (let t = (start_turn asked r [] r)\<lparr>ans_text := sp_text sp, ans_session := nd_shellSession node\<rparr>
           in Some (Answered (show_nat (length (sp_routes sp)) @ '' agents'' @ middle_dot
                @ js_join '', '' (map modelLabel (js_uniq (sp_routes sp)))),
              s\<lparr>ch_world := ev_world e (ch_world s), primed := List.insert (rq_session rq) (primed s),
                ch_hm := recordShellTurn e (Some node) asked t files (ev_cancelled e) h\<rparr>)))"

definition chat_stop :: "hm_node option \<Rightarrow> chat_state \<Rightarrow> chat_state" where
  "chat_stop node s =
     (case node of Some n \<Rightarrow> s\<lparr>ch_hm := setRunning (hid (nd_header n)) False (ch_hm s)\<rparr> | None \<Rightarrow> s)"

definition chat_start :: "hm_node option \<Rightarrow> chat_state \<Rightarrow> chat_state" where
  "chat_start node s =
     (case node of Some n \<Rightarrow> s\<lparr>ch_hm := setRunning (hid (nd_header n)) True (ch_hm s)\<rparr> | None \<Rightarrow> s)"

text \<open>The turn of the chat itself, on its own route.\<close>

definition own_turn ::
  "chat_env \<Rightarrow> chat_request \<Rightarrow> string \<Rightarrow> chat_continuation option \<Rightarrow> string list \<Rightarrow> hm_node option \<Rightarrow> shell_route \<Rightarrow>
   chat_state \<Rightarrow> (chat_reply \<times> chat_state) option" where
  "own_turn e rq asked cn files node r s =
     (case runShellTurn (ev_fuel e) (chat_prompt e rq asked cn node (primed s) (ch_hm s)) r (ev_combo e) (ev_clock e)
             (ev_turns e) (ch_world s) of
        None \<Rightarrow> None
      | Some out \<Rightarrow>
          (let first = (case plan (ev_clock e) (ev_combo e) r (ch_world s) of
                          Some (q # _, _) \<Rightarrow> Some (rid q) | _ \<Rightarrow> None)
           in Some (finish_turn e rq asked files node first out (s\<lparr>ch_hm := ev_during e (ch_hm s)\<rparr>))))"

definition run_chat ::
  "chat_env \<Rightarrow> chat_request \<Rightarrow> shell_route \<Rightarrow> chat_continuation option \<Rightarrow> chat_state \<Rightarrow> (chat_reply \<times> chat_state) option" where
  "run_chat e rq r cn s0 =
     (let asked = (case cn of Some c \<Rightarrow> cn_question c | None \<Rightarrow> rq_message rq);
          parent = map_option (\<lambda>c. hid (nd_header (cn_parent c))) cn;
          (node, h) = ensureSessionNode e (rq_session rq) asked r parent (ch_hm s0);
          s = chat_start node (s0\<lparr>ch_hm := h\<rparr>);
          files = snd (readAttachments e rq);
          over = (case node of
              Some n \<Rightarrow> if splits rq asked \<and> cn = None then spawn_turn e rq asked files n r s
                        else own_turn e rq asked cn files node r s
            | None \<Rightarrow> own_turn e rq asked cn files node r s)
      in map_option (\<lambda>(reply, s'). (reply, chat_stop node s')) over)"

definition invoke :: "chat_env \<Rightarrow> chat_request \<Rightarrow> chat_state \<Rightarrow> (chat_reply \<times> chat_state) option" where
  "invoke e rq s =
     (case chat_route e rq (ch_world s) of
        None \<Rightarrow> Some (NoRoute, s)
      | Some r \<Rightarrow>
          (case sign_in_reply rq (ch_world s) r of
             Some reply \<Rightarrow> Some (reply, s)
           | None \<Rightarrow>
               if rq_command rq = Some ''continue''
               then (case prepareContinuation (rq_message rq) (ch_hm s) of
                       Inl ns \<Rightarrow> Some (WhichNode ns, s)
                     | Inr c \<Rightarrow> run_chat e rq r (Some c) s)
               else run_chat e rq r None s))"

section \<open>Sub-agents are few and have a model\<close>

lemma parseTaskLabel_nonempty: "js_trim task \<noteq> [] \<Longrightarrow> snd (parseTaskLabel task) \<noteq> []"
  by (simp add: parseTaskLabel_def Let_def)

lemma js_trim_hd: "s \<noteq> [] \<Longrightarrow> \<not> is_js_space (hd s) \<Longrightarrow> js_trim s \<noteq> []"
proof -
  assume s: "s \<noteq> []" "\<not> is_js_space (hd s)"
  then have "dropWhile is_js_space s = s" by (intro dropWhile_idem_hd) simp
  moreover have "dropWhile is_js_space (rev s) \<noteq> []" using s by (simp add: dropWhile_eq_Nil_conv) (use list.set_sel(1) in blast)
  ultimately show ?thesis by (simp add: js_trim_def)
qed

lemma plan_child_kept [simp]: "cp_task (plan_child e w r t) = snd (parseTaskLabel t)"
  by (simp add: plan_child_def case_prod_beta Let_def)


section \<open>Nothing is left running\<close>

definition running :: "hm_state \<Rightarrow> string set" where
  "running h = set (runningIds h)"

lemma running_set [simp]: "running (setRunning i b h) = (if b then insert i (running h) else running h - {i})"
  by (auto simp: running_def setRunning_def)

lemma running_record [simp]: "running (recordTurn i now t h) = running h"
  by (auto simp: running_def recordTurn_def write_document_def replaceNode_def split: option.split)

lemma running_recordShell [simp]: "running (recordShellTurn e n asked t files b h) = running h"
  by (auto simp: recordShellTurn_def split: option.split)

lemma running_create [simp]: "running (snd (createNode now rnd p h)) = running h"
  by (auto simp: createNode_def running_def Let_def split: option.split)

lemma running_ensure [simp]: "running (snd (ensureSessionNode e session asked r parent h)) = running h"
  by (auto simp: ensureSessionNode_def Let_def split: option.split)

lemma running_children:
  "create_children e parent k ps h = (cs, h') \<Longrightarrow>
   running h' = running h \<union> (\<lambda>c. hid (nd_header (snd c))) ` set cs"
proof (induction ps arbitrary: k h cs h')
  case (Cons p ps)
  define made where "made = createNode (ev_date e) (ev_ids e k)
            \<lparr>init_title = titleOf (ev_letter e) (cp_task p), init_goal = cp_task p, init_agent = SHELL_AGENT_NAME,
             init_model = Some (rid (cp_route p)), init_parent = Some parent, init_chatSession = None,
             init_route = Some (rid (cp_route p))\<rparr> h"
  have r: "running (snd made) = running h" unfolding made_def by simp
  show ?case
  proof (cases "fst made")
    case None
    then have "create_children e parent (Suc k) ps (snd made) = (cs, h')"
      using Cons.prems by (simp add: case_prod_beta flip: made_def)
    from Cons.IH [OF this] r show ?thesis by simp
  next
    case (Some n)
    obtain cs2 h2 where c: "create_children e parent (Suc k) ps (setRunning (hid (nd_header n)) True (snd made)) = (cs2, h2)"
      by fastforce
    then have "cs = (p, n) # cs2" "h' = h2"
      using Cons.prems Some by (simp_all add: case_prod_beta flip: made_def)
    with Cons.IH [OF c] r show ?thesis by auto
  qed
qed simp

lemma running_ends:
  "running (fold (\<lambda>(c, t). end_child e c t) ends h) = running h - (\<lambda>(c, t). hid (nd_header (snd c))) ` set ends"
  by (induction ends arbitrary: h) (auto simp: end_child_def)

lemma collect_fst:
  "collect (map (\<lambda>k. map_option (Pair (f k)) (g k)) ks) = Some ys \<Longrightarrow> map fst ys = map f ks"
  by (induction ks arbitrary: ys) (auto split: option.splits)

lemma running_spawn:
  assumes "\<forall>h. running (ev_during e h) \<subseteq> running h" "\<forall>n. set (ev_order e n) = {0..<n}"
    and "spawnShellSubagents e w r asked parent h = Some (sp, h')"
  shows "running h' \<subseteq> running h"
proof (cases "ev_ask e \<and> ev_pick_cancelled e")
  case False
  define plans where "plans = map (plan_child e w r) (spawn_tasks e asked)"
  obtain cs h1 where c: "create_children e (hid (nd_header parent)) 1 plans h = (cs, h1)" by fastforce
  obtain ends where ends: "collect (map (\<lambda>k. map_option (Pair (cs ! k)) (child_turn e w asked k (fst (cs ! k)))) (ev_order e (length cs))) = Some ends"
    and h': "h' = fold (\<lambda>(c, t). end_child e c t) ends (ev_during e h1)"
    using assms(3) unfolding spawnShellSubagents_def if_not_P [OF False] Let_def plans_def [symmetric] c prod.case
    by (auto split: option.splits)
  have "map fst ends = map ((!) cs) (ev_order e (length cs))" by (rule collect_fst [OF ends])
  then have "set (map fst ends) = set cs" using assms(2) by (simp add: nth_image)
  moreover have "(\<lambda>(c, t). hid (nd_header (snd c))) ` set ends = (\<lambda>c. hid (nd_header (snd c))) ` set (map fst ends)"
    by (simp add: case_prod_beta image_image)
  ultimately have "(\<lambda>(c, t). hid (nd_header (snd c))) ` set ends = (\<lambda>c. hid (nd_header (snd c))) ` set cs" by simp
  moreover have "running (ev_during e h1) \<subseteq> running h \<union> (\<lambda>c. hid (nd_header (snd c))) ` set cs"
    using assms(1) unfolding running_children [OF c, symmetric] by simp
  ultimately show ?thesis unfolding h' running_ends by (simp add: Diff_subset_conv Un_commute)
qed (use assms(3) in \<open>simp add: spawnShellSubagents_def\<close>)

lemma running_start_stop [simp]:
  "running (ch_hm (chat_start node s)) = running (ch_hm s) \<union> (\<lambda>n. hid (nd_header n)) ` set_option node"
  "running (ch_hm (chat_stop node s)) = running (ch_hm s) - (\<lambda>n. hid (nd_header n)) ` set_option node"
  by (cases node; simp add: chat_start_def chat_stop_def)+

lemma running_finish [simp]:
  "running (ch_hm (snd (finish_turn e rq asked files node first out s))) = running (ch_hm s)"
  by (cases out) (simp_all add: finish_turn_def)

lemma running_own:
  assumes "\<forall>h. running (ev_during e h) \<subseteq> running h"
    and "own_turn e rq asked cn files node r s = Some (reply, s')"
  shows "running (ch_hm s') \<subseteq> running (ch_hm s)"
proof -
  obtain first out where "(reply, s') = finish_turn e rq asked files node first out (s\<lparr>ch_hm := ev_during e (ch_hm s)\<rparr>)"
    using assms(2) by (auto simp: own_turn_def Let_def dest!: sym [of _ "(reply, s')"] split: option.splits)
  then have "s' = snd (finish_turn e rq asked files node first out (s\<lparr>ch_hm := ev_during e (ch_hm s)\<rparr>))" by (metis snd_conv)
  then show ?thesis using assms(1) by simp
qed

lemma running_spawn_turn:
  assumes "\<forall>h. running (ev_during e h) \<subseteq> running h" "\<forall>n. set (ev_order e n) = {0..<n}"
    and "spawn_turn e rq asked files n r s = Some (reply, s')"
  shows "running (ch_hm s') \<subseteq> running (ch_hm s)"
proof -
  obtain sp h where "spawnShellSubagents e (ch_world s) r asked n (ch_hm s) = Some (sp, h)" "running (ch_hm s') = running h"
    using assms(3) by (auto simp: spawn_turn_def split: option.splits)
  then show ?thesis using running_spawn [OF assms(1,2)] by blast
qed

lemma run_chat_running:
  assumes other: "\<forall>h. running (ev_during e h) \<subseteq> running h" and ends: "\<forall>n. set (ev_order e n) = {0..<n}"
    and run: "run_chat e rq r cn s = Some (reply, s')"
    and node: "ensureSessionNode e (rq_session rq) (case cn of Some c \<Rightarrow> cn_question c | None \<Rightarrow> rq_message rq) r
      (map_option (\<lambda>c. hid (nd_header (cn_parent c))) cn) (ch_hm s) = (node, h)"
  shows "running (ch_hm s') \<subseteq> running (ch_hm s) - (\<lambda>n. hid (nd_header n)) ` set_option node"
proof -
  define s1 where "s1 = chat_start node (s\<lparr>ch_hm := h\<rparr>)"
  have "running h = running (ch_hm s)" using running_ensure node by (metis snd_conv)
  then have s1: "running (ch_hm s1) = running (ch_hm s) \<union> (\<lambda>n. hid (nd_header n)) ` set_option node"
    by (simp add: s1_def)
  obtain s2 where s2: "s' = chat_stop node s2" "running (ch_hm s2) \<subseteq> running (ch_hm s1)"
    using run unfolding run_chat_def node Let_def prod.case s1_def [symmetric]
    by (auto split: option.splits if_splits dest!: running_own [OF other] running_spawn_turn [OF other ends])
  then show ?thesis using s1 by auto
qed

section \<open>A chat gets its reply\<close>

text \<open>What a call may rely on: the names of providers and CLIs stay within \<open>U\<close> while the turns run.\<close>

definition chat_env_ok :: "string set \<Rightarrow> chat_env \<Rightarrow> bool" where
  "chat_env_ok U e \<longleftrightarrow> (\<forall>j. env_ok U (ev_turns e j)) \<and> (\<forall>k j. env_ok U (ev_child_turns e k j)) \<and>
     (\<forall>k w. world_ok U w \<longrightarrow> world_ok U (ev_child_world e k w))"

lemma fuel_irrelevant [simp]:
  "chat_route (e\<lparr>ev_fuel := n\<rparr>) rq w = chat_route e rq w"
  "ensureSessionNode (e\<lparr>ev_fuel := n\<rparr>) ses asked r parent h = ensureSessionNode e ses asked r parent h"
  "chat_prompt (e\<lparr>ev_fuel := n\<rparr>) rq asked cn node primed_sessions h = chat_prompt e rq asked cn node primed_sessions h"
  "spawn_tasks (e\<lparr>ev_fuel := n\<rparr>) asked = spawn_tasks e asked"
  "plan_child (e\<lparr>ev_fuel := n\<rparr>) w r t = plan_child e w r t"
  "readAttachments (e\<lparr>ev_fuel := n\<rparr>) rq = readAttachments e rq"
proof -
  have "readResource (e\<lparr>ev_fuel := n\<rparr>) = readResource e" by (intro ext) (simp add: readResource_def Let_def cong: option.case_cong)
  then have "read_entry (e\<lparr>ev_fuel := n\<rparr>) = read_entry e" by (intro ext) (simp add: read_entry_def cong: chat_entry.case_cong)
  then show "readAttachments (e\<lparr>ev_fuel := n\<rparr>) rq = readAttachments e rq"
    "chat_prompt (e\<lparr>ev_fuel := n\<rparr>) rq asked cn node primed_sessions h = chat_prompt e rq asked cn node primed_sessions h"
    by (simp_all add: chat_prompt_def readAttachments_def hivemindContext_def Let_def cong: if_cong option.case_cong)
qed (simp_all add: chat_route_def ensureSessionNode_def spawn_tasks_def plan_child_def Let_def cong: if_cong option.case_cong)

lemma fuel_children [simp]: "create_children (e\<lparr>ev_fuel := n\<rparr>) parent k ps h = create_children e parent k ps h"
  by (induction ps arbitrary: k h) (simp_all add: Let_def cong: option.case_cong)

lemma turn_returns:
  assumes "finite U" "AUTO_PROVIDER \<notin> U" "\<forall>j. env_ok U (es j)" "world_ok U w"
  shows "\<forall>\<^sub>F fuel in sequentially. runShellTurn fuel prompt asked rnd now es w \<noteq> None"
proof -
  have "\<forall>a\<in>set (cliAgents w). cli_name a \<noteq> AUTO_PROVIDER" using assms(2,4) by (auto simp: world_ok_def)
  from runShellTurn_returns [OF assms(1,3,4) this] show ?thesis by (simp add: eventually_sequentially)
qed

lemma collect_returns: "(\<forall>x\<in>set xs. x \<noteq> None) \<Longrightarrow> collect xs \<noteq> None"
  by (induction xs) (auto split: option.splits)

lemma spawn_returns:
  assumes "finite U" "AUTO_PROVIDER \<notin> U" "chat_env_ok U e" "world_ok U w"
  shows "\<forall>\<^sub>F fuel in sequentially. spawnShellSubagents (e\<lparr>ev_fuel := fuel\<rparr>) w r asked parent h \<noteq> None"
proof -
  define cs where "cs = fst (create_children e (hid (nd_header parent)) 1 (map (plan_child e w r) (spawn_tasks e asked)) h)"
  have "\<forall>\<^sub>F fuel in sequentially. child_turn (e\<lparr>ev_fuel := fuel\<rparr>) w asked k c \<noteq> None" for k c
    using turn_returns [OF assms(1,2), of "ev_child_turns e k" "ev_child_world e k w"
        "child_prompt (cp_task c) asked" "cp_route c" "ev_child_combo e k" "ev_clock e"] assms(3,4)
    by (auto simp: child_turn_def chat_env_ok_def elim!: eventually_mono split: option.splits turn_outcome.splits)
  then have "\<forall>\<^sub>F fuel in sequentially. \<forall>k\<in>set (ev_order e (length cs)). child_turn (e\<lparr>ev_fuel := fuel\<rparr>) w asked k (fst (cs ! k)) \<noteq> None"
    by (intro eventually_ball_finite) auto
  then show ?thesis
  proof (rule eventually_mono)
    fix fuel
    let ?e = "e\<lparr>ev_fuel := fuel\<rparr>"
    assume "\<forall>k\<in>set (ev_order e (length cs)). child_turn ?e w asked k (fst (cs ! k)) \<noteq> None"
    then have "collect (map (\<lambda>k. map_option (Pair (cs ! k)) (child_turn ?e w asked k (fst (cs ! k)))) (ev_order e (length cs))) \<noteq> None"
      by (intro collect_returns) auto
    then show "spawnShellSubagents ?e w r asked parent h \<noteq> None"
      by (auto simp: spawnShellSubagents_def cs_def case_prod_beta Let_def cong: map_cong split: option.splits)
  qed
qed

lemma run_chat_returns:
  assumes "finite U" "AUTO_PROVIDER \<notin> U" "chat_env_ok U e" "world_ok U (ch_world s)"
  shows "\<forall>\<^sub>F fuel in sequentially. run_chat (e\<lparr>ev_fuel := fuel\<rparr>) rq r cn s \<noteq> None"
proof -
  have w: "ch_world (chat_start node (s\<lparr>ch_hm := h\<rparr>)) = ch_world s" for node h
    by (simp add: chat_start_def split: option.split)
  have own: "\<forall>\<^sub>F fuel in sequentially. own_turn (e\<lparr>ev_fuel := fuel\<rparr>) rq asked cn files node r t \<noteq> None"
    if "ch_world t = ch_world s" for asked files node t
    using turn_returns [OF assms(1,2), of "ev_turns e" "ch_world s"
        "chat_prompt e rq asked cn node (primed t) (ch_hm t)" r "ev_combo e" "ev_clock e"] assms(3,4) that
    by (auto simp: own_turn_def chat_env_ok_def Let_def elim!: eventually_mono split: option.splits)
  have spawn: "\<forall>\<^sub>F fuel in sequentially. spawn_turn (e\<lparr>ev_fuel := fuel\<rparr>) rq asked files n r t \<noteq> None"
    if "ch_world t = ch_world s" for asked files n t
    using spawn_returns [OF assms] that by (auto simp: spawn_turn_def Let_def elim!: eventually_mono split: option.splits)
  obtain node h where node: "ensureSessionNode e (rq_session rq) (case cn of Some c \<Rightarrow> cn_question c | None \<Rightarrow> rq_message rq) r
      (map_option (\<lambda>c. hid (nd_header (cn_parent c))) cn) (ch_hm s) = (node, h)" by fastforce
  note unfold = run_chat_def fuel_irrelevant node Let_def prod.case option.map_disc_iff
  show ?thesis
  proof (cases node)
    case None
    then show ?thesis using own [OF w] unfolding unfold by simp
  next
    case (Some n)
    then show ?thesis using own [OF w] spawn [OF w] unfolding unfold
      by (cases cn; cases "splits rq (rq_message rq)") simp_all
  qed
qed

lemma invoke_returns:
  assumes "finite U" "AUTO_PROVIDER \<notin> U" "chat_env_ok U e" "world_ok U (ch_world s)"
  shows "\<exists>N. \<forall>fuel\<ge>N. invoke (e\<lparr>ev_fuel := fuel\<rparr>) rq s \<noteq> None"
proof -
  note run_chat_returns [OF assms, of rq]
  then have "\<forall>\<^sub>F fuel in sequentially. invoke (e\<lparr>ev_fuel := fuel\<rparr>) rq s \<noteq> None"
    unfolding invoke_def fuel_irrelevant
    by (cases "chat_route e rq (ch_world s)"; cases "sign_in_reply rq (ch_world s) (the (chat_route e rq (ch_world s)))";
        cases "prepareContinuation (rq_message rq) (ch_hm s)"; cases "rq_command rq = Some ''continue''") simp_all
  then show ?thesis by (simp add: eventually_sequentially)
qed

section \<open>A demo\<close>

definition demo_chat_env :: chat_env where
  "demo_chat_env = \<lparr>ev_date = demo_date, ev_clock = 0, ev_ids = (\<lambda>k j. 0), ev_combo = (\<lambda>k. 0),
     ev_letter = (\<lambda>c. c \<in> set ''abcdefghijklmnopqrstuvwxyz''), ev_read = (\<lambda>u. None), ev_uri_label = id, ev_relative = id,
     ev_include = True, ev_fuel = 0, ev_turns = demo_turn_env, ev_during = id, ev_cancelled = False, ev_ask = False,
     ev_tasks_reply = Some (''- [code] write it'' @ [nl] @ ''- [review] read it''), ev_pick = (\<lambda>k t. None),
     ev_pick_cancelled = False, ev_order = (\<lambda>n. rev [0..<n]), ev_child_combo = (\<lambda>k j. 0),
     ev_child_turns = (\<lambda>k. demo_turn_env), ev_child_world = (\<lambda>k w. w), ev_world = id\<rparr>"

definition demo_request :: chat_request where
  "demo_request = \<lparr>rq_message = ''spawn two agents'', rq_command = None, rq_mode = None, rq_instructions = None,
     rq_model = None, rq_session = ''s 1'', rq_entries = [Pasted ''notes'' ''x = 1'']\<rparr>"

definition demo_chat :: chat_state where
  "demo_chat = \<lparr>ch_world = demo_world, ch_hm = setRunning ''20260925-fix'' True demo_state, primed = []\<rparr>"

lemma demo_chat_ok: "world_ok {''A'', ''B'', ''Claude Code''} (ch_world demo_chat)"
  "chat_env_ok {''A'', ''B'', ''Claude Code''} demo_chat_env"
  using demo_failover_providers demo_failover_auto(2)
  by (simp_all add: world_ok_def fo_ok_def demo_chat_def demo_world_def cliAgents_def demo_provider_def
      chat_env_ok_def demo_chat_env_def env_ok_def demo_turn_env_def)




end
