(* ===== verification/Llama_Text.thy ===== *)
theory Llama_Text
  imports Js_Regex Js_Lines
begin

text \<open>
  The text a local model produces and the arguments it is started with: the helpers of
  \<open>src/vs/platform/hivemindide/electron-main/localLlamaMainService.ts\<close> that touch no process. What
  \<open>removeAnsiEscapeCodes\<close> (of the editor) leaves of a line is an argument.
\<close>

section \<open>Resuming an answer\<close>

text \<open>
  \<open>EchoFilter\<close>: a server echoes the answer it is asked to continue; what still matches is held back.
\<close>

record echo =
  ec_prefix :: string
  ec_pending :: string
  ec_decided :: bool

definition new_echo :: "string \<Rightarrow> echo" where
  "new_echo p = \<lparr>ec_prefix = p, ec_pending = [], ec_decided = (p = [])\<rparr>"

definition echo_push :: "string \<Rightarrow> echo \<Rightarrow> string \<times> echo" where
  "echo_push delta e =
     (if ec_decided e then (delta, e)
      else let pending = ec_pending e @ delta in
        if prefix pending (ec_prefix e)
        then ([], if length pending = length (ec_prefix e) then e\<lparr>ec_decided := True, ec_pending := []\<rparr>
                  else e\<lparr>ec_pending := pending\<rparr>)
        else (if prefix (ec_prefix e) pending then drop (length (ec_prefix e)) pending else pending,
              e\<lparr>ec_decided := True, ec_pending := []\<rparr>))"

text \<open>\<open>MarkerCleaner\<close>: markers of a chat template that leak as text are removed, also when cut.\<close>

definition marker_words :: "string list" where
  "marker_words = [''im_end'', ''im_start'', ''eot_id'', ''end_of_text'', ''endoftext'', ''end_of_turn'', ''start_of_turn'']"

definition leaked_re :: re where
  "leaked_re = alts
     [seqs [ch (CHR ''<''), ropt (ch (CHR ''/'')), ropt (ch (CHR ''|'')), alts (map lit marker_words), ropt (ch (CHR ''|'')), ch (CHR ''>'')],
      seqs [ch (CHR ''<''), ropt (ch (CHR ''/'')), lit ''end_of_turn>''],
      lit ''</s>'']"

definition marker_char :: "char \<Rightarrow> bool" where
  "marker_char c \<longleftrightarrow> c = CHR ''_'' \<or> (97 \<le> (of_char c :: nat) \<and> (of_char c :: nat) \<le> 122)"

definition partial_re :: re where
  "partial_re = seqs [ch (CHR ''<''), ropt (ch (CHR ''/'')), ropt (ch (CHR ''|'')), rstar (RCls marker_char), ropt (ch (CHR ''|'')), REol False]"

definition cleaner_push :: "string \<Rightarrow> string \<Rightarrow> string \<times> string" where
  "cleaner_push delta pending =
     (let text = re_replace_all leaked_re [] (pending @ delta)
      in case re_exec partial_re text of
           Some (b, w, _) \<Rightarrow> if length w \<le> 16 then (rev b, w) else (text, [])
         | None \<Rightarrow> (text, []))"

definition cleaner_flush :: "string \<Rightarrow> string" where
  "cleaner_flush pending = re_replace_all leaked_re [] pending"

section \<open>Logs\<close>

definition level_re :: "string \<Rightarrow> re" where
  "level_re levels = seqs [RBol False, rstar rspace, rplus (RCls (\<lambda>c. is_digit c \<or> c = CHR ''.'')), rplus rspace, cls levels]"

definition log_error_re :: re where
  "log_error_re = alts [seqs [RWordB, liti ''error'', RWordB], liti ''failed'', liti ''out of memory'', liti ''unable to allocate'']"

definition errorLines :: "(string \<Rightarrow> string) \<Rightarrow> string list \<Rightarrow> string" where
  "errorLines ansi log_tail =
     (let ls = filter (\<lambda>l. re_test (RSeq (level_re ''E'') rspace) l \<or> re_test log_error_re l) (map ansi log_tail)
      in js_join [nl] (map (re_replace_first (RSeq (level_re ''EWI'') (rplus rspace)) []) (drop (length ls - 3) ls)))"

definition with_detail :: "(string \<Rightarrow> string) \<Rightarrow> string \<Rightarrow> string list \<Rightarrow> string" where
  "with_detail ansi reason log_tail =
     (let detail = errorLines ansi log_tail in if detail \<noteq> [] then reason @ [nl] @ detail else reason)"

definition OUT_OF_MEMORY :: re where
  "OUT_OF_MEMORY = alts (map liti [''out of memory'', ''failed to allocate'', ''unable to allocate'', ''insufficient memory'',
     ''cudaMalloc failed'', ''ErrorOutOfMemory'', ''vk::OutOfDeviceMemory''])"

definition unreadable_re :: re where
  "unreadable_re = alts (map liti [''invalid ggml type'', ''unknown model architecture'', ''unknown pre-tokenizer'',
     ''failed to read tensor info'', ''unsupported tensor'', ''unsupported model'', ''unsupported quant''])"

text \<open>What \<open>startWith\<close> can reject with: the log of an engine that exited, or any other error.\<close>

datatype start_error = LlamaStartError string "string list" | OtherError string

fun cannotReadModel :: "start_error \<Rightarrow> bool" where
  "cannotReadModel (LlamaStartError msg log_tail) \<longleftrightarrow> (\<exists>l\<in>set log_tail. re_test unreadable_re l)"
| "cannotReadModel (OtherError msg) \<longleftrightarrow> False"

section \<open>Options and arguments\<close>

record start_options =
  so_modelPath :: string
  so_contextSize :: int
  so_gpuLayers :: int
  so_serverPath :: "string option"
  so_devices :: "string list option"
  so_splitMode :: "string option"
  so_mainGpu :: "int option"
  so_tensorSplit :: "string option"
  so_threads :: "int option"
  so_flashAttention :: "string option"
  so_keepAlive :: "real option"
  so_share :: "(nat \<times> string) option"
  so_extraArgs :: "string list option"

text \<open>The code compares the JSON of both, without the time an idle model stays loaded.\<close>

definition sameOptions :: "start_options \<Rightarrow> start_options \<Rightarrow> bool" where
  "sameOptions a b \<longleftrightarrow> a\<lparr>so_keepAlive := None\<rparr> = b\<lparr>so_keepAlive := None\<rparr>"

definition hardwareArgs :: "start_options \<Rightarrow> string list" where
  "hardwareArgs p =
     (case so_devices p of Some (d # ds) \<Rightarrow> [''--device'', js_join '','' (d # ds)] | _ \<Rightarrow> [])
     @ (case so_splitMode p of Some m \<Rightarrow> if m \<noteq> [] then [''--split-mode'', m] else [] | None \<Rightarrow> [])
     @ (case so_mainGpu p of Some g \<Rightarrow> if g \<noteq> 0 then [''--main-gpu'', show_int g] else [] | None \<Rightarrow> [])
     @ (case so_tensorSplit p of Some t \<Rightarrow> if js_trim t \<noteq> [] then [''--tensor-split'', js_trim t] else [] | None \<Rightarrow> [])
     @ (case so_threads p of Some n \<Rightarrow> if n > 0 then [''--threads'', show_int n] else [] | None \<Rightarrow> [])
     @ (case so_flashAttention p of Some f \<Rightarrow> if f \<noteq> [] then [''--flash-attn'', f] else [] | None \<Rightarrow> [])"

definition RESERVED_FLAGS :: "string list" where
  "RESERVED_FLAGS = [''-m'', ''--model'', ''--host'', ''--port'', ''--api-key'', ''--api-key-file'']"

definition executable_re :: re where
  "executable_re = seqs [RAlt (RBol False) (cls [CHR 0x5C, CHR ''/'']), liti ''llama-server'', ropt (liti ''.exe''), REol False]"

fun without_reserved :: "string list \<Rightarrow> string list" where
  "without_reserved [] = []"
| "without_reserved (a # xs) =
     (if a \<in> set RESERVED_FLAGS then without_reserved (drop 1 xs)
      else if hd (js_split (CHR ''='') a) \<in> set RESERVED_FLAGS then without_reserved xs
      else a # without_reserved xs)"

definition userArgs :: "string list option \<Rightarrow> string list" where
  "userArgs extra =
     (case extra of
        Some (a # xs) \<Rightarrow> if re_test executable_re a then without_reserved xs else without_reserved (a # xs)
      | _ \<Rightarrow> [])"

datatype llama_role = ChatRole | EmbeddingRole

definition CHAT_SLOTS :: nat where "CHAT_SLOTS = 4"

definition server_args :: "llama_role \<Rightarrow> start_options \<Rightarrow> nat \<Rightarrow> string \<Rightarrow> bool \<Rightarrow> string list \<Rightarrow> string list" where
  "server_args role p port key shared roleArgs =
     [''--model'', so_modelPath p, ''--host'', if shared then ''0.0.0.0'' else ''127.0.0.1'',
      ''--port'', show_nat port, ''--api-key'', key]
     @ (if so_gpuLayers p \<ge> 0 then [''--n-gpu-layers'', show_int (so_gpuLayers p)] else [])
     @ (if role = ChatRole then [''--parallel'', show_nat CHAT_SLOTS, ''--kv-unified''] else [''--parallel'', ''1''])
     @ [''--no-webui''] @ hardwareArgs p @ roleArgs @ userArgs (so_extraArgs p)"

text \<open>\<open>s.replace(/\/+$/, '')\<close> and \<open>s.replace(/\/v1$/, '')\<close>.\<close>

definition slashes_re :: re where
  "slashes_re = RSeq (rplus (ch (CHR ''/''))) (REol False)"

definition v1_re :: re where
  "v1_re = RSeq (lit ''/v1'') (REol False)"

definition remoteBaseUrl :: "string \<Rightarrow> string" where
  "remoteBaseUrl url = re_replace_first v1_re [] (re_replace_first slashes_re [] (js_trim url))"

section \<open>An answer is continued without its echo\<close>

text \<open>What a filter lets through of the chunks it is given, one after another.\<close>

fun run_push :: "(string \<Rightarrow> 's \<Rightarrow> string \<times> 's) \<Rightarrow> string list \<Rightarrow> 's \<Rightarrow> string \<times> 's" where
  "run_push push [] s = ([], s)"
| "run_push push (d # ds) s =
     (let (out, s1) = push d s; (outs, s2) = run_push push ds s1 in (out @ outs, s2))"

lemma run_push_append:
  "run_push push (ds @ es) s =
     (let (out, s1) = run_push push ds s; (outs, s2) = run_push push es s1 in (out @ outs, s2))"
  by (induction ds arbitrary: s) (simp_all add: case_prod_beta Let_def)

lemma echo_decided: "ec_decided e \<Longrightarrow> run_push echo_push ds e = (concat ds, e)"
  by (induction ds) (simp_all add: echo_push_def)

text \<open>What a resumed answer shows of a stream \<open>s\<close>.\<close>

definition without_echo :: "string \<Rightarrow> string \<Rightarrow> string" where
  "without_echo p s = (if prefix p s then drop (length p) s else if prefix s p then [] else s)"

lemma without_echo_append:
  "prefix s p \<Longrightarrow> s \<noteq> p \<Longrightarrow> \<not> prefix (s @ d) p \<Longrightarrow>
   without_echo p (s @ d @ t) = (if prefix p (s @ d) then drop (length p) (s @ d) else s @ d) @ t"
  unfolding without_echo_def by (auto simp: prefix_def append_eq_append_conv2 split: if_splits)

lemma echo_undecided:
  assumes "\<not> ec_decided e" "prefix (ec_pending e) (ec_prefix e)" "ec_pending e \<noteq> ec_prefix e"
  shows "fst (run_push echo_push ds e) = without_echo (ec_prefix e) (ec_pending e @ concat ds)"
  using assms
proof (induction ds arbitrary: e)
  case Nil
  then show ?case by (auto simp: without_echo_def dest: prefix_order.antisym)
next
  case (Cons d ds)
  let ?p = "ec_prefix e" and ?s = "ec_pending e @ d"
  consider (equal) "?s = ?p" | (held) "prefix ?s ?p" "?s \<noteq> ?p" | (decided) "\<not> prefix ?s ?p" by blast
  then show ?case
  proof cases
    case equal
    then show ?thesis using Cons.prems(1)
      by (simp add: echo_push_def [where e = e] Let_def echo_decided without_echo_def flip: append_assoc)
  next
    case held
    then have "length ?s \<noteq> length ?p" by (auto simp: prefix_def)
    then show ?thesis using Cons.prems(1) held Cons.IH [of "e\<lparr>ec_pending := ?s\<rparr>"]
      by (simp add: echo_push_def [where e = e] Let_def case_prod_beta)
  next
    case decided
    then show ?thesis using Cons.prems without_echo_append [of "ec_pending e" ?p d "concat ds"]
      by (simp add: echo_push_def [where e = e] Let_def case_prod_beta echo_decided)
  qed
qed

text \<open>A resumed answer goes on where it stopped. Whatever the chunks of the stream, what is
  shown of it is the text after the answer so far when the server echoes that answer, and the whole
  text when it turns out that it does not.\<close>

lemma resumed_answer_has_no_echo:
  "fst (run_push echo_push ds (new_echo p)) = without_echo p (concat ds)"
proof (cases "p = []")
  case True
  then show ?thesis by (simp add: new_echo_def echo_decided without_echo_def)
next
  case False
  then show ?thesis using echo_undecided [of "new_echo p" ds] by (simp add: new_echo_def)
qed

text \<open>A text that is not an echo is lost when it ends while it still could be one.\<close>

lemma short_answer_is_lost: "run_push echo_push [''Yes''] (new_echo ''Yesterday'') = ([], \<lparr>ec_prefix = ''Yesterday'', ec_pending = ''Yes'', ec_decided = False\<rparr>)"
  by (simp add: echo_push_def new_echo_def)

section \<open>The user's arguments\<close>

lemma without_reserved_set: "a \<in> set (without_reserved xs) \<Longrightarrow> hd (js_split (CHR ''='') a) \<notin> set RESERVED_FLAGS"
  by (induction xs rule: without_reserved.induct) (auto split: if_splits)

lemma without_reserved_subseq: "subseq (without_reserved xs) xs"
proof (induction xs rule: without_reserved.induct)
  case (2 a xs)
  have "subseq (without_reserved (drop 1 xs)) xs" if "a \<in> set RESERVED_FLAGS"
    using 2(1) [OF that] by (metis append_take_drop_id list_emb_append2)
  then show ?case using 2 by auto
qed simp

lemma userArgs_form: "\<exists>ys. userArgs extra = without_reserved ys \<and> subseq ys (case extra of Some xs \<Rightarrow> xs | None \<Rightarrow> [])"
proof (cases "\<exists>a xs. extra = Some (a # xs) \<and> re_test executable_re a")
  case True
  then obtain a xs where "extra = Some (a # xs)" "re_test executable_re a" by blast
  then show ?thesis by (intro exI [of _ xs]) (simp add: userArgs_def subseq_Cons')
next
  case False
  then show ?thesis by (intro exI [of _ "case extra of Some xs \<Rightarrow> xs | None \<Rightarrow> []"])
      (auto simp: userArgs_def split: option.split list.split)
qed

text \<open>The user's arguments cannot take the server away from the editor: none of the
  arguments passed on, in either form, sets the model, the address, the port or the key; the others
  are passed on in their order.\<close>

lemma user_args_keep_the_server:
  "(\<forall>a\<in>set (userArgs extra). hd (js_split (CHR ''='') a) \<notin> set RESERVED_FLAGS) \<and>
   subseq (userArgs extra) (case extra of Some xs \<Rightarrow> xs | None \<Rightarrow> [])"
proof -
  obtain ys where ys: "userArgs extra = without_reserved ys"
    "subseq ys (case extra of Some xs \<Rightarrow> xs | None \<Rightarrow> [])" using userArgs_form by blast
  then show ?thesis using without_reserved_set without_reserved_subseq subseq_order.order_trans by metis
qed

end
