(* ===== verification/Llama_Markers.thy ===== *)
theory Llama_Markers
  imports Llama_Text
begin

text \<open>
  \<open>MarkerCleaner\<close> of \<open>localLlamaMainService.ts\<close> removes the markers a model's template leaks, however
  the stream cuts them. The matches of its two expressions are described from both sides: what is
  accepted (\<open>accepts\<close>) and what alone can be matched (\<open>only\<close>).
\<close>

section \<open>Texts an expression can match\<close>

text \<open>Every match of \<open>r\<close> is one of the texts in \<open>L\<close>: the other half of \<open>accepts\<close>.\<close>

definition only :: "re \<Rightarrow> string set \<Rightarrow> bool" where
  "only r L \<longleftrightarrow> (\<forall>bef v caps st. st \<in> set (re_m r (bef, v, caps)) \<longrightarrow> (\<exists>w\<in>L. v = w @ fst (snd st)))"

lemma only_mono: "only r A \<Longrightarrow> A \<subseteq> B \<Longrightarrow> only r B"
  by (fastforce simp: only_def)

lemma only_ch: "only (ch c) {[c]}"
  by (auto simp: only_def ch_def split: list.splits if_splits)

lemma only_lit: "only (lit w) {w}"
  by (auto simp: only_def re_m_lit prefix_def split: if_splits)

lemma only_seq: "only r A \<Longrightarrow> only s B \<Longrightarrow> only (RSeq r s) {a @ b | a b. a \<in> A \<and> b \<in> B}"
  unfolding only_def by (fastforce simp: split_paired_All)

lemma only_opt: "only r A \<Longrightarrow> only (ropt r) (insert [] A)"
  by (auto simp: only_def ropt_def)

lemma only_alt: "only r A \<Longrightarrow> only s A \<Longrightarrow> only (RAlt r s) A"
  unfolding only_def by (auto simp only: re_m.simps set_append Un_iff)

lemma only_alts: "rs \<noteq> [] \<Longrightarrow> (\<forall>r\<in>set rs. only r A) \<Longrightarrow> only (alts rs) A"
proof (induction rs rule: alts.induct)
  case (3 r s rs)
  then have "only r A" "only (alts (s # rs)) A" by simp_all
  then show ?case by (simp add: only_alt)
qed simp_all

lemma only_star: "only (rstar (RCls P)) {w. list_all P w}"
proof -
  have "\<exists>w. list_all P w \<and> v = w @ fst (snd st)" if "st \<in> set (re_m (rstar (RCls P)) (bef, v, caps))" for st bef v caps
    using that re_star_cls_sound [of st True "[]" P "length v" bef v caps] by (simp add: rstar_def)
  then show ?thesis by (simp add: only_def)
qed

section \<open>Leaked markers never show\<close>

text \<open>The markers, as texts.\<close>

definition is_marker :: "string \<Rightarrow> bool" where
  "is_marker m \<longleftrightarrow> m = ''</s>'' \<or>
     (\<exists>s b w e. s \<in> {[], ''/''} \<and> b \<in> {[], ''|''} \<and> w \<in> set marker_words \<and> e \<in> {[], ''|''} \<and>
        m = ''<'' @ s @ b @ w @ e @ ''>'')"

lemma accepts_lit: "accepts (lit w) w"
  by (simp add: accepts_def re_m_lit)

lemma accepts_ch: "accepts (ch c) [c]"
  by (simp add: accepts_def ch_def)

lemma accepts_optional: "s \<in> {[], [c]} \<Longrightarrow> accepts (ropt (ch c)) s"
  using accepts_opt(1) [OF accepts_ch] accepts_opt(2) by auto

lemma accepts_alt: "accepts r w \<Longrightarrow> accepts (RAlt r s) w" "accepts s w \<Longrightarrow> accepts (RAlt r s) w"
  by (simp_all add: accepts_def)

lemma only_seq6:
  assumes "only r1 A1" "only r2 A2" "only r3 A3" "only r4 A4" "only r5 A5" "only r6 A6"
    and "\<And>a1 a2 a3 a4 a5 a6. a1 \<in> A1 \<Longrightarrow> a2 \<in> A2 \<Longrightarrow> a3 \<in> A3 \<Longrightarrow> a4 \<in> A4 \<Longrightarrow> a5 \<in> A5 \<Longrightarrow> a6 \<in> A6 \<Longrightarrow>
      a1 @ a2 @ a3 @ a4 @ a5 @ a6 \<in> B"
  shows "only (RSeq r1 (RSeq r2 (RSeq r3 (RSeq r4 (RSeq r5 r6))))) B"
  by (rule only_mono [OF only_seq [OF assms(1) only_seq [OF assms(2) only_seq [OF assms(3) only_seq [OF assms(4) only_seq [OF assms(5,6)]]]]]])
    (use assms(7) in blast)

lemma only_seq3:
  assumes "only r1 A1" "only r2 A2" "only r3 A3"
    and "\<And>a1 a2 a3. a1 \<in> A1 \<Longrightarrow> a2 \<in> A2 \<Longrightarrow> a3 \<in> A3 \<Longrightarrow> a1 @ a2 @ a3 \<in> B"
  shows "only (RSeq r1 (RSeq r2 r3)) B"
  by (rule only_mono [OF only_seq [OF assms(1) only_seq [OF assms(2,3)]]]) (use assms(4) in blast)

lemma only_optional: "only (ropt (ch c)) {[], [c]}"
  by (rule only_opt [OF only_ch])

text \<open>The two halves of the expression.\<close>

definition word_marker_re :: re where
  "word_marker_re = seqs [ch (CHR ''<''), ropt (ch (CHR ''/'')), ropt (ch (CHR ''|'')), alts (map lit marker_words), ropt (ch (CHR ''|'')), ch (CHR ''>'')]"

lemma leaked_alts: "leaked_re = RAlt word_marker_re (RAlt (seqs [ch (CHR ''<''), ropt (ch (CHR ''/'')), lit ''end_of_turn>'']) (lit ''</s>''))"
  by (simp only: leaked_re_def alts.simps word_marker_re_def)

lemma marker_accepted:
  assumes "is_marker m"
  shows "accepts leaked_re m"
proof (cases "m = ''</s>''")
  case True
  then show ?thesis unfolding leaked_alts by (intro accepts_alt(2)) (simp only: accepts_lit)
next
  case False
  then obtain s b w e where m: "s \<in> {[], ''/''}" "b \<in> {[], ''|''}" "w \<in> set marker_words" "e \<in> {[], ''|''}"
    "m = [CHR ''<''] @ s @ b @ w @ e @ [CHR ''>'']" using assms unfolding is_marker_def by blast
  have "accepts (alts (map lit marker_words)) w" using m(3) by (intro accepts_alts [OF _ accepts_lit]) simp
  then have "accepts word_marker_re m"
    unfolding word_marker_re_def seqs.simps m(5) using m(1,2,4) by (intro accepts_seq accepts_ch accepts_optional)
  then show ?thesis unfolding leaked_alts by (rule accepts_alt(1))
qed

lemma leaked_only: "only leaked_re {m. is_marker m}"
proof -
  have "only (alts (map lit marker_words)) (set marker_words)"
  proof (intro only_alts ballI)
    fix r assume "r \<in> set (map lit marker_words)"
    then obtain w where "w \<in> set marker_words" "r = lit w" by auto
    then show "only r (set marker_words)" using only_mono [OF only_lit] by simp
  qed (simp add: marker_words_def)
  then have 1: "only word_marker_re {m. is_marker m}"
    unfolding word_marker_re_def seqs.simps
    by (rule only_seq6 [OF only_ch only_optional only_optional _ only_optional only_ch]) (auto simp only: is_marker_def mem_Collect_eq singleton_iff)
  have 2: "only (seqs [ch (CHR ''<''), ropt (ch (CHR ''/'')), lit ''end_of_turn>'']) {m. is_marker m}"
    unfolding seqs.simps
  proof (rule only_seq3 [OF only_ch only_optional only_lit], unfold mem_Collect_eq singleton_iff)
    fix a1 a2 a3 assume "a1 = [CHR ''<'']" "a2 \<in> {[], [CHR ''/'']}" "a3 = ''end_of_turn>''"
    then show "is_marker (a1 @ a2 @ a3)" unfolding is_marker_def
      by (intro disjI2 exI [of _ a2] exI [of _ "[]"] exI [of _ "''end_of_turn''"]) (simp add: marker_words_def)
  qed
  have 3: "only (lit ''</s>'') {m. is_marker m}" by (rule only_mono [OF only_lit]) (simp add: is_marker_def)
  show ?thesis unfolding leaked_alts by (intro only_alt 1 2 3)
qed

text \<open>A marker without its first and last character, and the beginnings of one.\<close>

definition marker_core :: "string \<Rightarrow> bool" where
  "marker_core k \<longleftrightarrow> (\<exists>s b w e. s \<in> {[], ''/''} \<and> b \<in> {[], ''|''} \<and> list_all marker_char w \<and> e \<in> {[], ''|''} \<and> k = s @ b @ w @ e)"

lemma marker_coreI:
  "s \<in> {[], ''/''} \<Longrightarrow> b \<in> {[], ''|''} \<Longrightarrow> list_all marker_char w \<Longrightarrow> e \<in> {[], ''|''} \<Longrightarrow> marker_core (s @ b @ w @ e)"
  unfolding marker_core_def by blast

lemma marker_words_chars: "w \<in> set marker_words \<Longrightarrow> list_all marker_char w"
  by (auto simp: marker_words_def marker_char_def)

lemma marker_shape:
  assumes "is_marker m"
  shows "\<exists>k. m = CHR ''<'' # k @ [CHR ''>''] \<and> marker_core k"
proof (cases "m = ''</s>''")
  case True
  have "list_all marker_char ''s''" by (simp add: marker_char_def)
  from marker_coreI [OF _ _ this, of "''/''" "[]" "[]"] have "marker_core ''/s''" by simp
  then show ?thesis using True by (intro exI [of _ "''/s''"]) simp
next
  case False
  then obtain s b w e where "s \<in> {[], ''/''}" "b \<in> {[], ''|''}" "w \<in> set marker_words" "e \<in> {[], ''|''}"
    and m: "m = ''<'' @ s @ b @ w @ e @ ''>''" using assms unfolding is_marker_def by blast
  then have "marker_core (s @ b @ w @ e)" by (intro marker_coreI marker_words_chars)
  then show ?thesis unfolding m by (intro exI [of _ "s @ b @ w @ e"]) simp
qed

lemma core_chars: "marker_core k \<Longrightarrow> CHR ''<'' \<notin> set k" "marker_core k \<Longrightarrow> CHR ''>'' \<notin> set k"
proof -
  assume "marker_core k"
  then obtain s b w e where k: "s \<in> {[], ''/''}" "b \<in> {[], ''|''}" "list_all marker_char w" "e \<in> {[], ''|''}" "k = s @ b @ w @ e"
    unfolding marker_core_def by blast
  have "set s \<subseteq> {CHR ''/''}" "set b \<subseteq> {CHR ''|''}" "set e \<subseteq> {CHR ''|''}" using k(1,2,4) by auto
  then have "set k \<subseteq> {CHR ''/'', CHR ''|''} \<union> set w" unfolding k(5) by auto
  moreover have "\<not> marker_char (CHR ''<'')" "\<not> marker_char (CHR ''>'')" by (simp_all add: marker_char_def)
  then have "CHR ''<'' \<notin> set w" "CHR ''>'' \<notin> set w" using k(3) unfolding list_all_iff by blast+
  moreover have "CHR ''<'' \<notin> {CHR ''/'', CHR ''|''}" "CHR ''>'' \<notin> {CHR ''/'', CHR ''|''}" by simp_all
  ultimately show "CHR ''<'' \<notin> set k" "CHR ''>'' \<notin> set k" by (meson UnE subsetD)+
qed

lemma prefix_optional: "prefix p (s @ t) \<Longrightarrow> s \<in> {[], [c]} \<Longrightarrow> p = [] \<or> (\<exists>r. prefix r t \<and> p = s @ r)"
  by (auto simp: prefix_Cons)

lemma core_prefix:
  assumes "marker_core k" "prefix p k"
  shows "marker_core p"
proof -
  obtain s b w e where k: "s \<in> {[], ''/''}" "b \<in> {[], ''|''}" "list_all marker_char w" "e \<in> {[], ''|''}" "k = s @ b @ w @ e"
    using assms(1) unfolding marker_core_def by blast
  have tail: "marker_core (s' @ b' @ t)" if sb: "s' \<in> {[], ''/''}" "b' \<in> {[], ''|''}" and t: "prefix t (w @ e)" for s' b' t
  proof (cases "prefix t w")
    case True
    then have "list_all marker_char t" using k(3) by (auto simp: prefix_def)
    from marker_coreI [OF sb this, of "[]"] show ?thesis by simp
  next
    case False
    then obtain e' where e': "t = w @ e'" "prefix e' e" using t by (auto simp: prefix_append)
    then have "e' \<in> {[], ''|''}" using k(4) by (auto simp: prefix_Cons)
    from marker_coreI [OF sb k(3) this] show ?thesis unfolding e'(1) .
  qed
  have "prefix p (s @ b @ w @ e)" using assms(2) k(5) by simp
  from prefix_optional [OF this k(1)] consider "p = []" | r where "prefix r (b @ w @ e)" "p = s @ r" by blast
  then show ?thesis
  proof cases
    case 1
    then show ?thesis using tail [of "[]" "[]" "[]"] by simp
  next
    case 2
    from prefix_optional [OF 2(1) k(2)] consider "r = []" | t where "prefix t (w @ e)" "r = b @ t" by blast
    then show ?thesis
    proof cases
      case 1
      then show ?thesis using tail [OF k(1), of "[]" "[]"] 2 by simp
    next
      case (2 t)
      then show ?thesis using tail [OF k(1,2)] \<open>p = s @ r\<close> by simp
    qed
  qed
qed

lemma re_star_reaches:
  "list_all P w \<Longrightarrow> length w \<le> n \<Longrightarrow>
   (rev w @ bef, rest, caps) \<in> set (re_star True [] (re_m (RCls P)) n (bef, w @ rest, caps))"
proof (induction n arbitrary: w bef)
  case (Suc n)
  then show ?case by (cases w) (auto simp: Let_def)
qed simp

lemma accepts_star: "list_all P w \<Longrightarrow> accepts (rstar (RCls P)) w"
  using re_star_reaches [of P w] by (simp add: accepts_def rstar_def)

lemma seq_hit:
  assumes "accepts r u" "re_m s (rev u @ bef, v, caps) \<noteq> []"
  shows "re_m (RSeq r s) (bef, u @ v, caps) \<noteq> []"
proof -
  have "(rev u @ bef, v, caps) \<in> set (re_m r (bef, u @ v, caps))" using assms(1) by (simp add: accepts_def)
  then show ?thesis using assms(2) by auto
qed

lemma partial_hit:
  assumes "marker_core k"
  shows "re_m partial_re (bef, CHR ''<'' # k, []) \<noteq> []"
proof -
  obtain s b w e where k: "s \<in> {[], ''/''}" "b \<in> {[], ''|''}" "list_all marker_char w" "e \<in> {[], ''|''}" "k = s @ b @ w @ e"
    using assms unfolding marker_core_def by blast
  have "re_m partial_re (bef, [CHR ''<''] @ s @ b @ w @ e @ [], []) \<noteq> []"
    unfolding partial_re_def seqs.simps
    by (intro seq_hit accepts_ch accepts_optional k accepts_star) simp
  then show ?thesis unfolding k(5) by simp
qed

lemma only_end: "only (REol False) {[]}"
  by (auto simp: only_def split: if_splits)

lemma partial_sound:
  assumes "st \<in> set (re_m partial_re (bef, v, []))"
  shows "\<exists>k. v = CHR ''<'' # k" "fst (snd st) = []"
proof -
  define r where "r = seqs [ropt (ch (CHR ''/'')), ropt (ch (CHR ''|'')), rstar (RCls marker_char), ropt (ch (CHR ''|'')), REol False]"
  have p: "partial_re = RSeq (ch (CHR ''<'')) r" unfolding partial_re_def r_def by simp
  have "st \<in> set (concat (map (re_m r) (re_m (ch (CHR ''<'')) (bef, v, []))))" using assms unfolding p by simp
  then obtain st0 where "st0 \<in> set (re_m (ch (CHR ''<'')) (bef, v, []))" by auto
  then show "\<exists>k. v = CHR ''<'' # k" using only_ch [of "CHR ''<''"] unfolding only_def by fastforce
  have "\<exists>st1. st \<in> set (re_m (REol False) st1)"
    using assms unfolding partial_re_def seqs.simps re_m.simps(3) by auto
  then show "fst (snd st) = []" by (auto split: if_splits)
qed

text \<open>Where a marker starts and where it ends is clear: it has one of each bracket.\<close>

lemma marker_eq:
  assumes "is_marker m" "is_marker m'" "m @ q = m' @ q'"
  shows "m = m' \<and> q = q'"
proof -
  obtain k k' where k: "m = CHR ''<'' # k @ [CHR ''>'']" "marker_core k" "m' = CHR ''<'' # k' @ [CHR ''>'']" "marker_core k'"
    using marker_shape assms(1,2) by metis
  then have e: "k @ CHR ''>'' # q = k' @ CHR ''>'' # q'" using assms(3) by simp
  have "takeWhile (\<lambda>c. c \<noteq> CHR ''>'') (l @ CHR ''>'' # r) = l" if "CHR ''>'' \<notin> set l" for l r
    using that by (induction l) auto
  then have "k = k'" using e core_chars(2) k(2,4) by metis
  then show ?thesis using e k(1,3) by simp
qed

lemma leaked_miss:
  assumes "CHR ''>'' \<notin> set v \<or> v = [] \<or> hd v \<noteq> CHR ''<''"
  shows "re_m leaked_re (bef, v, []) = []"
proof (rule ccontr)
  assume "re_m leaked_re (bef, v, []) \<noteq> []"
  then obtain st where "st \<in> set (re_m leaked_re (bef, v, []))" by (meson last_in_set)
  then obtain m where m: "is_marker m" "v = m @ fst (snd st)" using leaked_only unfolding only_def by blast
  with marker_shape [OF m(1)] assms show False by auto
qed

lemma leaked_hit:
  assumes "is_marker m"
  shows "\<exists>st more. re_m leaked_re (bef, m @ q, []) = st # more \<and> fst (snd st) = q"
proof -
  have "(rev m @ bef, q, []) \<in> set (re_m leaked_re (bef, m @ q, []))"
    using marker_accepted [OF assms] by (simp add: accepts_def)
  then obtain st more where st: "re_m leaked_re (bef, m @ q, []) = st # more" by (cases "re_m leaked_re (bef, m @ q, [])") auto
  then have "st \<in> set (re_m leaked_re (bef, m @ q, []))" by simp
  then obtain m' where m': "is_marker m'" "m @ q = m' @ fst (snd st)" using leaked_only unfolding only_def by blast
  then show ?thesis using st marker_eq [OF assms m'(1) m'(2)] by auto
qed

lemma leaked_search_none:
  assumes "CHR ''<'' \<notin> set v \<or> CHR ''>'' \<notin> set v"
  shows "re_search leaked_re bef v = None"
proof -
  have "re_m leaked_re (rev x @ bef, y, []) = []" if "v = x @ y" for x y
    using assms that by (intro leaked_miss) (auto simp: neq_Nil_conv)
  then show ?thesis using re_search_iff [of leaked_re bef v] by blast
qed

lemma replace_leaked_none: "CHR ''<'' \<notin> set v \<or> CHR ''>'' \<notin> set v \<Longrightarrow> re_replace_all leaked_re [] v = v"
  by (simp add: re_replace_all_def leaked_search_none)

lemma replace_leaked_marker:
  assumes "is_marker m" "CHR ''<'' \<notin> set a" "CHR ''<'' \<notin> set q"
  shows "re_replace_all leaked_re [] (a @ m @ q) = a @ q"
proof -
  have "\<forall>x y. a = x @ y \<and> y \<noteq> [] \<longrightarrow> re_m leaked_re (rev x @ [], y @ m @ q, []) = []"
    using assms(2) by (intro allI impI leaked_miss) (auto simp: neq_Nil_conv)
  then have s: "re_search leaked_re [] (a @ m @ q) = re_search leaked_re (rev a) (m @ q)" by (simp add: re_search_skip)
  obtain bef' caps more where h: "re_m leaked_re (rev a, m @ q, []) = (bef', q, caps) # more"
    using leaked_hit [OF assms(1), of "rev a" q] by auto
  have "re_search leaked_re [] (a @ m @ q) = Some (rev a, m, bef', q, caps)"
    unfolding s using re_search_here [OF h] by simp
  moreover have "re_replace_fuel leaked_re [] n bef' q = q" for n
    using assms(3) by (cases n) (simp_all add: leaked_search_none)
  moreover have "m \<noteq> []" using marker_shape [OF assms(1)] by auto
  ultimately show ?thesis by (simp add: re_replace_all_def)
qed

lemma partial_none:
  assumes "CHR ''<'' \<notin> set v"
  shows "re_exec partial_re v = None"
proof -
  have "re_m partial_re (bef, y, []) = []" if "v = x @ y" for x y bef
  proof (rule ccontr)
    assume "re_m partial_re (bef, y, []) \<noteq> []"
    then obtain st where "st \<in> set (re_m partial_re (bef, y, []))" by (meson last_in_set)
    then show False using partial_sound(1) assms that by fastforce
  qed
  then show ?thesis using re_search_iff [of partial_re "[]" v] by (auto simp: re_exec_def)
qed

lemma partial_found:
  assumes "marker_core k" "CHR ''<'' \<notin> set a"
  shows "\<exists>st. re_exec partial_re (a @ CHR ''<'' # k) = Some (rev a, CHR ''<'' # k, st)"
proof -
  have "re_m partial_re (bef, y @ CHR ''<'' # k, []) = []" if "a = x @ y" "y \<noteq> []" for x y bef
  proof (rule ccontr)
    assume "re_m partial_re (bef, y @ CHR ''<'' # k, []) \<noteq> []"
    then obtain st where "st \<in> set (re_m partial_re (bef, y @ CHR ''<'' # k, []))" by (meson last_in_set)
    then show False using partial_sound(1) [of st bef] assms(2) that by (cases y) fastforce+
  qed
  then have s: "re_search partial_re [] (a @ CHR ''<'' # k) = re_search partial_re (rev a) (CHR ''<'' # k)"
    using re_search_skip [of a partial_re "[]" "CHR ''<'' # k"] by simp
  obtain st more where h: "re_m partial_re (rev a, CHR ''<'' # k, []) = st # more"
    using partial_hit [OF assms(1), of "rev a"] by (meson neq_Nil_conv)
  then have "fst (snd st) = []" using partial_sound(2) [of st "rev a" "CHR ''<'' # k"] by simp
  then show ?thesis using re_search_here [OF h] by (cases st) (simp add: re_exec_def s)
qed

lemma cleaner_plain: "CHR ''<'' \<notin> set (p @ d) \<Longrightarrow> cleaner_push d p = (p @ d, [])"
  by (simp add: cleaner_push_def Let_def replace_leaked_none partial_none)

lemma replace_leaked_open:
  assumes "CHR ''<'' \<notin> set a" "CHR ''>'' \<notin> set g"
  shows "re_replace_all leaked_re [] (a @ CHR ''<'' # g) = a @ CHR ''<'' # g"
proof -
  have "re_m leaked_re (rev x, y, []) = []" if xy: "a @ CHR ''<'' # g = x @ y" for x y
  proof (rule leaked_miss)
    from xy obtain u where "x = a @ u \<and> CHR ''<'' # g = u @ y \<or> a = x @ u \<and> y = u @ CHR ''<'' # g"
      by (auto simp: append_eq_append_conv2)
    then consider "set y \<subseteq> set (CHR ''<'' # g)" "length y \<le> length (CHR ''<'' # g)" "x = a @ u" "CHR ''<'' # g = u @ y"
      | "u \<noteq> []" "a = x @ u" "y = u @ CHR ''<'' # g" | "y = CHR ''<'' # g"
      by (metis append_Nil le_add2 length_append set_append Un_upper2)
    then show "CHR ''>'' \<notin> set y \<or> y = [] \<or> hd y \<noteq> CHR ''<''"
    proof cases
      case 1
      show ?thesis using 1(1) assms(2) by auto
    next
      case 2
      then have "hd y \<in> set a" by (cases u) auto
      then show ?thesis using assms(1) by auto
    qed (use assms(2) in auto)
  qed
  then have "re_search leaked_re [] (a @ CHR ''<'' # g) = None"
    using re_search_iff [of leaked_re "[]" "a @ CHR ''<'' # g"] by auto
  then show ?thesis by (simp add: re_replace_all_def)
qed

lemma cleaner_held:
  assumes "is_marker m" "length m \<le> 17" "strict_prefix h m" "h \<noteq> []" "CHR ''<'' \<notin> set a" "p @ d = a @ h"
  shows "cleaner_push d p = (a, h)"
proof -
  obtain k where k: "m = CHR ''<'' # k @ [CHR ''>'']" "marker_core k" using marker_shape [OF assms(1)] by blast
  obtain g where g: "h = CHR ''<'' # g" using assms(3,4) k(1) by (cases h) (auto simp: strict_prefix_def)
  then have "prefix g (k @ [CHR ''>''])" "g \<noteq> k @ [CHR ''>'']" using assms(3) k(1) by (auto simp: strict_prefix_def)
  then have c: "marker_core g" using core_prefix [OF k(2)] by auto
  have "length h \<le> 16" using assms(2,3) prefix_length_less by fastforce
  moreover obtain st where "re_exec partial_re (a @ h) = Some (rev a, h, st)"
    using partial_found [OF c assms(5)] g by auto
  moreover have "re_replace_all leaked_re [] (a @ h) = a @ h"
    using replace_leaked_open [OF assms(5) core_chars(2) [OF c]] g by simp
  ultimately show ?thesis unfolding cleaner_push_def assms(6) by simp
qed

lemma cleaner_removed:
  assumes "is_marker m" "CHR ''<'' \<notin> set a" "CHR ''<'' \<notin> set q" "p @ d = a @ m @ q"
  shows "cleaner_push d p = (a @ q, [])"
  unfolding cleaner_push_def assms(4) using assms(1-3) by (simp add: replace_leaked_marker partial_none)

text \<open>How far a stream \<open>pre @ m @ post\<close> has come: the part read, the part shown and the part held back.\<close>

definition cleaned :: "string \<Rightarrow> string \<Rightarrow> string \<Rightarrow> string \<Rightarrow> string \<Rightarrow> string \<Rightarrow> bool" where
  "cleaned pre m post x shown held \<longleftrightarrow>
     prefix x pre \<and> shown = x \<and> held = []
   \<or> strict_prefix held m \<and> held \<noteq> [] \<and> x = pre @ held \<and> shown = pre
   \<or> (\<exists>q. prefix q post \<and> x = pre @ m @ q \<and> shown = pre @ q \<and> held = [])"

lemma cleaned_exists:
  assumes "prefix x (pre @ m @ post)"
  shows "\<exists>shown held. cleaned pre m post x shown held"
proof -
  consider "prefix x pre" | u where "x = pre @ u" "u \<noteq> []" "strict_prefix u m" | q where "x = pre @ m @ q" "prefix q post"
    using assms by (auto simp: prefix_append strict_prefix_def) (metis append_Nil2 prefix_order.refl Nil_prefix)+
  then show ?thesis unfolding cleaned_def by cases blast+
qed

lemma cleaned_push:
  assumes m: "is_marker m" "length m \<le> 17" and plain: "CHR ''<'' \<notin> set pre" "CHR ''<'' \<notin> set post"
    and x: "cleaned pre m post x shown held" and "prefix (x @ d) (pre @ m @ post)"
  shows "\<exists>out held'. cleaner_push d held = (out, held') \<and> cleaned pre m post (x @ d) (shown @ out) held'"
proof -
  obtain shown' held' where y: "cleaned pre m post (x @ d) shown' held'" using cleaned_exists assms(6) by blast
  note push = cleaner_held [OF m] cleaner_removed [OF m(1)]
  from x consider (A) u where "pre = x @ u" "shown = x" "held = []"
    | (B) "strict_prefix held m" "held \<noteq> []" "x = pre @ held" "shown = pre"
    | (C) q where "prefix q post" "x = pre @ m @ q" "shown = pre @ q" "held = []"
    unfolding cleaned_def by (auto simp: prefix_def)
  then have "\<exists>out. cleaner_push d held = (out, held') \<and> shown @ out = shown'"
  proof cases
    case (A u)
    from y consider "prefix d u" "shown' = x @ d" "held' = []"
      | "strict_prefix held' m" "held' \<noteq> []" "d = u @ held'" "shown' = pre"
      | q where "prefix q post" "d = u @ m @ q" "shown' = pre @ q" "held' = []"
      unfolding cleaned_def A(1) by auto
    then show ?thesis
    proof cases
      case 1
      then show ?thesis using plain(1) A cleaner_plain [of "[]" d] by (auto simp: prefix_def)
    next
      case 2
      then show ?thesis using plain(1) A push(1) [of held' u "[]" d] by simp
    next
      case (3 q)
      then have "CHR ''<'' \<notin> set q" using plain(2) by (auto simp: prefix_def)
      then show ?thesis using 3 plain(1) A push(2) [of u q "[]" d] by simp
    qed
  next
    case B
    have "\<not> prefix (pre @ held @ d) pre" using B(2) by (auto simp: prefix_def)
    with y consider "strict_prefix held' m" "held' \<noteq> []" "held @ d = held'" "shown' = pre"
      | q where "prefix q post" "held @ d = m @ q" "shown' = pre @ q" "held' = []"
      unfolding cleaned_def B(3) by auto
    then show ?thesis
    proof cases
      case 1
      then show ?thesis using B push(1) [of held' "[]" held d] by simp
    next
      case (2 q)
      then have "CHR ''<'' \<notin> set q" using plain(2) by (auto simp: prefix_def)
      then show ?thesis using 2 B push(2) [of "[]" q held d] by simp
    qed
  next
    case (C q)
    have "m \<noteq> []" using marker_shape [OF m(1)] by auto
    then have "\<not> prefix (pre @ m @ q @ d) pre" by (auto simp: prefix_def)
    moreover have "\<not> strict_prefix (m @ q @ d) m" by (auto dest: prefix_length_less)
    ultimately have "prefix (q @ d) post \<and> shown' = pre @ q @ d \<and> held' = []"
      using y unfolding cleaned_def C(2) by auto
    then show ?thesis using plain(2) C cleaner_plain [of "[]" d] by (auto simp: prefix_def)
  qed
  then show ?thesis using y by blast
qed

lemma cleaned_run:
  assumes m: "is_marker m" "length m \<le> 17" and plain: "CHR ''<'' \<notin> set pre" "CHR ''<'' \<notin> set post"
  shows "cleaned pre m post x shown held \<Longrightarrow> x @ concat ds = pre @ m @ post \<Longrightarrow>
    \<exists>out. run_push cleaner_push ds held = (out, []) \<and> shown @ out = pre @ post"
proof (induction ds arbitrary: x shown held)
  case Nil
  have "m \<noteq> []" using marker_shape [OF m(1)] by auto
  then have "\<not> prefix (pre @ m @ post) pre" by (auto simp: prefix_def)
  moreover have "\<not> strict_prefix (m @ post) m" by (auto dest: prefix_length_less)
  ultimately show ?case using Nil unfolding cleaned_def by auto
next
  case (Cons d ds)
  then have "prefix (x @ d) (pre @ m @ post)" by (metis append_assoc concat.simps(2) prefixI)
  from cleaned_push [OF m plain Cons.prems(1) this] obtain out held'
    where 1: "cleaner_push d held = (out, held')" "cleaned pre m post (x @ d) (shown @ out) held'" by blast
  from Cons.IH [OF 1(2)] Cons.prems(2) obtain out' where "run_push cleaner_push ds held' = (out', [])" "(shown @ out) @ out' = pre @ post"
    by auto
  with 1(1) show ?case by simp
qed



text \<open>The longest marker shows when it is cut before its last character.\<close>

lemma long_marker_shows:
  "fst (run_push cleaner_push [''</|start_of_turn|'', ''>''] []) = ''</|start_of_turn|>''"
  by code_simp
end
