(* ===== verification/Llama_Server.thy ===== *)
theory Llama_Server
  imports Llama_Text
begin

text \<open>
  The servers of local models: \<open>LocalLlamaMainService\<close> of
  \<open>src/vs/platform/hivemindide/electron-main/localLlamaMainService.ts\<close>, one \<open>llama-server\<close> per role.
  Server objects live in a store, as closures keep the ones the map has dropped. A call of
  \<open>startServer\<close> is a task that waits at its \<open>await\<close>s; what it waits for (files, engines, ports, the
  answer of the server) is the argument of the step that resumes it. The forced kill after a grace
  period sends a second signal to a process that was told to exit already and is not modelled.
\<close>

section \<open>State\<close>

datatype server_status = Stopped | Starting | Ready | Failed

record server_state =
  st_role :: llama_role
  st_status :: server_status
  st_modelPath :: "string option"
  st_contextSize :: "int option"
  st_reduced :: bool
  st_error :: "string option"

record llama_server =
  ls_engine :: string
  ls_args :: "string list"
  ls_port :: nat
  ls_apiKey :: string
  ls_options :: start_options
  ls_stderr :: "string list"
  ls_state :: server_state
  ls_ready :: "(start_error + server_state) option"   \<comment> \<open>the promise \<open>ready\<close>, once it is settled\<close>
  ls_polling :: bool                                  \<comment> \<open>a request for its health is under way\<close>
  ls_deadline :: int
  ls_lastUsed :: int
  ls_exited :: "string option"
  ls_killed :: bool                                   \<comment> \<open>the process was told to exit\<close>
  ls_purpose :: bool                                  \<comment> \<open>\<open>stoppedOnPurpose\<close>\<close>

datatype start_phase =
    AwaitExisting nat
  | AwaitFile
  | AwaitEngine
  | AwaitPort
  | AwaitReady nat
  | AwaitProbe server_state
  | AwaitOthers
  | Over "start_error + server_state"

record start_task =
  tk_role :: llama_role
  tk_options :: start_options
  tk_phase :: start_phase
  tk_engine :: string
  tk_args :: "string list"
  tk_error :: "(string \<times> start_error) option"    \<comment> \<open>the first engine and why it cannot read the model\<close>
  tk_others :: "string list"

record llama_main =
  servers :: "llama_role \<Rightarrow> nat option"
  store :: "nat \<Rightarrow> llama_server option"
  spawned :: nat
  lastStates :: "llama_role \<Rightarrow> server_state option"
  pendingStarts :: "llama_role \<Rightarrow> (start_options \<times> nat) option"
  tasks :: "nat \<Rightarrow> start_task option"
  next_task :: nat
  lastChatOptions :: "start_options option"
  chatCrashes :: "int list"
  contextOverrides :: "string \<Rightarrow> (int \<times> int) option"
  modelEngines :: "string \<Rightarrow> string option"
  fired :: "server_state list"

definition llama_init :: llama_main where
  "llama_init = \<lparr>servers = (\<lambda>_. None), store = (\<lambda>_. None), spawned = 0, lastStates = (\<lambda>_. None),
     pendingStarts = (\<lambda>_. None), tasks = (\<lambda>_. None), next_task = 0, lastChatOptions = None, chatCrashes = [],
     contextOverrides = (\<lambda>_. None), modelEngines = (\<lambda>_. None), fired = []\<rparr>"

definition STARTUP_TIMEOUT_MS :: int where "STARTUP_TIMEOUT_MS = 300000"
definition MIN_CONTEXT_AFTER_OOM :: int where "MIN_CONTEXT_AFTER_OOM = 2048"
definition CRASH_LOOP_LIMIT :: nat where "CRASH_LOOP_LIMIT = 3"
definition CRASH_LOOP_WINDOW_MS :: int where "CRASH_LOOP_WINDOW_MS = 300000"
definition MAX_RESTARTS_PER_ANSWER :: nat where "MAX_RESTARTS_PER_ANSWER = 2"

definition upd_server :: "nat \<Rightarrow> (llama_server \<Rightarrow> llama_server) \<Rightarrow> llama_main \<Rightarrow> llama_main" where
  "upd_server i f m = m\<lparr>store := (store m)(i := map_option f (store m i))\<rparr>"

definition upd_task :: "nat \<Rightarrow> (start_task \<Rightarrow> start_task) \<Rightarrow> llama_main \<Rightarrow> llama_main" where
  "upd_task t f m = m\<lparr>tasks := (tasks m)(t := map_option f (tasks m t))\<rparr>"

definition setState :: "nat \<Rightarrow> server_state \<Rightarrow> llama_main \<Rightarrow> llama_main" where
  "setState i st m =
     (upd_server i (\<lambda>v. v\<lparr>ls_state := st\<rparr>) m)
       \<lparr>lastStates := (lastStates m)(st_role st := Some st), fired := fired m @ [st]\<rparr>"

definition plain_state :: "llama_role \<Rightarrow> server_status \<Rightarrow> server_state" where
  "plain_state r s = \<lparr>st_role = r, st_status = s, st_modelPath = None, st_contextSize = None, st_reduced = False, st_error = None\<rparr>"

definition getServerState :: "llama_role \<Rightarrow> llama_main \<Rightarrow> server_state" where
  "getServerState r m =
     (case Option.bind (servers m r) (store m) of
        Some v \<Rightarrow> ls_state v
      | None \<Rightarrow> (case lastStates m r of Some st \<Rightarrow> st | None \<Rightarrow> plain_state r Stopped))"

definition kill_server :: "llama_role \<Rightarrow> llama_main \<Rightarrow> llama_main" where
  "kill_server r m =
     (case servers m r of
        None \<Rightarrow> m
      | Some i \<Rightarrow> setState i (plain_state r Stopped)
          (upd_server i (\<lambda>v. v\<lparr>ls_purpose := True, ls_killed := True\<rparr>) (m\<lparr>servers := (servers m)(r := None)\<rparr>)))"

definition readyServer :: "llama_role \<Rightarrow> llama_main \<Rightarrow> string + nat" where
  "readyServer r m =
     (case servers m r of
        Some i \<Rightarrow>
          (case store m i of
             Some v \<Rightarrow> if st_status (ls_state v) = Ready then Inr i
                       else Inl (if r = ChatRole then ''The local chat model is not running.'' else ''The local embedding model is not running.'')
           | None \<Rightarrow> Inl [])
      | None \<Rightarrow> Inl (if r = ChatRole then ''The local chat model is not running.'' else ''The local embedding model is not running.''))"

text \<open>\<open>unloadIdle\<close>, for one role: the sweep visits every role.\<close>

definition idle :: "int \<Rightarrow> llama_server \<Rightarrow> bool" where
  "idle now v \<longleftrightarrow>
     (case so_keepAlive (ls_options v) of
        Some minutes \<Rightarrow> minutes > 0 \<and> so_share (ls_options v) = None \<and> st_status (ls_state v) = Ready \<and>
          real_of_int (now - ls_lastUsed v) > minutes * 60 * 1000
      | None \<Rightarrow> False)"

definition unload_role :: "int \<Rightarrow> llama_role \<Rightarrow> llama_main \<Rightarrow> llama_main" where
  "unload_role now r m =
     (case Option.bind (servers m r) (store m) of
        Some v \<Rightarrow> if idle now v then kill_server r m else m
      | None \<Rightarrow> m)"

definition unloadIdle :: "int \<Rightarrow> llama_main \<Rightarrow> llama_main" where
  "unloadIdle now m = unload_role now EmbeddingRole (unload_role now ChatRole m)"

definition killServers :: "llama_main \<Rightarrow> llama_main" where
  "killServers m = kill_server EmbeddingRole (kill_server ChatRole m)"

section \<open>Memory\<close>

definition contextOverride :: "start_options \<Rightarrow> llama_main \<Rightarrow> int option" where
  "contextOverride p m =
     (case contextOverrides m (so_modelPath p) of
        Some (requested, context) \<Rightarrow> if requested = so_contextSize p then Some context else None
      | None \<Rightarrow> None)"

definition effectiveContext :: "start_options \<Rightarrow> llama_main \<Rightarrow> int" where
  "effectiveContext p m = (case contextOverride p m of Some c \<Rightarrow> c | None \<Rightarrow> so_contextSize p)"

definition loaded_context :: "llama_server \<Rightarrow> llama_main \<Rightarrow> int" where
  "loaded_context v m =
     (let n = (case st_contextSize (ls_state v) of Some c \<Rightarrow> c | None \<Rightarrow> effectiveContext (ls_options v) m)
      in if n > 0 then n else 8192)"

definition reduceContextIfOutOfMemory :: "llama_server \<Rightarrow> llama_main \<Rightarrow> llama_main" where
  "reduceContextIfOutOfMemory v m =
     (if \<not> (\<exists>l\<in>set (ls_stderr v). re_test OUT_OF_MEMORY l) then m
      else let now_loaded = loaded_context v m; reduced = max MIN_CONTEXT_AFTER_OOM (now_loaded div 2)
        in if reduced \<ge> now_loaded then m
           else m\<lparr>contextOverrides := (contextOverrides m)(so_modelPath (ls_options v) \<mapsto> (so_contextSize (ls_options v), reduced))\<rparr>)"

text \<open>\<open>restartRefusal\<close>: what to tell the user, or \<open>None\<close> when another restart is reasonable.\<close>

definition restartRefusal :: "nat \<Rightarrow> int \<Rightarrow> llama_main \<Rightarrow> string option \<times> llama_main" where
  "restartRefusal restarts now m =
     (if lastChatOptions m = None then (Some ''The model stopped unexpectedly.'', m)
      else if restarts \<ge> MAX_RESTARTS_PER_ANSWER
      then (Some (''The model stopped again after '' @ show_nat restarts @ '' restarts, so HivemindIDE gave up on this answer.''), m)
      else let recent = filter (\<lambda>t. t \<ge> now - CRASH_LOOP_WINDOW_MS) (chatCrashes m)
        in (if length recent \<ge> CRASH_LOOP_LIMIT
            then Some (''The model has stopped '' @ show_nat (length recent)
              @ '' times in the last 5 minutes. It may not fit in memory: try a smaller context size or fewer GPU layers in Local AI settings.'')
            else None, m\<lparr>chatCrashes := recent\<rparr>))"

definition onStalled :: "int \<Rightarrow> llama_main \<Rightarrow> llama_main" where
  "onStalled now m =
     (let m' = kill_server ChatRole (m\<lparr>chatCrashes := chatCrashes m @ [now]\<rparr>)
      in case servers m ChatRole of Some i \<Rightarrow> upd_server i (\<lambda>v. v\<lparr>ls_purpose := False\<rparr>) m' | None \<Rightarrow> m')"

section \<open>Starting\<close>

definition set_phase :: "start_phase \<Rightarrow> nat \<Rightarrow> llama_main \<Rightarrow> llama_main" where
  "set_phase p t m = upd_task t (\<lambda>k. k\<lparr>tk_phase := p\<rparr>) m"

definition settle_start :: "nat \<Rightarrow> start_error + server_state \<Rightarrow> llama_main \<Rightarrow> llama_main" where
  "settle_start t res m =
     (let m' = set_phase (Over res) t m
      in case tasks m t of
           Some k \<Rightarrow>
             (case pendingStarts m (tk_role k) of
                Some (p, t') \<Rightarrow> if t' = t then m'\<lparr>pendingStarts := (pendingStarts m)(tk_role k := None)\<rparr> else m'
              | None \<Rightarrow> m')
         | None \<Rightarrow> m')"

text \<open>The part of \<open>doStartServer\<close> before its first \<open>await\<close>.\<close>

definition begin_start :: "llama_role \<Rightarrow> start_options \<Rightarrow> llama_main \<Rightarrow> start_phase \<times> llama_main" where
  "begin_start r p m =
     (case servers m r of
        None \<Rightarrow> (AwaitFile, m)
      | Some i \<Rightarrow>
          (case store m i of
             Some v \<Rightarrow> if sameOptions (ls_options v) p \<and> st_status (ls_state v) \<noteq> Failed then (AwaitExisting i, m)
                       else (AwaitFile, kill_server r m)
           | None \<Rightarrow> (AwaitFile, m)))"

definition new_start :: "llama_role \<Rightarrow> start_options \<Rightarrow> llama_main \<Rightarrow> llama_main" where
  "new_start r p m =
     (let (ph, m1) = begin_start r p m
      in m1\<lparr>tasks := (tasks m1)(next_task m \<mapsto> \<lparr>tk_role = r, tk_options = p, tk_phase = ph, tk_engine = [], tk_args = [],
               tk_error = None, tk_others = []\<rparr>),
            next_task := Suc (next_task m),
            pendingStarts := (pendingStarts m1)(r := Some (p, next_task m))\<rparr>)"

text \<open>The task of the call and the state: a pending start with the same options is shared.\<close>

definition startServer :: "llama_role \<Rightarrow> start_options \<Rightarrow> llama_main \<Rightarrow> nat \<times> llama_main" where
  "startServer r p m =
     (case pendingStarts m r of
        Some (q, t) \<Rightarrow> if sameOptions q p then (t, m) else (next_task m, new_start r p m)
      | None \<Rightarrow> (next_task m, new_start r p m))"

definition no_share :: "start_task \<Rightarrow> bool" where
  "no_share k \<longleftrightarrow> tk_role k \<noteq> ChatRole \<or> so_share (tk_options k) = None"

definition new_server :: "start_task \<Rightarrow> nat \<Rightarrow> string \<Rightarrow> int \<Rightarrow> llama_server" where
  "new_server k port key now =
     \<lparr>ls_engine = tk_engine k, ls_args = server_args (tk_role k) (tk_options k) port key (\<not> no_share k) (tk_args k),
      ls_port = port, ls_apiKey = key, ls_options = tk_options k, ls_stderr = [],
      ls_state = (plain_state (tk_role k) Starting)\<lparr>st_modelPath := Some (so_modelPath (tk_options k))\<rparr>,
      ls_ready = None, ls_polling = False, ls_deadline = now + STARTUP_TIMEOUT_MS, ls_lastUsed = now, ls_exited = None,
      ls_killed = False, ls_purpose = False\<rparr>"

text \<open>\<open>launch\<close> once the port is known: the process is started and takes the place of its role.\<close>

definition spawn_server :: "nat \<Rightarrow> start_task \<Rightarrow> nat \<Rightarrow> string \<Rightarrow> int \<Rightarrow> llama_main \<Rightarrow> llama_main" where
  "spawn_server t k port key now m =
     (let i = spawned m; v = new_server k port key now
      in set_phase (AwaitReady i) t
           (setState i (ls_state v)
              (m\<lparr>store := (store m)(i \<mapsto> v), spawned := Suc i, servers := (servers m)(tk_role k := Some i)\<rparr>)))"

text \<open>\<open>start_failed\<close> and \<open>next_engine\<close> are the \<open>catch\<close> of \<open>doStartServer\<close>, \<open>launch\<close> and \<open>startWith\<close> its tries.\<close>

definition role_args :: "start_task \<Rightarrow> llama_main \<Rightarrow> string list" where
  "role_args k m =
     (if tk_role k = ChatRole
      then (let c = effectiveContext (tk_options k) m in if c > 0 then [''--ctx-size'', show_int c] else [])
      else [''--embedding''])"

definition try_launch :: "nat \<Rightarrow> string \<Rightarrow> string list \<Rightarrow> int \<Rightarrow> llama_main \<Rightarrow> llama_main" where
  "try_launch t engine args now m =
     (let m1 = upd_task t (\<lambda>k. k\<lparr>tk_engine := engine, tk_args := args\<rparr>) m
      in case tasks m1 t of
           None \<Rightarrow> m1
         | Some k \<Rightarrow>
             (case so_share (tk_options k) of
                Some (port, key) \<Rightarrow>
                  if no_share k then set_phase AwaitPort t m1
                  else if port = 0 then settle_start t (Inl (OtherError ''No free local port for llama-server.'')) m1
                  else spawn_server t k port key now m1
              | None \<Rightarrow> set_phase AwaitPort t m1))"

definition startWith :: "nat \<Rightarrow> string \<Rightarrow> int \<Rightarrow> llama_main \<Rightarrow> llama_main" where
  "startWith t engine now m =
     (case tasks m t of
        None \<Rightarrow> m
      | Some k \<Rightarrow> try_launch t engine (role_args k m) now
          (if tk_role k = ChatRole then m\<lparr>lastChatOptions := Some (tk_options k)\<rparr> else m))"

definition next_engine :: "nat \<Rightarrow> int \<Rightarrow> llama_main \<Rightarrow> llama_main" where
  "next_engine t now m =
     (case tasks m t of
        None \<Rightarrow> m
      | Some k \<Rightarrow>
          (case tk_others k of
             e # es \<Rightarrow> startWith t e now (upd_task t (\<lambda>k. k\<lparr>tk_others := es\<rparr>) m)
           | [] \<Rightarrow> settle_start t (Inl (case tk_error k of Some (_, e) \<Rightarrow> e | None \<Rightarrow> OtherError [])) m))"

definition start_failed :: "nat \<Rightarrow> start_error \<Rightarrow> int \<Rightarrow> llama_main \<Rightarrow> llama_main" where
  "start_failed t err now m =
     (case tasks m t of
        None \<Rightarrow> m
      | Some k \<Rightarrow>
          (case tk_error k of
             None \<Rightarrow>
               if (so_serverPath (tk_options k) \<noteq> None \<and> so_serverPath (tk_options k) \<noteq> Some []) \<or> \<not> cannotReadModel err
               then settle_start t (Inl err) m
               else upd_task t (\<lambda>k. k\<lparr>tk_phase := AwaitOthers, tk_error := Some (tk_engine k, err)\<rparr>) m
           | Some _ \<Rightarrow> if cannotReadModel err then next_engine t now m else settle_start t (Inl err) m))"

definition start_succeeded :: "nat \<Rightarrow> server_state \<Rightarrow> llama_main \<Rightarrow> llama_main" where
  "start_succeeded t st m =
     (case tasks m t of
        None \<Rightarrow> m
      | Some k \<Rightarrow> settle_start t (Inr st)
          (if tk_error k \<noteq> None then m\<lparr>modelEngines := (modelEngines m)(so_modelPath (tk_options k) \<mapsto> tk_engine k)\<rparr> else m))"

section \<open>What a start waits for\<close>

definition on_file :: "nat \<Rightarrow> bool \<Rightarrow> llama_main \<Rightarrow> llama_main" where
  "on_file t found m =
     (case tasks m t of
        Some k \<Rightarrow> if tk_phase k \<noteq> AwaitFile then m
          else if found then set_phase AwaitEngine t m
          else settle_start t (Inl (OtherError (''Model file not found: '' @ so_modelPath (tk_options k)))) m
      | None \<Rightarrow> m)"

text \<open>\<open>engineFor\<close>: the engine that last loaded the file if it still runs, or what \<open>resolveEngine\<close> finds.\<close>

definition engineFor :: "start_task \<Rightarrow> bool \<Rightarrow> string + string option \<Rightarrow> llama_main \<Rightarrow> string + string option" where
  "engineFor k executable found m =
     (case modelEngines m (so_modelPath (tk_options k)) of
        Some e \<Rightarrow> if (so_serverPath (tk_options k) = None \<or> so_serverPath (tk_options k) = Some []) \<and> e \<noteq> [] \<and> executable
                  then Inr (Some e) else found
      | None \<Rightarrow> found)"

definition on_engine :: "nat \<Rightarrow> bool \<Rightarrow> string + string option \<Rightarrow> int \<Rightarrow> llama_main \<Rightarrow> llama_main" where
  "on_engine t executable found now m =
     (case tasks m t of
        Some k \<Rightarrow> if tk_phase k \<noteq> AwaitEngine then m
          else (case engineFor k executable found m of
                  Inl msg \<Rightarrow> settle_start t (Inl (OtherError msg)) m
                | Inr None \<Rightarrow> settle_start t (Inl (OtherError ''The llama.cpp engine is not installed.'')) m
                | Inr (Some e) \<Rightarrow> startWith t e now m)
      | None \<Rightarrow> m)"

definition on_port :: "nat \<Rightarrow> nat \<Rightarrow> string \<Rightarrow> int \<Rightarrow> llama_main \<Rightarrow> llama_main" where
  "on_port t port key now m =
     (case tasks m t of
        Some k \<Rightarrow> if tk_phase k \<noteq> AwaitPort then m
          else if port = 0 then start_failed t (OtherError ''No free local port for llama-server.'') now m
          else spawn_server t k port key now m
      | None \<Rightarrow> m)"

text \<open>The promise \<open>ready\<close> of the server a task waits for is settled.\<close>

definition on_ready :: "nat \<Rightarrow> int \<Rightarrow> llama_main \<Rightarrow> llama_main" where
  "on_ready t now m =
     (case tasks m t of
        None \<Rightarrow> m
      | Some k \<Rightarrow>
          (case tk_phase k of
             AwaitExisting i \<Rightarrow> (case Option.bind (store m i) ls_ready of Some res \<Rightarrow> settle_start t res m | None \<Rightarrow> m)
           | AwaitReady i \<Rightarrow>
               (case Option.bind (store m i) ls_ready of
                  Some (Inl e) \<Rightarrow> start_failed t e now m
                | Some (Inr st) \<Rightarrow> if tk_role k = EmbeddingRole \<and> tk_args k = [''--embedding''] then set_phase (AwaitProbe st) t m
                                   else start_succeeded t st m
                | None \<Rightarrow> m)
           | _ \<Rightarrow> m))"

definition pooling_re :: re where
  "pooling_re = liti ''pooling''"

text \<open>\<open>embed(['probe'])\<close> has answered: \<open>None\<close>, or the message it was rejected with.\<close>

definition on_probe :: "nat \<Rightarrow> string option \<Rightarrow> int \<Rightarrow> llama_main \<Rightarrow> llama_main" where
  "on_probe t rejected_with now m =
     (case tasks m t of
        Some k \<Rightarrow>
          (case tk_phase k of
             AwaitProbe st \<Rightarrow>
               (case rejected_with of
                  None \<Rightarrow> start_succeeded t st m
                | Some msg \<Rightarrow> if re_test pooling_re msg
                    then try_launch t (tk_engine k) [''--embedding'', ''--pooling'', ''mean''] now (kill_server (tk_role k) m)
                    else start_failed t (OtherError msg) now m)
           | _ \<Rightarrow> m)
      | None \<Rightarrow> m)"

text \<open>The other engines with their devices: those that do not run are left out, those with a GPU come first.\<close>

definition on_others :: "nat \<Rightarrow> (string \<times> string list option) list \<Rightarrow> int \<Rightarrow> llama_main \<Rightarrow> llama_main" where
  "on_others t found now m =
     (case tasks m t of
        Some k \<Rightarrow> if tk_phase k \<noteq> AwaitOthers then m
          else (let runnable = filter (\<lambda>(e, d). d \<noteq> None \<and> Some e \<noteq> map_option fst (tk_error k)) found
                in next_engine t now (upd_task t (\<lambda>k. k\<lparr>tk_others :=
                     map fst (filter (\<lambda>(e, d). d \<noteq> Some []) runnable) @ map fst (filter (\<lambda>(e, d). d = Some []) runnable)\<rparr>) m))
      | None \<Rightarrow> m)"

section \<open>What a server does\<close>

definition on_stderr :: "nat \<Rightarrow> string \<Rightarrow> llama_main \<Rightarrow> llama_main" where
  "on_stderr i data m =
     upd_server i (\<lambda>v. let ls = ls_stderr v @ filter (\<lambda>l. js_trim l \<noteq> []) (js_split nl data)
                       in v\<lparr>ls_stderr := drop (length ls - 40) ls\<rparr>) m"

definition on_exit :: "(string \<Rightarrow> string) \<Rightarrow> nat \<Rightarrow> string \<Rightarrow> int \<Rightarrow> llama_main \<Rightarrow> llama_main" where
  "on_exit ansi i reason now m =
     (case store m i of
        None \<Rightarrow> m
      | Some v \<Rightarrow>
          if ls_exited v \<noteq> None then m
          else let m1 = upd_server i (\<lambda>v. v\<lparr>ls_exited := Some reason\<rparr>) m; r = st_role (ls_state v)
            in if servers m r \<noteq> Some i then m1
               else let m2 = m1\<lparr>servers := (servers m)(r := None)\<rparr>;
                        m3 = (if r = ChatRole then reduceContextIfOutOfMemory v (m2\<lparr>chatCrashes := chatCrashes m @ [now]\<rparr>) else m2)
                 in setState i ((plain_state r Failed)\<lparr>st_modelPath := Some (so_modelPath (ls_options v)),
                      st_error := Some (with_detail ansi reason (ls_stderr v))\<rparr>) m3)"

definition settle_ready :: "nat \<Rightarrow> start_error + server_state \<Rightarrow> llama_main \<Rightarrow> llama_main" where
  "settle_ready i res m = upd_server i (\<lambda>v. v\<lparr>ls_ready := Some res\<rparr>) m"

text \<open>One round of \<open>waitUntilReady\<close>: it ends the wait or asks the server for its health.\<close>

definition poll :: "(string \<Rightarrow> string) \<Rightarrow> nat \<Rightarrow> int \<Rightarrow> llama_main \<Rightarrow> llama_main" where
  "poll ansi i now m =
     (case store m i of
        None \<Rightarrow> m
      | Some v \<Rightarrow>
          if ls_ready v \<noteq> None \<or> ls_polling v then m
          else if now \<ge> ls_deadline v
          then settle_ready i (Inl (OtherError ''llama-server did not become ready within 5 minutes.''))
                 (kill_server (st_role (ls_state v)) m)
          else case ls_exited v of
                 Some reason \<Rightarrow> settle_ready i (Inl (LlamaStartError (with_detail ansi reason (ls_stderr v)) (ls_stderr v))) m
               | None \<Rightarrow>
                   if servers m (st_role (ls_state v)) \<noteq> Some i
                   then settle_ready i (Inl (OtherError ''llama-server was stopped before it finished loading.'')) m
                   else upd_server i (\<lambda>v. v\<lparr>ls_polling := True\<rparr>) m)"

text \<open>Its answer: \<open>None\<close> when it is not listening or not ready, else the context size it reports.\<close>

definition poll_answer :: "nat \<Rightarrow> int option option \<Rightarrow> llama_main \<Rightarrow> llama_main" where
  "poll_answer i answer m =
     (case store m i of
        None \<Rightarrow> m
      | Some v \<Rightarrow>
          if \<not> ls_polling v then m
          else let m1 = upd_server i (\<lambda>v. v\<lparr>ls_polling := False\<rparr>) m
            in case answer of
                 None \<Rightarrow> m1
               | Some size_read \<Rightarrow>
                   (let r = st_role (ls_state v);
                        st = \<lparr>st_role = r, st_status = Ready, st_modelPath = Some (so_modelPath (ls_options v)),
                          st_contextSize = (case size_read of Some n \<Rightarrow> Some n | None \<Rightarrow> Some (so_contextSize (ls_options v))),
                          st_reduced = (r = ChatRole \<and> contextOverride (ls_options v) m \<noteq> None), st_error = None\<rparr>
                    in settle_ready i (Inr st) (setState i st m1)))"

end
