(* ===== verification/Llama_Steps.thy ===== *)
theory Llama_Steps
  imports Llama_Server
begin

text \<open>
  Every interleaving of the servers of local models: \<open>llama_step\<close>, its invariant on the servers of the
  roles, and that a request only ever reaches a server that runs.
\<close>

section \<open>Steps\<close>

text \<open>
  One thing that happens: a call of the window, what a start or a server was waiting for, the clock.
\<close>

inductive llama_step :: "(string \<Rightarrow> string) \<Rightarrow> llama_main \<Rightarrow> llama_main \<Rightarrow> bool" for ansi where
  s_call: "llama_step ansi m (snd (startServer r p m))"
| s_file: "llama_step ansi m (on_file t found m)"
| s_engine: "llama_step ansi m (on_engine t executable found_engine now m)"
| s_port: "llama_step ansi m (on_port t free key now m)"
| s_ready: "llama_step ansi m (on_ready t now m)"
| s_probe: "llama_step ansi m (on_probe t rejected_with now m)"
| s_others: "llama_step ansi m (on_others t engines now m)"
| s_log: "llama_step ansi m (on_stderr i data m)"
| s_exit: "llama_step ansi m (on_exit ansi i reason now m)"
| s_poll: "llama_step ansi m (poll ansi i now m)"
| s_answer: "llama_step ansi m (poll_answer i result m)"
| s_stop: "llama_step ansi m (kill_server r m)"
| s_sweep: "llama_step ansi m (unloadIdle now m)"
| s_stalled: "llama_step ansi m (onStalled now m)"
| s_refused: "llama_step ansi m (snd (restartRefusal restarts now m))"
| s_used: "llama_step ansi m (upd_server i (\<lambda>v. v\<lparr>ls_lastUsed := now\<rparr>) m)"

definition server_live :: "llama_main \<Rightarrow> nat \<Rightarrow> bool" where
  "server_live m i \<longleftrightarrow> (\<exists>v. store m i = Some v \<and> ls_exited v = None \<and> \<not> ls_killed v)"

definition server_role :: "llama_main \<Rightarrow> nat \<Rightarrow> llama_role" where
  "server_role m i = (case store m i of Some v \<Rightarrow> st_role (ls_state v) | None \<Rightarrow> ChatRole)"

section \<open>Requests reach servers that run\<close>

definition current_ok :: "llama_main \<Rightarrow> bool" where
  "current_ok m \<longleftrightarrow>
     (\<forall>r i. servers m r = Some i \<longrightarrow> (\<exists>v. store m i = Some v \<and> st_role (ls_state v) = r \<and> ls_exited v = None \<and> \<not> ls_killed v)) \<and>
     (\<forall>i. store m i \<noteq> None \<longrightarrow> i < spawned m)"

lemma current_okD:
  "current_ok m \<Longrightarrow> servers m r = Some i \<Longrightarrow> \<exists>v. store m i = Some v \<and> st_role (ls_state v) = r \<and> ls_exited v = None \<and> \<not> ls_killed v"
  by (simp add: current_ok_def)

lemma fields [simp]:
  "servers (upd_server i f m) = servers m" "spawned (upd_server i f m) = spawned m" "tasks (upd_server i f m) = tasks m"
  "servers (upd_task t g m) = servers m" "store (upd_task t g m) = store m" "spawned (upd_task t g m) = spawned m"
  "servers (set_phase p t m) = servers m" "store (set_phase p t m) = store m" "spawned (set_phase p t m) = spawned m"
  "servers (settle_start t res m) = servers m" "store (settle_start t res m) = store m" "spawned (settle_start t res m) = spawned m"
  "servers (settle_ready i re m) = servers m" "spawned (settle_ready i re m) = spawned m" "tasks (settle_ready i re m) = tasks m"
  "servers (setState i st m) = servers m" "spawned (setState i st m) = spawned m" "tasks (setState i st m) = tasks m"
  "servers (reduceContextIfOutOfMemory v m) = servers m" "store (reduceContextIfOutOfMemory v m) = store m"
  "spawned (reduceContextIfOutOfMemory v m) = spawned m" "tasks (reduceContextIfOutOfMemory v m) = tasks m"
  "servers (snd (restartRefusal n now m)) = servers m" "store (snd (restartRefusal n now m)) = store m"
  "spawned (snd (restartRefusal n now m)) = spawned m" "tasks (snd (restartRefusal n now m)) = tasks m"
  by (simp_all add: upd_server_def upd_task_def set_phase_def settle_start_def settle_ready_def setState_def
      reduceContextIfOutOfMemory_def restartRefusal_def Let_def split: option.split prod.split)

lemma store_upd [simp]: "store (upd_server i f m) = (store m)(i := map_option f (store m i))"
  by (simp add: upd_server_def)

lemma store_setState [simp]: "store (setState i st m) = (store m)(i := map_option (\<lambda>v. v\<lparr>ls_state := st\<rparr>) (store m i))"
  by (simp add: setState_def upd_server_def)

lemma store_settle_ready [simp]: "store (settle_ready i res m) = (store m)(i := map_option (\<lambda>v. v\<lparr>ls_ready := Some res\<rparr>) (store m i))"
  by (simp add: settle_ready_def)

text \<open>A change that keeps the role and the life of every server keeps the invariant.\<close>

definition same_life :: "llama_main \<Rightarrow> llama_main \<Rightarrow> bool" where
  "same_life m m' \<longleftrightarrow> servers m' = servers m \<and> spawned m' = spawned m \<and>
     (\<forall>i. map_option (\<lambda>v. (st_role (ls_state v), ls_exited v, ls_killed v)) (store m' i) =
          map_option (\<lambda>v. (st_role (ls_state v), ls_exited v, ls_killed v)) (store m i))"

lemma same_lifeI:
  "servers m' = servers m \<Longrightarrow> spawned m' = spawned m \<Longrightarrow> store m' = store m \<Longrightarrow> same_life m m'"
  by (simp add: same_life_def)

lemma same_life_current: "same_life m m' \<Longrightarrow> current_ok m \<Longrightarrow> current_ok m'"
proof -
  assume s: "same_life m m'" and c: "current_ok m"
  have e: "map_option (\<lambda>v. (st_role (ls_state v), ls_exited v, ls_killed v)) (store m' i) =
      map_option (\<lambda>v. (st_role (ls_state v), ls_exited v, ls_killed v)) (store m i)" for i
    using s by (simp add: same_life_def)
  show ?thesis unfolding current_ok_def
  proof (intro conjI allI impI)
    fix r i assume "servers m' r = Some i"
    then have "servers m r = Some i" using s by (simp add: same_life_def)
    from current_okD [OF c this] e [of i]
    show "\<exists>v. store m' i = Some v \<and> st_role (ls_state v) = r \<and> ls_exited v = None \<and> \<not> ls_killed v" by auto
  next
    fix i assume "store m' i \<noteq> None"
    then have "store m i \<noteq> None" using e [of i] by (cases "store m i") auto
    then show "i < spawned m'" using c s by (simp add: current_ok_def same_life_def)
  qed
qed

lemma kill_current:
  assumes "current_ok m"
  shows "current_ok (kill_server r m)"
proof (cases "servers m r")
  case (Some i)
  then obtain v where v: "store m i = Some v" "st_role (ls_state v) = r" using current_okD [OF assms] by blast
  have "servers m r' \<noteq> Some i" if "r' \<noteq> r" for r' using current_okD [OF assms, of r' i] v that by auto
  then show ?thesis using assms Some v by (auto simp: current_ok_def kill_server_def plain_state_def)
qed (simp add: kill_server_def assms)

lemma spawn_current: "current_ok m \<Longrightarrow> current_ok (spawn_server t k prt key now m)"
  by (auto simp: current_ok_def spawn_server_def Let_def new_server_def plain_state_def less_Suc_eq)

lemma try_launch_current: "current_ok m \<Longrightarrow> current_ok (try_launch t e args now m)"
proof -
  assume c: "current_ok m"
  have "current_ok (upd_task t (\<lambda>k. k\<lparr>tk_engine := e, tk_args := args\<rparr>) m)" by (rule same_life_current [OF same_lifeI c]) simp_all
  moreover have "current_ok (set_phase p t m')" "current_ok (settle_start t res m')" if "current_ok m'" for p m' res
    by (rule same_life_current [OF same_lifeI that]; simp)+
  ultimately show ?thesis by (simp add: try_launch_def Let_def spawn_current split: option.split)
qed

lemma set_phase_current: "current_ok m \<Longrightarrow> current_ok (set_phase p t m)"
  by (rule same_life_current [OF same_lifeI]) simp_all

lemma settle_current: "current_ok m \<Longrightarrow> current_ok (settle_start t res m)"
  by (rule same_life_current [OF same_lifeI]) simp_all

lemma upd_task_current: "current_ok m \<Longrightarrow> current_ok (upd_task t g m)"
  by (rule same_life_current [OF same_lifeI]) simp_all

lemma startWith_current: "current_ok m \<Longrightarrow> current_ok (startWith t e now m)"
proof -
  assume c: "current_ok m"
  then have "current_ok (m\<lparr>lastChatOptions := p\<rparr>)" for p by (simp add: current_ok_def)
  with c show ?thesis by (simp add: startWith_def try_launch_current split: option.split)
qed

lemma next_engine_current: "current_ok m \<Longrightarrow> current_ok (next_engine t now m)"
  by (auto simp: next_engine_def intro: startWith_current upd_task_current settle_current split: option.split list.split)

lemma start_failed_current: "current_ok m \<Longrightarrow> current_ok (start_failed t err now m)"
  by (auto simp: start_failed_def intro: next_engine_current upd_task_current settle_current split: option.split)

lemma start_succeeded_current: "current_ok m \<Longrightarrow> current_ok (start_succeeded t st m)"
proof -
  assume c: "current_ok m"
  then have "current_ok (m\<lparr>modelEngines := f\<rparr>)" for f by (simp add: current_ok_def)
  with c show ?thesis by (auto simp: start_succeeded_def intro: settle_current split: option.split)
qed

lemma startServer_current: "current_ok m \<Longrightarrow> current_ok (snd (startServer r p m))"
proof -
  assume c: "current_ok m"
  have b: "current_ok (snd (begin_start r p m))"
    using c by (auto simp: begin_start_def intro: kill_current split: option.split)
  then have "current_ok (new_start r p m)"
    by (simp add: new_start_def current_ok_def case_prod_beta Let_def)
  with c show ?thesis by (auto simp: startServer_def split: option.split)
qed

lemma upd_server_current:
  assumes "current_ok m" "\<And>v. st_role (ls_state (f v)) = st_role (ls_state v) \<and> ls_exited (f v) = ls_exited v \<and> ls_killed (f v) = ls_killed v"
  shows "current_ok (upd_server i f m)"
  by (rule same_life_current [OF _ assms(1)]) (auto simp: same_life_def assms(2) option.map_comp comp_def)

lemma on_exit_current:
  assumes "current_ok m"
  shows "current_ok (on_exit ansi i reason now m)"
proof (cases "store m i")
  case (Some v)
  let ?r = "st_role (ls_state v)"
  have other: "servers m r = Some j \<Longrightarrow> r \<noteq> ?r \<Longrightarrow> j \<noteq> i" for r j using current_okD [OF assms, of r j] Some by auto
  show ?thesis
  proof (cases "servers m ?r = Some i")
    case True
    then show ?thesis using assms Some other
      by (auto simp: on_exit_def Let_def current_ok_def plain_state_def)
  next
    case False
    then show ?thesis using assms Some other
      by (auto simp: on_exit_def Let_def current_ok_def)
  qed
qed (simp add: on_exit_def assms)

lemma poll_current: "current_ok m \<Longrightarrow> current_ok (poll ansi i now m)"
  unfolding poll_def settle_ready_def
  by (auto intro!: upd_server_current kill_current split: option.split)

lemma answer_current: "current_ok m \<Longrightarrow> current_ok (poll_answer i result m)"
proof -
  assume c: "current_ok m"
  have st: "current_ok (setState i st m')" if "current_ok m'" "store m' i = Some v" "st_role (ls_state v) = st_role st" for st m' v
    by (rule same_life_current [OF _ that(1)]) (use that(2,3) in \<open>auto simp: same_life_def\<close>)
  show ?thesis
  proof (cases "store m i")
    case (Some v)
    have "current_ok (upd_server i (\<lambda>v. v\<lparr>ls_polling := False\<rparr>) m)" by (rule upd_server_current [OF c]) simp
    with Some c show ?thesis unfolding poll_answer_def settle_ready_def
      by (auto simp: Let_def intro!: upd_server_current [where f = "\<lambda>v. v\<lparr>ls_ready := x\<rparr>" for x] st split: option.split)
  qed (simp add: poll_answer_def c)
qed

lemma unload_current: "current_ok m \<Longrightarrow> current_ok (unload_role now r m)"
  by (auto simp: unload_role_def intro: kill_current split: option.split)

lemma stalled_current: "current_ok m \<Longrightarrow> current_ok (onStalled now m)"
proof -
  assume c: "current_ok m"
  then have "current_ok (m\<lparr>chatCrashes := x\<rparr>)" for x by (simp add: current_ok_def)
  from kill_current [OF this] show ?thesis
    by (auto simp: onStalled_def Let_def intro!: upd_server_current split: option.split)
qed

lemma current_step: "llama_step ansi m m' \<Longrightarrow> current_ok m \<Longrightarrow> current_ok m'"
proof (induction rule: llama_step.induct)
  case (s_file m t found)
  then show ?case by (auto simp: on_file_def intro: set_phase_current settle_current split: option.split)
next
  case (s_engine m t executable found_engine now)
  then show ?case by (auto simp: on_engine_def intro: startWith_current settle_current split: option.split sum.split)
next
  case (s_port m t free key now)
  then show ?case by (auto simp: on_port_def intro: spawn_current start_failed_current split: option.split)
next
  case (s_ready m t now)
  then show ?case
    by (auto simp: on_ready_def intro: set_phase_current settle_current start_failed_current start_succeeded_current
        split: option.split start_phase.split sum.split)
next
  case (s_probe m t rejected_with now)
  then show ?case
    by (auto simp: on_probe_def intro: try_launch_current kill_current start_failed_current start_succeeded_current
        split: option.split start_phase.split)
next
  case (s_others m t engines now)
  then show ?case by (auto simp: on_others_def Let_def intro: next_engine_current upd_task_current split: option.split)
next
  case (s_log m i data)
  then show ?case unfolding on_stderr_def by (intro upd_server_current) (simp_all add: Let_def)
next
  case (s_refused m restarts now)
  then show ?case by (simp add: current_ok_def)
next
  case (s_used m i now)
  then show ?case by (intro upd_server_current) simp_all
qed (simp_all add: startServer_current on_exit_current poll_current answer_current kill_current unload_current unloadIdle_def stalled_current)

interpretation llama: step_invariant "llama_step ansi" llama_init current_ok for ansi
  by unfold_locales (simp add: current_ok_def llama_init_def, rule current_step)

text \<open>
  Property C17: a request only ever goes to a server that is loaded and runs: whatever calls, exits,
  kills and late answers came before, the server \<open>readyServer\<close> hands out is the one of its role, its
  process has not exited and nobody told it to.
\<close>

theorem requests_reach_running_servers:
  assumes "(llama_step ansi)\<^sup>*\<^sup>* llama_init m" "readyServer r m = Inr i"
  shows "server_live m i \<and> server_role m i = r \<and> getServerState r m = ls_state (the (store m i)) \<and> st_status (getServerState r m) = Ready"
proof -
  have s: "servers m r = Some i" using assms(2) by (auto simp: readyServer_def split: option.splits if_splits)
  from current_okD [OF llama.reached_inv [OF assms(1)] s] obtain v
    where v: "store m i = Some v" "st_role (ls_state v) = r" "ls_exited v = None" "\<not> ls_killed v" by blast
  moreover have "st_status (ls_state v) = Ready" using assms(2) s v(1) by (auto simp: readyServer_def split: if_splits)
  ultimately show ?thesis using s by (simp add: server_live_def server_role_def getServerState_def)
qed

section \<open>A demo\<close>

definition demo_options :: "string \<Rightarrow> start_options" where
  "demo_options path = \<lparr>so_modelPath = path, so_contextSize = 8192, so_gpuLayers = -1, so_serverPath = None, so_devices = None,
     so_splitMode = None, so_mainGpu = None, so_tensorSplit = None, so_threads = None, so_flashAttention = None,
     so_keepAlive = None, so_share = None, so_extraArgs = None\<rparr>"

definition demo_start :: "nat \<Rightarrow> nat \<Rightarrow> string \<Rightarrow> llama_main \<Rightarrow> llama_main" where
  "demo_start t prt key m =
     on_port t prt key 0 (on_engine t False (Inr (Some ''/bin/llama-server'')) 0 (on_file t True m))"

lemma demo_start_steps: "(llama_step ansi)\<^sup>*\<^sup>* m (demo_start t prt key m)"
  unfolding demo_start_def by (meson r_into_rtranclp rtranclp_trans s_file s_engine s_port)

lemmas demo_defs = demo_start_def demo_options_def startServer_def new_start_def begin_start_def llama_init_def sameOptions_def
  on_file_def on_engine_def engineFor_def startWith_def try_launch_def on_port_def spawn_server_def new_server_def
  set_phase_def upd_task_def setState_def upd_server_def plain_state_def server_live_def killServers_def kill_server_def

definition demo_ready :: llama_main where
  "demo_ready = poll_answer 0 (Some (Some 8192)) (poll id 0 0 (demo_start 0 39000 ''key1''
     (snd (startServer ChatRole (demo_options ''a.gguf'') llama_init))))"

lemma demo_ready_server: "readyServer ChatRole demo_ready = Inr 0" "next_task demo_ready = 1"
  by (simp_all add: demo_ready_def demo_defs poll_answer_def poll_def settle_ready_def STARTUP_TIMEOUT_MS_def readyServer_def
      contextOverride_def Let_def)

lemma requests_reach_running_servers_witness:
  "readyServer ChatRole demo_ready = Inr 0 \<and> server_live demo_ready 0 \<and> server_role demo_ready 0 = ChatRole"
proof -
  let ?m = "snd (startServer ChatRole (demo_options ''a.gguf'') llama_init)"
  have "(llama_step id)\<^sup>*\<^sup>* llama_init ?m" by (meson r_into_rtranclp s_call)
  then have "(llama_step id)\<^sup>*\<^sup>* llama_init (demo_start 0 39000 ''key1'' ?m)" by (meson demo_start_steps rtranclp_trans)
  then have "(llama_step id)\<^sup>*\<^sup>* llama_init demo_ready"
    unfolding demo_ready_def by (meson r_into_rtranclp rtranclp_trans s_poll s_answer)
  from requests_reach_running_servers [OF this demo_ready_server(1)] show ?thesis by (simp add: demo_ready_server)
qed

end
