(* ===== verification/Llama_Stream.thy ===== *)
theory Llama_Stream
  imports Chat_Text Llama_Markers Llama_Steps
begin

text \<open>
  One request for an answer and the stream it is read from: \<open>streamAttempt\<close> of
  \<open>src/vs/platform/hivemindide/electron-main/localLlamaMainService.ts\<close>. What the network and the server
  do are the arguments of the steps; \<open>JSON.parse\<close> of an event, with the type the code gives its
  result, and \<open>Number\<close> of a header are arguments too. The record holds the locals of \<open>chat\<close> and
  \<open>streamAttempt\<close> and what was fired, sent and waited for.
\<close>

section \<open>State\<close>

text \<open>One event of the stream: the fields the code reads; absent and \<open>null\<close> are \<open>None\<close>.\<close>

record stream_choice =
  sc_content :: "string option"
  sc_reasoning :: "string option"
  sc_finish :: "string option"

record stream_event =
  se_error :: "string option option"   \<comment> \<open>an error, with its message\<close>
  se_choices :: "stream_choice list"

record chat_options =
  co_temperature :: "real option"
  co_maxTokens :: "nat option"
  co_remote :: "llama_remote option"

record chat_chunk =
  ck_text :: "string option"
  ck_thinking :: "string option"
  ck_done :: bool
  ck_error :: "string option"
  ck_notice :: "string option"

record endpoint =
  ep_baseUrl :: string
  ep_apiKey :: "string option"
  ep_model :: "string option"

record chat_request =
  rq_url :: string
  rq_headers :: "(string \<times> string) list"
  rq_model :: "string option"
  rq_messages :: "(chat_role \<times> string) list"
  rq_extras :: "(real \<times> nat option) option"   \<comment> \<open>temperature and \<open>max_tokens\<close>, sent with \<open>cache_prompt\<close>\<close>

text \<open>What a call of \<open>chat\<close> waits for. \<open>AwaitDeath\<close> is \<open>diedDuring\<close>, with the error that made the code ask.\<close>

datatype chat_phase =
    AwaitResponse
  | AwaitData
  | AwaitDeath "string option"
  | AwaitRestart nat
  | ChatOver "string option"

record llama_chat =
  lc_messages :: "(chat_role \<times> string) list"
  lc_options :: chat_options
  lc_prefill :: string
  lc_answer :: string
  lc_thinking :: bool
  lc_restarts :: nat
  lc_aborted :: bool
  lc_phase :: chat_phase
  lc_server :: "nat option"
  lc_armed :: "int \<times> int"              \<comment> \<open>the watchdog: how long it waits and since when\<close>
  lc_stalled :: "int option"
  lc_resuming :: bool
  lc_echo :: echo
  lc_held :: string
  lc_buffer :: string
  lc_finished :: bool
  lc_threw :: "string option"
  lc_events :: nat                       \<comment> \<open>events without an error so far\<close>
  lc_chunks :: "chat_chunk list"
  lc_requests :: "chat_request list"

definition FIRST_TOKEN_TIMEOUT_MS :: int where "FIRST_TOKEN_TIMEOUT_MS = 180000"
definition TOKEN_GAP_TIMEOUT_MS :: int where "TOKEN_GAP_TIMEOUT_MS = 60000"

definition empty_chunk :: chat_chunk where
  "empty_chunk = \<lparr>ck_text = None, ck_thinking = None, ck_done = False, ck_error = None, ck_notice = None\<rparr>"

definition fire_chunk :: "chat_chunk \<Rightarrow> llama_chat \<Rightarrow> llama_chat" where
  "fire_chunk k c = c\<lparr>lc_chunks := lc_chunks c @ [k]\<rparr>"

definition text_or_none :: "string \<Rightarrow> string option" where
  "text_or_none s = (if s = [] then None else Some s)"

section \<open>Requests\<close>

definition chat_endpoint_of :: "llama_role \<Rightarrow> llama_remote option \<Rightarrow> int \<Rightarrow> llama_main \<Rightarrow> (string + endpoint) \<times> llama_main" where
  "chat_endpoint_of r remote now m =
     (case remote of
        Some p \<Rightarrow> (Inr \<lparr>ep_baseUrl = remoteBaseUrl (remote_url p), ep_apiKey = remote_key p, ep_model = Some (remote_model p)\<rparr>, m)
      | None \<Rightarrow>
          (case readyServer r m of
             Inl msg \<Rightarrow> (Inl msg, m)
           | Inr i \<Rightarrow>
               (let m' = upd_server i (\<lambda>v. v\<lparr>ls_lastUsed := now\<rparr>) m
                in case store m' i of
                     Some v \<Rightarrow> (Inr \<lparr>ep_baseUrl = ''http://127.0.0.1:'' @ show_nat (ls_port v), ep_apiKey = Some (ls_apiKey v), ep_model = None\<rparr>, m')
                   | None \<Rightarrow> (Inl [], m'))))"

definition authHeaders :: "endpoint \<Rightarrow> (string \<times> string) list" where
  "authHeaders e =
     (''Content-Type'', ''application/json'') #
     (case ep_apiKey e of Some k \<Rightarrow> if k \<noteq> [] then [(''Authorization'', ''Bearer '' @ k)] else [] | None \<Rightarrow> [])"

definition request_of :: "endpoint \<Rightarrow> llama_chat \<Rightarrow> chat_request" where
  "request_of e c =
     \<lparr>rq_url = ep_baseUrl e @ ''/v1/chat/completions'', rq_headers = authHeaders e, rq_model = ep_model e,
      rq_messages = (if lc_answer c \<noteq> [] then lc_messages c @ [(AssistantRole, lc_answer c)] else lc_messages c),
      rq_extras =
        (if (\<exists>p. co_remote (lc_options c) = Some p \<and> standardOnly p) then None
         else Some (case co_temperature (lc_options c) of Some t \<Rightarrow> t | None \<Rightarrow> 2 / 10, co_maxTokens (lc_options c)))\<rparr>"

text \<open>The part of \<open>streamAttempt\<close> before its first \<open>await\<close>.\<close>

definition send_request :: "endpoint \<Rightarrow> nat option \<Rightarrow> int \<Rightarrow> llama_chat \<Rightarrow> llama_chat" where
  "send_request e server now c =
     c\<lparr>lc_phase := AwaitResponse, lc_server := server, lc_armed := (FIRST_TOKEN_TIMEOUT_MS, now), lc_stalled := None,
       lc_resuming := (lc_answer c \<noteq> []), lc_echo := new_echo (lc_answer c), lc_held := [], lc_buffer := [],
       lc_finished := False, lc_threw := None, lc_events := 0, lc_requests := lc_requests c @ [request_of e c]\<rparr>"

text \<open>The locals of \<open>chat\<close>: an answer the conversation ends in is continued, so it leaves the messages.\<close>

definition new_chat :: "(chat_role \<times> string) list \<Rightarrow> chat_options \<Rightarrow> llama_chat" where
  "new_chat msgs opts =
     (let prefill = (if msgs \<noteq> [] \<and> fst (last msgs) = AssistantRole then snd (last msgs) else [])
      in \<lparr>lc_messages = (if prefill \<noteq> [] then butlast msgs else msgs), lc_options = opts, lc_prefill = prefill,
          lc_answer = prefill, lc_thinking = False, lc_restarts = 0, lc_aborted = False, lc_phase = AwaitResponse,
          lc_server = None, lc_armed = (0, 0), lc_stalled = None, lc_resuming = False, lc_echo = new_echo [],
          lc_held = [], lc_buffer = [], lc_finished = False, lc_threw = None, lc_events = 0, lc_chunks = [], lc_requests = []\<rparr>)"

section \<open>Reading\<close>

text \<open>One event: its text passes both filters, and reasoning that was shown is not repeated.\<close>

definition event_text :: "stream_choice option \<Rightarrow> llama_chat \<Rightarrow> string \<times> llama_chat" where
  "event_text choice c =
     (case Option.bind choice sc_content of
        Some (x # xs) \<Rightarrow>
          (let (out, e) = echo_push (x # xs) (lc_echo c); (shown, held) = cleaner_push out (lc_held c)
           in (shown, c\<lparr>lc_echo := e, lc_held := held\<rparr>))
      | _ \<Rightarrow> ([], c))"

definition event_thinking :: "stream_choice option \<Rightarrow> llama_chat \<Rightarrow> string option" where
  "event_thinking choice c =
     (case Option.bind choice sc_reasoning of
        Some (x # xs) \<Rightarrow> if lc_resuming c \<and> lc_thinking c then None else Some (x # xs)
      | _ \<Rightarrow> None)"

definition finishes :: "stream_choice option \<Rightarrow> bool" where
  "finishes choice \<longleftrightarrow> (case Option.bind choice sc_finish of Some (x # xs) \<Rightarrow> True | _ \<Rightarrow> False)"

definition note_choice :: "stream_choice option \<Rightarrow> llama_chat \<Rightarrow> llama_chat" where
  "note_choice choice c = c\<lparr>lc_finished := (lc_finished c \<or> finishes choice), lc_events := Suc (lc_events c)\<rparr>"

definition on_choice :: "stream_choice option \<Rightarrow> llama_chat \<Rightarrow> llama_chat" where
  "on_choice choice c =
     (let (shown, c2) = event_text choice (note_choice choice c);
          thought = event_thinking choice c2
      in if shown \<noteq> [] \<or> thought \<noteq> None
         then fire_chunk (empty_chunk\<lparr>ck_text := text_or_none shown, ck_thinking := thought\<rparr>)
                (c2\<lparr>lc_answer := lc_answer c2 @ shown, lc_thinking := (lc_thinking c2 \<or> thought \<noteq> None)\<rparr>)
         else c2)"

text \<open>A line of the stream. After an error nothing more is read.\<close>

definition on_data_line :: "(string \<Rightarrow> string + stream_event) \<Rightarrow> string \<Rightarrow> llama_chat \<Rightarrow> llama_chat" where
  "on_data_line json line c =
     (if lc_threw c \<noteq> None \<or> \<not> prefix ''data:'' line then c
      else let data = js_trim (drop 5 line)
        in if data = ''[DONE]'' then c\<lparr>lc_finished := True\<rparr>
           else case json data of
                  Inl msg \<Rightarrow> c\<lparr>lc_threw := Some msg\<rparr>
                | Inr ev \<Rightarrow>
                    (case se_error ev of
                       Some msg \<Rightarrow> c\<lparr>lc_threw := Some (case msg of Some t \<Rightarrow> t | None \<Rightarrow> ''The model server reported an error.'')\<rparr>
                     | None \<Rightarrow> on_choice (case se_choices ev of [] \<Rightarrow> None | k # _ \<Rightarrow> Some k) c))"

definition read_data :: "(string \<Rightarrow> string + stream_event) \<Rightarrow> string \<Rightarrow> llama_chat \<Rightarrow> llama_chat" where
  "read_data json = read_chunk (on_data_line json) lc_buffer (\<lambda>b c. c\<lparr>lc_buffer := b\<rparr>)"

text \<open>Whatever was held back as a possible marker turned out to be text.\<close>

definition flush_held :: "llama_chat \<Rightarrow> llama_chat" where
  "flush_held c =
     (let rest = cleaner_flush (lc_held c); c1 = c\<lparr>lc_held := []\<rparr>
      in if rest \<noteq> [] then fire_chunk (empty_chunk\<lparr>ck_text := Some rest\<rparr>) (c1\<lparr>lc_answer := lc_answer c1 @ rest\<rparr>) else c1)"


section \<open>How the stream is cut does not matter\<close>

lemma event_text_buffer [simp]:
  "event_text k (c\<lparr>lc_buffer := b\<rparr>) = (fst (event_text k c), (snd (event_text k c))\<lparr>lc_buffer := b\<rparr>)"
  by (simp add: event_text_def Let_def case_prod_beta split: option.split list.split)

lemma event_thinking_buffer [simp]: "event_thinking k (c\<lparr>lc_buffer := b\<rparr>) = event_thinking k c"
  by (simp add: event_thinking_def cong: option.case_cong list.case_cong)

lemma note_choice_buffer [simp]: "note_choice k (c\<lparr>lc_buffer := b\<rparr>) = (note_choice k c)\<lparr>lc_buffer := b\<rparr>"
  by (simp add: note_choice_def)

lemma on_choice_buffer [simp]: "on_choice k (c\<lparr>lc_buffer := b\<rparr>) = (on_choice k c)\<lparr>lc_buffer := b\<rparr>"
  by (simp add: on_choice_def fire_chunk_def Let_def case_prod_beta)

lemma on_data_line_buffer: "on_data_line json l (c\<lparr>lc_buffer := b\<rparr>) = (on_data_line json l c)\<lparr>lc_buffer := b\<rparr>"
  by (simp add: on_data_line_def Let_def split: option.split sum.split)

interpretation stream: line_reader "on_data_line json" lc_buffer "\<lambda>b c. c\<lparr>lc_buffer := b\<rparr>" for json
  by unfold_locales (simp_all add: on_data_line_buffer)

lemma read_all: "fold (read_data json) cs c = read_data json (concat cs) c" if "lc_buffer c = []"
proof (cases cs)
  case Nil
  have "read_data json [] c = c" using that by (simp add: read_data_def read_chunk_def)
  then show ?thesis by (simp add: Nil)
next
  case (Cons d ds)
  then show ?thesis by (simp only: read_data_def stream.reads_concat)
qed

section \<open>Continuing an answer\<close>

text \<open>The text of a line, and of what was received: an unfinished last line does not count yet.\<close>

definition line_content :: "(string \<Rightarrow> string + stream_event) \<Rightarrow> string \<Rightarrow> string" where
  "line_content json line =
     (let l = js_trim line; data = js_trim (drop 5 l)
      in if \<not> prefix ''data:'' l \<or> data = ''[DONE]'' then []
         else case json data of
                Inr ev \<Rightarrow>
                  (case se_choices ev of
                     k # _ \<Rightarrow> (case sc_content k of Some t \<Rightarrow> t | None \<Rightarrow> [])
                   | [] \<Rightarrow> [])
              | Inl _ \<Rightarrow> [])"

definition received_content :: "(string \<Rightarrow> string + stream_event) \<Rightarrow> string \<Rightarrow> string" where
  "received_content json s = concat (map (line_content json) (butlast (js_split nl s)))"

lemma received_none [simp]: "nl \<notin> set b \<Longrightarrow> received_content json b = []"
  by (simp add: received_content_def js_split_single)

lemma received_line [simp]:
  "nl \<notin> set l \<Longrightarrow> received_content json (l @ nl # r) = line_content json l @ received_content json r"
  by (simp add: received_content_def js_split_append)

definition echo_ok :: "echo \<Rightarrow> bool" where
  "echo_ok e \<longleftrightarrow> ec_decided e \<or> (prefix (ec_pending e) (ec_prefix e) \<and> ec_pending e \<noteq> ec_prefix e)"

lemma echo_push_nil: "echo_ok e \<Longrightarrow> echo_push [] e = ([], e)"
proof -
  assume e: "echo_ok e"
  have "ec_pending e = ec_prefix e" if "prefix (ec_pending e) (ec_prefix e)" "length (ec_pending e) = length (ec_prefix e)"
    using that by (auto simp: prefix_def)
  with e show ?thesis by (auto simp: echo_ok_def echo_push_def Let_def)
qed

lemma echo_push_ok: "echo_ok e \<Longrightarrow> echo_ok (snd (echo_push d e))"
proof -
  assume e: "echo_ok e"
  have "ec_pending e @ d = ec_prefix e \<Longrightarrow> length (ec_pending e) + length d = length (ec_prefix e)"
    by (metis length_append)
  with e show ?thesis by (auto simp: echo_ok_def echo_push_def Let_def)
qed

lemma echo_push_chars:
  "set (fst (echo_push d e)) \<subseteq> set (ec_pending e) \<union> set d"
  "set (ec_pending (snd (echo_push d e))) \<subseteq> set (ec_pending e) \<union> set d"
  using set_drop_subset [of "length (ec_prefix e)" "ec_pending e @ d"]
  by (simp_all add: echo_push_def Let_def)

text \<open>The chat between two lines of a stream without markers: nothing is held back by the cleaner.\<close>

definition plain_chat :: "llama_chat \<Rightarrow> bool" where
  "plain_chat c \<longleftrightarrow> lc_held c = [] \<and> echo_ok (lc_echo c) \<and> CHR ''<'' \<notin> set (ec_pending (lc_echo c))"

definition continues :: "string \<Rightarrow> llama_chat \<Rightarrow> llama_chat \<Rightarrow> bool" where
  "continues d c c' \<longleftrightarrow> lc_answer c' = lc_answer c @ fst (echo_push d (lc_echo c)) \<and>
     lc_echo c' = snd (echo_push d (lc_echo c)) \<and> lc_held c' = []"

lemma continues_nil: "plain_chat c \<Longrightarrow> lc_answer c' = lc_answer c \<Longrightarrow> lc_echo c' = lc_echo c \<Longrightarrow> lc_held c' = lc_held c \<Longrightarrow> continues [] c c'"
  by (simp add: continues_def plain_chat_def echo_push_nil)

lemma continues_plain:
  "plain_chat c \<Longrightarrow> CHR ''<'' \<notin> set d \<Longrightarrow> continues d c c' \<Longrightarrow> plain_chat c'"
  using echo_push_chars(2) [of d "lc_echo c"] by (auto simp: plain_chat_def continues_def echo_push_ok)

lemma on_choice_continues:
  assumes "plain_chat c" "CHR ''<'' \<notin> set d" and d: "d = (case Option.bind k sc_content of Some t \<Rightarrow> t | None \<Rightarrow> [])"
  shows "continues d c (on_choice k c)"
proof (cases d)
  case Nil
  have e: "event_text k c1 = ([], c1)" for c1
    using d Nil by (simp add: event_text_def split: option.splits)
  show ?thesis unfolding Nil using assms(1)
    by (intro continues_nil) (simp_all add: on_choice_def e Let_def note_choice_def fire_chunk_def)
next
  case (Cons x xs)
  then have k: "Option.bind k sc_content = Some (x # xs)" using d by (simp split: option.splits)
  let ?o = "fst (echo_push d (lc_echo c))"
  have "CHR ''<'' \<notin> set ([] @ ?o)" using echo_push_chars(1) [of d "lc_echo c"] assms(1,2) by (auto simp: plain_chat_def)
  then have "cleaner_push ?o [] = (?o, [])" using cleaner_plain [of "[]" ?o] by simp
  moreover have "lc_held c = []" using assms(1) by (simp add: plain_chat_def)
  ultimately have "event_text k (note_choice k c) = (?o, (note_choice k c)\<lparr>lc_echo := snd (echo_push d (lc_echo c)), lc_held := []\<rparr>)"
    by (simp add: event_text_def k case_prod_beta Let_def note_choice_def Cons)
  then show ?thesis by (simp add: continues_def on_choice_def Let_def note_choice_def fire_chunk_def)
qed

lemma threw_stays: "lc_threw c = Some e \<Longrightarrow> lc_threw (on_data_line json l c) = Some e"
  by (simp add: on_data_line_def)

lemma on_choice_threw [simp]: "lc_threw (on_choice k c) = lc_threw c"
proof -
  have "lc_threw (snd (event_text k c1)) = lc_threw c1" for c1
    by (simp add: event_text_def Let_def case_prod_beta split: option.split list.split)
  then show ?thesis by (simp add: on_choice_def Let_def case_prod_beta fire_chunk_def note_choice_def)
qed

lemma line_continues:
  assumes "plain_chat c" "CHR ''<'' \<notin> set (line_content json l)" "lc_threw (feed_line (on_data_line json) l c) = None"
  shows "continues (line_content json l) c (feed_line (on_data_line json) l c) \<and> lc_threw c = None"
proof -
  have c: "lc_threw c = None"
  proof (rule ccontr)
    assume "lc_threw c \<noteq> None"
    then obtain e where "lc_threw c = Some e" by blast
    from assms(3) threw_stays [OF this, of json] this show False by (auto simp: feed_line_def split: if_splits)
  qed
  let ?l = "js_trim l" let ?d = "js_trim (drop 5 ?l)"
  have "continues (line_content json l) c (feed_line (on_data_line json) l c)"
  proof (cases "prefix ''data:'' ?l \<and> ?d \<noteq> ''[DONE]''")
    case False
    then have "line_content json l = []" by (auto simp: line_content_def Let_def)
    then show ?thesis using assms(1) False c
      by (auto simp: feed_line_def on_data_line_def Let_def intro!: continues_nil)
  next
    case True
    then have f: "feed_line (on_data_line json) l c = on_data_line json ?l c" by (auto simp: feed_line_def)
    obtain ev where ev: "json ?d = Inr ev" "se_error ev = None"
      using assms(3) True c unfolding f by (auto simp: on_data_line_def Let_def split: sum.splits option.splits)
    let ?k = "case se_choices ev of [] \<Rightarrow> None | k # _ \<Rightarrow> Some k"
    have g: "on_data_line json ?l c = on_choice ?k c" using True c ev by (simp add: on_data_line_def Let_def)
    have "line_content json l = (case Option.bind ?k sc_content of Some t \<Rightarrow> t | None \<Rightarrow> [])"
      using True ev by (simp add: line_content_def Let_def split: list.split)
    then show ?thesis unfolding f g using assms(1,2) by (intro on_choice_continues)
  qed
  with c show ?thesis by blast
qed

lemma drain_continues:
  assumes "plain_chat c" "CHR ''<'' \<notin> set (received_content json b)"
    and "lc_threw (snd (drain_lines (on_data_line json) b c)) = None"
  shows "lc_threw c = None \<and> (\<exists>ds. concat ds = received_content json b \<and>
    (let c' = snd (drain_lines (on_data_line json) b c)
     in lc_answer c' = lc_answer c @ fst (run_push echo_push ds (lc_echo c)) \<and> lc_held c' = []))"
  using assms
proof (induction b arbitrary: c rule: lines_induct)
  case (rest b)
  then show ?case by (intro conjI exI [of _ "[]"]) (auto simp: plain_chat_def)
next
  case (line l r)
  let ?c = "feed_line (on_data_line json) l c" and ?d = "line_content json l"
  have r: "CHR ''<'' \<notin> set (received_content json r)" "CHR ''<'' \<notin> set ?d" using line.prems(2) line.hyps by auto
  have t: "lc_threw (snd (drain_lines (on_data_line json) r ?c)) = None" using line.prems(3) line.hyps by simp
  have "lc_threw ?c = None"
  proof (rule ccontr)
    assume "lc_threw ?c \<noteq> None"
    then obtain e where "lc_threw ?c = Some e" by blast
    from drain_lines_keeps [where P = "\<lambda>c. lc_threw c = Some e", OF threw_stays this] t show False by simp
  qed
  from line_continues [OF line.prems(1) r(2) this] have c: "continues ?d c ?c" "lc_threw c = None" by blast+
  from line.IH [OF continues_plain [OF line.prems(1) r(2) c(1)] r(1) t] obtain ds
    where "concat ds = received_content json r"
      "lc_answer (snd (drain_lines (on_data_line json) r ?c)) = lc_answer ?c @ fst (run_push echo_push ds (lc_echo ?c))"
      "lc_held (snd (drain_lines (on_data_line json) r ?c)) = []" by (auto simp: Let_def)
  then show ?case using c line.hyps
    by (intro conjI exI [of _ "?d # ds"]) (simp_all add: continues_def case_prod_beta Let_def)
qed

text \<open>What a server that echoes the answer so far and goes on with it adds to it.\<close>

lemma without_echo_continues:
  assumes "prefix p A" "prefix r A"
  shows "p @ without_echo p r = (if prefix p r then r else p)"
proof -
  have "prefix p r \<or> prefix r p" using assms prefix_same_cases by blast
  then show ?thesis by (auto simp: without_echo_def prefix_def)
qed

lemma read_answer:
  assumes "CHR ''<'' \<notin> set (received_content json (concat cs))"
    and "lc_threw (fold (read_data json) cs ((send_request e server now c)\<lparr>lc_phase := AwaitData\<rparr>)) = None"
  shows "lc_answer (fold (read_data json) cs ((send_request e server now c)\<lparr>lc_phase := AwaitData\<rparr>)) =
    lc_answer c @ without_echo (lc_answer c) (received_content json (concat cs))"
    and "lc_held (fold (read_data json) cs ((send_request e server now c)\<lparr>lc_phase := AwaitData\<rparr>)) = []"
proof -
  let ?c = "(send_request e server now c)\<lparr>lc_phase := AwaitData\<rparr>"
  let ?d = "drain_lines (on_data_line json) (concat cs) ?c"
  have f: "fold (read_data json) cs ?c = (snd ?d)\<lparr>lc_buffer := fst ?d\<rparr>"
    using read_all [of ?c json cs] by (simp add: send_request_def read_data_def read_chunk_def case_prod_beta Let_def)
  have "plain_chat ?c" by (auto simp: plain_chat_def send_request_def echo_ok_def new_echo_def)
  moreover have "lc_threw (snd ?d) = None" using assms(2) by (simp add: f)
  ultimately obtain ds where ds: "concat ds = received_content json (concat cs)" "lc_held (snd ?d) = []"
    "lc_answer (snd ?d) = lc_answer ?c @ fst (run_push echo_push ds (lc_echo ?c))"
    using drain_continues [OF _ assms(1), of ?c] by (auto simp: Let_def)
  have "lc_echo ?c = new_echo (lc_answer c)" "lc_answer ?c = lc_answer c" by (simp_all add: send_request_def)
  then show "lc_answer (fold (read_data json) cs ?c) = lc_answer c @ without_echo (lc_answer c) (received_content json (concat cs))"
    "lc_held (fold (read_data json) cs ?c) = []"
    using ds unfolding f by (simp_all add: resumed_answer_has_no_echo)
qed


section \<open>A demo\<close>

text \<open>A chat with a remote server, and events that are their own text.\<close>

definition demo_remote :: llama_remote where
  "demo_remote = \<lparr>remote_url = ''https://api.example/v1'', remote_model = ''m'', remote_key = Some ''k'', standardOnly = True\<rparr>"

definition demo_chat_options :: "llama_remote option \<Rightarrow> chat_options" where
  "demo_chat_options r = \<lparr>co_temperature = None, co_maxTokens = None, co_remote = r\<rparr>"

definition demo_json :: "string \<Rightarrow> string + stream_event" where
  "demo_json s = Inr \<lparr>se_error = None, se_choices = [\<lparr>sc_content = Some s, sc_reasoning = None, sc_finish = None\<rparr>]\<rparr>"

lemma demo_json_quiet: "lc_threw c = None \<Longrightarrow> lc_threw (read_data demo_json d c) = None"
proof -
  have "lc_threw c = None \<Longrightarrow> lc_threw (on_data_line demo_json l c) = None" for l c
    by (simp add: on_data_line_def demo_json_def Let_def)
  then have "lc_threw c = None \<Longrightarrow> lc_threw (snd (drain_lines (on_data_line demo_json) b c)) = None" for b
    by (rule drain_lines_keeps)
  then show "lc_threw c = None \<Longrightarrow> lc_threw (read_data demo_json d c) = None"
    by (simp add: read_data_def read_chunk_def case_prod_beta Let_def)
qed

lemma demo_received: "received_content demo_json (concat [''data: Hel'', ''lo'' @ [nl], ''da'']) = ''Hello''"
proof -
  have "line_content demo_json ''data: Hello'' = ''Hello''" by code_simp
  moreover have "nl \<notin> set ''data: Hello''" "nl \<notin> set ''da''" by (simp_all add: nl_def)
  ultimately show ?thesis using received_line [of "''data: Hello''" demo_json "''da''"] by simp
qed


end
