(* ===== verification/Llama_Chat.thy ===== *)
theory Llama_Chat
  imports Llama_Stream
begin

text \<open>
  A whole call of \<open>chat\<close> of \<open>localLlamaMainService.ts\<close>: its requests, the watchdog, what happens when
  the model dies, hangs or is stopped while it answers, the restarts, and the chunks fired. A step
  takes the call and the state of the service; \<open>chat_step\<close> is every interleaving with the servers.
\<close>

section \<open>How an answer ends\<close>

text \<open>The end of \<open>chat\<close>, and its \<open>catch\<close>.\<close>

definition complete_chat :: "llama_chat \<Rightarrow> llama_chat" where
  "complete_chat c = (fire_chunk (empty_chunk\<lparr>ck_done := True\<rparr>) c)\<lparr>lc_phase := ChatOver None\<rparr>"

definition fail_chat :: "string \<Rightarrow> llama_chat \<Rightarrow> llama_chat" where
  "fail_chat msg c =
     (if lc_aborted c then complete_chat c
      else (fire_chunk (empty_chunk\<lparr>ck_done := True, ck_error := Some msg\<rparr>) c)\<lparr>lc_phase := ChatOver (Some msg)\<rparr>)"

definition restart_notice :: "llama_main \<Rightarrow> llama_chat \<Rightarrow> string" where
  "restart_notice m c =
     (case Option.bind (lastChatOptions m) (\<lambda>p. contextOverride p m) of
        Some reduced \<Rightarrow> if reduced \<noteq> 0
          then ''The model ran out of memory. Restarting it with a smaller context ('' @ show_int reduced @ '' tokens)'' @ ellipsis
          else if lc_answer c \<noteq> [] then ''The model stopped unexpectedly. Restarting it and continuing where it left off'' @ ellipsis
          else ''The model stopped unexpectedly. Restarting it'' @ ellipsis
      | None \<Rightarrow> if lc_answer c \<noteq> [] then ''The model stopped unexpectedly. Restarting it and continuing where it left off'' @ ellipsis
          else ''The model stopped unexpectedly. Restarting it'' @ ellipsis)"

text \<open>The outcome \<open>interrupted\<close>, as the loop of \<open>chat\<close> handles it, up to the \<open>await\<close> of \<open>restartChatServer\<close>.\<close>

definition restart_chat :: "start_options \<Rightarrow> llama_chat \<Rightarrow> llama_main \<Rightarrow> llama_chat \<times> llama_main" where
  "restart_chat p c m =
     (let c1 = fire_chunk (empty_chunk\<lparr>ck_notice := Some (restart_notice m c)\<rparr>) (c\<lparr>lc_restarts := Suc (lc_restarts c)\<rparr>);
          (t, m1) = startServer ChatRole p m
      in (c1\<lparr>lc_phase := AwaitRestart t\<rparr>, m1))"

definition on_interrupted :: "string \<Rightarrow> int \<Rightarrow> llama_chat \<Rightarrow> llama_main \<Rightarrow> llama_chat \<times> llama_main" where
  "on_interrupted reason now c m =
     (case co_remote (lc_options c) of
        Some p \<Rightarrow> (fail_chat (''Lost the connection to the remote server ('' @ remoteBaseUrl (remote_url p) @ ''): '' @ reason) c, m)
      | None \<Rightarrow>
          (let (refusal, m1) = restartRefusal (lc_restarts c) now m
           in case refusal of
                Some msg \<Rightarrow> (fail_chat (msg @ [nl, nl] @ reason) c, m1)
              | None \<Rightarrow>
                  (case lastChatOptions m1 of
                     Some p \<Rightarrow> restart_chat p c m1
                   | None \<Rightarrow> (fail_chat ''The model stopped unexpectedly.'' c, m1))))"

text \<open>\<open>streamAttempt\<close>, up to its first \<open>await\<close>.\<close>

definition start_attempt :: "int \<Rightarrow> llama_chat \<Rightarrow> llama_main \<Rightarrow> llama_chat \<times> llama_main" where
  "start_attempt now c m =
     (let remote = co_remote (lc_options c);
          server = (if remote = None then servers m ChatRole else None)
      in case chat_endpoint_of ChatRole remote now m of
           (Inl msg, m1) \<Rightarrow> on_interrupted msg now c m1
         | (Inr e, m1) \<Rightarrow> (send_request e server now c, m1))"

definition start_chat :: "(chat_role \<times> string) list \<Rightarrow> chat_options \<Rightarrow> int \<Rightarrow> llama_main \<Rightarrow> llama_chat \<times> llama_main" where
  "start_chat msgs opts now m = start_attempt now (new_chat msgs opts) m"

section \<open>What a request waits for\<close>

definition requesting :: "llama_chat \<Rightarrow> bool" where
  "requesting c \<longleftrightarrow> lc_phase c = AwaitResponse \<or> lc_phase c = AwaitData"

text \<open>The \<open>catch\<close> of \<open>streamAttempt\<close>. A remote request has no server that could have died.\<close>

definition stream_failed :: "string \<Rightarrow> int \<Rightarrow> llama_chat \<Rightarrow> llama_main \<Rightarrow> llama_chat \<times> llama_main" where
  "stream_failed msg now c m =
     (if lc_aborted c then (complete_chat c, m)
      else case lc_stalled c of
             Some ms \<Rightarrow> on_interrupted (''The model produced nothing for '' @ show_int (js_round (ms / 1000)) @ '' seconds and was restarted.'')
                          now c (onStalled now m)
           | None \<Rightarrow>
               (case lc_server c of
                  Some i \<Rightarrow> (c\<lparr>lc_phase := AwaitDeath (Some msg)\<rparr>, m)
                | None \<Rightarrow> if co_remote (lc_options c) \<noteq> None \<and> \<not> prefix ''The model server'' msg then on_interrupted msg now c m
                          else (fail_chat msg c, m)))"

text \<open>The answer to \<open>fetch\<close>: its status with the \<open>retry-after\<close> header, whether it has a body, and the text of an error.\<close>

definition http_error :: "(string \<Rightarrow> real option) \<Rightarrow> (real \<Rightarrow> string) \<Rightarrow> nat \<Rightarrow> string option \<Rightarrow> string \<Rightarrow> string" where
  "http_error to_number num status retry_after body =
     ''The model server returned HTTP '' @ show_nat status
     @ (case Option.bind retry_after to_number of
          Some n \<Rightarrow> if n > 0 then '' (retry after '' @ num n @ ''s)'' else []
        | None \<Rightarrow> [])
     @ '': '' @ body"

definition on_response ::
  "(string \<Rightarrow> real option) \<Rightarrow> (real \<Rightarrow> string) \<Rightarrow> nat \<Rightarrow> bool \<Rightarrow> string option \<Rightarrow> string \<Rightarrow> int \<Rightarrow> llama_chat \<Rightarrow> llama_main \<Rightarrow> llama_chat \<times> llama_main" where
  "on_response to_number num status has_body retry_after body now c m =
     (if lc_phase c \<noteq> AwaitResponse then (c, m)
      else if 200 \<le> status \<and> status \<le> 299 \<and> has_body then (c\<lparr>lc_phase := AwaitData\<rparr>, m)
      else stream_failed (http_error to_number num status retry_after body) now c m)"

definition on_stream_data :: "(string \<Rightarrow> string + stream_event) \<Rightarrow> string \<Rightarrow> int \<Rightarrow> llama_chat \<Rightarrow> llama_main \<Rightarrow> llama_chat \<times> llama_main" where
  "on_stream_data json data now c m =
     (if lc_phase c \<noteq> AwaitData then (c, m)
      else let c1 = read_data json data c; c2 = (if lc_events c1 > lc_events c then c1\<lparr>lc_armed := (TOKEN_GAP_TIMEOUT_MS, now)\<rparr> else c1);
               m1 = (case lc_server c of
                       Some i \<Rightarrow> if lc_events c1 > lc_events c then upd_server i (\<lambda>v. v\<lparr>ls_lastUsed := now\<rparr>) m else m
                     | None \<Rightarrow> m)
        in case lc_threw c2 of Some msg \<Rightarrow> stream_failed msg now c2 m1 | None \<Rightarrow> (c2, m1))"

text \<open>The stream has ended. Without a finish marker it was cut, when its server died or is remote.\<close>

definition on_stream_end :: "int \<Rightarrow> llama_chat \<Rightarrow> llama_main \<Rightarrow> llama_chat \<times> llama_main" where
  "on_stream_end now c m =
     (if lc_phase c \<noteq> AwaitData then (c, m)
      else let c1 = flush_held c
        in if lc_finished c1 then (complete_chat c1, m)
           else case lc_server c1 of
                  Some i \<Rightarrow> (c1\<lparr>lc_phase := AwaitDeath None\<rparr>, m)
                | None \<Rightarrow> if co_remote (lc_options c1) \<noteq> None
                          then on_interrupted ''The connection closed before the answer finished.'' now c1 m
                          else (complete_chat c1, m))"

definition on_stream_error :: "string \<Rightarrow> int \<Rightarrow> llama_chat \<Rightarrow> llama_main \<Rightarrow> llama_chat \<times> llama_main" where
  "on_stream_error msg now c m = (if requesting c then stream_failed msg now c m else (c, m))"

text \<open>The watchdog aborts the request, whose error then arrives as one of the stream.\<close>

definition on_watchdog :: "int \<Rightarrow> llama_chat \<Rightarrow> llama_chat" where
  "on_watchdog now c =
     (if requesting c \<and> lc_stalled c = None \<and> now \<ge> snd (lc_armed c) + fst (lc_armed c)
      then c\<lparr>lc_stalled := Some (fst (lc_armed c))\<rparr> else c)"

text \<open>\<open>diedDuring\<close> is settled: the server has exited, or the second that is left to it is over.\<close>

definition on_death :: "(string \<Rightarrow> string) \<Rightarrow> int \<Rightarrow> llama_chat \<Rightarrow> llama_main \<Rightarrow> llama_chat \<times> llama_main" where
  "on_death ansi now c m =
     (case lc_phase c of
        AwaitDeath err \<Rightarrow>
          (case Option.bind (lc_server c) (\<lambda>i. Option.bind (store m i) (\<lambda>v. map_option (\<lambda>reason. (reason, v)) (ls_exited v))) of
             Some (reason, v) \<Rightarrow>
               if ls_purpose v then (fail_chat ''The model was stopped while it was answering.'' c, m)
               else on_interrupted (with_detail ansi reason (ls_stderr v)) now c m
           | None \<Rightarrow> (case err of Some msg \<Rightarrow> (fail_chat msg c, m) | None \<Rightarrow> (complete_chat c, m)))
      | _ \<Rightarrow> (c, m))"

fun start_message :: "start_error \<Rightarrow> string" where
  "start_message (LlamaStartError msg l) = msg"
| "start_message (OtherError msg) = msg"

definition on_restarted :: "int \<Rightarrow> llama_chat \<Rightarrow> llama_main \<Rightarrow> llama_chat \<times> llama_main" where
  "on_restarted now c m =
     (case lc_phase c of
        AwaitRestart t \<Rightarrow>
          (case map_option tk_phase (tasks m t) of
             Some (Over (Inl e)) \<Rightarrow> (fail_chat (start_message e) c, m)
           | Some (Over (Inr st)) \<Rightarrow> if lc_aborted c then (complete_chat c, m) else start_attempt now c m
           | _ \<Rightarrow> (c, m))
      | _ \<Rightarrow> (c, m))"

definition cancelChat :: "llama_chat \<Rightarrow> llama_chat" where
  "cancelChat c = (case lc_phase c of ChatOver e \<Rightarrow> c | _ \<Rightarrow> c\<lparr>lc_aborted := True\<rparr>)"

section \<open>Steps\<close>

inductive chat_step :: "(string \<Rightarrow> string) \<Rightarrow> llama_chat \<times> llama_main \<Rightarrow> llama_chat \<times> llama_main \<Rightarrow> bool" for ansi where
  c_servers: "llama_step ansi m m' \<Longrightarrow> chat_step ansi (c, m) (c, m')"
| c_response: "chat_step ansi (c, m) (on_response to_number num status has_body retry_after body now c m)"
| c_data: "chat_step ansi (c, m) (on_stream_data json data now c m)"
| c_end: "chat_step ansi (c, m) (on_stream_end now c m)"
| c_error: "chat_step ansi (c, m) (on_stream_error msg now c m)"
| c_watchdog: "chat_step ansi (c, m) (on_watchdog now c, m)"
| c_death: "chat_step ansi (c, m) (on_death ansi now c m)"
| c_restarted: "chat_step ansi (c, m) (on_restarted now c m)"
| c_cancel: "chat_step ansi (c, m) (cancelChat c, m)"


section \<open>One uninterrupted answer\<close>

text \<open>What the chunks of a call show, and how many of them end it.\<close>

definition chunk_text :: "chat_chunk list \<Rightarrow> string" where
  "chunk_text ks = concat (map (\<lambda>k. case ck_text k of Some t \<Rightarrow> t | None \<Rightarrow> []) ks)"

definition settled_by :: "chat_phase \<Rightarrow> chat_chunk list \<Rightarrow> bool" where
  "settled_by p ks \<longleftrightarrow>
     (case p of
        ChatOver e \<Rightarrow> \<exists>js k. ks = js @ [k] \<and> ck_done k \<and> ck_error k = e \<and> (\<forall>j\<in>set js. \<not> ck_done j \<and> ck_error j = None)
      | _ \<Rightarrow> \<forall>k\<in>set ks. \<not> ck_done k \<and> ck_error k = None)"

definition chat_ok :: "llama_chat \<Rightarrow> bool" where
  "chat_ok c \<longleftrightarrow> lc_prefill c @ chunk_text (lc_chunks c) = lc_answer c \<and> settled_by (lc_phase c) (lc_chunks c) \<and>
     lc_restarts c \<le> MAX_RESTARTS_PER_ANSWER \<and> length (lc_requests c) \<le> Suc (lc_restarts c) \<and>
     (\<forall>t. lc_phase c = AwaitRestart t \<longrightarrow> length (lc_requests c) \<le> lc_restarts c)"

definition over :: "llama_chat \<Rightarrow> bool" where
  "over c \<longleftrightarrow> (\<exists>e. lc_phase c = ChatOver e)"

lemma chunk_text_append [simp]: "chunk_text (ks @ js) = chunk_text ks @ chunk_text js"
  by (simp add: chunk_text_def)

lemma settled_running: "\<not> over c \<Longrightarrow> settled_by (lc_phase c) ks = (\<forall>k\<in>set ks. \<not> ck_done k \<and> ck_error k = None)"
  by (auto simp: settled_by_def over_def split: chat_phase.split)

lemma running_ok:
  "\<not> over c \<Longrightarrow> chat_ok c \<longleftrightarrow> lc_prefill c @ chunk_text (lc_chunks c) = lc_answer c \<and>
     (\<forall>k\<in>set (lc_chunks c). \<not> ck_done k \<and> ck_error k = None) \<and> lc_restarts c \<le> MAX_RESTARTS_PER_ANSWER \<and>
     length (lc_requests c) \<le> Suc (lc_restarts c) \<and> (\<forall>t. lc_phase c = AwaitRestart t \<longrightarrow> length (lc_requests c) \<le> lc_restarts c)"
  by (simp add: chat_ok_def settled_running)

lemma over_ok:
  "chat_ok (c\<lparr>lc_chunks := ks, lc_phase := ChatOver e\<rparr>) \<longleftrightarrow> lc_prefill c @ chunk_text ks = lc_answer c \<and>
     (\<exists>js k. ks = js @ [k] \<and> ck_done k \<and> ck_error k = e \<and> (\<forall>j\<in>set js. \<not> ck_done j \<and> ck_error j = None)) \<and>
     lc_restarts c \<le> MAX_RESTARTS_PER_ANSWER \<and> length (lc_requests c) \<le> Suc (lc_restarts c)"
  by (simp add: chat_ok_def settled_by_def)

text \<open>What reading does to a call: it adds text chunks whose text is added to the answer.\<close>

definition frame :: "llama_chat \<Rightarrow> string \<times> chat_phase \<times> nat \<times> chat_request list \<times> bool \<times> chat_options \<times> nat option \<times> int option" where
  "frame c = (lc_prefill c, lc_phase c, lc_restarts c, lc_requests c, lc_aborted c, lc_options c, lc_server c, lc_stalled c)"

definition reads :: "llama_chat \<Rightarrow> llama_chat \<Rightarrow> bool" where
  "reads c c' \<longleftrightarrow> frame c' = frame c \<and>
     (\<exists>ks. lc_chunks c' = lc_chunks c @ ks \<and> lc_answer c' = lc_answer c @ chunk_text ks \<and> (\<forall>k\<in>set ks. \<not> ck_done k \<and> ck_error k = None))"

lemma readsI:
  "frame c' = frame c \<Longrightarrow> lc_chunks c' = lc_chunks c @ ks \<Longrightarrow> lc_answer c' = lc_answer c @ chunk_text ks \<Longrightarrow>
   (\<forall>k\<in>set ks. \<not> ck_done k \<and> ck_error k = None) \<Longrightarrow> reads c c'"
  by (auto simp: reads_def)

lemma reads_refl: "reads c c"
  by (rule readsI [where ks = "[]"]) (simp_all add: chunk_text_def)

lemma reads_trans: "reads a b \<Longrightarrow> reads b c \<Longrightarrow> reads a c"
  unfolding reads_def
proof (elim conjE exE, intro conjI)
  fix ks js
  assume "lc_chunks b = lc_chunks a @ ks" "lc_answer b = lc_answer a @ chunk_text ks" "\<forall>k\<in>set ks. \<not> ck_done k \<and> ck_error k = None"
    and "lc_chunks c = lc_chunks b @ js" "lc_answer c = lc_answer b @ chunk_text js" "\<forall>k\<in>set js. \<not> ck_done k \<and> ck_error k = None"
  then show "\<exists>ks. lc_chunks c = lc_chunks a @ ks \<and> lc_answer c = lc_answer a @ chunk_text ks \<and> (\<forall>k\<in>set ks. \<not> ck_done k \<and> ck_error k = None)"
    by (intro exI [of _ "ks @ js"]) (simp add: ball_Un)
qed simp

lemma reads_same: "frame c' = frame c \<Longrightarrow> lc_chunks c' = lc_chunks c \<Longrightarrow> lc_answer c' = lc_answer c \<Longrightarrow> reads c c'"
  by (rule readsI [where ks = "[]"]) (simp_all add: chunk_text_def)

lemma reads_text:
  "\<not> ck_done k \<Longrightarrow> ck_error k = None \<Longrightarrow>
   reads c (fire_chunk k (c\<lparr>lc_answer := lc_answer c @ chunk_text [k], lc_thinking := b\<rparr>))"
  by (rule readsI [where ks = "[k]"]) (simp_all add: frame_def fire_chunk_def)

lemma reads_choice: "reads c (on_choice k c)"
proof -
  obtain shown c2 where e: "event_text k (note_choice k c) = (shown, c2)" by fastforce
  then have 2: "reads c c2"
    by (intro reads_same) (auto simp: event_text_def note_choice_def frame_def Let_def case_prod_beta split: option.splits list.splits)
  let ?k = "empty_chunk\<lparr>ck_text := text_or_none shown, ck_thinking := event_thinking k c2\<rparr>"
  have t: "chunk_text [?k] = shown" by (simp add: chunk_text_def text_or_none_def)
  have "reads c2 (fire_chunk ?k (c2\<lparr>lc_answer := lc_answer c2 @ chunk_text [?k], lc_thinking := b\<rparr>))" for b
    by (rule reads_text) (simp_all add: empty_chunk_def)
  then show ?thesis using 2 unfolding t by (auto simp: on_choice_def e Let_def intro: reads_trans)
qed

lemma reads_data_line: "reads c (on_data_line json l c)"
  by (auto simp: on_data_line_def Let_def frame_def intro: reads_choice reads_same split: option.split sum.split)

lemma reads_data: "reads c (read_data json d c)"
proof -
  have "reads c (snd (drain_lines (on_data_line json) b c))" for b
    by (rule drain_lines_keeps [where P = "reads c"]) (auto intro: reads_trans reads_data_line reads_refl)
  then show ?thesis
    unfolding read_data_def read_chunk_def case_prod_beta Let_def
    by (rule reads_trans) (rule reads_same, simp_all add: frame_def)
qed

lemma reads_flush: "reads c (flush_held c)"
proof -
  let ?k = "empty_chunk\<lparr>ck_text := Some (cleaner_flush (lc_held c))\<rparr>" and ?c = "c\<lparr>lc_held := []\<rparr>"
  have t: "chunk_text [?k] = cleaner_flush (lc_held c)" by (simp add: chunk_text_def)
  have "reads ?c (fire_chunk ?k (?c\<lparr>lc_answer := lc_answer ?c @ chunk_text [?k], lc_thinking := lc_thinking c\<rparr>))"
    by (rule reads_text) (simp_all add: empty_chunk_def)
  moreover have "reads c ?c" by (rule reads_same) (simp_all add: frame_def)
  ultimately show ?thesis unfolding t by (auto simp: flush_held_def Let_def intro: reads_trans)
qed

lemma reads_ok: "reads c c' \<Longrightarrow> \<not> over c \<Longrightarrow> chat_ok c \<Longrightarrow> chat_ok c' \<and> \<not> over c'"
proof -
  assume r: "reads c c'" and c: "\<not> over c" "chat_ok c"
  then have "\<not> over c'" by (simp add: reads_def frame_def over_def)
  with r c show ?thesis by (auto simp: running_ok reads_def frame_def)
qed


text \<open>Ending, failing and restarting.\<close>

lemma end_ok:
  "\<not> over c \<Longrightarrow> chat_ok c \<Longrightarrow> ck_text k = None \<Longrightarrow> ck_done k \<Longrightarrow> ck_error k = e \<Longrightarrow>
   chat_ok ((fire_chunk k c)\<lparr>lc_phase := ChatOver e\<rparr>) \<and> over ((fire_chunk k c)\<lparr>lc_phase := ChatOver e\<rparr>)"
  by (simp add: fire_chunk_def over_ok running_ok) (simp add: chunk_text_def over_def)

lemma complete_ok: "\<not> over c \<Longrightarrow> chat_ok c \<Longrightarrow> chat_ok (complete_chat c) \<and> over (complete_chat c)"
  unfolding complete_chat_def by (rule end_ok) (simp_all add: empty_chunk_def)

lemma fail_ok: "\<not> over c \<Longrightarrow> chat_ok c \<Longrightarrow> chat_ok (fail_chat msg c) \<and> over (fail_chat msg c)"
  using end_ok [of c "empty_chunk\<lparr>ck_done := True, ck_error := Some msg\<rparr>" "Some msg"]
  by (simp add: fail_chat_def complete_ok empty_chunk_def)

lemma refusal_None: "fst (restartRefusal n now m) = None \<Longrightarrow> n < MAX_RESTARTS_PER_ANSWER"
  by (auto simp: restartRefusal_def Let_def split: if_splits)

lemma restart_ok:
  assumes "\<not> over c" "chat_ok c" "lc_restarts c < MAX_RESTARTS_PER_ANSWER"
  shows "chat_ok (fst (restart_chat p c m))"
proof -
  have "\<not> over (fst (restart_chat p c m))" by (simp add: restart_chat_def case_prod_beta Let_def over_def)
  then show ?thesis using assms
    by (simp add: running_ok) (simp add: restart_chat_def case_prod_beta Let_def fire_chunk_def empty_chunk_def chunk_text_def)
qed

lemma interrupted_cases:
  obtains msg where "fst (on_interrupted reason now c m) = fail_chat msg c"
  | p m1 where "fst (on_interrupted reason now c m) = fst (restart_chat p c m1)" "lc_restarts c < MAX_RESTARTS_PER_ANSWER"
proof (cases "co_remote (lc_options c)")
  case None
  obtain refusal m1 where r: "restartRefusal (lc_restarts c) now m = (refusal, m1)" by fastforce
  consider msg where "refusal = Some msg" | "refusal = None" "lastChatOptions m1 = None"
    | p where "refusal = None" "lastChatOptions m1 = Some p" by fastforce
  then show thesis
    using None r refusal_None [of "lc_restarts c" now m] that by cases (simp_all add: on_interrupted_def)
qed (simp add: on_interrupted_def that)

lemma interrupted_ok: "\<not> over c \<Longrightarrow> chat_ok c \<Longrightarrow> chat_ok (fst (on_interrupted reason now c m))"
  by (cases rule: interrupted_cases [of reason now c m]) (auto simp: fail_ok restart_ok)

lemma start_attempt_cases:
  obtains reason m1 where "fst (start_attempt now c m) = fst (on_interrupted reason now c m1)"
  | e server where "fst (start_attempt now c m) = send_request e server now c"
proof (cases "chat_endpoint_of ChatRole (co_remote (lc_options c)) now m")
  case (Pair r m1)
  show thesis
  proof (cases r)
    case (Inl msg)
    then show thesis using Pair by (intro that(1) [of msg m1]) (simp add: start_attempt_def Let_def)
  next
    case (Inr e)
    then show thesis using Pair
      by (intro that(2) [of e "if co_remote (lc_options c) = None then servers m ChatRole else None"]) (simp add: start_attempt_def Let_def)
  qed
qed

lemma send_ok: "\<not> over c \<Longrightarrow> chat_ok c \<Longrightarrow> length (lc_requests c) \<le> lc_restarts c \<Longrightarrow> chat_ok (send_request e server now c)"
proof -
  have "\<not> over (send_request e server now c)" by (simp add: send_request_def over_def)
  then show "\<not> over c \<Longrightarrow> chat_ok c \<Longrightarrow> length (lc_requests c) \<le> lc_restarts c \<Longrightarrow> chat_ok (send_request e server now c)"
    by (simp add: running_ok) (simp add: send_request_def)
qed

lemma start_attempt_ok:
  "\<not> over c \<Longrightarrow> chat_ok c \<Longrightarrow> length (lc_requests c) \<le> lc_restarts c \<Longrightarrow> chat_ok (fst (start_attempt now c m))"
  by (cases rule: start_attempt_cases [of now c m]) (auto simp: interrupted_ok send_ok)

text \<open>A change of the phase alone, of the watchdog or of the wish to stop.\<close>

lemma phase_ok: "chat_ok c \<Longrightarrow> \<not> over c \<Longrightarrow> (\<And>e. p \<noteq> ChatOver e) \<Longrightarrow> (\<And>t. p \<noteq> AwaitRestart t) \<Longrightarrow> chat_ok (c\<lparr>lc_phase := p\<rparr>)"
proof -
  assume c: "chat_ok c" "\<not> over c" and p: "\<And>e. p \<noteq> ChatOver e" "\<And>t. p \<noteq> AwaitRestart t"
  have "\<not> over (c\<lparr>lc_phase := p\<rparr>)" using p by (simp add: over_def)
  with c p show ?thesis by (simp add: running_ok)
qed

lemma flags_ok [simp]:
  "chat_ok (c\<lparr>lc_aborted := a\<rparr>) = chat_ok c" "chat_ok (c\<lparr>lc_stalled := st\<rparr>) = chat_ok c" "chat_ok (c\<lparr>lc_armed := w\<rparr>) = chat_ok c"
  "over (c\<lparr>lc_aborted := a\<rparr>) = over c" "over (c\<lparr>lc_stalled := st\<rparr>) = over c" "over (c\<lparr>lc_armed := w\<rparr>) = over c"
  by (simp_all add: chat_ok_def over_def)

lemma stream_failed_ok: "\<not> over c \<Longrightarrow> chat_ok c \<Longrightarrow> chat_ok (fst (stream_failed msg now c m))"
  by (auto simp: stream_failed_def complete_ok fail_ok interrupted_ok phase_ok split: option.split)

lemma on_response_ok: "chat_ok c \<Longrightarrow> chat_ok (fst (on_response to_number num status has_body retry_after body now c m))"
  by (auto simp: on_response_def over_def stream_failed_ok phase_ok)

lemma on_stream_data_ok: "chat_ok c \<Longrightarrow> chat_ok (fst (on_stream_data json data now c m))"
proof -
  assume c: "chat_ok c"
  show ?thesis
  proof (cases "lc_phase c = AwaitData")
    case True
    then have "\<not> over c" by (simp add: over_def)
    from reads_ok [OF reads_data this c] have "chat_ok (read_data json data c)" "\<not> over (read_data json data c)" by blast+
    with True show ?thesis by (auto simp: on_stream_data_def Let_def stream_failed_ok split: option.split)
  qed (simp add: on_stream_data_def c)
qed

lemma on_stream_end_ok: "chat_ok c \<Longrightarrow> chat_ok (fst (on_stream_end now c m))"
proof -
  assume c: "chat_ok c"
  show ?thesis
  proof (cases "lc_phase c = AwaitData")
    case True
    then have "\<not> over c" by (simp add: over_def)
    from reads_ok [OF reads_flush this c] have "chat_ok (flush_held c)" "\<not> over (flush_held c)" by blast+
    with True show ?thesis
      by (auto simp: on_stream_end_def Let_def complete_ok interrupted_ok phase_ok split: option.split)
  qed (simp add: on_stream_end_def c)
qed

lemma on_death_ok: "chat_ok c \<Longrightarrow> chat_ok (fst (on_death ansi now c m))"
  by (auto simp: on_death_def over_def fail_ok complete_ok interrupted_ok split: chat_phase.split option.split)

lemma on_restarted_ok: "chat_ok c \<Longrightarrow> chat_ok (fst (on_restarted now c m))"
proof -
  assume c: "chat_ok c"
  show ?thesis
  proof (cases "\<exists>t. lc_phase c = AwaitRestart t")
    case True
    then obtain t where t: "lc_phase c = AwaitRestart t" by blast
    then have "\<not> over c" "length (lc_requests c) \<le> lc_restarts c" using c by (auto simp: over_def chat_ok_def)
    then show ?thesis using c t
      by (auto simp: on_restarted_def fail_ok complete_ok start_attempt_ok split: option.split start_phase.split sum.split)
  next
    case False
    then show ?thesis using c by (simp add: on_restarted_def split: chat_phase.split)
  qed
qed

lemma chat_step_ok: "chat_step ansi s s' \<Longrightarrow> chat_ok (fst s) \<Longrightarrow> chat_ok (fst s')"
  by (induction rule: chat_step.induct)
    (auto simp: on_response_ok on_stream_data_ok on_stream_end_ok on_death_ok on_restarted_ok on_stream_error_def requesting_def
      over_def stream_failed_ok on_watchdog_def cancelChat_def split: chat_phase.split)

lemma new_chat_ok: "chat_ok (new_chat msgs opts)" "\<not> over (new_chat msgs opts)" "lc_requests (new_chat msgs opts) = []"
  by (simp_all add: new_chat_def Let_def chat_ok_def settled_by_def chunk_text_def over_def)

lemma start_chat_ok: "chat_ok (fst (start_chat msgs opts now m))"
  unfolding start_chat_def by (rule start_attempt_ok) (simp_all add: new_chat_ok)

interpretation chat: step_invariant "chat_step ansi" "start_chat msgs opts now m" "\<lambda>s. chat_ok (fst s)"
  for ansi msgs opts now m
  by unfold_locales (rule start_chat_ok, rule chat_step_ok)


text \<open>
  Property C11: one uninterrupted answer. At every moment of a call of \<open>chat\<close>, whatever the network and the
  servers do, the text that was shown, after the text the answer began with, is the answer so far,
  across all restarts; the call sends at most three requests; and no chunk ends it before it is over,
  when exactly the last one does, with the error the call ends with.
\<close>

theorem shown_text_is_the_answer:
  assumes "(chat_step ansi)\<^sup>*\<^sup>* (start_chat msgs opts now m0) (c, m)"
  shows "lc_prefill c @ chunk_text (lc_chunks c) = lc_answer c \<and> settled_by (lc_phase c) (lc_chunks c) \<and> length (lc_requests c) \<le> 3"
  using chat.reached_inv [OF assms] by (simp add: chat_ok_def MAX_RESTARTS_PER_ANSWER_def)

section \<open>Every call comes to an end\<close>

fun phase_rank :: "chat_phase \<Rightarrow> nat" where
  "phase_rank (AwaitRestart t) = 4"
| "phase_rank AwaitResponse = 3"
| "phase_rank AwaitData = 2"
| "phase_rank (AwaitDeath e) = 1"
| "phase_rank (ChatOver e) = 0"

definition chat_rank :: "llama_chat \<Rightarrow> nat" where
  "chat_rank c = (if over c then 0 else (MAX_RESTARTS_PER_ANSWER - lc_restarts c) * 5 + phase_rank (lc_phase c))"

lemma rank_0: "chat_rank c = 0 \<longleftrightarrow> over c"
  by (cases "lc_phase c") (auto simp: chat_rank_def over_def)

lemma rank_over: "over c' \<Longrightarrow> \<not> over c \<Longrightarrow> chat_rank c' < chat_rank c"
  using rank_0 by (metis gr0I)

lemma rank_phase:
  "\<not> over c \<Longrightarrow> lc_restarts c' = lc_restarts c \<Longrightarrow> phase_rank (lc_phase c') < phase_rank (lc_phase c) \<Longrightarrow> chat_rank c' < chat_rank c"
  by (simp add: chat_rank_def)

lemma rank_restart: "\<not> over c \<Longrightarrow> lc_restarts c < MAX_RESTARTS_PER_ANSWER \<Longrightarrow> chat_rank (fst (restart_chat p c m)) < chat_rank c"
  by (simp add: chat_rank_def over_def restart_chat_def case_prod_beta Let_def fire_chunk_def MAX_RESTARTS_PER_ANSWER_def)

lemma over_end [simp]: "over (complete_chat c)" "over (fail_chat msg c)"
  by (simp_all add: over_def complete_chat_def fail_chat_def)

lemma rank_interrupted: "\<not> over c \<Longrightarrow> chat_rank (fst (on_interrupted reason now c m)) < chat_rank c"
  by (cases rule: interrupted_cases [of reason now c m]) (auto simp: rank_over rank_restart)

lemma rank_attempt: "lc_phase c = AwaitRestart t \<Longrightarrow> chat_rank (fst (start_attempt now c m)) < chat_rank c"
proof -
  assume p: "lc_phase c = AwaitRestart t"
  then have c: "\<not> over c" by (simp add: over_def)
  show ?thesis
  proof (cases rule: start_attempt_cases [of now c m])
    case (2 e server)
    then show ?thesis using c p by (intro rank_phase) (simp_all add: send_request_def)
  qed (simp add: rank_interrupted c)
qed

lemma rank_failed: "requesting c \<Longrightarrow> chat_rank (fst (stream_failed msg now c m)) < chat_rank c"
proof -
  assume r: "requesting c"
  then have c: "\<not> over c" by (auto simp: requesting_def over_def)
  have "chat_rank (c\<lparr>lc_phase := AwaitDeath (Some msg)\<rparr>) < chat_rank c" using r c by (intro rank_phase) (auto simp: requesting_def)
  then show ?thesis using c by (auto simp: stream_failed_def rank_over rank_interrupted split: option.split)
qed

lemma rank_death: "lc_phase c = AwaitDeath e \<Longrightarrow> chat_rank (fst (on_death ansi now c m)) < chat_rank c"
proof -
  assume p: "lc_phase c = AwaitDeath e"
  then have "\<not> over c" by (simp add: over_def)
  then show ?thesis using p by (auto simp: on_death_def rank_over rank_interrupted split: option.split)
qed

lemma rank_restarted:
  "lc_phase c = AwaitRestart t \<Longrightarrow> map_option tk_phase (tasks m t) = Some (Over res) \<Longrightarrow>
   chat_rank (fst (on_restarted now c m)) < chat_rank c"
proof -
  assume p: "lc_phase c = AwaitRestart t" "map_option tk_phase (tasks m t) = Some (Over res)"
  then have "\<not> over c" by (simp add: over_def)
  then show ?thesis using p by (cases res) (auto simp: on_restarted_def rank_over rank_attempt)
qed

lemma restarted_idle:
  "\<not> (\<exists>t res. lc_phase c = AwaitRestart t \<and> map_option tk_phase (tasks m t) = Some (Over res)) \<Longrightarrow> on_restarted now c m = (c, m)"
  by (auto simp: on_restarted_def split: chat_phase.split option.split start_phase.split)

lemma same_rank: "lc_phase c' = lc_phase c \<Longrightarrow> lc_restarts c' = lc_restarts c \<Longrightarrow> chat_rank c' = chat_rank c"
  by (simp add: chat_rank_def over_def)

lemma reads_frame: "reads c c' \<Longrightarrow> lc_phase c' = lc_phase c \<and> lc_restarts c' = lc_restarts c"
  by (simp add: reads_def frame_def)

lemma rank_response: "chat_rank (fst (on_response to_number num status has_body retry_after body now c m)) \<le> chat_rank c"
proof (cases "lc_phase c = AwaitResponse")
  case True
  then have "requesting c" "\<not> over c" by (simp_all add: requesting_def over_def)
  then have "chat_rank (fst (stream_failed msg now c m)) \<le> chat_rank c" "chat_rank (c\<lparr>lc_phase := AwaitData\<rparr>) \<le> chat_rank c" for msg
    using rank_failed [of c msg now m] rank_phase [of c "c\<lparr>lc_phase := AwaitData\<rparr>"] True by simp_all
  then show ?thesis by (simp add: on_response_def)
qed (simp add: on_response_def)

lemma rank_data: "chat_rank (fst (on_stream_data json data now c m)) \<le> chat_rank c"
proof (cases "lc_phase c = AwaitData")
  case True
  define c2 where "c2 = (if lc_events (read_data json data c) > lc_events c
    then (read_data json data c)\<lparr>lc_armed := (TOKEN_GAP_TIMEOUT_MS, now)\<rparr> else read_data json data c)"
  have 2: "lc_phase c2 = lc_phase c" "lc_restarts c2 = lc_restarts c"
    using reads_frame [OF reads_data [of c json data]] by (simp_all add: c2_def)
  then have "chat_rank (fst (stream_failed msg now c2 m1)) \<le> chat_rank c" for msg m1
    using rank_failed [of c2 msg now m1] same_rank [OF 2] True by (simp add: requesting_def)
  moreover obtain m1 where "on_stream_data json data now c m =
      (case lc_threw c2 of Some msg \<Rightarrow> stream_failed msg now c2 m1 | None \<Rightarrow> (c2, m1))"
    using True unfolding on_stream_data_def c2_def Let_def by simp
  ultimately show ?thesis using same_rank [OF 2] by (simp split: option.split)
qed (simp add: on_stream_data_def)

lemma rank_end: "chat_rank (fst (on_stream_end now c m)) \<le> chat_rank c"
proof (cases "lc_phase c = AwaitData")
  case True
  let ?c = "flush_held c"
  have 2: "lc_phase ?c = AwaitData" "lc_restarts ?c = lc_restarts c" using reads_frame [OF reads_flush [of c]] True by simp_all
  then have o: "\<not> over ?c" "chat_rank ?c = chat_rank c" using same_rank [of ?c c] True by (simp_all add: over_def)
  have "chat_rank (?c\<lparr>lc_phase := AwaitDeath None\<rparr>) < chat_rank ?c" by (rule rank_phase) (use 2 o in simp_all)
  moreover have "chat_rank (fst (on_interrupted reason now ?c m)) < chat_rank ?c" for reason by (rule rank_interrupted [OF o(1)])
  moreover have "chat_rank (complete_chat ?c) < chat_rank ?c" by (rule rank_over) (simp_all add: o)
  ultimately show ?thesis using True o by (auto simp: on_stream_end_def Let_def less_imp_le split: option.split)
qed (simp add: on_stream_end_def)

lemma rank_step: "chat_step ansi s s' \<Longrightarrow> chat_rank (fst s') \<le> chat_rank (fst s)"
proof (induction rule: chat_step.induct)
  case (c_error c m msg now)
  then show ?case using less_imp_le [OF rank_failed [of c msg now m]] by (simp add: on_stream_error_def)
next
  case (c_watchdog c m now)
  then show ?case by (simp add: on_watchdog_def chat_rank_def)
next
  case (c_death c m now)
  then show ?case using rank_death [of c _ ansi now m] by (auto simp: on_death_def less_imp_le split: chat_phase.split)
next
  case (c_restarted c m now)
  then show ?case using rank_restarted [of c _ m _ now] restarted_idle [of c m now]
    by (cases "\<exists>t res. lc_phase c = AwaitRestart t \<and> map_option tk_phase (tasks m t) = Some (Over res)") (auto simp: less_imp_le)
next
  case (c_cancel c m)
  then show ?case by (simp add: cancelChat_def chat_rank_def split: chat_phase.split)
qed (simp_all add: rank_response rank_data rank_end)

lemma start_rank: "chat_rank (fst (start_chat msgs opts now m)) \<le> 13"
proof (cases rule: start_attempt_cases [of now "new_chat msgs opts" m])
  case (1 reason m1)
  have "chat_rank (new_chat msgs opts) = 13" by (simp add: chat_rank_def new_chat_def over_def Let_def MAX_RESTARTS_PER_ANSWER_def)
  then show ?thesis using 1 rank_interrupted [OF new_chat_ok(2), of reason now msgs opts m1] by (simp add: start_chat_def)
next
  case (2 e server)
  then show ?thesis
    by (simp add: start_chat_def chat_rank_def send_request_def new_chat_def Let_def Let_def over_def MAX_RESTARTS_PER_ANSWER_def)
qed

interpretation chat_end: step_invariant "chat_step ansi" "start_chat msgs opts now m" "\<lambda>s. chat_rank (fst s) \<le> 13"
  for ansi msgs opts now m
  by unfold_locales (rule start_rank, use rank_step le_trans in blast)


section \<open>The wait a server asks for\<close>

lemma digits_without_letters: "list_all is_digit s \<Longrightarrow> js_lower s = s \<and> CHR ''y'' \<notin> set s"
  by (induction s) (auto simp: js_lower_def js_lower_char_def is_digit_def Let_def)

lemma http_prefix_has_no_wait:
  "\<not> sublist ''retry after '' (js_lower (''The model server returned HTTP '' @ show_nat status @ '' ('' @ ''retry after''))"
proof
  let ?x = "js_lower ''The model server returned HTTP '' @ show_nat status @ '' (retr''"
  have d: "js_lower (show_nat status) = show_nat status" "CHR ''y'' \<notin> set (show_nat status)"
    using digits_without_letters [OF show_nat_digits] by blast+
  have l: "js_lower (a @ b) = js_lower a @ js_lower b" for a b by (simp add: js_lower_def)
  have "CHR ''y'' \<notin> set (js_lower ''The model server returned HTTP '')" by code_simp
  then have y: "CHR ''y'' \<notin> set ?x" using d by simp
  assume "sublist ''retry after '' (js_lower (''The model server returned HTTP '' @ show_nat status @ '' ('' @ ''retry after''))"
  then obtain a b where "js_lower (''The model server returned HTTP '' @ show_nat status @ '' ('' @ ''retry after'') = a @ ''retry after '' @ b"
    by (auto simp: sublist_def)
  moreover have "js_lower '' ('' = '' (''" "js_lower ''retry after'' = ''retry after''" by code_simp+
  ultimately have e: "?x @ CHR ''y'' # '' after'' = (a @ ''retr'') @ CHR ''y'' # ('' after '' @ b)"
    by (simp only: l d) simp
  have "CHR ''y'' \<notin> set '' after''" by simp
  with append_Cons_eq_iff [OF y] e have "'' after'' = '' after '' @ b" by blast
  then show False by simp
qed

text \<open>
  Property C14: the wait a server asks for reaches the failover. When a server answers a request with an
  error and \<open>retry-after: n\<close>, the call ends with an error that the failover reads as a wait of exactly
  \<open>n\<close> seconds, whatever the status and the text of the error are.
\<close>

theorem asked_wait_reaches_failover:
  assumes "lc_phase c = AwaitResponse" "lc_server c = None" "\<not> lc_aborted c" "lc_stalled c = None"
    and "\<not> (200 \<le> status \<and> status \<le> 299)" "0 < n"
    and "to_number (show_nat n) = Some (real n)" "num (real n) = show_nat n"
  shows "\<exists>msg. lc_phase (fst (on_response to_number num status has_body (Some (show_nat n)) body now c m)) = ChatOver (Some msg) \<and>
    retryAfterMs (classifyProviderError msg) = Some (1000 * int n)"
proof -
  let ?msg = "http_error to_number num status (Some (show_nat n)) body"
  have msg: "?msg = (''The model server returned HTTP '' @ show_nat status @ '' ('') @ ''retry after '' @ show_nat n @ ''s'' @ ''): '' @ body"
    using assms(6-8) by (simp add: http_error_def)
  have "lc_phase (fst (on_response to_number num status has_body (Some (show_nat n)) body now c m)) = ChatOver (Some ?msg)"
    using assms(1-5) by (auto simp: on_response_def stream_failed_def fail_chat_def http_error_def)
  moreover have "retryAfterMs (classifyProviderError ?msg) = Some (1000 * int n)"
    unfolding msg
  proof (rule retry_after_roundtrip)
    have "\<not> is_word (CHR '')'')" by code_simp
    then show "\<not> word_at (''): '' @ body)" by (simp add: word_at_def)
  qed (use http_prefix_has_no_wait [of status] in simp)
  ultimately show ?thesis by blast
qed


lemma demo_chat: "fst (start_chat [(UserRole, ''Hi'')] (demo_chat_options (Some demo_remote)) now m) =
   send_request \<lparr>ep_baseUrl = remoteBaseUrl ''https://api.example/v1'', ep_apiKey = Some ''k'', ep_model = Some ''m''\<rparr> None now
     (new_chat [(UserRole, ''Hi'')] (demo_chat_options (Some demo_remote)))"
  by (simp add: start_chat_def start_attempt_def demo_chat_options_def demo_remote_def new_chat_def Let_def chat_endpoint_of_def)

lemma asked_wait_reaches_failover_witness:
  "\<exists>msg. lc_phase (fst (on_response (\<lambda>h. if h = show_nat 30 then Some 30 else None) (\<lambda>x. show_nat 30) 429 True (Some (show_nat 30)) ''slow down'' 5
      (fst (start_chat [(UserRole, ''Hi'')] (demo_chat_options (Some demo_remote)) 0 llama_init)) llama_init)) = ChatOver (Some msg) \<and>
    retryAfterMs (classifyProviderError msg) = Some 30000"
proof -
  let ?c = "fst (start_chat [(UserRole, ''Hi'')] (demo_chat_options (Some demo_remote)) 0 llama_init)"
  have "lc_phase ?c = AwaitResponse" "lc_server ?c = None" "\<not> lc_aborted ?c" "lc_stalled ?c = None"
    unfolding demo_chat by (simp_all add: send_request_def new_chat_def Let_def)
  from asked_wait_reaches_failover [OF this, of 429 30 "\<lambda>h. if h = show_nat 30 then Some 30 else None" "\<lambda>x. show_nat 30" True "''slow down''" 5 llama_init]
  show ?thesis by simp
qed

section \<open>A remote server that hangs takes the local model down\<close>

text \<open>
  The watchdog of a remote request ends in \<open>onStalled\<close> too, which kills the server of the local chat model
  and counts a crash of it.
\<close>

lemma remote_stall_kills_the_local_model:
  assumes "co_remote (lc_options c) = Some p" "\<not> lc_aborted c" "lc_stalled c = Some ms"
  shows "servers (snd (stream_failed msg now c m)) ChatRole = None \<and>
    chatCrashes (snd (stream_failed msg now c m)) = chatCrashes m @ [now]"
proof -
  have "snd (stream_failed msg now c m) = onStalled now m" using assms by (simp add: stream_failed_def on_interrupted_def)
  then show ?thesis
    by (simp add: onStalled_def kill_server_def setState_def upd_server_def Let_def split: option.split)
qed

text \<open>What a remote server says about an error inside its stream is reported as a lost connection.\<close>

lemma remote_error_is_a_lost_connection:
  assumes "lc_phase c = AwaitData" "co_remote (lc_options c) = Some p" "lc_server c = None" "\<not> lc_aborted c" "lc_stalled c = None"
    and "lc_threw (read_data json data c) = Some msg" "\<not> prefix ''The model server'' msg"
  shows "lc_phase (fst (on_stream_data json data now c m)) =
    ChatOver (Some (''Lost the connection to the remote server ('' @ remoteBaseUrl (remote_url p) @ ''): '' @ msg))"
proof -
  have "frame (read_data json data c) = frame c" using reads_data by (simp add: reads_def)
  then show ?thesis using assms
    by (simp add: frame_def on_stream_data_def Let_def stream_failed_def on_interrupted_def fail_chat_def)
qed


section \<open>A demo\<close>

definition demo_asked :: "llama_chat \<times> llama_main" where
  "demo_asked = start_chat [(UserRole, ''Hi''), (AssistantRole, ''Hel'')] (demo_chat_options (Some demo_remote)) 0 llama_init"

lemma demo_asked_eq: "demo_asked =
   (send_request \<lparr>ep_baseUrl = remoteBaseUrl ''https://api.example/v1'', ep_apiKey = Some ''k'', ep_model = Some ''m''\<rparr> None 0
     (new_chat [(UserRole, ''Hi''), (AssistantRole, ''Hel'')] (demo_chat_options (Some demo_remote))), llama_init)"
  by (simp add: demo_asked_def start_chat_def start_attempt_def demo_chat_options_def demo_remote_def new_chat_def Let_def chat_endpoint_of_def)

definition demo_done :: "llama_chat \<times> llama_main" where
  "demo_done = (let (c1, m1) = on_response (\<lambda>_. None) (\<lambda>_. []) 200 True None [] 1 (fst demo_asked) (snd demo_asked)
    in on_stream_error ''aborted'' 3 (cancelChat c1) m1)"

lemma demo_done_steps: "(chat_step id)\<^sup>*\<^sup>* demo_asked demo_done"
proof -
  obtain c m where a: "demo_asked = (c, m)" by fastforce
  obtain c1 m1 where r: "on_response (\<lambda>_. None) (\<lambda>_. []) 200 True None [] 1 c m = (c1, m1)" by fastforce
  have "chat_step id (c, m) (c1, m1)" using c_response [of id c m "\<lambda>_. None" "\<lambda>_. []"] r by metis
  moreover have "chat_step id (c1, m1) (cancelChat c1, m1)" by (rule c_cancel)
  moreover have "chat_step id (cancelChat c1, m1) (on_stream_error ''aborted'' 3 (cancelChat c1) m1)" by (rule c_error)
  ultimately show ?thesis unfolding demo_done_def by (simp add: a r)
qed

lemma demo_done_over: "lc_phase (fst demo_done) = ChatOver None" "lc_answer (fst demo_done) = ''Hel''" "lc_prefill (fst demo_done) = ''Hel''"
  by (simp_all add: demo_done_def demo_asked_eq on_response_def send_request_def new_chat_def Let_def cancelChat_def on_stream_error_def
      requesting_def stream_failed_def complete_chat_def fire_chunk_def)

lemma shown_text_is_the_answer_witness:
  "\<exists>c m. (chat_step id)\<^sup>*\<^sup>* demo_asked (c, m) \<and> lc_phase c = ChatOver None \<and> chunk_text (lc_chunks c) = [] \<and>
     settled_by (ChatOver None) (lc_chunks c) \<and> length (lc_requests c) \<le> 3"
proof -
  obtain c m where d: "demo_done = (c, m)" by fastforce
  have "(chat_step id)\<^sup>*\<^sup>* demo_asked (c, m)" using demo_done_steps d by simp
  with shown_text_is_the_answer [OF this [unfolded demo_asked_def]] demo_done_over d show ?thesis by (metis append_self_conv fst_conv)
qed


end
