(* ===== verification/Llama_Serial.thy ===== *)
theory Llama_Serial
  imports Llama_Steps
begin

text \<open>
  When no two starts of a role overlap, no process of a local model is left behind. When they do, one
  is: \<open>overlapping_starts_leave_a_process\<close> is a finding, and \<open>late_health_is_reported\<close> another.
\<close>

section \<open>Starts that do not overlap\<close>

definition unfinished :: "start_task \<Rightarrow> bool" where
  "unfinished k \<longleftrightarrow> (\<forall>res. tk_phase k \<noteq> Over res)"

text \<open>Steps in which a call begins a start only when no start of its role is under way.\<close>

inductive serial_step :: "(string \<Rightarrow> string) \<Rightarrow> llama_main \<Rightarrow> llama_main \<Rightarrow> bool" for ansi where
  begins: "(\<forall>t k. tasks m t = Some k \<and> tk_role k = r \<longrightarrow> \<not> unfinished k) \<Longrightarrow> serial_step ansi m (snd (startServer r p m))"
| goes_on: "llama_step ansi m m' \<Longrightarrow> next_task m' = next_task m \<Longrightarrow> serial_step ansi m m'"

fun phase_ok :: "nat option \<Rightarrow> start_phase \<Rightarrow> bool" where
  "phase_ok cur AwaitFile \<longleftrightarrow> cur = None"
| "phase_ok cur AwaitEngine \<longleftrightarrow> cur = None"
| "phase_ok cur AwaitPort \<longleftrightarrow> cur = None"
| "phase_ok cur AwaitOthers \<longleftrightarrow> cur = None"
| "phase_ok cur (AwaitReady i) \<longleftrightarrow> cur = None \<or> cur = Some i"
| "phase_ok cur _ \<longleftrightarrow> True"

definition tasks_ok :: "llama_main \<Rightarrow> bool" where
  "tasks_ok m \<longleftrightarrow>
     (\<forall>t k. tasks m t = Some k \<longrightarrow> t < next_task m \<and> phase_ok (servers m (tk_role k)) (tk_phase k)) \<and>
     (\<forall>t t' k k'. tasks m t = Some k \<and> tasks m t' = Some k' \<and> unfinished k \<and> unfinished k' \<and> tk_role k = tk_role k' \<longrightarrow> t = t')"

definition life_ok :: "llama_main \<Rightarrow> bool" where
  "life_ok m \<longleftrightarrow> current_ok m \<and>
     (\<forall>i v. store m i = Some v \<and> ls_exited v = None \<and> \<not> ls_killed v \<longrightarrow> servers m (st_role (ls_state v)) = Some i) \<and>
     (\<forall>i v msg l. store m i = Some v \<and> ls_ready v = Some (Inl (LlamaStartError msg l)) \<longrightarrow> ls_exited v \<noteq> None)"

definition serial_ok :: "llama_main \<Rightarrow> bool" where
  "serial_ok m \<longleftrightarrow> life_ok m \<and> tasks_ok m"

lemma phase_ok_None [simp]: "phase_ok None ph"
  by (cases ph) simp_all

lemma phase_ok_shrinks: "phase_ok cur ph \<Longrightarrow> cur' = cur \<or> cur' = None \<Longrightarrow> phase_ok cur' ph"
  by auto

text \<open>Nothing here depends on the other fields.\<close>

lemma other_fields:
  "life_ok (m\<lparr>lastChatOptions := a\<rparr>) = life_ok m" "tasks_ok (m\<lparr>lastChatOptions := a\<rparr>) = tasks_ok m"
  "life_ok (m\<lparr>modelEngines := b\<rparr>) = life_ok m" "tasks_ok (m\<lparr>modelEngines := b\<rparr>) = tasks_ok m"
  "life_ok (m\<lparr>chatCrashes := c\<rparr>) = life_ok m" "tasks_ok (m\<lparr>chatCrashes := c\<rparr>) = tasks_ok m"
  by (simp_all add: life_ok_def current_ok_def tasks_ok_def)

lemma life_task [simp]: "life_ok (upd_task t g m) = life_ok m"
  by (simp add: life_ok_def current_ok_def)

lemma next_task_fields [simp]:
  "next_task (upd_server i f m) = next_task m" "next_task (upd_task t g m) = next_task m" "next_task (setState i st m) = next_task m"
  "next_task (kill_server r m) = next_task m" "tasks (kill_server r m) = tasks m"
  by (simp_all add: upd_server_def upd_task_def setState_def kill_server_def split: option.split)

lemma tasks_upd [simp]: "tasks (upd_task t g m) = (tasks m)(t := map_option g (tasks m t))"
  by (simp add: upd_task_def)

lemma tasks_shrink:
  assumes "tasks_ok m" "tasks m' = tasks m" "next_task m' = next_task m" "\<forall>r. servers m' r = servers m r \<or> servers m' r = None"
  shows "tasks_ok m'"
  using assms unfolding tasks_ok_def by (metis phase_ok_shrinks)

lemma task_moves:
  assumes "serial_ok m" "\<And>k. tasks m t = Some k \<Longrightarrow>
      tk_role (g k) = tk_role k \<and> phase_ok (servers m (tk_role k)) (tk_phase (g k)) \<and> (unfinished (g k) \<longrightarrow> unfinished k)"
  shows "serial_ok (upd_task t g m)"
proof -
  have t: "tasks_ok m" using assms(1) by (simp add: serial_ok_def)
  have "tasks_ok (upd_task t g m)" unfolding tasks_ok_def
  proof (intro conjI allI impI)
    fix u k assume k: "tasks (upd_task t g m) u = Some k"
    then show "u < next_task (upd_task t g m)" using t by (auto simp: tasks_ok_def split: if_splits)
    from k show "phase_ok (servers (upd_task t g m) (tk_role k)) (tk_phase k)"
      using t assms(2) by (auto simp: tasks_ok_def split: if_splits)
  next
    fix u u' k k'
    assume a: "tasks (upd_task t g m) u = Some k \<and> tasks (upd_task t g m) u' = Some k' \<and> unfinished k \<and> unfinished k' \<and> tk_role k = tk_role k'"
    have "\<exists>l. tasks m v = Some l \<and> unfinished l \<and> tk_role l = tk_role q" if "tasks (upd_task t g m) v = Some q" "unfinished q" for v q
      using that assms(2) by (auto split: if_splits)
    with a obtain l l' where "tasks m u = Some l" "unfinished l" "tk_role l = tk_role k" "tasks m u' = Some l'" "unfinished l'" "tk_role l' = tk_role k'"
      by metis
    then show "u = u'" using t a unfolding tasks_ok_def by metis
  qed
  then show ?thesis using assms(1) by (simp add: serial_ok_def)
qed

lemma serial_settle: "serial_ok m \<Longrightarrow> serial_ok (settle_start t res m)"
proof -
  assume s: "serial_ok m"
  then have "serial_ok (set_phase (Over res) t m)"
    unfolding set_phase_def by (rule task_moves) (simp add: unfinished_def)
  then show ?thesis
    by (auto simp: settle_start_def Let_def serial_ok_def life_ok_def current_ok_def tasks_ok_def split: option.split)
qed

lemma kill_servers: "servers (kill_server r m) = (servers m)(r := None)"
  by (auto simp: kill_server_def split: option.split)

lemma life_kill:
  assumes l: "life_ok m"
  shows "life_ok (kill_server r m)"
proof (cases "servers m r")
  case (Some i)
  have c: "current_ok m" using l by (simp add: life_ok_def)
  obtain v where v: "store m i = Some v" "st_role (ls_state v) = r" "ls_exited v = None" using current_okD [OF c Some] by blast
  let ?m = "kill_server r m"
  have st: "store ?m = (store m)(i \<mapsto> v\<lparr>ls_purpose := True, ls_killed := True, ls_state := plain_state r Stopped\<rparr>)"
    using Some v by (auto simp: kill_server_def)
  have "servers ?m (st_role (ls_state w)) = Some j" if w: "store ?m j = Some w" "ls_exited w = None" "\<not> ls_killed w" for j w
  proof -
    have "j \<noteq> i" using w st by auto
    then have "servers m (st_role (ls_state w)) = Some j" using w st l by (simp add: life_ok_def)
    then show ?thesis using \<open>j \<noteq> i\<close> Some by (auto simp: kill_servers)
  qed
  moreover have "ls_exited w \<noteq> None" if "store ?m j = Some w" "ls_ready w = Some (Inl (LlamaStartError msg l'))" for j w msg l'
  proof (cases "j = i")
    case True
    then have "ls_ready v = Some (Inl (LlamaStartError msg l'))" using that st by auto
    then have "ls_exited v \<noteq> None" using l v(1) unfolding life_ok_def by blast
    then show ?thesis using v(3) by simp
  next
    case False
    then have "store m j = Some w" using that(1) st by simp
    then show ?thesis using that(2) l unfolding life_ok_def by blast
  qed
  ultimately show ?thesis using kill_current [OF c] unfolding life_ok_def by blast
qed (simp add: kill_server_def l)

lemma serial_kill: "serial_ok m \<Longrightarrow> serial_ok (kill_server r m)"
proof -
  assume s: "serial_ok m"
  then have "tasks_ok m" by (simp add: serial_ok_def)
  then have "tasks_ok (kill_server r m)" by (rule tasks_shrink) (simp_all add: kill_servers)
  then show ?thesis using s life_kill by (simp add: serial_ok_def)
qed

lemma serial_spawn:
  assumes "serial_ok m" "tasks m t = Some k" "unfinished k" "servers m (tk_role k) = None" "tk_role k' = tk_role k"
  shows "serial_ok (spawn_server t k' prt key now m)"
proof -
  have l: "life_ok m" and t: "tasks_ok m" using assms(1) by (simp_all add: serial_ok_def)
  let ?m = "spawn_server t k' prt key now m"
  have new: "store m (spawned m) = None" using l unfolding life_ok_def current_ok_def by (meson less_irrefl)
  have st: "store ?m = (store m)(spawned m \<mapsto> new_server k' prt key now)"
    by (auto simp: spawn_server_def Let_def)
  have sv: "servers ?m = (servers m)(tk_role k := Some (spawned m))"
    by (simp add: spawn_server_def Let_def assms(5))
  have "current_ok ?m" using l spawn_current by (simp add: life_ok_def)
  moreover have "servers ?m (st_role (ls_state v)) = Some i"
    if v: "store ?m i = Some v" "ls_exited v = None" "\<not> ls_killed v" for i v
  proof (cases "i = spawned m")
    case True
    then have "v = new_server k' prt key now" using v st by simp
    then have "st_role (ls_state v) = tk_role k" by (simp add: new_server_def plain_state_def assms(5))
    then show ?thesis using True sv by simp
  next
    case False
    then have "servers m (st_role (ls_state v)) = Some i" using v st l by (simp add: life_ok_def)
    then show ?thesis using sv assms(4) by auto
  qed
  moreover have "ls_exited v \<noteq> None" if "store ?m i = Some v" "ls_ready v = Some (Inl (LlamaStartError msg l'))" for i v msg l'
    using that st l by (auto simp: life_ok_def new_server_def split: if_splits)
  ultimately have "life_ok ?m" unfolding life_ok_def by blast
  moreover have "tasks_ok ?m" unfolding tasks_ok_def
  proof (intro conjI allI impI)
    have ts: "tasks ?m = (tasks m)(t := map_option (\<lambda>k. k\<lparr>tk_phase := AwaitReady (spawned m)\<rparr>) (tasks m t))" "next_task ?m = next_task m"
      by (simp_all add: spawn_server_def Let_def set_phase_def)
    fix u q assume q: "tasks ?m u = Some q"
    then show "u < next_task ?m" using t ts by (auto simp: tasks_ok_def split: if_splits)
    show "phase_ok (servers ?m (tk_role q)) (tk_phase q)"
    proof (cases "u = t")
      case True
      then show ?thesis using q ts sv assms(2) by auto
    next
      case False
      then have m: "tasks m u = Some q" using q ts by simp
      then have p: "phase_ok (servers m (tk_role q)) (tk_phase q)" using t by (simp add: tasks_ok_def)
      show ?thesis
      proof (cases "tk_role q = tk_role k")
        case True
        then have "\<not> unfinished q" using t m assms(2,3) False unfolding tasks_ok_def by metis
        then show ?thesis by (auto simp: unfinished_def)
      qed (use p sv in simp)
    qed
  next
    have ts: "tasks ?m = (tasks m)(t := map_option (\<lambda>k. k\<lparr>tk_phase := AwaitReady (spawned m)\<rparr>) (tasks m t))"
      by (simp add: spawn_server_def Let_def set_phase_def)
    fix u u' q q'
    assume a: "tasks ?m u = Some q \<and> tasks ?m u' = Some q' \<and> unfinished q \<and> unfinished q' \<and> tk_role q = tk_role q'"
    have "\<exists>l. tasks m v = Some l \<and> unfinished l \<and> tk_role l = tk_role p" if "tasks ?m v = Some p" "unfinished p" for v p
      using that ts assms(2,3) by (auto split: if_splits)
    with a show "u = u'" using t unfolding tasks_ok_def by metis
  qed
  ultimately show ?thesis by (simp add: serial_ok_def)
qed

text \<open>A start that is under way and has no server yet.\<close>

definition starting :: "nat \<Rightarrow> llama_main \<Rightarrow> bool" where
  "starting t m \<longleftrightarrow> (\<exists>k. tasks m t = Some k \<and> unfinished k \<and> servers m (tk_role k) = None)"

lemma serial_try_launch:
  assumes "serial_ok m" "starting t m"
  shows "serial_ok (try_launch t e args now m)"
proof -
  obtain k where k: "tasks m t = Some k" "unfinished k" "servers m (tk_role k) = None" using assms(2) by (auto simp: starting_def)
  let ?g = "\<lambda>k. k\<lparr>tk_engine := e, tk_args := args\<rparr>"
  have 1: "serial_ok (upd_task t ?g m)"
    by (rule task_moves [OF assms(1)]) (use assms(1) in \<open>auto simp: serial_ok_def tasks_ok_def unfinished_def\<close>)
  have 2: "serial_ok (set_phase AwaitPort t (upd_task t ?g m))"
    unfolding set_phase_def by (rule task_moves [OF 1]) (use k in \<open>auto simp: unfinished_def\<close>)
  have 3: "serial_ok (spawn_server t (?g k) prt key now (upd_task t ?g m))" for prt key
    by (rule serial_spawn [OF 1, of _ "?g k"]) (use k in \<open>simp_all add: unfinished_def\<close>)
  show ?thesis using 2 3 serial_settle [OF 1] k(1) by (simp add: try_launch_def Let_def split: option.split)
qed

lemma starting_cong:
  "tasks m' t = tasks m t \<Longrightarrow> servers m' = servers m \<Longrightarrow> starting t m' = starting t m"
  by (simp add: starting_def)

lemma serial_startWith: "serial_ok m \<Longrightarrow> starting t m \<Longrightarrow> serial_ok (startWith t e now m)"
proof -
  assume s: "serial_ok m" "starting t m"
  have "serial_ok (m\<lparr>lastChatOptions := p\<rparr>)" for p using s(1) by (simp add: serial_ok_def other_fields)
  moreover have "starting t (m\<lparr>lastChatOptions := p\<rparr>)" for p using s(2) by (simp add: starting_def)
  ultimately show ?thesis using s by (simp add: startWith_def serial_try_launch split: option.split)
qed

lemma serial_next_engine:
  assumes "serial_ok m" "starting t m"
  shows "serial_ok (next_engine t now m)"
proof -
  have "serial_ok (upd_task t (\<lambda>k. k\<lparr>tk_others := es\<rparr>) m)" for es
    by (rule task_moves [OF assms(1)]) (use assms(1) in \<open>auto simp: serial_ok_def tasks_ok_def unfinished_def\<close>)
  moreover have "starting t (upd_task t (\<lambda>k. k\<lparr>tk_others := es\<rparr>) m)" for es
    using assms(2) by (auto simp: starting_def unfinished_def)
  ultimately show ?thesis using assms(1)
    by (auto simp: next_engine_def intro: serial_startWith serial_settle split: option.split list.split)
qed

lemma serial_start_failed:
  assumes "serial_ok m" "cannotReadModel err \<Longrightarrow> starting t m"
  shows "serial_ok (start_failed t err now m)"
proof (cases "cannotReadModel err")
  case True
  with assms(2) have st: "starting t m" by blast
  have "serial_ok (upd_task t (\<lambda>k. k\<lparr>tk_phase := AwaitOthers, tk_error := Some (tk_engine k, err)\<rparr>) m)"
    by (rule task_moves [OF assms(1)]) (use st in \<open>auto simp: starting_def unfinished_def\<close>)
  then show ?thesis using assms(1) serial_settle serial_next_engine [OF assms(1) st] True
    by (auto simp: start_failed_def split: option.split)
qed (use assms(1) serial_settle in \<open>auto simp: start_failed_def split: option.split\<close>)

lemma serial_succeeded: "serial_ok m \<Longrightarrow> serial_ok (start_succeeded t st m)"
proof -
  assume s: "serial_ok m"
  then have "serial_ok (m\<lparr>modelEngines := f\<rparr>)" for f by (simp add: serial_ok_def other_fields)
  with s show ?thesis by (auto simp: start_succeeded_def intro: serial_settle split: option.split)
qed

text \<open>A change of one server that keeps its role and its life.\<close>

lemma serial_upd_server:
  assumes "serial_ok m" "\<And>v. st_role (ls_state (f v)) = st_role (ls_state v) \<and> ls_exited (f v) = ls_exited v \<and> ls_killed (f v) = ls_killed v"
    and "\<And>v msg l. store m i = Some v \<Longrightarrow> ls_ready (f v) = Some (Inl (LlamaStartError msg l)) \<Longrightarrow> ls_exited v \<noteq> None"
  shows "serial_ok (upd_server i f m)"
proof -
  have l: "life_ok m" and t: "tasks_ok m" using assms(1) by (simp_all add: serial_ok_def)
  have "current_ok (upd_server i f m)" using l assms(2) by (intro upd_server_current) (simp_all add: life_ok_def)
  moreover have "servers m (st_role (ls_state w)) = Some j"
    if "store (upd_server i f m) j = Some w" "ls_exited w = None" "\<not> ls_killed w" for j w
    using that l assms(2) by (auto simp: life_ok_def split: if_splits)
  moreover have "ls_exited w \<noteq> None"
    if w: "store (upd_server i f m) j = Some w" "ls_ready w = Some (Inl (LlamaStartError msg l'))" for j w msg l'
  proof (cases "j = i")
    case True
    then obtain v where "store m i = Some v" "w = f v" using w(1) by auto
    then show ?thesis using assms(2,3) w(2) by metis
  next
    case False
    then show ?thesis using w l unfolding life_ok_def by auto
  qed
  ultimately have "life_ok (upd_server i f m)" unfolding life_ok_def fields by blast
  moreover have "tasks_ok (upd_server i f m)" by (rule tasks_shrink [OF t]) simp_all
  ultimately show ?thesis by (simp add: serial_ok_def)
qed

lemma serial_keeps:
  assumes "serial_ok m" "\<And>v. st_role (ls_state (f v)) = st_role (ls_state v) \<and> ls_exited (f v) = ls_exited v \<and>
      ls_killed (f v) = ls_killed v \<and> ls_ready (f v) = ls_ready v"
  shows "serial_ok (upd_server i f m)"
  by (rule serial_upd_server [OF assms(1)]) (use assms in \<open>auto simp: serial_ok_def life_ok_def\<close>)

lemma life_cong: "servers m' = servers m \<Longrightarrow> store m' = store m \<Longrightarrow> spawned m' = spawned m \<Longrightarrow> life_ok m' = life_ok m"
  by (simp only: life_ok_def current_ok_def)

lemma serial_cong:
  "servers m' = servers m \<Longrightarrow> store m' = store m \<Longrightarrow> spawned m' = spawned m \<Longrightarrow> tasks m' = tasks m \<Longrightarrow>
   next_task m' = next_task m \<Longrightarrow> serial_ok m \<Longrightarrow> serial_ok m'"
  by (simp only: serial_ok_def life_ok_def current_ok_def tasks_ok_def)

lemma serial_setState:
  assumes "serial_ok m" "store m i = Some v" "st_role st = st_role (ls_state v)"
  shows "serial_ok (setState i st m)"
proof -
  have "serial_ok (upd_server i (\<lambda>w. w\<lparr>ls_state := (if st_role (ls_state w) = st_role st then st else ls_state w)\<rparr>) m)"
    by (rule serial_upd_server [OF assms(1)])
      (use assms(1) in \<open>auto simp: serial_ok_def life_ok_def\<close>)
  moreover have "upd_server i (\<lambda>w. w\<lparr>ls_state := (if st_role (ls_state w) = st_role st then st else ls_state w)\<rparr>) m =
      upd_server i (\<lambda>w. w\<lparr>ls_state := st\<rparr>) m"
    using assms(2,3) by (simp add: upd_server_def)
  ultimately have "serial_ok (upd_server i (\<lambda>w. w\<lparr>ls_state := st\<rparr>) m)" by simp
  then show ?thesis by (rule serial_cong [rotated 5]) (simp_all add: setState_def)
qed

lemma serial_settle_ready:
  "serial_ok m \<Longrightarrow> (\<And>v msg l. store m i = Some v \<Longrightarrow> res = Inl (LlamaStartError msg l) \<Longrightarrow> ls_exited v \<noteq> None) \<Longrightarrow>
   serial_ok (settle_ready i res m)"
  unfolding settle_ready_def by (rule serial_upd_server) simp_all

lemma serial_exit:
  assumes "serial_ok m"
  shows "serial_ok (on_exit ansi i reason now m)"
proof (cases "\<exists>v. store m i = Some v \<and> ls_exited v = None")
  case True
  then obtain v where v: "store m i = Some v" "ls_exited v = None" by blast
  let ?m = "on_exit ansi i reason now m" and ?r = "st_role (ls_state v)"
  have l: "life_ok m" and t: "tasks_ok m" using assms by (simp_all add: serial_ok_def)
  have st: "\<exists>x. store ?m = (store m)(i \<mapsto> v\<lparr>ls_exited := Some reason, ls_state := x\<rparr>) \<and> st_role x = ?r"
    by (auto simp: on_exit_def v Let_def plain_state_def intro: exI [of _ "ls_state v"])
  have sv: "\<forall>r. servers ?m r = servers m r \<or> servers ?m r = None" "servers ?m ?r \<noteq> Some i"
      "r \<noteq> ?r \<Longrightarrow> servers ?m r = servers m r" "servers m ?r \<noteq> Some i \<Longrightarrow> servers ?m = servers m" for r
    by (auto simp: on_exit_def v Let_def)
  have "current_ok ?m" using l on_exit_current by (simp add: life_ok_def)
  moreover have "servers ?m (st_role (ls_state w)) = Some j" if w: "store ?m j = Some w" "ls_exited w = None" "\<not> ls_killed w" for j w
  proof -
    have "j \<noteq> i" "store m j = Some w" using w st by (auto split: if_splits)
    then have "servers m (st_role (ls_state w)) = Some j" using w l by (simp add: life_ok_def)
    then show ?thesis using \<open>j \<noteq> i\<close> sv(3,4) by (metis option.inject)
  qed
  moreover have "ls_exited w \<noteq> None" if "store ?m j = Some w" "ls_ready w = Some (Inl (LlamaStartError msg l'))" for j w msg l'
    using that st l by (auto simp: life_ok_def split: if_splits)
  ultimately have "life_ok ?m" unfolding life_ok_def by blast
  moreover have "tasks_ok ?m"
    by (rule tasks_shrink [OF t _ _ sv(1)])
      (simp_all add: on_exit_def v Let_def reduceContextIfOutOfMemory_def)
  ultimately show ?thesis by (simp add: serial_ok_def)
qed (use assms in \<open>auto simp: on_exit_def split: option.split\<close>)

lemma serial_poll: "serial_ok m \<Longrightarrow> serial_ok (poll ansi i now m)"
proof -
  assume s: "serial_ok m"
  have "serial_ok (upd_server i (\<lambda>v. v\<lparr>ls_polling := True\<rparr>) m)"
    by (rule serial_keeps [OF s]) simp
  then show ?thesis using s
    by (auto simp: poll_def intro!: serial_settle_ready serial_kill split: option.split)
qed

lemma serial_answer: "serial_ok m \<Longrightarrow> serial_ok (poll_answer i result m)"
proof -
  assume s: "serial_ok m"
  show ?thesis
  proof (cases "store m i")
    case (Some v)
    have p: "serial_ok (upd_server i (\<lambda>v. v\<lparr>ls_polling := False\<rparr>) m)"
      by (rule serial_keeps [OF s]) simp
    then have "serial_ok (setState i st (upd_server i (\<lambda>v. v\<lparr>ls_polling := False\<rparr>) m))" if "st_role st = st_role (ls_state v)" for st
      by (rule serial_setState [where v = "v\<lparr>ls_polling := False\<rparr>"]) (simp_all add: Some that)
    with Some s p show ?thesis
      by (auto simp: poll_answer_def Let_def intro!: serial_settle_ready split: option.split)
  qed (simp add: poll_answer_def s)
qed

lemma serial_begin:
  assumes "serial_ok m" "\<forall>t k. tasks m t = Some k \<and> tk_role k = r \<longrightarrow> \<not> unfinished k"
  shows "serial_ok (snd (startServer r p m))"
proof -
  let ?b = "snd (begin_start r p m)" and ?m = "new_start r p m"
  have b: "serial_ok ?b" using assms(1) serial_kill by (auto simp: begin_start_def split: option.split)
  have bf: "tasks ?b = tasks m" "next_task ?b = next_task m" by (auto simp: begin_start_def split: option.split)
  have ph: "phase_ok (servers ?b r) (fst (begin_start r p m))"
    using assms(1) current_okD [of m r]
    by (fastforce simp: begin_start_def kill_servers serial_ok_def life_ok_def split: option.split)
  have m: "servers ?m = servers ?b" "store ?m = store ?b" "spawned ?m = spawned ?b" "next_task ?m = Suc (next_task m)"
    "tasks ?m = (tasks m)(next_task m \<mapsto> \<lparr>tk_role = r, tk_options = p, tk_phase = fst (begin_start r p m), tk_engine = [], tk_args = [],
        tk_error = None, tk_others = []\<rparr>)"
    by (simp_all add: new_start_def case_prod_beta Let_def bf)
  have "life_ok ?m = life_ok ?b" using m(1-3) by (rule life_cong)
  then have "life_ok ?m" using b by (simp add: serial_ok_def)
  moreover have "tasks_ok ?m" unfolding tasks_ok_def
  proof (intro conjI allI impI)
    fix t k assume "tasks ?m t = Some k"
    then show "t < next_task ?m" "phase_ok (servers ?m (tk_role k)) (tk_phase k)"
      using b ph by (auto simp: m bf serial_ok_def tasks_ok_def less_Suc_eq split: if_splits)
  next
    fix t t' k k'
    assume a: "tasks ?m t = Some k \<and> tasks ?m t' = Some k' \<and> unfinished k \<and> unfinished k' \<and> tk_role k = tk_role k'"
    have old: "tasks m u = Some q" if "tasks ?m u = Some q" "u \<noteq> next_task m" for u q using that by (simp add: m)
    have new: "tk_role q = r" if "tasks ?m (next_task m) = Some q" for q using that by (auto simp: m)
    have "t = next_task m \<longleftrightarrow> t' = next_task m" using a old new assms(2) by metis
    then show "t = t'" using a old b bf(1) unfolding serial_ok_def tasks_ok_def by metis
  qed
  ultimately have "serial_ok ?m" by (simp add: serial_ok_def)
  then show ?thesis using assms(1) by (auto simp: startServer_def split: option.split)
qed

lemma serial_call:
  "serial_ok m \<Longrightarrow> next_task (snd (startServer r p m)) = next_task m \<Longrightarrow> serial_ok (snd (startServer r p m))"
  by (auto simp: startServer_def new_start_def case_prod_beta Let_def split: option.splits if_splits)

lemma phase_starting:
  assumes "serial_ok m" "tasks m t = Some k" "tk_phase k \<in> {AwaitFile, AwaitEngine, AwaitPort, AwaitOthers}"
  shows "starting t m"
proof -
  have "phase_ok (servers m (tk_role k)) (tk_phase k)" using assms(1,2) by (simp add: serial_ok_def tasks_ok_def)
  then show ?thesis using assms(2,3) by (auto simp: starting_def unfinished_def)
qed

lemma serial_ready: "serial_ok m \<Longrightarrow> serial_ok (on_ready t now m)"
proof -
  assume s: "serial_ok m"
  have failed: "starting t m" if k: "tasks m t = Some k" "tk_phase k = AwaitReady i" "store m i = Some v"
      "ls_ready v = Some (Inl err)" "cannotReadModel err" for k i v err
  proof -
    obtain msg l where "err = LlamaStartError msg l" using k(5) by (cases err) auto
    then have x: "ls_exited v \<noteq> None" using s k(3,4) by (auto simp: serial_ok_def life_ok_def)
    then have "servers m (tk_role k) \<noteq> Some i" using current_okD [of m "tk_role k" i] s k(3) by (auto simp: serial_ok_def life_ok_def)
    moreover have "phase_ok (servers m (tk_role k)) (tk_phase k)" using s k(1) by (simp add: serial_ok_def tasks_ok_def)
    ultimately show ?thesis using k(1,2) by (auto simp: starting_def unfinished_def)
  qed
  have probe: "serial_ok (set_phase (AwaitProbe st) t m)" if "tasks m t = Some k" "tk_phase k = AwaitReady i" for k i st
    unfolding set_phase_def by (rule task_moves [OF s]) (use that in \<open>simp add: unfinished_def\<close>)
  show ?thesis using s failed probe
    by (auto simp: on_ready_def Option.bind_eq_Some_conv split: option.split start_phase.split sum.split
        intro!: serial_settle serial_start_failed serial_succeeded)
qed

lemma serial_goes_on:
  assumes "llama_step ansi m m'" "serial_ok m" "next_task m' = next_task m"
  shows "serial_ok m'"
  using assms
proof (induction rule: llama_step.induct)
  case (s_call m r p)
  then show ?case by (rule serial_call)
next
  case (s_file m t found)
  have "serial_ok (set_phase AwaitEngine t m)" if "tasks m t = Some k" "tk_phase k = AwaitFile" for k
    unfolding set_phase_def
    by (rule task_moves [OF s_file(1)]) (use that phase_starting [OF s_file(1) that(1)] in \<open>auto simp: unfinished_def starting_def\<close>)
  then show ?case using s_file(1) by (auto simp: on_file_def intro: serial_settle split: option.split)
next
  case (s_engine m t executable found_engine now)
  then show ?case using phase_starting
    by (auto simp: on_engine_def intro!: serial_startWith serial_settle split: option.split sum.split)
next
  case (s_port m t free key now)
  have "serial_ok (spawn_server t k free key now m)" if "tasks m t = Some k" "tk_phase k = AwaitPort" for k
    using phase_starting [OF s_port(1) that(1)] that by (intro serial_spawn [OF s_port(1) that(1)]) (auto simp: starting_def)
  then show ?case using s_port(1) by (auto simp: on_port_def intro!: serial_start_failed split: option.split)
next
  case (s_ready m t now)
  then show ?case by (simp add: serial_ready)
next
  case (s_probe m t rejected_with now)
  have "starting t (kill_server (tk_role k) m)" if "tasks m t = Some k" "tk_phase k = AwaitProbe st" for k st
    using that by (simp add: starting_def unfinished_def kill_servers)
  then show ?case using s_probe(1)
    by (auto simp: on_probe_def intro!: serial_try_launch serial_kill serial_start_failed serial_succeeded split: option.split start_phase.split)
next
  case (s_others m t engines now)
  have "serial_ok (upd_task t (\<lambda>k. k\<lparr>tk_others := es\<rparr>) m) \<and> starting t (upd_task t (\<lambda>k. k\<lparr>tk_others := es\<rparr>) m)"
    if "tasks m t = Some k" "tk_phase k = AwaitOthers" for k es
    using phase_starting [OF s_others(1) that(1)] that
    by (auto intro!: task_moves [OF s_others(1)] simp: starting_def unfinished_def)
  then show ?case using s_others(1) by (auto simp: on_others_def Let_def intro!: serial_next_engine split: option.split)
next
  case (s_log m i data)
  then show ?case unfolding on_stderr_def
    by (intro serial_keeps) (simp_all add: Let_def)
next
  case (s_refused m restarts now)
  then show ?case by (intro serial_cong [of "snd (restartRefusal restarts now m)" m]) simp_all
next
  case (s_used m i now)
  then show ?case by (intro serial_keeps) simp_all
next
  case (s_stalled m now)
  have "serial_ok (m\<lparr>chatCrashes := c\<rparr>)" for c using s_stalled(1) by (simp add: serial_ok_def other_fields)
  from serial_kill [OF this] show ?case
    by (auto simp: onStalled_def Let_def intro!: serial_keeps split: option.split)
next
  case (s_sweep m now)
  have "serial_ok (unload_role now r m)" if "serial_ok m" for r m
    using that serial_kill by (auto simp: unload_role_def split: option.split)
  then show ?case using s_sweep(1) by (simp add: unloadIdle_def)
qed (simp_all add: serial_exit serial_poll serial_answer serial_kill)

lemma serial_step_ok: "serial_step ansi m m' \<Longrightarrow> serial_ok m \<Longrightarrow> serial_ok m'"
  by (induction rule: serial_step.induct) (auto intro: serial_begin serial_goes_on)

interpretation serial: step_invariant "serial_step ansi" llama_init serial_ok for ansi
  by unfold_locales
    (simp add: serial_ok_def life_ok_def current_ok_def tasks_ok_def llama_init_def, rule serial_step_ok)

lemma killed_none: "servers (killServers m) r = None"
  by (cases r) (simp_all add: killServers_def kill_servers)

text \<open>
  Property C16: when the starts of a role do not overlap, no process is ever left behind: one that has
  not exited and was not told to is the server of its role, so a role has at most one, and a shutdown
  tells every process to exit.
\<close>

theorem serial_starts_leave_no_process:
  assumes "(serial_step ansi)\<^sup>*\<^sup>* llama_init m"
  shows "(\<forall>i. server_live m i \<longrightarrow> servers m (server_role m i) = Some i) \<and> (\<forall>i. \<not> server_live (killServers m) i)"
proof -
  have s: "serial_ok m" by (rule serial.reached_inv [OF assms])
  have live: "servers m' (server_role m' i) = Some i" if "serial_ok m'" "server_live m' i" for m' i
    using that by (auto simp: serial_ok_def life_ok_def server_live_def server_role_def)
  have "serial_ok (killServers m)" using s by (simp add: killServers_def serial_kill)
  then show ?thesis using live s killed_none by fastforce
qed

section \<open>Starts that overlap\<close>

text \<open>
  Two windows start two models at the same time. Both starts pass the check for an existing server
  before either has one, the second takes the place of the first in the map, and nothing ever tells
  the first process to exit.
\<close>

lemma overlapping_starts_leave_a_process:
  "\<exists>m. (llama_step ansi)\<^sup>*\<^sup>* llama_init m \<and> server_live (killServers m) 0"
proof -
  let ?m = "snd (startServer ChatRole (demo_options ''b.gguf'') (snd (startServer ChatRole (demo_options ''a.gguf'') llama_init)))"
  let ?n = "demo_start 1 39001 ''key2'' (demo_start 0 39000 ''key1'' ?m)"
  have "(llama_step ansi)\<^sup>*\<^sup>* llama_init ?m" by (meson r_into_rtranclp rtranclp_trans s_call)
  then have "(llama_step ansi)\<^sup>*\<^sup>* llama_init ?n" by (meson demo_start_steps rtranclp_trans)
  moreover have "server_live (killServers ?n) 0" by (simp add: demo_defs)
  ultimately show ?thesis by blast
qed

lemma serial_starts_leave_no_process_witness:
  "\<exists>m. (serial_step id)\<^sup>*\<^sup>* llama_init m \<and> server_live m 0 \<and> servers m ChatRole = Some 0 \<and> \<not> server_live (killServers m) 0"
proof -
  let ?m = "snd (startServer ChatRole (demo_options ''a.gguf'') llama_init)"
  let ?f = "on_file 0 True ?m"
  let ?e = "on_engine 0 False (Inr (Some ''/bin/llama-server'')) 0 ?f"
  let ?p = "on_port 0 39000 ''key'' 0 ?e"
  have "serial_step id llama_init ?m" by (rule begins) (simp add: llama_init_def)
  moreover have "serial_step id ?m ?f" by (rule goes_on [OF s_file]) (simp add: demo_defs)
  moreover have "serial_step id ?f ?e" by (rule goes_on [OF s_engine]) (simp add: demo_defs)
  moreover have "serial_step id ?e ?p" by (rule goes_on [OF s_port]) (simp add: demo_defs)
  ultimately have r: "(serial_step id)\<^sup>*\<^sup>* llama_init ?p" by (meson converse_rtranclp_into_rtranclp rtranclp.rtrancl_refl)
  moreover have "server_live ?p 0" "server_role ?p 0 = ChatRole" by (simp_all add: demo_defs server_role_def)
  ultimately show ?thesis using serial_starts_leave_no_process [OF r] by metis
qed

section \<open>A stopped server can still be reported as ready\<close>

text \<open>
  The answer to a health request that was sent before the stop is not looked at again: the windows are
  told the model is ready although there is no server.
\<close>

lemma late_health_is_reported:
  "let m = poll_answer 0 (Some (Some 8192)) (kill_server ChatRole (poll id 0 0 (demo_start 0 39000 ''key1''
       (snd (startServer ChatRole (demo_options ''a.gguf'') llama_init)))))
   in st_status (getServerState ChatRole m) = Ready \<and> servers m ChatRole = None"
  by (simp add: demo_defs poll_answer_def poll_def settle_ready_def STARTUP_TIMEOUT_MS_def getServerState_def
      contextOverride_def Let_def)

end
