(* ===== verification/Llama_Engine.thy ===== *)
theory Llama_Engine
  imports Llama_Server
begin

text \<open>
  The engine of the local models: where \<open>llama-server\<close> is looked for, which one is used, and how the
  pinned build is downloaded and installed. \<open>resolveEngine\<close>, \<open>findEngines\<close>, \<open>probe\<close>, \<open>doInstallEngine\<close>
  and \<open>download\<close> of \<open>src/vs/platform/hivemindide/electron-main/localLlamaMainService.ts\<close>. The file
  system is a tree, what the network, an archive and an engine that is run give are arguments, and so
  is the digest; \<open>path.join\<close> of clean parts puts the separator between them.
\<close>

section \<open>The builds\<close>

record llama_asset =
  as_name :: string
  as_sha256 :: string
  as_extras :: "(string \<times> string) list"

definition asset_of :: "string \<Rightarrow> string \<Rightarrow> llama_asset" where
  "asset_of tail sha = \<lparr>as_name = ''llama-b11175-bin-'' @ tail, as_sha256 = sha, as_extras = []\<rparr>"

definition LLAMA_CPP_ASSETS :: "(string \<times> llama_asset) list" where
  "LLAMA_CPP_ASSETS =
     [(''darwin-arm64'', asset_of ''macos-arm64.tar.gz'' ''d02a894d4e3dac287f23e1b514f3db4090809e99e44c1a75807af1c60bdf7089''),
      (''darwin-x64'', asset_of ''macos-x64.tar.gz'' ''36a48fd514d838036e9f478f03ea74f71a630772ef1cfc666536896ceb5e1510''),
      (''linux-x64'', asset_of ''ubuntu-vulkan-x64.tar.gz'' ''503a24e76ad80e3867379f6dd84a006bed990a2aeb34d379f24a05f078687063''),
      (''linux-arm64'', asset_of ''ubuntu-arm64.tar.gz'' ''4eb31ed978f7d3cd77a203469f4a51009804998b806bc1c4aeeee08e5126c5bb''),
      (''win32-x64'', asset_of ''win-vulkan-x64.zip'' ''154a7c99eebb5322bdb5b270cf696780b4fb8743ac2dbb130ce112892b02b447''),
      (''win32-arm64'', asset_of ''win-cpu-arm64.zip'' ''2e5551c597bf64cb4ddb0c60c61c493d5c9f3cf28d6f93db13f96fe0876704a1'')]"

definition LLAMA_CPP_CUDA_ASSETS :: "(string \<times> llama_asset) list" where
  "LLAMA_CPP_CUDA_ASSETS =
     [(''win32-x64'', (asset_of ''win-cuda-12.4-x64.zip'' ''5c04f711494c4994685eca78b88c52555a3b8e3d542a2e911f4d8c336b22878f'')
         \<lparr>as_extras := [(''cudart-llama-bin-win-cuda-12.4-x64.zip'', ''8c79a9b226de4b3cacfd1f83d24f962d0773be79f1e7b75c6af4ded7e32ae1d6'')]\<rparr>)]"

definition CUDA_MIN_DRIVER :: "real \<times> real" where
  "CUDA_MIN_DRIVER = (551, 61)"

text \<open>\<open>hasCudaDriver\<close>: the exit code and output of \<open>nvidia-smi\<close>; NaN is \<open>None\<close>, and compares false.\<close>

definition hasCudaDriver :: "(string \<Rightarrow> real option) \<Rightarrow> (int \<times> string) option \<Rightarrow> bool" where
  "hasCudaDriver to_number smi =
     (case smi of
        None \<Rightarrow> False
      | Some (code, text) \<Rightarrow>
          (let line = hd (js_split nl (js_trim text)); ps = map to_number (js_split (CHR ''.'') (if line \<noteq> [] \<and> last line = CHR 0x0D then butlast line else line))
           in code = 0 \<and>
              (case ps of
                 Some major # rest \<Rightarrow>
                   major > fst CUDA_MIN_DRIVER \<or>
                   (major = fst CUDA_MIN_DRIVER \<and> (case rest of Some minor # _ \<Rightarrow> minor \<ge> snd CUDA_MIN_DRIVER | _ \<Rightarrow> False))
               | _ \<Rightarrow> False)))"

definition getPreferredAsset :: "string \<Rightarrow> bool \<Rightarrow> llama_asset option" where
  "getPreferredAsset platformArch cuda =
     (case map_of LLAMA_CPP_CUDA_ASSETS platformArch of
        Some a \<Rightarrow> if cuda then Some a else map_of LLAMA_CPP_ASSETS platformArch
      | None \<Rightarrow> map_of LLAMA_CPP_ASSETS platformArch)"

section \<open>Looking for an engine\<close>

datatype fs_node = FsFile | FsDir "(string \<times> fs_node) list" | FsOther

fun fs_entries :: "fs_node option \<Rightarrow> (string \<times> fs_node) list" where
  "fs_entries (Some (FsDir es)) = es"
| "fs_entries _ = []"

fun fs_is_dir :: "fs_node \<Rightarrow> bool" where
  "fs_is_dir (FsDir es) = True"
| "fs_is_dir _ = False"

record engine_env =
  en_platform :: string
  en_arch :: string
  en_home :: string
  en_dataFolder :: string
  en_vars :: "string \<Rightarrow> string option"
  en_fs :: "string \<Rightarrow> fs_node option"
  en_executable :: "string \<Rightarrow> bool"

definition isWindows :: "engine_env \<Rightarrow> bool" where
  "isWindows e \<longleftrightarrow> en_platform e = ''win32''"

definition path_sep :: "engine_env \<Rightarrow> string" where
  "path_sep e = (if isWindows e then [CHR 0x5C] else ''/'')"

definition path_join :: "engine_env \<Rightarrow> string list \<Rightarrow> string" where
  "path_join e ps = js_join (path_sep e) ps"

definition SERVER_EXECUTABLE :: "engine_env \<Rightarrow> string" where
  "SERVER_EXECUTABLE e = (if isWindows e then ''llama-server.exe'' else ''llama-server'')"

definition search_at :: "engine_env \<Rightarrow> nat \<Rightarrow> string option list \<Rightarrow> (string \<times> nat \<times> string option) list" where
  "search_at e depth segments =
     (if list_all (\<lambda>s. s \<noteq> None \<and> s \<noteq> Some []) segments then [(path_join e (map the segments), depth, None)] else [])"

definition extraSearchDirs :: "engine_env \<Rightarrow> (string \<times> nat \<times> string option) list" where
  "extraSearchDirs e =
     (let v = en_vars e; home = Some (en_home e); at_dir = search_at e in
      if isWindows e
      then at_dir 0 [v ''LOCALAPPDATA'', Some ''Programs'', Some ''Ollama'', Some ''lib'', Some ''ollama'']
         @ at_dir 0 [v ''LOCALAPPDATA'', Some ''Microsoft'', Some ''WinGet'', Some ''Links'']
         @ (case v ''LOCALAPPDATA'' of
              Some (x # xs) \<Rightarrow> [(path_join e [x # xs, ''Microsoft'', ''WinGet'', ''Packages''], 2, Some ''ggml.llamacpp'')]
            | _ \<Rightarrow> [])
         @ at_dir 0 [home, Some ''scoop'', Some ''shims'']
         @ at_dir 1 [home, Some ''scoop'', Some ''apps'', Some ''llama.cpp'', Some ''current'']
         @ at_dir 0 [v ''ProgramData'', Some ''chocolatey'', Some ''bin'']
         @ at_dir 2 [v ''ProgramFiles'', Some ''llama.cpp'']
         @ at_dir 4 [v ''APPDATA'', Some ''Jan'', Some ''data'', Some ''llamacpp'', Some ''backends'']
      else if en_platform e = ''darwin''
      then at_dir 0 [Some ''/opt/homebrew/bin'']
         @ at_dir 0 [Some ''/usr/local/bin'']
         @ at_dir 0 [home, Some ''.local'', Some ''bin'']
         @ at_dir 0 [Some ''/Applications/Ollama.app/Contents/Resources'']
         @ at_dir 4 [home, Some ''Library'', Some ''Application Support'', Some ''Jan'', Some ''data'', Some ''llamacpp'', Some ''backends'']
      else at_dir 0 [Some ''/usr/local/bin'']
         @ at_dir 0 [Some ''/usr/bin'']
         @ at_dir 0 [home, Some ''.local'', Some ''bin'']
         @ at_dir 0 [Some ''/home/linuxbrew/.linuxbrew/bin'']
         @ at_dir 0 [Some ''/snap/bin'']
         @ at_dir 0 [Some ''/usr/local/lib/ollama'']
         @ at_dir 0 [Some ''/usr/lib/ollama'']
         @ at_dir 4 [home, Some ''.local'', Some ''share'', Some ''Jan'', Some ''data'', Some ''llamacpp'', Some ''backends''])"

text \<open>The first result of a list of attempts, tried in order.\<close>

fun first_some :: "('a \<Rightarrow> 'b option) \<Rightarrow> 'a list \<Rightarrow> 'b option" where
  "first_some f [] = None"
| "first_some f (x # xs) = (case f x of Some y \<Rightarrow> Some y | None \<Rightarrow> first_some f xs)"

text \<open>A name in a folder or, up to a depth, in the folders below it, as the parts of its path.\<close>

primrec findFile_parts :: "nat \<Rightarrow> string \<Rightarrow> fs_node option \<Rightarrow> string list option" where
  "findFile_parts 0 name t = (if (name, FsFile) \<in> set (fs_entries t) then Some [name] else None)"
| "findFile_parts (Suc d) name t =
     (if (name, FsFile) \<in> set (fs_entries t) then Some [name]
      else first_some (\<lambda>(n, x). if fs_is_dir x then map_option ((#) n) (findFile_parts d name (Some x)) else None) (fs_entries t))"

definition findFile :: "engine_env \<Rightarrow> string \<Rightarrow> nat \<Rightarrow> string option" where
  "findFile e folder d = map_option (\<lambda>ps. path_join e (folder # ps)) (findFile_parts d (SERVER_EXECUTABLE e) (en_fs e folder))"

datatype engine_source = SettingEngine | ManagedEngine | PathEngine

type_synonym engine = "string \<times> engine_source"

definition engine_key :: "engine_env \<Rightarrow> string \<Rightarrow> string" where
  "engine_key e p = (if isWindows e then js_lower p else p)"

definition add_engine :: "engine_env \<Rightarrow> engine_source \<Rightarrow> string option \<Rightarrow> engine list \<Rightarrow> engine list" where
  "add_engine e src p found =
     (case p of
        Some (x # xs) \<Rightarrow> if engine_key e (x # xs) \<in> set (map (engine_key e \<circ> fst) found) then found else found @ [(x # xs, src)]
      | _ \<Rightarrow> found)"

definition archive_re :: re where
  "archive_re = seqs [ch (CHR ''.''), alts [lit ''zip'', lit ''tar.gz''], REol False]"

definition asset_folder :: "string \<Rightarrow> string" where
  "asset_folder name = re_replace_first archive_re [] name"

definition managed_root :: "engine_env \<Rightarrow> string" where
  "managed_root e = path_join e [en_home e, en_dataFolder e, ''llama.cpp'']"

definition engineRoot :: "engine_env \<Rightarrow> llama_asset \<Rightarrow> string" where
  "engineRoot e a = path_join e [managed_root e, asset_folder (as_name a)]"

definition partial_folder :: "string \<Rightarrow> bool" where
  "partial_folder n \<longleftrightarrow> suffix ''.partial'' n"

definition findEngines :: "engine_env \<Rightarrow> llama_asset option \<Rightarrow> engine list" where
  "findEngines e preferred =
     (let default = map_of LLAMA_CPP_ASSETS (en_platform e @ ''-'' @ en_arch e);
          assets = (case preferred of Some a \<Rightarrow> [a] | None \<Rightarrow> [])
            @ (case default of Some a \<Rightarrow> if preferred = Some a then [] else [a] | None \<Rightarrow> []);
          managed = fold (\<lambda>a. add_engine e ManagedEngine (findFile e (engineRoot e a) 3)) assets [];
          older = fold (\<lambda>(n, x). if fs_is_dir x \<and> \<not> partial_folder n
                      then add_engine e ManagedEngine (findFile e (path_join e [managed_root e, n]) 3) else id)
                    (fs_entries (en_fs e (managed_root e))) managed;
          on_path = fold (\<lambda>dir. if dir \<noteq> [] \<and> en_executable e (path_join e [dir, SERVER_EXECUTABLE e])
                        then add_engine e PathEngine (Some (path_join e [dir, SERVER_EXECUTABLE e])) else id)
                      (js_split (if isWindows e then CHR '';'' else CHR '':'') (case en_vars e ''PATH'' of Some p \<Rightarrow> p | None \<Rightarrow> [])) older
      in fold (\<lambda>(dir, depth, childPrefix).
             fold (\<lambda>folder. add_engine e PathEngine (findFile e folder depth))
               (case childPrefix of
                  None \<Rightarrow> [dir]
                | Some p \<Rightarrow> map (\<lambda>(n, x). path_join e [dir, n])
                    (filter (\<lambda>(n, x). fs_is_dir x \<and> prefix p (js_lower n)) (fs_entries (en_fs e dir)))))
           (extraSearchDirs e) on_path)"


section \<open>Which engine is used\<close>

record llama_device =
  dv_id :: string
  dv_name :: string
  dv_total :: nat
  dv_free :: nat

definition available_re :: re where
  "available_re = liti ''available devices''"

text \<open>\<open>/^\s+(\S+): (.+?) \((\d+) MiB, (\d+) MiB free\)\s*$/\<close>\<close>

definition device_re :: re where
  "device_re = seqs
     [RBol False, rplus rspace, RGroup 1 (rplus rnspace), lit '': '', RGroup 2 (RSeq rdot (RStar False rdot)), lit '' ('',
      RGroup 3 (rplus rdigit), lit '' MiB, '', RGroup 4 (rplus rdigit), lit '' MiB free)'', rstar rspace, REol False]"

definition device_of :: "string \<Rightarrow> llama_device option" where
  "device_of line =
     (case re_exec device_re line of
        None \<Rightarrow> None
      | hit \<Rightarrow>
          (let cap = (\<lambda>n. case re_cap hit n of Some t \<Rightarrow> t | None \<Rightarrow> [])
           in if read_nat (cap 3) > 0
              then Some \<lparr>dv_id = cap 1, dv_name = cap 2, dv_total = read_nat (cap 3), dv_free = read_nat (cap 4)\<rparr> else None))"

text \<open>What \<open>llama-server --list-devices\<close> wrote before it ended or was stopped.\<close>

definition listEngineDevices :: "(string \<Rightarrow> string) \<Rightarrow> string \<Rightarrow> string + llama_device list" where
  "listEngineDevices ansi text =
     (if \<not> re_test available_re text
      then Inl (let e = errorLines ansi (js_split nl text) in if e \<noteq> [] then e else ''it did not list its devices'')
      else Inr (List.map_filter device_of (js_split nl text)))"

text \<open>
  \<open>probe\<close>: the devices of an engine, \<open>None\<close> when it does not run, kept per version of the file. The
  second component of the state counts how often an engine was started.
\<close>

definition probe :: "(string \<Rightarrow> nat option) \<Rightarrow> (string \<times> nat \<Rightarrow> llama_device list option) \<Rightarrow> string \<Rightarrow>
    (string \<times> nat \<Rightarrow> llama_device list option option) \<times> nat \<Rightarrow>
    llama_device list option \<times> (string \<times> nat \<Rightarrow> llama_device list option option) \<times> nat" where
  "probe mtime run p s =
     (case mtime p of
        None \<Rightarrow> (None, s)
      | Some t \<Rightarrow>
          (case fst s (p, t) of
             Some devices \<Rightarrow> (devices, s)
           | None \<Rightarrow> (run (p, t), (fst s)((p, t) \<mapsto> run (p, t)), Suc (snd s))))"

record resolved =
  re_path :: string
  re_source :: engine_source
  re_gpu :: "bool option"
  re_gpuBuild :: bool

text \<open>The loop over the candidates: the engine with a GPU that ends it, and the first one without.\<close>

fun pick_engine :: "(string \<Rightarrow> llama_device list option) \<Rightarrow> engine list \<Rightarrow> engine option \<Rightarrow> engine option \<times> engine option" where
  "pick_engine devices [] cpuOnly = (None, cpuOnly)"
| "pick_engine devices (c # cs) cpuOnly =
     (case devices (fst c) of
        None \<Rightarrow> pick_engine devices cs cpuOnly
      | Some (d # ds) \<Rightarrow> (Some c, cpuOnly)
      | Some [] \<Rightarrow> pick_engine devices cs (if cpuOnly = None then Some c else cpuOnly))"

definition resolveEngine ::
  "engine_env \<Rightarrow> llama_asset option \<Rightarrow> (string \<Rightarrow> llama_device list option) \<Rightarrow> string option \<Rightarrow> string + resolved option" where
  "resolveEngine e preferred devices serverPath =
     (case serverPath of
        Some (x # xs) \<Rightarrow>
          (let p = (if en_executable e (x # xs) then Some (x # xs) else findFile e (x # xs) 3)
           in case p of
                Some q \<Rightarrow> if q \<noteq> [] \<and> en_executable e q
                  then Inr (Some \<lparr>re_path = q, re_source = SettingEngine, re_gpu = None, re_gpuBuild = False\<rparr>)
                  else Inl (SERVER_EXECUTABLE e @ '' not found at '' @ (x # xs))
              | None \<Rightarrow> Inl (SERVER_EXECUTABLE e @ '' not found at '' @ (x # xs)))
      | _ \<Rightarrow>
          (case pick_engine devices (findEngines e preferred) None of
             (Some (p, src), _) \<Rightarrow> Inr (Some \<lparr>re_path = p, re_source = src, re_gpu = Some True, re_gpuBuild = False\<rparr>)
           | (None, Some (p, src)) \<Rightarrow> Inr (Some \<lparr>re_path = p, re_source = src, re_gpu = Some False,
               re_gpuBuild = (preferred = map_of LLAMA_CPP_CUDA_ASSETS (en_platform e @ ''-'' @ en_arch e))\<rparr>)
           | (None, None) \<Rightarrow> Inr None))"

section \<open>Installing an engine\<close>

text \<open>
  A response to a download: its chunks, and the error that ends it, if one does. Progress is
  reported when more than 256 KiB have arrived since the last report, and at the end.
\<close>

record dl_response =
  dr_ok :: bool
  dr_status :: nat
  dr_length :: nat
  dr_chunks :: "string list"
  dr_error :: "string option"

fun dl_reports :: "nat \<Rightarrow> nat \<Rightarrow> nat \<Rightarrow> string list \<Rightarrow> (nat \<times> nat) list" where
  "dl_reports size_of received reported [] = []"
| "dl_reports size_of received reported (c # cs) =
     (let received' = received + length c
      in if received' > reported + 256 * 1024
         then (received', size_of) # dl_reports size_of received' received' cs
         else dl_reports size_of received' reported cs)"

definition download :: "(string \<Rightarrow> string) \<Rightarrow> dl_response \<Rightarrow> (string + string) \<times> (nat \<times> nat) list" where
  "download sha r =
     (if \<not> dr_ok r then (Inl (''Downloading llama.cpp failed: HTTP '' @ show_nat (dr_status r)), [])
      else let body = concat (dr_chunks r); reports = dl_reports (dr_length r) 0 0 (dr_chunks r)
        in case dr_error r of
             Some e \<Rightarrow> (Inl e, reports)
           | None \<Rightarrow> (Inr (sha body), reports @ [(length body, if dr_length r \<noteq> 0 then dr_length r else length body)]))"

text \<open>
  What happens to an installation: errors of the preparation, what downloading and unpacking a part
  gives, and errors of the swap. A folder that could not be removed may have lost some of its files.
\<close>

record install_io =
  io_prepare :: "(string \<times> fs_node option) option"
  io_response :: "string \<Rightarrow> dl_response"
  io_unpack :: "string \<Rightarrow> (string \<times> fs_node) list \<Rightarrow> (string \<times> fs_node) list \<times> string option"
  io_remove :: "(string \<times> fs_node option) option"
  io_rename :: "string option"

text \<open>The folder \<open>llama.cpp\<close>, by the names in it.\<close>

type_synonym managed = "string \<Rightarrow> fs_node option"

definition asset_parts :: "llama_asset \<Rightarrow> (string \<times> string) list" where
  "asset_parts a = (as_name a, as_sha256 a) # as_extras a"

definition install_part :: "(string \<Rightarrow> string) \<Rightarrow> install_io \<Rightarrow> string \<Rightarrow> string \<times> string \<Rightarrow> managed \<Rightarrow> string option \<times> managed" where
  "install_part sha io staging p m =
     (let m1 = (if dr_ok (io_response io (fst p)) then m(fst p \<mapsto> FsFile) else m)
      in case fst (download sha (io_response io (fst p))) of
           Inl e \<Rightarrow> (Some e, m1(fst p := None))
         | Inr digest \<Rightarrow>
             if digest \<noteq> snd p
             then (Some (''llama.cpp download failed verification (sha256 '' @ digest @ '', expected '' @ snd p @ '').''), m1(fst p := None))
             else let (es, err) = io_unpack io (fst p) (fs_entries (m1 staging))
               in (err, m1(staging \<mapsto> FsDir es, fst p := None)))"

fun install_parts :: "(string \<Rightarrow> string) \<Rightarrow> install_io \<Rightarrow> string \<Rightarrow> (string \<times> string) list \<Rightarrow> managed \<Rightarrow> string option \<times> managed" where
  "install_parts sha io staging [] m = (None, m)"
| "install_parts sha io staging (p # ps) m =
     (case install_part sha io staging p m of
        (Some e, m1) \<Rightarrow> (Some e, m1)
      | (None, m1) \<Rightarrow> install_parts sha io staging ps m1)"

text \<open>Whatever happens in the \<open>try\<close>, its \<open>finally\<close> removes what was staged.\<close>

definition install_staged :: "engine_env \<Rightarrow> install_io \<Rightarrow> string \<Rightarrow> string \<Rightarrow> managed \<Rightarrow> (string + string) \<times> managed" where
  "install_staged e io folder staging m =
     (case findFile_parts 3 (SERVER_EXECUTABLE e) (m staging) of
        None \<Rightarrow> (Inl (''The llama.cpp b11175 archive did not contain '' @ SERVER_EXECUTABLE e @ ''.''), m)
      | Some ps \<Rightarrow>
          (case io_remove io of
             Some (err, rest) \<Rightarrow> (Inl err, m(folder := rest))
           | None \<Rightarrow>
               (case io_rename io of
                  Some err \<Rightarrow> (Inl err, m(folder := None))
                | None \<Rightarrow> (Inr (path_join e ([managed_root e, folder] @ ps)), m(folder := m staging, staging := None)))))"

definition doInstallEngine :: "engine_env \<Rightarrow> (string \<Rightarrow> string) \<Rightarrow> install_io \<Rightarrow> llama_asset option \<Rightarrow> managed \<Rightarrow> (string + string) \<times> managed" where
  "doInstallEngine e sha io preferred m =
     (case preferred of
        None \<Rightarrow> (Inl (''No prebuilt llama.cpp for '' @ en_platform e @ ''-'' @ en_arch e
                   @ ''. Install llama.cpp yourself and set hivemindide.localModels.serverPath.''), m)
      | Some a \<Rightarrow>
          (let folder = asset_folder (as_name a); staging = folder @ ''.partial''
           in case io_prepare io of
                Some (err, rest) \<Rightarrow> (Inl err, m(staging := rest))
              | None \<Rightarrow>
                  (case install_parts sha io staging (asset_parts a) (m(staging \<mapsto> FsDir [])) of
                     (Some err, m1) \<Rightarrow> (Inl err, m1(staging := None))
                   | (None, m1) \<Rightarrow> (case install_staged e io folder staging m1 of (res, m2) \<Rightarrow> (res, m2(staging := None))))))"


section \<open>Finding a file\<close>

lemma first_some_None: "first_some f xs = None \<longleftrightarrow> (\<forall>x\<in>set xs. f x = None)"
  by (induction xs) (auto split: option.split)

lemma first_some_Some: "first_some f xs = Some y \<Longrightarrow> \<exists>x\<in>set xs. f x = Some y"
  by (induction xs) (auto split: option.splits)

text \<open>The path \<open>ps\<close> leads through folders of \<open>t\<close> to a file.\<close>

fun leads_to_file :: "string list \<Rightarrow> fs_node option \<Rightarrow> bool" where
  "leads_to_file [] t \<longleftrightarrow> False"
| "leads_to_file [n] t \<longleftrightarrow> (n, FsFile) \<in> set (fs_entries t)"
| "leads_to_file (n # m # ps) t \<longleftrightarrow> (\<exists>x. (n, x) \<in> set (fs_entries t) \<and> fs_is_dir x \<and> leads_to_file (m # ps) (Some x))"

lemma leads_to_file_dir:
  "ps \<noteq> [] \<Longrightarrow> leads_to_file (n # ps) t \<longleftrightarrow> (\<exists>x. (n, x) \<in> set (fs_entries t) \<and> fs_is_dir x \<and> leads_to_file ps (Some x))"
  by (cases ps) simp_all

lemma findFile_sound:
  "findFile_parts d name t = Some ps \<Longrightarrow> leads_to_file ps t \<and> last ps = name \<and> length ps \<le> Suc d"
proof (induction d arbitrary: t ps)
  case (Suc d)
  show ?case
  proof (cases "(name, FsFile) \<in> set (fs_entries t)")
    case False
    then have "first_some (\<lambda>(n, x). if fs_is_dir x then map_option ((#) n) (findFile_parts d name (Some x)) else None) (fs_entries t) = Some ps"
      using Suc.prems by simp
    from first_some_Some [OF this] obtain n x qs
      where q: "(n, x) \<in> set (fs_entries t)" "fs_is_dir x" "findFile_parts d name (Some x) = Some qs" "ps = n # qs"
      by (auto split: if_splits)
    from Suc.IH [OF q(3)] q(1,2,4) show ?thesis by (cases qs) auto
  qed (use Suc.prems in auto)
qed (auto split: if_splits)

lemma findFile_complete:
  "leads_to_file ps t \<Longrightarrow> last ps = name \<Longrightarrow> length ps \<le> Suc d \<Longrightarrow> findFile_parts d name t \<noteq> None"
proof (induction d arbitrary: t ps)
  case 0
  then show ?case by (cases "(ps, t)" rule: leads_to_file.cases) auto
next
  case (Suc d)
  show ?case
  proof (cases "(ps, t)" rule: leads_to_file.cases)
    case (3 n m qs t')
    then obtain x where x: "(n, x) \<in> set (fs_entries t)" "fs_is_dir x" "leads_to_file (m # qs) (Some x)"
      using Suc.prems(1) by auto
    from Suc.IH [OF x(3)] Suc.prems 3 have "findFile_parts d name (Some x) \<noteq> None" by simp
    then obtain q where "findFile_parts d name (Some x) = Some q" by blast
    with x(1,2) have "\<not> (\<forall>y\<in>set (fs_entries t). (\<lambda>(n, x). if fs_is_dir x then map_option ((#) n) (findFile_parts d name (Some x)) else None) y = None)"
      by (intro notI) (drule (1) bspec, simp)
    then show ?thesis unfolding first_some_None [symmetric] by simp
  qed (use Suc.prems in auto)
qed

section \<open>Installing leaves an engine that works\<close>

lemma install_part_keeps:
  "n \<noteq> staging \<Longrightarrow> n \<noteq> fst p \<Longrightarrow> snd (install_part sha io staging p m) n = m n"
  "fst p \<noteq> staging \<Longrightarrow> snd (install_part sha io staging p m) (fst p) = None"
  by (auto simp: install_part_def Let_def split: sum.split prod.split)

lemma install_part_digest:
  "fst (install_part sha io staging p m) = None \<Longrightarrow> sha (concat (dr_chunks (io_response io (fst p)))) = snd p"
  by (auto simp: install_part_def download_def Let_def split: if_splits option.splits sum.splits prod.splits)

lemma install_parts_Cons:
  "install_parts sha io staging (p # ps) m =
     (let r = install_part sha io staging p m in if fst r = None then install_parts sha io staging ps (snd r) else r)"
  by (simp add: Let_def split: prod.split option.split)

lemmas [simp del] = install_parts.simps(2)

lemma install_parts_keeps:
  "n \<noteq> staging \<Longrightarrow> n \<notin> fst ` set ps \<Longrightarrow> snd (install_parts sha io staging ps m) n = m n"
  by (induction ps arbitrary: m) (simp_all add: install_parts_Cons Let_def install_part_keeps)

text \<open>No archive is left behind, also when a later part fails.\<close>

lemma install_parts_cleans:
  "staging \<notin> fst ` set ps \<Longrightarrow> n \<in> fst ` set ps \<Longrightarrow> (\<forall>k\<in>fst ` set ps. m k = None) \<Longrightarrow>
   snd (install_parts sha io staging ps m) n = None"
proof (induction ps arbitrary: m)
  case (Cons p ps)
  let ?r = "install_part sha io staging p m"
  have k: "\<forall>k\<in>fst ` set (p # ps). snd ?r k = None"
  proof
    fix k assume k: "k \<in> fst ` set (p # ps)"
    then have "k \<noteq> staging" using Cons.prems(1) by blast
    moreover have "m k = None" using Cons.prems(3) k by (rule bspec)
    ultimately show "snd ?r k = None"
      using Cons.prems(1) install_part_keeps(1) [of k staging p sha io m] install_part_keeps(2) [of p staging sha io m]
      by (cases "k = fst p") auto
  qed
  show ?case
  proof (cases "n \<in> fst ` set ps")
    case True
    then show ?thesis using Cons k by (auto simp: install_parts_Cons Let_def)
  next
    case False
    then show ?thesis using Cons.prems k install_parts_keeps [of n staging ps sha io "snd ?r"] by (auto simp: install_parts_Cons Let_def)
  qed
qed simp

lemma install_parts_digests:
  "fst (install_parts sha io staging ps m) = None \<Longrightarrow> p \<in> set ps \<Longrightarrow> sha (concat (dr_chunks (io_response io (fst p)))) = snd p"
proof (induction ps arbitrary: m)
  case (Cons q ps)
  then show ?case using install_part_digest [of sha io staging q m] by (auto simp: install_parts_Cons Let_def split: if_splits)
qed simp

text \<open>The names of an installation do not meet: the folder, the staging folder and the archives.\<close>

lemma archive_match:
  "re_m archive_re (b, v, caps) = (if v = ''.zip'' \<or> v = ''.tar.gz'' then [(rev v @ b, [], caps)] else [])"
  by (cases v) (auto simp: archive_re_def ch_def re_m_lit prefix_def)

lemma asset_folder_archive:
  assumes "e = ''.zip'' \<or> e = ''.tar.gz''"
  shows "asset_folder (b @ e) = b"
proof -
  have "y @ e \<noteq> ''.zip'' \<and> y @ e \<noteq> ''.tar.gz''" if "y \<noteq> []" for y
    using assms that by (auto dest: arg_cong [where f = length] arg_cong [where f = last])
  then have "re_search archive_re [] (b @ e) = re_search archive_re (rev b) e"
    using re_search_skip [of b archive_re "[]" e] by (simp add: archive_match)
  also have "\<dots> = Some (rev b, e, rev e @ rev b, [], [])"
    using re_search_here [of archive_re "rev b" e "(rev e @ rev b, [], [])" "[]"] assms by (auto simp: archive_match)
  finally show ?thesis by (simp add: asset_folder_def re_replace_first_def re_exec_def)
qed

definition plain_asset :: "llama_asset \<Rightarrow> bool" where
  "plain_asset a \<longleftrightarrow> (suffix ''.zip'' (as_name a) \<or> suffix ''.tar.gz'' (as_name a)) \<and>
     prefix ''llama'' (take (length (as_name a) - 7) (as_name a)) \<and> list_all (\<lambda>p. prefix ''cudart'' (fst p)) (as_extras a)"

lemma plain_assets: "list_all (\<lambda>(k, a). plain_asset a) (LLAMA_CPP_ASSETS @ LLAMA_CPP_CUDA_ASSETS)"
  by code_simp

lemma preferred_plain: "getPreferredAsset arch cuda = Some a \<Longrightarrow> plain_asset a"
proof -
  assume "getPreferredAsset arch cuda = Some a"
  then have "(arch, a) \<in> set (LLAMA_CPP_ASSETS @ LLAMA_CPP_CUDA_ASSETS)"
    using map_of_SomeD [of LLAMA_CPP_ASSETS arch a] map_of_SomeD [of LLAMA_CPP_CUDA_ASSETS arch a]
    by (auto simp: getPreferredAsset_def split: option.splits if_splits)
  with plain_assets show ?thesis by (auto simp: list_all_iff)
qed

lemma plain_names:
  assumes "plain_asset a"
  shows "\<exists>e. (e = ''.zip'' \<or> e = ''.tar.gz'') \<and> as_name a = asset_folder (as_name a) @ e \<and> prefix ''llama'' (asset_folder (as_name a))"
proof -
  obtain b e where e: "e = ''.zip'' \<or> e = ''.tar.gz''" "as_name a = b @ e" using assms by (auto simp: plain_asset_def suffix_def)
  then have "take (length (as_name a) - 7) (as_name a) = take (length (as_name a) - 7) b" by auto
  then have "prefix ''llama'' b" using assms by (metis plain_asset_def prefix_order.trans take_is_prefix)
  then show ?thesis using e asset_folder_archive [OF e(1), of b] by auto
qed

lemma asset_names:
  assumes "getPreferredAsset arch cuda = Some a"
  shows "asset_folder (as_name a) \<notin> fst ` set (asset_parts a)" "asset_folder (as_name a) @ ''.partial'' \<notin> fst ` set (asset_parts a)"
proof -
  from plain_names [OF preferred_plain [OF assms]] obtain e0 where p: "(e0 = ''.zip'' \<or> e0 = ''.tar.gz'') \<and> as_name a = asset_folder (as_name a) @ e0
    \<and> prefix ''llama'' (asset_folder (as_name a))" by blast
  then obtain tail where "asset_folder (as_name a) = ''llama'' @ tail" unfolding prefix_def by blast
  note e = p [THEN conjunct1] p [THEN conjunct2, THEN conjunct1] this
  have x: "\<forall>p\<in>set (as_extras a). prefix ''cudart'' (fst p)" using preferred_plain [OF assms] by (simp add: plain_asset_def list_all_iff)
  have "b \<noteq> b @ e0" "b @ ''.partial'' \<noteq> b @ e0" for b using e(1) by auto
  then have "asset_folder (as_name a) \<noteq> as_name a" "asset_folder (as_name a) @ ''.partial'' \<noteq> as_name a" using e(2) by metis+
  moreover have "asset_folder (as_name a) \<noteq> fst p" "asset_folder (as_name a) @ ''.partial'' \<noteq> fst p" if "p \<in> set (as_extras a)" for p
    using e(3) bspec [OF x that] by (auto simp: prefix_def)
  ultimately show "asset_folder (as_name a) \<notin> fst ` set (asset_parts a)" "asset_folder (as_name a) @ ''.partial'' \<notin> fst ` set (asset_parts a)"
    by (auto simp: asset_parts_def)
qed

text \<open>An installation whose swap works, with the parts that were unpacked.\<close>

lemma install_run:
  assumes "io_prepare io = None" "io_remove io = None" "io_rename io = None"
    and "folder = asset_folder (as_name a)" "staging = folder @ ''.partial''"
    and "install_parts sha io staging (asset_parts a) (m(staging \<mapsto> FsDir [])) = (err, m1)"
  shows "doInstallEngine e sha io (Some a) m =
    (case err of
       Some msg \<Rightarrow> (Inl msg, m1(staging := None))
     | None \<Rightarrow>
         (case findFile_parts 3 (SERVER_EXECUTABLE e) (m1 staging) of
            None \<Rightarrow> (Inl (''The llama.cpp b11175 archive did not contain '' @ SERVER_EXECUTABLE e @ ''.''), m1(staging := None))
          | Some ps \<Rightarrow> (Inr (path_join e ([managed_root e, folder] @ ps)), m1(folder := m1 staging, staging := None))))"
  using assms by (simp add: doInstallEngine_def install_staged_def Let_def split: option.split)



definition demo_env :: engine_env where
  "demo_env = \<lparr>en_platform = ''linux'', en_arch = ''x64'', en_home = ''/home/u'', en_dataFolder = ''.hivemindide'',
     en_vars = (\<lambda>_. None), en_fs = (\<lambda>_. None), en_executable = (\<lambda>_. False)\<rparr>"

definition demo_asset :: llama_asset where
  "demo_asset = asset_of ''ubuntu-vulkan-x64.tar.gz'' ''503a24e76ad80e3867379f6dd84a006bed990a2aeb34d379f24a05f078687063''"

definition demo_io :: "string \<Rightarrow> install_io" where
  "demo_io server = \<lparr>io_prepare = None,
     io_response = (\<lambda>_. \<lparr>dr_ok = True, dr_status = 200, dr_length = 0, dr_chunks = [''data''], dr_error = None\<rparr>),
     io_unpack = (\<lambda>_ es. ((''build'', FsDir [(''bin'', FsDir [(server, FsFile)])]) # es, None)), io_remove = None, io_rename = None\<rparr>"

lemma demo_part:
  "install_part (\<lambda>_. as_sha256 demo_asset) ((demo_io server)\<lparr>io_rename := err\<rparr>) staging (as_name demo_asset, as_sha256 demo_asset) m =
     (None, m(as_name demo_asset \<mapsto> FsFile, staging \<mapsto> FsDir ((''build'', FsDir [(''bin'', FsDir [(server, FsFile)])])
        # fs_entries ((m(as_name demo_asset \<mapsto> FsFile)) staging)), as_name demo_asset := None))"
  by (simp add: install_part_def download_def demo_io_def Let_def)

lemma demo_parts: "asset_parts demo_asset = [(as_name demo_asset, as_sha256 demo_asset)]"
  by (simp add: asset_parts_def demo_asset_def asset_of_def)

lemma demo_preferred: "getPreferredAsset ''linux-x64'' False = Some demo_asset"
  by code_simp

lemma demo_names:
  "asset_folder (as_name demo_asset) \<noteq> as_name demo_asset" "asset_folder (as_name demo_asset) @ ''.partial'' \<noteq> as_name demo_asset"
  using asset_names [OF demo_preferred] by (auto simp: demo_parts)

lemma demo_staged: "findFile_parts 3 (SERVER_EXECUTABLE demo_env) (Some (FsDir [(''build'', FsDir [(''bin'', FsDir [(''llama-server'', FsFile)])])]))
    = Some [''build'', ''bin'', ''llama-server'']"
  by code_simp


text \<open>When the swap itself fails, neither the old engine nor the new one is left.\<close>

lemma failed_swap_loses_both_engines:
  assumes "io_prepare io = None" "io_remove io = None" "io_rename io = Some err"
    and "install_parts sha io (asset_folder (as_name a) @ ''.partial'') (asset_parts a) (m(asset_folder (as_name a) @ ''.partial'' \<mapsto> FsDir [])) = (None, m1)"
    and "findFile_parts 3 (SERVER_EXECUTABLE e) (m1 (asset_folder (as_name a) @ ''.partial'')) = Some ps"
  shows "\<exists>m'. doInstallEngine e sha io (Some a) m = (Inl err, m') \<and> m' (asset_folder (as_name a)) = None \<and>
    m' (asset_folder (as_name a) @ ''.partial'') = None"
  using assms by (simp add: doInstallEngine_def install_staged_def Let_def)

section \<open>Choosing an engine\<close>

definition sees_gpu :: "(string \<Rightarrow> llama_device list option) \<Rightarrow> engine \<Rightarrow> bool" where
  "sees_gpu devices c \<longleftrightarrow> devices (fst c) \<noteq> None \<and> devices (fst c) \<noteq> Some []"

definition cpu_only :: "(string \<Rightarrow> llama_device list option) \<Rightarrow> engine \<Rightarrow> bool" where
  "cpu_only devices c \<longleftrightarrow> devices (fst c) = Some []"

lemma pick_engine_gpu: "fst (pick_engine devices cs cpu) = find (sees_gpu devices) cs"
  by (induction devices cs cpu rule: pick_engine.induct) (auto simp: sees_gpu_def split: option.splits list.splits)

lemma pick_engine_cpu:
  "find (sees_gpu devices) cs = None \<Longrightarrow> snd (pick_engine devices cs cpu) = (if cpu = None then find (cpu_only devices) cs else cpu)"
  by (induction devices cs cpu rule: pick_engine.induct)
    (auto simp: sees_gpu_def cpu_only_def split: option.splits list.splits if_splits)

text \<open>An engine that sees a GPU is used whenever one is found, the first of them in the order
  they are looked for; otherwise the first that runs at all; and \<open>None\<close> only when none does.\<close>

lemma gpu_engine_is_used:
  "resolveEngine e preferred devices None =
     Inr (case find (sees_gpu devices) (findEngines e preferred) of
            Some c \<Rightarrow> Some \<lparr>re_path = fst c, re_source = snd c, re_gpu = Some True, re_gpuBuild = False\<rparr>
          | None \<Rightarrow> map_option (\<lambda>c. \<lparr>re_path = fst c, re_source = snd c, re_gpu = Some False,
                re_gpuBuild = (preferred = map_of LLAMA_CPP_CUDA_ASSETS (en_platform e @ ''-'' @ en_arch e))\<rparr>)
              (find (cpu_only devices) (findEngines e preferred)))"
proof -
  obtain g c where p: "pick_engine devices (findEngines e preferred) None = (g, c)" by fastforce
  then have "find (sees_gpu devices) (findEngines e preferred) = g" "g = None \<Longrightarrow> find (cpu_only devices) (findEngines e preferred) = c"
    using pick_engine_gpu [of devices "findEngines e preferred" None] pick_engine_cpu [of devices "findEngines e preferred" None] by simp_all
  with p show ?thesis by (cases g; cases c) (auto simp: resolveEngine_def split: prod.split)
qed

text \<open>No engine is listed twice.\<close>

definition engines_ok :: "engine_env \<Rightarrow> engine list \<Rightarrow> bool" where
  "engines_ok e found \<longleftrightarrow> distinct (map (engine_key e \<circ> fst) found) \<and> (\<forall>c\<in>set found. fst c \<noteq> [])"

lemma add_engine_ok: "engines_ok e found \<Longrightarrow> engines_ok e (add_engine e src p found)"
  by (auto simp: engines_ok_def add_engine_def split: option.split list.split)

lemma fold_ok: "(\<And>x found. x \<in> set xs \<Longrightarrow> engines_ok e found \<Longrightarrow> engines_ok e (f x found)) \<Longrightarrow> engines_ok e found \<Longrightarrow> engines_ok e (fold f xs found)"
  by (induction xs arbitrary: found) auto

lemma engines_are_listed_once: "engines_ok e (findEngines e preferred)"
  unfolding findEngines_def Let_def
proof (intro fold_ok)
  show "engines_ok e []" by (simp add: engines_ok_def)
qed (auto simp: add_engine_ok split: prod.split option.split intro!: fold_ok)

text \<open>An engine is probed once per version of its file, and what is kept is what it said.\<close>

definition probes_ok :: "(string \<times> nat \<Rightarrow> llama_device list option) \<Rightarrow> (string \<times> nat \<Rightarrow> llama_device list option option) \<times> nat \<Rightarrow> bool" where
  "probes_ok run s \<longleftrightarrow> finite (dom (fst s)) \<and> snd s = card (dom (fst s)) \<and> (\<forall>k d. fst s k = Some d \<longrightarrow> d = run k)"

lemma probe_keeps:
  assumes "probes_ok run s" "probe mtime run p s = (d, s')"
  shows "probes_ok run s' \<and> d = Option.bind (mtime p) (\<lambda>t. run (p, t))"
  using assms by (auto simp: probe_def probes_ok_def domIff split: option.splits if_splits)

text \<open>
  Where there is no prebuilt engine at all, a build for the GPU is still reported to be available: the
  code compares the preferred asset, which is undefined, with an entry that is undefined too.
\<close>

lemma gpu_build_without_a_build:
  assumes "getPreferredAsset (en_platform e @ ''-'' @ en_arch e) cuda = None"
    and "pick_engine devices (findEngines e None) None = (None, Some c)"
  shows "\<exists>r. resolveEngine e None devices None = Inr (Some r) \<and> re_gpuBuild r"
proof -
  have "map_of LLAMA_CPP_CUDA_ASSETS k = Some a \<Longrightarrow> map_of LLAMA_CPP_ASSETS k \<noteq> None" for k a
    by (simp add: LLAMA_CPP_CUDA_ASSETS_def LLAMA_CPP_ASSETS_def split: if_splits)
  from this [of "en_platform e @ ''-'' @ en_arch e"] assms(1)
  have "map_of LLAMA_CPP_CUDA_ASSETS (en_platform e @ ''-'' @ en_arch e) = None"
    by (cases "map_of LLAMA_CPP_CUDA_ASSETS (en_platform e @ ''-'' @ en_arch e)") (auto simp: getPreferredAsset_def split: if_splits)
  with assms(2) show ?thesis by (simp add: resolveEngine_def split: prod.split)
qed

end
