(* ===== verification/Llama_Api.thy ===== *)
theory Llama_Api
  imports Llama_Stream Llama_Engine
begin

text \<open>
  The other requests of \<open>localLlamaMainService.ts\<close>: embeddings, the models of a remote server, the
  endpoint of the chat server for other programs, and the addresses of this machine. What a server
  answers is an argument.
\<close>

section \<open>Embeddings\<close>

definition normalize :: "real list \<Rightarrow> real list" where
  "normalize v =
     (let n = sqrt (foldl (\<lambda>s x. s + x * x) 0 v); norm = (if n = 0 then 1 else n) in map (\<lambda>x. x / norm) v)"

text \<open>A response: whether it is ok, its status and text, and the embeddings with their index.\<close>

record embed_response =
  em_ok :: bool
  em_status :: nat
  em_text :: string
  em_data :: "(nat \<times> real list) list"

definition embed_request :: "endpoint \<Rightarrow> string list \<Rightarrow> string \<times> (string \<times> string) list \<times> string option \<times> string list" where
  "embed_request e texts = (ep_baseUrl e @ ''/v1/embeddings'', authHeaders e, ep_model e, texts)"

definition embed :: "string list \<Rightarrow> llama_remote option \<Rightarrow> int \<Rightarrow> embed_response \<Rightarrow> llama_main \<Rightarrow> (string + real list list) \<times> llama_main" where
  "embed texts remote now got m =
     (if texts = [] then (Inr [], m)
      else case chat_endpoint_of EmbeddingRole remote now m of
             (Inl msg, m1) \<Rightarrow> (Inl msg, m1)
           | (Inr e, m1) \<Rightarrow>
               (if \<not> em_ok got
                then Inl (''Embeddings request returned HTTP '' @ show_nat (em_status got) @ '': '' @ em_text got)
                else Inr (map (normalize \<circ> snd) (sort_key fst (em_data got))), m1))"

lemma foldl_squares: "foldl (\<lambda>s x. s + x * x) a v = a + (\<Sum>x\<leftarrow>v. x * x)" for a :: real
  by (induction v arbitrary: a) (simp_all add: algebra_simps)

lemma squares_nonneg: "0 \<le> (\<Sum>x\<leftarrow>v. x * x)" for v :: "real list"
  by (induction v) simp_all

lemma sum_scaled: "(\<Sum>x\<leftarrow>map (\<lambda>x. x / n) v. x * x) = (\<Sum>x\<leftarrow>v. x * x) / (n * n)" for n :: real
  by (induction v) (simp_all add: add_divide_distrib)

text \<open>A vector becomes one of length 1, unless all of it is 0.\<close>

lemma normalize_is_unit:
  "length (normalize v) = length v \<and> (if (\<Sum>x\<leftarrow>v. x * x) = 0 then normalize v = v else (\<Sum>x\<leftarrow>normalize v. x * x) = 1)"
proof -
  let ?s = "\<Sum>x\<leftarrow>v. x * x"
  have sq: "sqrt ?s * sqrt ?s = ?s" using squares_nonneg by simp
  have f: "foldl (\<lambda>s x. s + x * x) 0 v = ?s" using foldl_squares [of 0 v] by simp
  show ?thesis
  proof (cases "?s = 0")
    case False
    then have "normalize v = map (\<lambda>x. x / sqrt ?s) v" by (simp add: normalize_def f Let_def)
    then show ?thesis using False sum_scaled [of "sqrt ?s" v] sq by simp
  qed (simp add: normalize_def f Let_def)
qed

text \<open>The vectors come in the order of the texts, whatever the order of the answer, one for each.\<close>

lemma embeddings_in_order:
  assumes "texts \<noteq> []" "em_ok got" "fst (chat_endpoint_of EmbeddingRole remote now m) = Inr e"
    and "mset (map fst (em_data got)) = mset [0..<length texts]"
  shows "\<exists>vs. fst (embed texts remote now got m) = Inr vs \<and> length vs = length texts \<and>
    (\<forall>i<length texts. \<exists>v. (i, v) \<in> set (em_data got) \<and> vs ! i = normalize v)"
proof -
  let ?d = "sort_key fst (em_data got)"
  have "mset (map fst ?d) = mset [0..<length texts]" using assms(4) by simp
  moreover have "sorted (map fst ?d)" by simp
  ultimately have d: "map fst ?d = [0..<length texts]" by (metis sorted_upt sorted_list_of_multiset_mset sort_key_id_if_sorted sorted_sort_id)
  then have n: "length ?d = length texts" by (metis length_map length_upt minus_nat.diff_0)
  have "fst (embed texts remote now got m) = Inr (map (normalize \<circ> snd) ?d)"
    using assms(1-3) by (cases "chat_endpoint_of EmbeddingRole remote now m") (simp add: embed_def)
  moreover have "\<exists>v. (i, v) \<in> set (em_data got) \<and> map (normalize \<circ> snd) ?d ! i = normalize v" if "i < length texts" for i
  proof -
    have "fst (?d ! i) = i" using d that n by (metis add.left_neutral length_map nth_map nth_upt)
    moreover have "?d ! i \<in> set (em_data got)" using that n by (metis nth_mem set_sort)
    ultimately show ?thesis using that n by (metis comp_apply length_map nth_map prod.collapse)
  qed
  ultimately show ?thesis using n by auto
qed

section \<open>Endpoints\<close>

definition chatEndpoint :: "int \<Rightarrow> llama_main \<Rightarrow> (string \<times> string) option \<times> llama_main" where
  "chatEndpoint now m =
     (case readyServer ChatRole m of
        Inl msg \<Rightarrow> (None, m)
      | Inr i \<Rightarrow>
          (case store m i of
             Some v \<Rightarrow> (Some (''http://127.0.0.1:'' @ show_nat (ls_port v) @ ''/v1'', ls_apiKey v),
                        upd_server i (\<lambda>v. v\<lparr>ls_lastUsed := now\<rparr>) m)
           | None \<Rightarrow> (None, m)))"

definition remote_models_request :: "string \<Rightarrow> string option \<Rightarrow> string \<times> (string \<times> string) list" where
  "remote_models_request url key =
     (remoteBaseUrl url @ ''/v1/models'', authHeaders \<lparr>ep_baseUrl = url, ep_apiKey = key, ep_model = None\<rparr>)"

definition listRemoteModels :: "bool \<Rightarrow> nat \<Rightarrow> string list option \<Rightarrow> string + string list" where
  "listRemoteModels ok status ids =
     (if \<not> ok
      then Inl (if status = 401 then ''The remote server rejected the API key.''
                else ''The remote server returned HTTP '' @ show_nat status @ ''.'')
      else Inr (case ids of Some xs \<Rightarrow> xs | None \<Rightarrow> []))"

text \<open>The interfaces of the machine: the family of an address, whether it is internal, the address.\<close>

definition getNetworkAddresses :: "(string \<times> (string \<times> bool \<times> string) list) list \<Rightarrow> string list" where
  "getNetworkAddresses interfaces =
     concat (map (\<lambda>(nm, infos). map (\<lambda>(family, inner, address). address)
       (filter (\<lambda>(family, inner, address). family = ''IPv4'' \<and> \<not> inner) infos)) interfaces)"

definition listDevices ::
  "engine_env \<Rightarrow> llama_asset option \<Rightarrow> (string \<Rightarrow> llama_device list option) \<Rightarrow> (string \<Rightarrow> string + llama_device list) \<Rightarrow> string option \<Rightarrow> string + llama_device list" where
  "listDevices e preferred devices list_of serverPath =
     (case resolveEngine e preferred devices serverPath of
        Inl msg \<Rightarrow> Inl msg
      | Inr None \<Rightarrow> Inr []
      | Inr (Some r) \<Rightarrow> list_of (re_path r))"

text \<open>Other programs are only given the address of a server that is ready, and using it counts as use.\<close>

lemma chatEndpoint_is_ready:
  "fst (chatEndpoint now m) = Some (url, key) \<Longrightarrow>
   \<exists>i v. servers m ChatRole = Some i \<and> store m i = Some v \<and> st_status (ls_state v) = Ready \<and> key = ls_apiKey v \<and>
     map_option ls_lastUsed (store (snd (chatEndpoint now m)) i) = Some now"
  by (auto simp: chatEndpoint_def readyServer_def split: option.splits if_splits)

end
