(* ===== verification/Local_Models.thy ===== *)
theory Local_Models
  imports Llama_Chat Llama_Api
begin

text \<open>
  The local models of a window: \<open>browser/localModels/localModelsService.ts\<close> and
  \<open>browser/localModels/localLanguageModelProvider.ts\<close>. The settings are a record, the secrets fields
  of the state; \<open>hash\<close> is \<open>stringHash\<close> of the editor as hexadecimal digits. The calls to the main
  process are those of \<open>Llama_Server\<close>, \<open>Llama_Chat\<close> and \<open>Llama_Api\<close>; what they answer over time is an argument.
\<close>

section \<open>Models\<close>

record local_model =
  lm_id :: string
  lm_name :: string
  lm_path :: string
  lm_remote :: bool
  lm_fromFolder :: bool

definition gguf_re :: re where
  "gguf_re = seqs [liti ''.gguf'', REol False]"

definition file_name :: "string \<Rightarrow> string" where
  "file_name p = last (js_split (CHR ''/'') (rev (dropWhile (\<lambda>c. c = CHR ''/'') (rev p))))"

definition toLocalModel :: "(string \<Rightarrow> string) \<Rightarrow> bool \<Rightarrow> string \<Rightarrow> local_model" where
  "toLocalModel hash fromFolder p =
     \<lparr>lm_id = ''gguf-'' @ hash p, lm_name = re_replace_first gguf_re [] (file_name p), lm_path = p,
      lm_remote = False, lm_fromFolder = fromFolder\<rparr>"

definition toRemoteModel :: "(string \<Rightarrow> string) \<Rightarrow> string \<Rightarrow> local_model" where
  "toRemoteModel hash i = \<lparr>lm_id = ''remote-'' @ hash i, lm_name = i, lm_path = i, lm_remote = True, lm_fromFolder = False\<rparr>"

text \<open>\<open>/"([^"]*)"|'([^']*)'|(\S+)/g\<close>\<close>

definition arg_re :: re where
  "arg_re = alts
     [seqs [ch (CHR 0x22), RGroup 1 (rstar (ncls [CHR 0x22])), ch (CHR 0x22)],
      seqs [ch (CHR 0x27), RGroup 2 (rstar (ncls [CHR 0x27])), ch (CHR 0x27)],
      RGroup 3 (rplus rnspace)]"

definition splitArgs :: "string \<Rightarrow> string list" where
  "splitArgs text =
     map (\<lambda>hit. case re_cap (Some hit) 1 of
                  Some a \<Rightarrow> a
                | None \<Rightarrow> (case re_cap (Some hit) 2 of
                             Some a \<Rightarrow> a
                           | None \<Rightarrow> (case re_cap (Some hit) 3 of Some a \<Rightarrow> a | None \<Rightarrow> [])))
       (re_match_all arg_re text)"

section \<open>State\<close>

record local_settings =
  cfg_enabled :: "bool option"
  cfg_endpoint :: "string option"
  cfg_models :: "string list option"
  cfg_chatModel :: "string option"
  cfg_embeddingModel :: "string option"
  cfg_remoteUrl :: "string option"
  cfg_remoteChatModel :: "string option"
  cfg_remoteEmbeddingModel :: "string option"
  cfg_contextSize :: "int option"
  cfg_gpuLayers :: "int option"
  cfg_serverPath :: "string option"
  cfg_devices :: "string list option"
  cfg_splitMode :: "string option"
  cfg_mainGpu :: "int option"
  cfg_tensorSplit :: "string option"
  cfg_threads :: "int option"
  cfg_flashAttention :: "string option"
  cfg_keepAlive :: "real option"
  cfg_share :: "bool option"
  cfg_sharePort :: "nat option"
  cfg_modelArgs :: "(string \<times> string) list option"

record local_models =
  mo_cfg :: local_settings
  mo_engine :: "resolved option"
  mo_states :: "llama_role \<Rightarrow> server_state option"
  mo_folder :: "local_model list"
  mo_remote :: "local_model list"
  mo_remoteError :: "string option"
  mo_gpuFailed :: bool
  mo_remoteKey :: "string option"
  mo_shareKey :: "string option"

definition lm_enabled :: "local_models \<Rightarrow> bool" where
  "lm_enabled s \<longleftrightarrow> cfg_enabled (mo_cfg s) \<noteq> Some False"

definition remote_mode :: "local_models \<Rightarrow> bool" where
  "remote_mode s \<longleftrightarrow> cfg_endpoint (mo_cfg s) = Some ''remote''"

definition lm_models :: "(string \<Rightarrow> string) \<Rightarrow> local_models \<Rightarrow> local_model list" where
  "lm_models hash s =
     (if remote_mode s then mo_remote s
      else let listed = map (toLocalModel hash False) (filter (\<lambda>p. p \<noteq> []) (case cfg_models (mo_cfg s) of Some ps \<Rightarrow> ps | None \<Rightarrow> []))
        in listed @ filter (\<lambda>m. lm_path m \<notin> lm_path ` set listed) (mo_folder s))"

definition lm_embeddingModel :: "(string \<Rightarrow> string) \<Rightarrow> local_models \<Rightarrow> local_model option" where
  "lm_embeddingModel hash s =
     (if remote_mode s
      then (case cfg_remoteEmbeddingModel (mo_cfg s) of Some (x # xs) \<Rightarrow> Some (toRemoteModel hash (x # xs)) | _ \<Rightarrow> None)
      else (case cfg_embeddingModel (mo_cfg s) of Some (x # xs) \<Rightarrow> Some (toLocalModel hash False (x # xs)) | _ \<Rightarrow> None))"

definition lm_chatModel :: "(string \<Rightarrow> string) \<Rightarrow> local_models \<Rightarrow> local_model option" where
  "lm_chatModel hash s =
     (let ms = lm_models hash s;
          selected = (if remote_mode s then cfg_remoteChatModel (mo_cfg s) else cfg_chatModel (mo_cfg s))
      in case List.find (\<lambda>m. Some (lm_path m) = selected) ms of
           Some m \<Rightarrow> Some m
         | None \<Rightarrow> List.find (\<lambda>m. Some (lm_path m) \<noteq> map_option lm_path (lm_embeddingModel hash s)) ms)"

definition lm_contextSize :: "local_models \<Rightarrow> int" where
  "lm_contextSize s = (case cfg_contextSize (mo_cfg s) of Some n \<Rightarrow> if n \<noteq> 0 then n else 8192 | None \<Rightarrow> 8192)"

definition lm_serverState :: "llama_role \<Rightarrow> local_models \<Rightarrow> server_state" where
  "lm_serverState r s = (case mo_states s r of Some st \<Rightarrow> st | None \<Rightarrow> plain_state r Stopped)"

definition getModel :: "(string \<Rightarrow> string) \<Rightarrow> string \<Rightarrow> local_models \<Rightarrow> local_model option" where
  "getModel hash i s =
     (case List.find (\<lambda>m. lm_id m = i) (lm_models hash s) of
        Some m \<Rightarrow> Some m
      | None \<Rightarrow> (case lm_embeddingModel hash s of Some m \<Rightarrow> if lm_id m = i then Some m else None | None \<Rightarrow> None))"

section \<open>The list of models\<close>

definition upd_cfg :: "(local_settings \<Rightarrow> local_settings) \<Rightarrow> local_models \<Rightarrow> local_models" where
  "upd_cfg f s = s\<lparr>mo_cfg := f (mo_cfg s)\<rparr>"

definition addModels :: "string list \<Rightarrow> local_models \<Rightarrow> local_models" where
  "addModels ps s =
     upd_cfg (\<lambda>c. c\<lparr>cfg_models := Some (fold (\<lambda>p ls. if p \<in> set ls then ls else ls @ [p]) ps
       (case cfg_models c of Some ls \<Rightarrow> ls | None \<Rightarrow> []))\<rparr>) s"

definition setChatModel :: "local_model \<Rightarrow> local_models \<Rightarrow> local_models" where
  "setChatModel model s =
     upd_cfg (\<lambda>c. if lm_remote model then c\<lparr>cfg_remoteChatModel := Some (lm_path model)\<rparr> else c\<lparr>cfg_chatModel := Some (lm_path model)\<rparr>) s"

definition setEmbeddingModel :: "local_model option \<Rightarrow> local_models \<Rightarrow> llama_main \<Rightarrow> local_models \<times> llama_main" where
  "setEmbeddingModel model s m =
     (let v = Some (case model of Some x \<Rightarrow> lm_path x | None \<Rightarrow> []);
          s1 = upd_cfg (\<lambda>c. if remote_mode s then c\<lparr>cfg_remoteEmbeddingModel := v\<rparr> else c\<lparr>cfg_embeddingModel := v\<rparr>) s
      in (s1, if model = None then kill_server EmbeddingRole m else m))"

definition removeModel :: "string \<Rightarrow> local_models \<Rightarrow> llama_main \<Rightarrow> local_models \<times> llama_main" where
  "removeModel p s m =
     (let s1 = upd_cfg (\<lambda>c. c\<lparr>cfg_models := Some (filter (\<lambda>q. q \<noteq> p) (case cfg_models c of Some ls \<Rightarrow> ls | None \<Rightarrow> []))\<rparr>) s;
          s2 = (if cfg_chatModel (mo_cfg s1) = Some p then upd_cfg (\<lambda>c. c\<lparr>cfg_chatModel := Some []\<rparr>) s1 else s1);
          (s3, m1) = (if cfg_embeddingModel (mo_cfg s2) = Some p then setEmbeddingModel None s2 m else (s2, m))
      in (s3, if st_modelPath (lm_serverState ChatRole s3) = Some p then kill_server ChatRole m1 else m1))"

text \<open>\<open>scanModelsFolder\<close>: the model files of a folder and two levels below it.\<close>

primrec visit_folder :: "nat \<Rightarrow> string \<Rightarrow> fs_node option \<Rightarrow> string list" where
  "visit_folder 0 dir t =
     concat (map (\<lambda>(n, x). if x = FsFile \<and> suffix ''.gguf'' (js_lower n) then [dir @ ''/'' @ n] else []) (fs_entries t))"
| "visit_folder (Suc d) dir t =
     concat (map (\<lambda>(n, x). if x = FsFile \<and> suffix ''.gguf'' (js_lower n) then [dir @ ''/'' @ n]
       else if fs_is_dir x then visit_folder d (dir @ ''/'' @ n) (Some x) else []) (fs_entries t))"

definition scanModelsFolder :: "(string \<Rightarrow> string) \<Rightarrow> string \<Rightarrow> fs_node option \<Rightarrow> local_models \<Rightarrow> local_models" where
  "scanModelsFolder hash dir t s = s\<lparr>mo_folder := map (toLocalModel hash True) (visit_folder 2 dir t)\<rparr>"

section \<open>Remote\<close>

definition remote_url_of :: "local_models \<Rightarrow> string" where
  "remote_url_of s = js_trim (case cfg_remoteUrl (mo_cfg s) of Some u \<Rightarrow> u | None \<Rightarrow> [])"

text \<open>\<open>listed\<close> is what \<open>listRemoteModels\<close> gives for the address and the key.\<close>

definition refreshRemoteModels ::
  "(string \<Rightarrow> string) \<Rightarrow> (string \<Rightarrow> string option \<Rightarrow> string + string list) \<Rightarrow> local_models \<Rightarrow> local_models" where
  "refreshRemoteModels hash listed s =
     (if \<not> remote_mode s \<or> remote_url_of s = []
      then s\<lparr>mo_remote := [], mo_remoteError := if remote_mode s then Some ''Enter the remote server's URL.'' else None\<rparr>
      else case listed (remote_url_of s) (mo_remoteKey s) of
             Inl msg \<Rightarrow> s\<lparr>mo_remote := [], mo_remoteError := Some msg\<rparr>
           | Inr ids \<Rightarrow> s\<lparr>mo_remote := map (toRemoteModel hash) ids,
                         mo_remoteError := if ids = [] then Some ''Connected, but the server lists no models.'' else None\<rparr>)"

definition setRemoteApiKey ::
  "(string \<Rightarrow> string) \<Rightarrow> (string \<Rightarrow> string option \<Rightarrow> string + string list) \<Rightarrow> string option \<Rightarrow> local_models \<Rightarrow> local_models" where
  "setRemoteApiKey hash listed key s =
     refreshRemoteModels hash listed (s\<lparr>mo_remoteKey := (case key of Some (x # xs) \<Rightarrow> Some (x # xs) | _ \<Rightarrow> None)\<rparr>)"

definition lm_remoteFor :: "local_model \<Rightarrow> local_models \<Rightarrow> llama_remote option" where
  "lm_remoteFor model s =
     (if lm_remote model
      then Some \<lparr>remote_url = remote_url_of s, remote_model = lm_path model, remote_key = mo_remoteKey s, standardOnly = False\<rparr>
      else None)"

section \<open>Engine and servers\<close>

definition lm_sharing :: "local_models \<Rightarrow> bool" where
  "lm_sharing s \<longleftrightarrow> lm_enabled s \<and> \<not> remote_mode s \<and> cfg_share (mo_cfg s) = Some True"

definition lm_serverPath :: "local_models \<Rightarrow> string option" where
  "lm_serverPath s = (case cfg_serverPath (mo_cfg s) of Some (x # xs) \<Rightarrow> Some (x # xs) | _ \<Rightarrow> None)"

definition refreshEngine :: "string + resolved option \<Rightarrow> local_models \<Rightarrow> local_models" where
  "refreshEngine found s = s\<lparr>mo_engine := (case found of Inl msg \<Rightarrow> None | Inr r \<Rightarrow> r)\<rparr>"

text \<open>\<open>found\<close> is what \<open>resolveEngine\<close> gives, \<open>installed\<close> what \<open>installEngine\<close> gives if it is called.\<close>

definition ensureEngine :: "string + resolved option \<Rightarrow> string + resolved \<Rightarrow> local_models \<Rightarrow> (string + resolved) \<times> local_models" where
  "ensureEngine found installed s =
     (case found of
        Inl msg \<Rightarrow> (Inl msg, s)
      | Inr existing \<Rightarrow>
          (case existing of
             Some r \<Rightarrow>
               if \<not> re_gpuBuild r \<or> mo_gpuFailed s then (Inr r, s\<lparr>mo_engine := Some r\<rparr>)
               else (case installed of
                       Inr q \<Rightarrow> (Inr q, s\<lparr>mo_engine := Some q\<rparr>)
                     | Inl msg \<Rightarrow> (Inr r, s\<lparr>mo_gpuFailed := True, mo_engine := Some r\<rparr>))
           | None \<Rightarrow>
               (case installed of Inr q \<Rightarrow> (Inr q, s\<lparr>mo_engine := Some q\<rparr>) | Inl msg \<Rightarrow> (Inl msg, s))))"

definition getModelArgs :: "string \<Rightarrow> local_models \<Rightarrow> string" where
  "getModelArgs p s = (case Option.bind (cfg_modelArgs (mo_cfg s)) (\<lambda>as. map_of as p) of Some a \<Rightarrow> a | None \<Rightarrow> [])"

definition setModelArgs :: "string \<Rightarrow> string \<Rightarrow> local_models \<Rightarrow> local_models" where
  "setModelArgs p args s =
     upd_cfg (\<lambda>c. let as = (case cfg_modelArgs c of Some as \<Rightarrow> as | None \<Rightarrow> [])
       in c\<lparr>cfg_modelArgs := Some (if js_trim args \<noteq> [] then AList.update p (js_trim args) as else AList.delete p as)\<rparr>) s"

text \<open>A new key other machines use.\<close>

definition share_key :: "string \<Rightarrow> string" where
  "share_key uuid = ''hm-'' @ filter (\<lambda>c. c \<noteq> CHR ''-'') uuid"

definition startOptions :: "string \<Rightarrow> int \<Rightarrow> bool \<Rightarrow> local_models \<Rightarrow> start_options" where
  "startOptions p context share s =
     (let c = mo_cfg s
      in \<lparr>so_modelPath = p, so_contextSize = context,
          so_gpuLayers = (case cfg_gpuLayers c of Some n \<Rightarrow> n | None \<Rightarrow> -1),
          so_serverPath = lm_serverPath s,
          so_devices = Some (case cfg_devices c of Some ds \<Rightarrow> ds | None \<Rightarrow> []),
          so_splitMode = Some (case cfg_splitMode c of Some x \<Rightarrow> x | None \<Rightarrow> ''layer''),
          so_mainGpu = Some (case cfg_mainGpu c of Some n \<Rightarrow> n | None \<Rightarrow> 0),
          so_tensorSplit = Some (case cfg_tensorSplit c of Some x \<Rightarrow> x | None \<Rightarrow> []),
          so_threads = Some (case cfg_threads c of Some n \<Rightarrow> n | None \<Rightarrow> 0),
          so_flashAttention = Some (case cfg_flashAttention c of Some x \<Rightarrow> x | None \<Rightarrow> ''auto''),
          so_keepAlive = Some (case cfg_keepAlive c of Some x \<Rightarrow> x | None \<Rightarrow> 30),
          so_share = (if share
            then Some (case cfg_sharePort c of Some q \<Rightarrow> if q \<noteq> 0 then q else 11435 | None \<Rightarrow> 11435,
                       case mo_shareKey s of Some k \<Rightarrow> k | None \<Rightarrow> [])
            else None),
          so_extraArgs = Some (splitArgs (getModelArgs p s))\<rparr>)"

definition start_chat_model :: "local_model \<Rightarrow> local_models \<Rightarrow> llama_main \<Rightarrow> nat \<times> llama_main" where
  "start_chat_model x s m =
     startServer ChatRole (startOptions (lm_path x) (case cfg_contextSize (mo_cfg s) of Some n \<Rightarrow> n | None \<Rightarrow> 8192) (lm_sharing s) s) m"

text \<open>\<open>applySharing\<close> once there is a key: sharing means serving, so the chat model is started or restarted.\<close>

definition apply_sharing_keyed ::
  "(string \<Rightarrow> string) \<Rightarrow> string + resolved option \<Rightarrow> string + resolved \<Rightarrow> local_models \<Rightarrow> llama_main \<Rightarrow> local_models \<times> llama_main" where
  "apply_sharing_keyed hash found installed s m =
     (if \<not> lm_sharing s \<and> st_status (lm_serverState ChatRole s) = Stopped then (s, m)
      else case lm_chatModel hash s of
             None \<Rightarrow> (s, m)
           | Some x \<Rightarrow>
               if lm_remote x then (s, m)
               else (case ensureEngine found installed s of
                       (Inl msg, s1) \<Rightarrow> (s1, m)
                     | (Inr r, s1) \<Rightarrow> (s1, snd (start_chat_model x s1 m))))"

definition regenerateShareApiKey ::
  "(string \<Rightarrow> string) \<Rightarrow> string + resolved option \<Rightarrow> string + resolved \<Rightarrow> string \<Rightarrow> local_models \<Rightarrow> llama_main \<Rightarrow> local_models \<times> llama_main" where
  "regenerateShareApiKey hash found installed uuid s m =
     apply_sharing_keyed hash found installed (s\<lparr>mo_shareKey := Some (share_key uuid)\<rparr>) m"

text \<open>
  \<open>getShareApiKey\<close> makes the key on first use, which starts the selected chat model and waits for it;
  \<open>meanwhile\<close> is what the main process does until that start is over.
\<close>

definition getShareApiKey ::
  "(string \<Rightarrow> string) \<Rightarrow> string + resolved option \<Rightarrow> string + resolved \<Rightarrow> string \<Rightarrow> (llama_main \<Rightarrow> llama_main) \<Rightarrow> local_models \<Rightarrow> llama_main \<Rightarrow>
   local_models \<times> llama_main" where
  "getShareApiKey hash found installed uuid meanwhile s m =
     (if mo_shareKey s \<noteq> None then (s, m)
      else let (s1, m1) = regenerateShareApiKey hash found installed uuid s m in (s1, meanwhile m1))"

text \<open>
  \<open>ensureChatServer\<close> for a model, up to the call of \<open>startServer\<close>: a remote model is ready at once, a
  local one is a start of the main process, whose task is the result.
\<close>

datatype chat_server = NoServer string | RemoteReady server_state | StartTask nat

definition ensureChatServer ::
  "(string \<Rightarrow> string) \<Rightarrow> local_model option \<Rightarrow> string + resolved option \<Rightarrow> string + resolved \<Rightarrow> string \<Rightarrow> (llama_main \<Rightarrow> llama_main) \<Rightarrow>
   local_models \<Rightarrow> llama_main \<Rightarrow> chat_server \<times> local_models \<times> llama_main" where
  "ensureChatServer hash model found installed uuid meanwhile s m =
     (case (case model of Some x \<Rightarrow> Some x | None \<Rightarrow> lm_chatModel hash s) of
        None \<Rightarrow> (NoServer ''No model is configured. Add a .gguf file first.'', s, m)
      | Some x \<Rightarrow>
          if lm_remote x
          then (RemoteReady \<lparr>st_role = ChatRole, st_status = Ready, st_modelPath = Some (lm_path x),
                 st_contextSize = Some (lm_contextSize s), st_reduced = False, st_error = None\<rparr>, s, m)
          else case ensureEngine found installed s of
                 (Inl msg, s1) \<Rightarrow> (NoServer msg, s1, m)
               | (Inr r, s1) \<Rightarrow>
                   (let (s2, m1) = (if lm_sharing s1 then getShareApiKey hash found installed uuid meanwhile s1 m else (s1, m));
                        (t, m2) = start_chat_model x s2 m1
                    in (StartTask t, s2, m2)))"

text \<open>\<open>ensureEmbeddingServer\<close>: what it returns at once, an error, or the task of the start.\<close>

definition ensureEmbeddingServer ::
  "(string \<Rightarrow> string) \<Rightarrow> string + resolved option \<Rightarrow> string + resolved \<Rightarrow> local_models \<Rightarrow> llama_main \<Rightarrow>
   (bool + string + nat) \<times> local_models \<times> llama_main" where
  "ensureEmbeddingServer hash found installed s m =
     (case lm_embeddingModel hash s of
        None \<Rightarrow> (Inl False, s, m)
      | Some x \<Rightarrow>
          if lm_remote x then (Inl True, s, m)
          else if Some (lm_path x) = map_option lm_path (lm_chatModel hash s) then (Inl False, s, m)
          else case ensureEngine found installed s of
                 (Inl msg, s1) \<Rightarrow> (Inr (Inl msg), s1, m)
               | (Inr r, s1) \<Rightarrow>
                   (let (t, m1) = startServer EmbeddingRole (startOptions (lm_path x) 0 False s1) m in (Inr (Inr t), s1, m1)))"

definition applySharing ::
  "(string \<Rightarrow> string) \<Rightarrow> string + resolved option \<Rightarrow> string + resolved \<Rightarrow> string \<Rightarrow> (llama_main \<Rightarrow> llama_main) \<Rightarrow>
   local_models \<Rightarrow> llama_main \<Rightarrow> local_models \<times> llama_main" where
  "applySharing hash found installed uuid meanwhile s m =
     (if lm_chatModel hash s = None \<or> (\<not> lm_sharing s \<and> st_status (lm_serverState ChatRole s) = Stopped) then (s, m)
      else snd (ensureChatServer hash None found installed uuid meanwhile s m))"

definition stopServers :: "llama_main \<Rightarrow> llama_main" where
  "stopServers m = kill_server EmbeddingRole (kill_server ChatRole m)"

definition on_server_state :: "server_state \<Rightarrow> local_models \<Rightarrow> local_models" where
  "on_server_state st s = s\<lparr>mo_states := (mo_states s)(st_role st := Some st)\<rparr>"


text \<open>What a change of settings stops, before anything is looked up again.\<close>

datatype lm_setting = SetEnabled | SetEndpoint | SetEmbedding | SetOther

definition config_stops :: "lm_setting set \<Rightarrow> local_models \<Rightarrow> llama_main \<Rightarrow> llama_main" where
  "config_stops changed s m =
     (let m1 = (if (SetEnabled \<in> changed \<and> \<not> lm_enabled s) \<or> (SetEndpoint \<in> changed \<and> remote_mode s) then stopServers m else m)
      in if SetEmbedding \<in> changed \<and> (case cfg_embeddingModel (mo_cfg s) of Some p \<Rightarrow> p = [] | None \<Rightarrow> True)
         then kill_server EmbeddingRole m1 else m1)"

definition lm_embed :: "(string \<Rightarrow> string) \<Rightarrow> string list \<Rightarrow> int \<Rightarrow> embed_response \<Rightarrow> local_models \<Rightarrow> llama_main \<Rightarrow> (string + real list list) \<times> llama_main" where
  "lm_embed hash texts now got s m = embed texts (Option.bind (lm_embeddingModel hash s) (\<lambda>x. lm_remoteFor x s)) now got m"

section \<open>The chat provider\<close>

definition localMaxOutputTokens :: "int \<Rightarrow> int" where
  "localMaxOutputTokens context = min 2048 (context div 4)"

definition LOCAL_MODELS_VENDOR :: string where
  "LOCAL_MODELS_VENDOR = ''hivemindide-local''"

definition localModelIdentifier :: "string \<Rightarrow> string" where
  "localModelIdentifier i = LOCAL_MODELS_VENDOR @ ''/'' @ i"

definition isLocalModelIdentifier :: "string option \<Rightarrow> bool" where
  "isLocalModelIdentifier i \<longleftrightarrow> (case i of Some x \<Rightarrow> x \<noteq> [] \<and> prefix (LOCAL_MODELS_VENDOR @ ''/'') x | None \<Rightarrow> False)"

record model_info =
  mi_identifier :: string
  mi_id :: string
  mi_name :: string
  mi_detail :: string
  mi_tooltip :: string
  mi_maxInput :: int
  mi_maxOutput :: int
  mi_maxContext :: int

definition provideLanguageModelChatInfo :: "(string \<Rightarrow> string) \<Rightarrow> local_models \<Rightarrow> model_info list" where
  "provideLanguageModelChatInfo hash s =
     (if \<not> lm_enabled s then []
      else let context = lm_contextSize s
        in map (\<lambda>x. \<lparr>mi_identifier = localModelIdentifier (lm_id x), mi_id = lm_id x, mi_name = lm_name x,
             mi_detail = (if lm_remote x then ''remote'' else ''llama.cpp''), mi_tooltip = lm_path x,
             mi_maxInput = context - localMaxOutputTokens context, mi_maxOutput = localMaxOutputTokens context,
             mi_maxContext = context\<rparr>) (lm_models hash s))"

text \<open>A message of the window: the text of its parts that have one.\<close>

definition message_text :: "string option list \<Rightarrow> string" where
  "message_text ps = concat (map (\<lambda>p. case p of Some t \<Rightarrow> t | None \<Rightarrow> []) ps)"

definition toLlamaMessage :: "chat_role \<times> string option list \<Rightarrow> chat_role \<times> string" where
  "toLlamaMessage m = (fst m, message_text (snd m))"

definition provideTokenCount :: "string \<Rightarrow> nat" where
  "provideTokenCount t = (length t + 3) div 4"

text \<open>\<open>sendChatRequest\<close> once the server is there: the options of the chat.\<close>

definition local_chat_options :: "local_model \<Rightarrow> server_state \<Rightarrow> local_models \<Rightarrow> chat_options" where
  "local_chat_options x st s =
     \<lparr>co_temperature = None,
      co_maxTokens = Some (nat (localMaxOutputTokens (case st_contextSize st of Some n \<Rightarrow> n | None \<Rightarrow> lm_contextSize s))),
      co_remote = lm_remoteFor x s\<rparr>"

definition sendChatRequest :: "(string \<Rightarrow> string) \<Rightarrow> string \<Rightarrow> local_models \<Rightarrow> string + local_model \<times> chat_options" where
  "sendChatRequest hash identifier s =
     (case getModel hash (drop (length LOCAL_MODELS_VENDOR + 1) identifier) s of
        None \<Rightarrow> Inl (''Unknown local model '' @ identifier)
      | Some x \<Rightarrow> Inr (x, local_chat_options x (lm_serverState ChatRole s) s))"

section \<open>The stream of an answer in the window\<close>

datatype response_part = NoticePart string | ThinkingPart string | TextPart string

record response =
  rs_parts :: "response_part list"
  rs_settled :: "string option option"   \<comment> \<open>once it is over, the error if there is one\<close>

definition new_response :: response where
  "new_response = \<lparr>rs_parts = [], rs_settled = None\<rparr>"

definition some_part :: "(string \<Rightarrow> response_part) \<Rightarrow> string option \<Rightarrow> response_part list" where
  "some_part f v = (case nonempty_opt v of Some t \<Rightarrow> [f t] | None \<Rightarrow> [])"

definition chunk_parts :: "chat_chunk \<Rightarrow> response_part list" where
  "chunk_parts k = some_part NoticePart (ck_notice k) @ some_part ThinkingPart (ck_thinking k) @ some_part TextPart (ck_text k)"

text \<open>A chunk of this request; after the last one the listener is gone.\<close>

definition on_chat_chunk :: "chat_chunk \<Rightarrow> response \<Rightarrow> response" where
  "on_chat_chunk k r =
     (if rs_settled r \<noteq> None then r
      else r\<lparr>rs_parts := rs_parts r @ chunk_parts k, rs_settled := if ck_done k then Some (nonempty_opt (ck_error k)) else None\<rparr>)"

text \<open>\<open>chat\<close> is rejected: before any last chunk, that is the end.\<close>

definition on_chat_rejected :: "string \<Rightarrow> response \<Rightarrow> response" where
  "on_chat_rejected msg r = (if rs_settled r = None then r\<lparr>rs_settled := Some (Some msg)\<rparr> else r)"

definition part_text :: "response_part \<Rightarrow> string" where
  "part_text p = (case p of TextPart t \<Rightarrow> t | _ \<Rightarrow> [])"

definition response_text :: "response \<Rightarrow> string" where
  "response_text r = concat (map part_text (rs_parts r))"

lemma chunk_parts_text: "concat (map part_text (chunk_parts k)) = (case ck_text k of Some t \<Rightarrow> t | None \<Rightarrow> [])"
  by (auto simp: chunk_parts_def some_part_def nonempty_opt_def part_text_def split: option.split list.split)

lemma running_response:
  "(\<forall>k\<in>set ks. \<not> ck_done k) \<Longrightarrow> rs_settled r = None \<Longrightarrow>
   fold on_chat_chunk ks r = r\<lparr>rs_parts := rs_parts r @ concat (map chunk_parts ks)\<rparr>"
  by (induction ks arbitrary: r) (simp_all add: on_chat_chunk_def)

lemma chunk_text_parts: "concat (map part_text (concat (map chunk_parts ks))) = chunk_text ks"
  by (induction ks) (simp_all add: chunk_text_def chunk_parts_text)

text \<open>
  Property C12: the window sees the answer. Whatever happens to a chat, its restarts included, the text
  the window has been given of it, after the text it began with, is the answer so far; and the response
  is settled exactly when the call of \<open>chat\<close> is over, with its error.
\<close>

theorem window_sees_the_answer:
  assumes "(chat_step ansi)\<^sup>*\<^sup>* (start_chat msgs opts now m0) (c, m)"
  shows "lc_prefill c @ response_text (fold on_chat_chunk (lc_chunks c) new_response) = lc_answer c \<and>
    rs_settled (fold on_chat_chunk (lc_chunks c) new_response) =
      (case lc_phase c of ChatOver e \<Rightarrow> Some (nonempty_opt e) | _ \<Rightarrow> None)"
proof -
  let ?r = "fold on_chat_chunk (lc_chunks c) new_response"
  have ok: "chat_ok c" using chat.reached_inv [OF assms] by simp
  have n: "rs_settled new_response = None" "rs_parts new_response = []" by (simp_all add: new_response_def)
  have "response_text ?r = chunk_text (lc_chunks c) \<and> rs_settled ?r = (case lc_phase c of ChatOver e \<Rightarrow> Some (nonempty_opt e) | _ \<Rightarrow> None)"
  proof (cases "over c")
    case False
    then have "\<forall>k\<in>set (lc_chunks c). \<not> ck_done k" using ok by (simp add: running_ok)
    with running_response [OF this n(1)] False n show ?thesis
      by (auto simp: response_text_def chunk_text_parts over_def split: chat_phase.split)
  next
    case True
    then obtain e where e: "lc_phase c = ChatOver e" by (auto simp: over_def)
    then obtain js k where k: "lc_chunks c = js @ [k]" "ck_done k" "ck_error k = e" "\<forall>j\<in>set js. \<not> ck_done j"
      using ok by (auto simp: chat_ok_def settled_by_def)
    then have "?r = \<lparr>rs_parts = concat (map chunk_parts (lc_chunks c)), rs_settled = Some (nonempty_opt e)\<rparr>"
      using running_response [OF k(4) n(1)] n by (simp add: on_chat_chunk_def new_response_def)
    then show ?thesis using e by (simp add: response_text_def chunk_text_parts)
  qed
  then show ?thesis using ok by (simp add: chat_ok_def)
qed

theorem window_sees_the_answer_witness:
  "\<exists>c m. (chat_step id)\<^sup>*\<^sup>* demo_asked (c, m) \<and> lc_phase c = ChatOver None \<and>
     response_text (fold on_chat_chunk (lc_chunks c) new_response) = [] \<and>
     rs_settled (fold on_chat_chunk (lc_chunks c) new_response) = Some None"
proof -
  obtain c m where d: "demo_done = (c, m)" by fastforce
  have "(chat_step id)\<^sup>*\<^sup>* demo_asked (c, m)" using demo_done_steps d by simp
  moreover have "response_text (fold on_chat_chunk (lc_chunks c) new_response) = []"
    "rs_settled (fold on_chat_chunk (lc_chunks c) new_response) = Some None"
    using window_sees_the_answer [OF calculation [unfolded demo_asked_def]] demo_done_over [unfolded d fst_conv]
    by (simp_all add: nonempty_opt_def)
  moreover have "lc_phase c = ChatOver None" using demo_done_over [unfolded d fst_conv] by simp
  ultimately show ?thesis by blast
qed

section \<open>What the settings and servers come to\<close>

text \<open>Adding models keeps the list free of duplicates, and adds each of them.\<close>

lemma add_fold:
  "distinct ls \<Longrightarrow> distinct (fold (\<lambda>p ls. if p \<in> set ls then ls else ls @ [p]) ps ls)"
  "set (fold (\<lambda>p ls. if p \<in> set ls then ls else ls @ [p]) ps ls) = set ls \<union> set ps"
  by (induction ps arbitrary: ls) auto

definition listed_models :: "local_models \<Rightarrow> string list" where
  "listed_models s = (case cfg_models (mo_cfg s) of Some ls \<Rightarrow> ls | None \<Rightarrow> [])"

lemma listed_addModels:
  "distinct (listed_models s) \<Longrightarrow> distinct (listed_models (addModels ps s))"
  "set (listed_models (addModels ps s)) = set (listed_models s) \<union> set ps"
  by (auto simp: listed_models_def addModels_def upd_cfg_def add_fold split: option.splits)

lemma removeModel_listed: "p \<notin> set (listed_models (fst (removeModel p s m)))"
  by (auto simp: removeModel_def listed_models_def upd_cfg_def setEmbeddingModel_def Let_def split: prod.splits)

text \<open>The arguments of a model are read back as they were typed, less the space around them.\<close>

lemma getModelArgs_setModelArgs:
  "getModelArgs p (setModelArgs q a s) = (if p = q then js_trim a else getModelArgs p s)"
  by (auto simp: getModelArgs_def setModelArgs_def upd_cfg_def Let_def update_conv' delete_conv' restrict_map_def split: option.splits)

text \<open>The budgets of a model: its output is a quarter of the context at most, and the rest is its input.\<close>

lemma model_budgets:
  assumes "i \<in> set (provideLanguageModelChatInfo hash s)" "0 \<le> lm_contextSize s"
  shows "mi_maxInput i + mi_maxOutput i = mi_maxContext i" "0 \<le> mi_maxOutput i" "mi_maxOutput i \<le> 2048" "4 * mi_maxOutput i \<le> mi_maxContext i"
  using assms by (auto simp: provideLanguageModelChatInfo_def Let_def localMaxOutputTokens_def split: if_splits)

lemma local_identifiers: "isLocalModelIdentifier (Some (localModelIdentifier i))"
  by (simp add: isLocalModelIdentifier_def localModelIdentifier_def LOCAL_MODELS_VENDOR_def)

lemma identifier_roundtrip: "drop (length LOCAL_MODELS_VENDOR + 1) (localModelIdentifier i) = i"
  by (simp add: localModelIdentifier_def)

text \<open>A failed GPU build leaves the engine that was found, and is not tried again in this window.\<close>

lemma ensureEngine_existing:
  assumes "ensureEngine (Inr (Some r)) installed s = (out, s1)"
  shows "\<exists>q. out = Inr q \<and> mo_engine s1 = Some q"
    and "\<lbrakk>installed = Inl msg; re_gpuBuild r\<rbrakk> \<Longrightarrow> mo_gpuFailed s1 \<and> fst (ensureEngine (Inr (Some r)) other s1) = Inr r"
  using assms by (auto simp: ensureEngine_def split: if_splits sum.splits)

text \<open>A model that is only picked for lack of a choice is not the search model.\<close>

lemma fallback_chat_model:
  assumes "lm_chatModel hash s = Some x"
    and "Some (lm_path x) \<noteq> (if remote_mode s then cfg_remoteChatModel (mo_cfg s) else cfg_chatModel (mo_cfg s))"
  shows "Some (lm_path x) \<noteq> map_option lm_path (lm_embeddingModel hash s)"
  using assms by (auto simp: lm_chatModel_def Let_def find_Some_iff split: option.splits)

text \<open>The file of the chat model is never loaded a second time for the search.\<close>

lemma search_never_loads_the_chat_model:
  assumes "ensureEmbeddingServer hash found installed s m = (out, s1, m1)"
    and "map_option lm_path (lm_embeddingModel hash s) = map_option lm_path (lm_chatModel hash s)"
  shows "m1 = m" "s1 = s"
  using assms by (auto simp: ensureEmbeddingServer_def split: option.splits if_splits)

lemma stopServers_none: "servers (stopServers m) ChatRole = None" "servers (stopServers m) EmbeddingRole = None"
  by (auto simp: stopServers_def kill_server_def Let_def split: option.splits)

lemma disabling_stops_servers:
  assumes "\<not> lm_enabled s"
  shows "servers (config_stops {SetEnabled} s m) r = None"
  using assms by (cases r) (simp_all add: config_stops_def stopServers_none)

text \<open>
  Which setting \<open>setEmbeddingModel\<close> writes depends on the endpoint, so a model file that is removed while
  the endpoint is remote clears the search model of the remote server, and stays the local one.
\<close>

lemma removal_clears_the_wrong_setting:
  assumes "remote_mode s" "cfg_embeddingModel (mo_cfg s) = Some p"
  shows "cfg_remoteEmbeddingModel (mo_cfg (fst (removeModel p s m))) = Some []"
    and "cfg_embeddingModel (mo_cfg (fst (removeModel p s m))) = Some p"
  using assms by (auto simp: removeModel_def setEmbeddingModel_def upd_cfg_def remote_mode_def Let_def split: prod.splits)

text \<open>
  The key for sharing is made on first use, which starts the selected chat model: a chat that asked for
  another one then starts both, one after the other.
\<close>

lemma share_key_models [simp]:
  "lm_sharing (s\<lparr>mo_shareKey := k\<rparr>) = lm_sharing s" "remote_mode (s\<lparr>mo_shareKey := k\<rparr>) = remote_mode s"
  "lm_models hash (s\<lparr>mo_shareKey := k\<rparr>) = lm_models hash s" "lm_embeddingModel hash (s\<lparr>mo_shareKey := k\<rparr>) = lm_embeddingModel hash s"
  by (simp_all add: lm_sharing_def lm_enabled_def remote_mode_def lm_models_def lm_embeddingModel_def)

lemma share_key_chat [simp]: "lm_chatModel hash (s\<lparr>mo_shareKey := k\<rparr>) = lm_chatModel hash s"
  by (simp add: lm_chatModel_def Let_def split: option.split)

lemma first_share_starts_the_selected_model:
  assumes "mo_shareKey s = None" "lm_sharing s" "lm_chatModel hash s = Some x" "\<not> lm_remote x"
    and "ensureEngine found installed (s\<lparr>mo_shareKey := Some (share_key uuid)\<rparr>) = (Inr r, s1)"
  shows "getShareApiKey hash found installed uuid meanwhile s m = (s1, meanwhile (snd (start_chat_model x s1 m)))"
  using assms by (simp add: getShareApiKey_def regenerateShareApiKey_def apply_sharing_keyed_def)

end
