(* ===== verification/Shell_Run.thy ===== *)
theory Shell_Run
  imports Local_Models Shell_Runtime
begin

text \<open>
  Turns of a window on the shell service: \<open>run\<close>, \<open>complete\<close>, \<open>directChat\<close>, the question for a route
  and the permission dialog of \<open>browser/shell/shellAgentService.ts\<close>. A call of the main process is
  logged with what it answered; the answers are arguments. What the main process then has as the model
  of each session is the log read in order (\<open>backend_of\<close>).
\<close>

section \<open>Calls of the main process\<close>

type_synonym cli_backend = "string \<times> cli_permissions"

record session_answer =
  an_id :: string
  an_choices :: "route_choice list"
  an_route :: "string option"

datatype shell_call =
    CallLaunch launch_data "string option"
  | CallResume string "session_answer option"
  | CallNew "cli_backend option" "string + session_answer"
  | CallModel string string "string option"
  | CallPrompt string string "string + string"
  | CallClose string

text \<open>The model of each session, as the calls leave it: a call that failed changes nothing.\<close>

fun call_effect :: "shell_call \<Rightarrow> (string \<Rightarrow> string option) \<Rightarrow> (string \<Rightarrow> string option)" where
  "call_effect (CallResume p (Some a)) b = b(an_id a := an_route a)"
| "call_effect (CallNew cli (Inr a)) b = b(an_id a := an_route a)"
| "call_effect (CallModel sid v None) b = b(sid := Some v)"
| "call_effect c b = b"

definition backend_of :: "shell_call list \<Rightarrow> (string \<Rightarrow> string option) \<Rightarrow> (string \<Rightarrow> string option)" where
  "backend_of cs b = fold call_effect cs b"

text \<open>What the main process answers about a session of a CLI.\<close>

definition toCliSession :: "string \<Rightarrow> cli_session \<Rightarrow> session_answer" where
  "toCliSession i cs =
     \<lparr>an_id = i,
      an_choices = map (\<lambda>m. \<lparr>cvalue = m, cname = m, cgroup = Some (cli_name (cs_agent cs))\<rparr>) (cli_models (cs_agent cs)),
      an_route = Some (cs_model cs)\<rparr>"

text \<open>The answers of one run.\<close>

record run_io =
  io_served :: "local_model \<Rightarrow> string + server_state"   \<comment> \<open>\<open>ensureChatServer\<close>\<close>
  io_endpoint :: "(string \<times> string) option"             \<comment> \<open>\<open>chatEndpoint\<close>\<close>
  io_launched :: "string option"                         \<comment> \<open>the error of \<open>ensureStarted\<close>\<close>
  io_resume :: "string \<Rightarrow> session_answer option"
  io_new :: "string + session_answer"
  io_set :: "string option"                              \<comment> \<open>the error of \<open>setOption\<close>\<close>
  io_prompt :: "string + string"

section \<open>Serving a local route\<close>

definition cliBackend :: "cli_permissions option \<Rightarrow> shell_world \<Rightarrow> shell_route \<Rightarrow> cli_backend option" where
  "cliBackend perm w r =
     map_option (\<lambda>a. (cli_id a, case perm of Some p \<Rightarrow> p | None \<Rightarrow> Edits)) (cliAgentFor w r)"

definition localModel :: "(string \<Rightarrow> string) \<Rightarrow> local_models \<Rightarrow> shell_route \<Rightarrow> string + local_model" where
  "localModel hash lm r =
     (case List.find (\<lambda>x. lm_name x = rmodel r) (lm_models hash lm) of
        Some x \<Rightarrow> Inr x
      | None \<Rightarrow> Inl (''The local model '' @ rmodel r @ '' is no longer available.''))"

definition localEndpoint ::
  "(string \<Rightarrow> string) \<Rightarrow> local_models \<Rightarrow> run_io \<Rightarrow> shell_route \<Rightarrow> string + string \<times> string option" where
  "localEndpoint hash lm io r =
     (case localModel hash lm r of
        Inl e \<Rightarrow> Inl e
      | Inr x \<Rightarrow>
          (case lm_remoteFor x lm of
             Some q \<Rightarrow> Inr (remote_url q, remote_key q)
           | None \<Rightarrow>
               (case io_served io x of
                  Inl e \<Rightarrow> Inl e
                | Inr st \<Rightarrow>
                    (case io_endpoint io of
                       Some (url, key) \<Rightarrow> Inr (url, Some key)
                     | None \<Rightarrow> Inl (''The local model '' @ rmodel r @ '' did not start.'')))))"

definition launch_now :: "run_io \<Rightarrow> (string \<times> string option) option \<Rightarrow> shell_world \<Rightarrow> launch_data" where
  "launch_now io local w =
     launch (case local of
               Some l \<Rightarrow> Some l
             | None \<Rightarrow> if localEnabled w then map_option (\<lambda>(url, key). (url, Some key)) (io_endpoint io) else None) w"

text \<open>What a run on the runtime does before it has a session; its error, and the calls.\<close>

definition prepare_runtime ::
  "(string \<Rightarrow> string) \<Rightarrow> shell_world \<Rightarrow> local_models \<Rightarrow> run_io \<Rightarrow> shell_route \<Rightarrow> string option \<times> shell_call list" where
  "prepare_runtime hash w lm io r =
     (case (if isLocalRoute r then map_sum id Some (localEndpoint hash lm io r) else Inr None) of
        Inl e \<Rightarrow> (Some e, [])
      | Inr local \<Rightarrow> (io_launched io, [CallLaunch (launch_now io local w) (io_launched io)]))"

section \<open>The session of a key\<close>

record run_session =
  rn_info :: session_answer
  rn_backend :: "string option"
  rn_route :: "string option"      \<comment> \<open>the route last set on it\<close>

record run_table =
  rn_sessions :: "(string \<times> run_session) list"
  rn_resumable :: "(string \<times> string) list"
  rn_own :: "string list"

definition rn_sid :: "run_session \<Rightarrow> string" where
  "rn_sid se = an_id (rn_info se)"

definition keep_session :: "string \<Rightarrow> string option \<Rightarrow> session_answer \<Rightarrow> run_table \<Rightarrow> run_session \<times> run_table" where
  "keep_session key on info t =
     (let se = \<lparr>rn_info = info, rn_backend = on, rn_route = None\<rparr>
      in (se, t\<lparr>rn_resumable := AList.delete key (rn_resumable t), rn_sessions := AList.update key se (rn_sessions t),
               rn_own := (if an_id info \<in> set (rn_own t) then rn_own t else rn_own t @ [an_id info])\<rparr>))"

definition fresh_session ::
  "run_io \<Rightarrow> string \<Rightarrow> string option \<Rightarrow> cli_backend option \<Rightarrow> run_table \<Rightarrow> (string + run_session) \<times> shell_call list \<times> run_table" where
  "fresh_session io key resume cli t =
     (let previous = (case map_of (rn_resumable t) key of Some p \<Rightarrow> Some p | None \<Rightarrow> resume);
          on = map_option fst cli;
          (resumed, calls) = (case previous of
             Some p \<Rightarrow> if p \<noteq> [] \<and> same_backend on p then (io_resume io p, [CallResume p (io_resume io p)]) else (None, [])
           | None \<Rightarrow> (None, []))
      in case resumed of
           Some info \<Rightarrow> (let (se, t1) = keep_session key on info t in (Inr se, calls, t1))
         | None \<Rightarrow>
             (case io_new io of
                Inl e \<Rightarrow> (Inl e, calls @ [CallNew cli (Inl e)], t)
              | Inr info \<Rightarrow> (let (se, t1) = keep_session key on info t in (Inr se, calls @ [CallNew cli (Inr info)], t1))))"

definition session_of ::
  "run_io \<Rightarrow> string \<Rightarrow> string option \<Rightarrow> cli_backend option \<Rightarrow> run_table \<Rightarrow> (string + run_session) \<times> shell_call list \<times> run_table" where
  "session_of io key resume cli t =
     (case map_of (rn_sessions t) key of
        Some existing \<Rightarrow>
          if rn_backend existing = map_option fst cli then (Inr existing, [], t)
          else fresh_session io key None cli (t\<lparr>rn_sessions := AList.delete key (rn_sessions t)\<rparr>)
      | None \<Rightarrow> fresh_session io key resume cli t)"

definition run_exited :: "run_table \<Rightarrow> run_table" where
  "run_exited t =
     t\<lparr>rn_resumable := fold (\<lambda>(k, se) m. AList.update k (rn_sid se) m) (rn_sessions t) (rn_resumable t),
       rn_sessions := []\<rparr>"

section \<open>A run\<close>

definition missing_route :: "shell_route \<Rightarrow> string" where
  "missing_route r = ''The hivemind shell has no route '' @ rid r @ ''. Check hivemindide.failover.providers.''"

text \<open>The route of the turn is set on the session: the error, the calls, and the session afterwards.\<close>

definition select_route ::
  "(string \<Rightarrow> js_val option) \<Rightarrow> run_io \<Rightarrow> shell_route \<Rightarrow> run_session \<Rightarrow> string option \<times> shell_call list \<times> run_session" where
  "select_route parse io r se =
     (if rn_route se = Some (rid r) then (None, [], se)
      else case findRouteChoice parse (an_choices (rn_info se)) r of
             None \<Rightarrow> (Some (missing_route r), [], se)
           | Some choice \<Rightarrow>
               if Some choice \<noteq> an_route (rn_info se)
               then (io_set io, [CallModel (rn_sid se) choice (io_set io)],
                     if io_set io = None then se\<lparr>rn_route := Some (rid r)\<rparr> else se)
               else (None, [], se\<lparr>rn_route := Some (rid r)\<rparr>))"

definition run ::
  "(string \<Rightarrow> js_val option) \<Rightarrow> (string \<Rightarrow> string) \<Rightarrow> cli_permissions option \<Rightarrow> shell_world \<Rightarrow> local_models \<Rightarrow> run_io \<Rightarrow>
   string \<Rightarrow> string option \<Rightarrow> shell_route \<Rightarrow> string \<Rightarrow> run_table \<Rightarrow> (string + string \<times> string) \<times> shell_call list \<times> run_table" where
  "run parse hash perm w lm io key resume r prompt t =
     (let cli = cliBackend perm w r;
          (failed, c0) = (if cli = None then prepare_runtime hash w lm io r else (None, []))
      in case failed of
           Some e \<Rightarrow> (Inl e, c0, t)
         | None \<Rightarrow>
             (case session_of io key resume cli t of
                (Inl e, c1, t1) \<Rightarrow> (Inl e, c0 @ c1, t1)
              | (Inr se, c1, t1) \<Rightarrow>
                  (case select_route parse io r se of
                     (Some e, c2, se1) \<Rightarrow> (Inl e, c0 @ c1 @ c2, t1)
                   | (None, c2, se1) \<Rightarrow>
                       (map_sum id (Pair (rn_sid se)) (io_prompt io), c0 @ c1 @ c2 @ [CallPrompt (rn_sid se) prompt (io_prompt io)],
                        t1\<lparr>rn_sessions := AList.update key se1 (rn_sessions t1)\<rparr>))))"

text \<open>What the caller hears while the prompt runs: the events of its session.\<close>

definition event_session :: "shell_event \<Rightarrow> js_val" where
  "event_session e = (case e of
     EvText s _ \<Rightarrow> s | EvThought s _ \<Rightarrow> s | EvTool s _ _ _ \<Rightarrow> s | EvUsage s _ _ \<Rightarrow> s | EvLimit s _ _ _ _ _ \<Rightarrow> JStr s
   | EvStart s _ \<Rightarrow> JStr s | EvTruncated s _ _ _ \<Rightarrow> JStr s | EvEnd s \<Rightarrow> JStr s)"

definition heard :: "string \<Rightarrow> shell_event list \<Rightarrow> shell_event list" where
  "heard sid es = filter (\<lambda>e. event_session e = JStr sid) es"

section \<open>A completion without an agent\<close>

definition planned_route :: "int \<Rightarrow> (nat \<Rightarrow> real) \<Rightarrow> shell_route \<Rightarrow> shell_world \<Rightarrow> shell_route \<times> shell_world" where
  "planned_route now rnd r w =
     (case plan now rnd r w of
        Some (q # _, w1) \<Rightarrow> (q, w1)
      | Some ([], w1) \<Rightarrow> (r, w1)
      | None \<Rightarrow> (r, w))"

definition text_of_event :: "shell_event \<Rightarrow> string" where
  "text_of_event e = (case e of EvText _ (JStr t) \<Rightarrow> t | _ \<Rightarrow> [])"

text \<open>\<open>completeOnCli\<close>: one read-only turn in a session of its own; \<open>es\<close> is what is fired meanwhile.\<close>

definition completeOnCli ::
  "shell_world \<Rightarrow> run_io \<Rightarrow> shell_route \<Rightarrow> string \<Rightarrow> shell_event list \<Rightarrow> (string + string) \<times> shell_call list" where
  "completeOnCli w io r prompt es =
     (let new = CallNew (cliBackend (Some ReadOnly) w r) (io_new io)
      in case io_new io of
           Inl e \<Rightarrow> (Inl e, [new])
         | Inr a \<Rightarrow>
             (let set_model = CallModel (an_id a) (rmodel r) (io_set io)
              in case io_set io of
                   Some e \<Rightarrow> (Inl e, [new, set_model, CallClose (an_id a)])
                 | None \<Rightarrow>
                     (map_sum id (\<lambda>_. js_trim (concat (map text_of_event (heard (an_id a) es)))) (io_prompt io),
                      [new, set_model, CallPrompt (an_id a) prompt (io_prompt io), CallClose (an_id a)])))"

text \<open>Where \<open>directChat\<close> sends its messages.\<close>

datatype chat_target =
    NoTarget string
  | CliTarget shell_route string
  | LlamaTarget "(chat_role \<times> string) list" chat_options

definition message_label :: "chat_role \<Rightarrow> string" where
  "message_label k = (case k of SystemRole \<Rightarrow> ''Instructions'' | AssistantRole \<Rightarrow> ''Assistant'' | UserRole \<Rightarrow> ''User'')"

definition cli_prompt :: "(chat_role \<times> string option list) list \<Rightarrow> string" where
  "cli_prompt ms = js_join [nl, nl] (map (\<lambda>m. message_label (fst m) @ '':'' @ [nl] @ message_text (snd m)) ms)"

definition directChat ::
  "(string \<Rightarrow> string) \<Rightarrow> int \<Rightarrow> (nat \<Rightarrow> real) \<Rightarrow> run_io \<Rightarrow> local_models \<Rightarrow> shell_route \<Rightarrow> (chat_role \<times> string option list) list \<Rightarrow>
   shell_world \<Rightarrow> chat_target \<times> shell_world" where
  "directChat hash now rnd io lm r0 ms w0 =
     (let (r, w) = planned_route now rnd r0 w0
      in (if cliAgentFor w r \<noteq> None then CliTarget r (cli_prompt ms)
          else if isLocalRoute r then
            (case localModel hash lm r of
               Inl e \<Rightarrow> NoTarget e
             | Inr x \<Rightarrow>
                 (case io_served io x of
                    Inl e \<Rightarrow> NoTarget e
                  | Inr st \<Rightarrow> LlamaTarget (map toLlamaMessage ms) (local_chat_options x st lm)))
          else
            (case List.find (\<lambda>p. pname p = rprovider r) (fo_providers (fo w)) of
               None \<Rightarrow> NoTarget (missing_route r)
             | Some p \<Rightarrow> LlamaTarget (map toLlamaMessage ms)
                 \<lparr>co_temperature = None, co_maxTokens = None,
                  co_remote = Some ((remoteFor p (fo w))\<lparr>remote_model := rmodel r\<rparr>)\<rparr>), w))"

text \<open>\<open>complete\<close>, up to the chat whose text it collects; \<open>completed\<close> is what it then returns.\<close>

datatype completion = CliCompletion "string + string" "shell_call list" | ChatCompletion chat_target

definition complete ::
  "(string \<Rightarrow> string) \<Rightarrow> int \<Rightarrow> (nat \<Rightarrow> real) \<Rightarrow> run_io \<Rightarrow> local_models \<Rightarrow> shell_event list \<Rightarrow> shell_route \<Rightarrow> string \<Rightarrow> string \<Rightarrow>
   shell_world \<Rightarrow> completion \<times> shell_world" where
  "complete hash now rnd io lm es r0 system user w0 =
     (let (r, w) = planned_route now rnd r0 w0
      in if cliAgentFor w r \<noteq> None
         then (case completeOnCli w io r (system @ [nl, nl] @ user) es of (res, calls) \<Rightarrow> (CliCompletion res calls, w))
         else map_prod ChatCompletion id
           (directChat hash now rnd io lm r [(SystemRole, [Some system]), (UserRole, [Some user])] w))"

definition completed :: "response \<Rightarrow> (string + string) option" where
  "completed r =
     map_option (\<lambda>e. case e of Some msg \<Rightarrow> Inl msg | None \<Rightarrow> Inr (js_trim (response_text r))) (rs_settled r)"

section \<open>Questions\<close>

text \<open>\<open>pickRoute\<close>: the suggested route comes first; \<open>pick\<close> is the row the user takes.\<close>

definition pick_items :: "shell_route list \<Rightarrow> shell_route option \<Rightarrow> shell_route list" where
  "pick_items routes suggested =
     (case suggested of
        None \<Rightarrow> routes
      | Some s \<Rightarrow> s # filter (\<lambda>r. rid r \<noteq> rid s) routes)"

definition pickRoute :: "shell_world \<Rightarrow> shell_route option \<Rightarrow> nat option \<Rightarrow> shell_route option" where
  "pickRoute w suggested pick =
     Option.bind pick (\<lambda>n. let rs = pick_items (world_routes w) suggested in if n < length rs then Some (rs ! n) else None)"

record permission_option =
  po_id :: string
  po_name :: string
  po_kind :: string

record permission_ask =
  pq_id :: string
  pq_session :: string
  pq_options :: "permission_option list"

datatype dialog_end = Button nat | DialogCancelled

text \<open>The answer a window gives; \<open>elsewhere\<close>: the request was answered before the dialog closed.\<close>

definition onPermission :: "string list \<Rightarrow> permission_ask \<Rightarrow> bool \<Rightarrow> dialog_end \<Rightarrow> (string \<times> string option) option" where
  "onPermission own q elsewhere d =
     (if pq_session q \<notin> set own \<or> elsewhere then None
      else let allow = filter (\<lambda>x. prefix ''allow'' (po_kind x)) (pq_options q)
        in Some (pq_id q,
             case d of
               Button n \<Rightarrow> if n < length allow then Some (po_id (allow ! n)) else None
             | DialogCancelled \<Rightarrow> map_option po_id (List.find (\<lambda>x. po_kind x = ''reject_once'') (pq_options q))))"

section \<open>The sessions are those of the table of sessions\<close>

text \<open>The table of \<open>Shell_Agent\<close>, which keeps no answers of the main process.\<close>

definition abs_session :: "run_session \<Rightarrow> shell_session" where
  "abs_session se = \<lparr>sess_id = rn_sid se, sess_backend = rn_backend se, sess_route = rn_route se\<rparr>"

definition abs_table :: "run_table \<Rightarrow> session_table" where
  "abs_table t = \<lparr>sessions = map (map_prod id abs_session) (rn_sessions t), resumable = rn_resumable t, ownSessions = rn_own t\<rparr>"

lemma update_map_snd: "AList.update k (f v) (map (map_prod id f) xs) = map (map_prod id f) (AList.update k v xs)"
  by (induction xs) auto

lemma delete_map_snd: "AList.delete k (map (map_prod id f) xs) = map (map_prod id f) (AList.delete k xs)"
  by (induction xs) (auto simp: AList.delete_eq)

lemma map_of_map_snd: "map_of (map (map_prod id f) xs) k = map_option f (map_of xs k)"
  by (induction xs) auto

lemma fresh_session_refines:
  assumes "io_new io = Inr a" "fresh_session io key res cli t = (Inr se, cs, t1)"
  shows "open_new (\<lambda>p. map_option an_id (io_resume io p)) (an_id a) key res (map_option fst cli) (abs_table t) = (abs_session se, abs_table t1)"
  using assms
  by (auto simp: fresh_session_def open_new_def keep_session_def Let_def abs_table_def abs_session_def rn_sid_def
      update_map_snd [symmetric] split: option.splits if_splits prod.splits)

lemma session_of_refines:
  assumes "io_new io = Inr a" "session_of io key resume cli t = (Inr se, cs, t1)"
  shows "open_session (\<lambda>p. map_option an_id (io_resume io p)) (an_id a) key resume (map_option fst cli) (abs_table t)
    = (abs_session se, abs_table t1)"
proof (cases "map_of (rn_sessions t) key")
  case None
  then have "map_of (sessions (abs_table t)) key = None" by (simp add: abs_table_def map_of_map_snd)
  with None assms fresh_session_refines show ?thesis by (simp add: session_of_def open_session_def)
next
  case (Some ex)
  have m: "map_of (sessions (abs_table t)) key = Some (abs_session ex)" using Some by (simp add: abs_table_def map_of_map_snd)
  have d: "abs_table t\<lparr>sessions := AList.delete key (sessions (abs_table t))\<rparr> = abs_table (t\<lparr>rn_sessions := AList.delete key (rn_sessions t)\<rparr>)"
    by (simp add: abs_table_def delete_map_snd)
  show ?thesis using Some assms m d fresh_session_refines
    by (auto simp: session_of_def open_session_def abs_session_def split: if_splits)
qed

section \<open>A turn runs on its route\<close>

text \<open>What the windows know of a session's model: the route last set, unless it is the one the session began with.\<close>

definition route_known :: "(string \<Rightarrow> js_val option) \<Rightarrow> (string \<Rightarrow> string option) \<Rightarrow> run_session \<Rightarrow> bool" where
  "route_known parse b se \<longleftrightarrow>
     (case rn_route se of
        None \<Rightarrow> b (rn_sid se) = an_route (rn_info se)
      | Some i \<Rightarrow> \<exists>r c. rid r = i \<and> findRouteChoice parse (an_choices (rn_info se)) r = Some c \<and>
          (b (rn_sid se) = Some c \<or> an_route (rn_info se) = Some c))"

definition table_known :: "(string \<Rightarrow> js_val option) \<Rightarrow> run_table \<times> (string \<Rightarrow> string option) \<Rightarrow> bool" where
  "table_known parse = (\<lambda>(t, b).
     (\<forall>k se. map_of (rn_sessions t) k = Some se \<longrightarrow> route_known parse b se) \<and>
     (\<forall>k k' se se'. map_of (rn_sessions t) k = Some se \<longrightarrow> map_of (rn_sessions t) k' = Some se' \<longrightarrow> rn_sid se = rn_sid se' \<longrightarrow> k = k'))"

text \<open>The sessions that are answered are not those of another key.\<close>

definition unshared :: "run_io \<Rightarrow> run_table \<Rightarrow> bool" where
  "unshared io t \<longleftrightarrow>
     (\<forall>a. io_new io = Inr a \<longrightarrow> an_id a \<notin> rn_sid ` ran (map_of (rn_sessions t))) \<and>
     (\<forall>p a. io_resume io p = Some a \<longrightarrow> an_id a \<notin> rn_sid ` ran (map_of (rn_sessions t)))"

inductive run_step ::
  "(string \<Rightarrow> js_val option) \<Rightarrow> (string \<Rightarrow> string) \<Rightarrow> run_table \<times> (string \<Rightarrow> string option) \<Rightarrow> run_table \<times> (string \<Rightarrow> string option) \<Rightarrow> bool"
  for parse hash where
  Turn: "unshared io t \<Longrightarrow> run parse hash perm w lm io key resume r prompt t = (out, cs, t') \<Longrightarrow>
    run_step parse hash (t, b) (t', backend_of cs b)"
| Exit: "run_step parse hash (t, b) (run_exited t, b)"

lemma backend_of_append [simp]: "backend_of (cs @ ds) b = backend_of ds (backend_of cs b)"
  by (simp add: backend_of_def)

lemma backend_of_simps [simp]:
  "backend_of [] b = b" "backend_of (c # cs) b = backend_of cs (call_effect c b)"
  by (simp_all add: backend_of_def)

lemma prepare_backend: "prepare_runtime hash w lm io r = (e, cs) \<Longrightarrow> backend_of cs b = b"
  by (auto simp: prepare_runtime_def split: sum.splits if_splits)

lemma route_known_cong: "b (rn_sid se) = b' (rn_sid se) \<Longrightarrow> route_known parse b se = route_known parse b' se"
  by (simp add: route_known_def split: option.split)

lemma table_knownD:
  "table_known parse (t, b) \<Longrightarrow> map_of (rn_sessions t) k = Some se \<Longrightarrow> route_known parse b se"
  "table_known parse (t, b) \<Longrightarrow> map_of (rn_sessions t) k = Some se \<Longrightarrow> map_of (rn_sessions t) k' = Some se' \<Longrightarrow> rn_sid se = rn_sid se' \<Longrightarrow> k = k'"
  unfolding table_known_def by blast+

lemma table_knownI:
  assumes "\<And>k se. map_of (rn_sessions t) k = Some se \<Longrightarrow> route_known parse b se"
    and "\<And>k k' se se'. map_of (rn_sessions t) k = Some se \<Longrightarrow> map_of (rn_sessions t) k' = Some se' \<Longrightarrow> rn_sid se = rn_sid se' \<Longrightarrow> k = k'"
  shows "table_known parse (t, b)"
  unfolding table_known_def using assms by blast

lemma keep_session_known:
  assumes "table_known parse (t, b)" "an_id info \<notin> rn_sid ` ran (map_of (rn_sessions t))"
  shows "table_known parse (snd (keep_session key k info t), b(an_id info := an_route info))"
proof (rule table_knownI)
  let ?t = "snd (keep_session key k info t)"
  let ?se = "\<lparr>rn_info = info, rn_backend = k, rn_route = None\<rparr>"
  have m: "map_of (rn_sessions ?t) = (map_of (rn_sessions t))(key \<mapsto> ?se)" by (simp add: keep_session_def Let_def update_conv')
  have other: "rn_sid se \<noteq> an_id info" if "map_of (rn_sessions t) i = Some se" for i se using assms(2) that by (metis imageI ranI)
  show "route_known parse (b(an_id info := an_route info)) se" if "map_of (rn_sessions ?t) i = Some se" for i se
  proof (cases "i = key")
    case True
    then show ?thesis using that m by (auto simp: route_known_def rn_sid_def)
  next
    case False
    then have "map_of (rn_sessions t) i = Some se" using that m by simp
    with table_knownD(1) [OF assms(1) this] other [OF this] show ?thesis using route_known_cong by (metis fun_upd_other)
  qed
  show "i = j" if "map_of (rn_sessions ?t) i = Some se" "map_of (rn_sessions ?t) j = Some se'" "rn_sid se = rn_sid se'" for i j se se'
    using that table_knownD(2) [OF assms(1)] other m by (force simp: rn_sid_def split: if_splits)
qed

text \<open>A session that is opened is known, and leaves what is known of the others.\<close>

lemma fresh_session_known:
  assumes "table_known parse (t, b)" "unshared io t" "fresh_session io key res cli t = (out, cs, t1)"
  shows "table_known parse (t1, backend_of cs b)"
    and "out = Inr se \<Longrightarrow> map_of (rn_sessions t1) key = Some se \<and> rn_route se = None"
proof -
  have new: "table_known parse (t2, b(an_id info := an_route info))"
    if "keep_session key k info t = (x, t2)" "an_id info \<notin> rn_sid ` ran (map_of (rn_sessions t))" for info k x t2
    using keep_session_known [OF assms(1) that(2), of key k] that(1) by simp
  show "table_known parse (t1, backend_of cs b)"
    using assms new
    by (auto simp: fresh_session_def Let_def unshared_def split: option.splits if_splits sum.splits prod.splits)
  show "map_of (rn_sessions t1) key = Some se \<and> rn_route se = None" if "out = Inr se"
    using assms(3) that
    by (auto simp: fresh_session_def Let_def keep_session_def update_conv' split: option.splits if_splits sum.splits prod.splits)
qed

lemma session_of_known:
  assumes "table_known parse (t, b)" "unshared io t" "session_of io key res cli t = (out, cs, t1)"
  shows "table_known parse (t1, backend_of cs b)" "out = Inr se \<Longrightarrow> map_of (rn_sessions t1) key = Some se"
proof -
  let ?t = "t\<lparr>rn_sessions := AList.delete key (rn_sessions t)\<rparr>"
  have d: "map_of (rn_sessions ?t) k = (if k = key then None else map_of (rn_sessions t) k)" for k by (simp add: delete_conv')
  have k: "table_known parse (?t, b)" using assms(1) d by (auto simp: table_known_def split: if_splits)
  have "ran (map_of (rn_sessions ?t)) \<subseteq> ran (map_of (rn_sessions t))" using d by (auto simp: ran_def split: if_splits)
  then have u: "unshared io ?t" using assms(2) unfolding unshared_def by (meson image_mono subsetD)
  show "table_known parse (t1, backend_of cs b)" "out = Inr se \<Longrightarrow> map_of (rn_sessions t1) key = Some se"
    using assms fresh_session_known [OF assms(1,2)] fresh_session_known [OF k u]
    by (auto simp: session_of_def split: option.splits if_splits)
qed

lemma select_route_cases:
  assumes "select_route parse io r se = (e, cs, se1)"
  obtains (same) "rn_route se = Some (rid r)" "e = None" "cs = []" "se1 = se"
  | (missing) "findRouteChoice parse (an_choices (rn_info se)) r = None" "e = Some (missing_route r)" "cs = []" "se1 = se"
  | (failed) c msg where "findRouteChoice parse (an_choices (rn_info se)) r = Some c" "e = Some msg"
      "cs = [CallModel (rn_sid se) c (Some msg)]" "se1 = se"
  | (set_it) c where "findRouteChoice parse (an_choices (rn_info se)) r = Some c" "e = None"
      "cs = [CallModel (rn_sid se) c None]" "se1 = se\<lparr>rn_route := Some (rid r)\<rparr>"
  | (skip) c where "findRouteChoice parse (an_choices (rn_info se)) r = Some c" "an_route (rn_info se) = Some c" "e = None"
      "cs = []" "se1 = se\<lparr>rn_route := Some (rid r)\<rparr>"
proof (cases "rn_route se = Some (rid r)")
  case True
  then show ?thesis using assms by (intro same) (simp_all add: select_route_def)
next
  case False
  show ?thesis
  proof (cases "findRouteChoice parse (an_choices (rn_info se)) r")
    case None
    then show ?thesis using assms False by (intro missing) (simp_all add: select_route_def)
  next
    case (Some c)
    show ?thesis
    proof (cases "an_route (rn_info se) = Some c")
      case True
      then show ?thesis using assms False Some by (intro skip [of c]) (simp_all add: select_route_def)
    next
      case other: False
      show ?thesis
      proof (cases "io_set io")
        case None
        then show ?thesis using assms False Some other by (intro set_it [of c]) (auto simp: select_route_def)
      next
        case Some2: (Some msg)
        then show ?thesis using assms False Some other by (intro failed [of c msg]) (auto simp: select_route_def)
      qed
    qed
  qed
qed

lemma select_route_known:
  assumes "select_route parse io r se = (e, cs, se1)" "route_known parse b se"
  shows "route_known parse (backend_of cs b) se1" "rn_info se1 = rn_info se" "k \<noteq> rn_sid se \<Longrightarrow> backend_of cs b k = b k"
    and "e = None \<Longrightarrow> rn_route se1 = Some (rid r)"
proof -
  show "route_known parse (backend_of cs b) se1"
    using assms(1)
  proof (cases rule: select_route_cases)
    case (set_it c)
    then show ?thesis by (auto simp: route_known_def rn_sid_def)
  next
    case (skip c)
    then show ?thesis by (auto simp: route_known_def rn_sid_def)
  qed (simp_all add: assms(2))
  show "rn_info se1 = rn_info se" "k \<noteq> rn_sid se \<Longrightarrow> backend_of cs b k = b k" "e = None \<Longrightarrow> rn_route se1 = Some (rid r)"
    using assms(1) by (cases rule: select_route_cases; simp)+
qed

lemma run_known:
  assumes "table_known parse (t, b)" "unshared io t"
    and "run parse hash perm w lm io key res r prompt t = (out, cs, t')"
  shows "table_known parse (t', backend_of cs b)"
proof -
  define cli where "cli = cliBackend perm w r"
  obtain failed c0 where p: "(if cli = None then prepare_runtime hash w lm io r else (None, [])) = (failed, c0)" by fastforce
  have b0: "backend_of c0 b = b" using p prepare_backend by (auto split: if_splits)
  obtain o1 c1 t1 where s1: "session_of io key res cli t = (o1, c1, t1)" by (cases "session_of io key res cli t") auto
  note k1 = session_of_known [OF assms(1,2) s1]
  show ?thesis
  proof (cases failed)
    case (Some e)
    then show ?thesis using assms(1,3) p b0 by (auto simp: run_def Let_def cli_def)
  next
    case None
    show ?thesis
    proof (cases o1)
      case (Inl e)
      then show ?thesis using assms(3) p s1 b0 k1(1) None by (auto simp: run_def Let_def cli_def)
    next
      case (Inr se)
      obtain e c2 se1 where s2: "select_route parse io r se = (e, c2, se1)" by (cases "select_route parse io r se") auto
      have m: "map_of (rn_sessions t1) key = Some se" using k1(2) Inr by simp
      note k2 = select_route_known [OF s2 table_knownD(1) [OF k1(1) m]]
      let ?b = "backend_of c2 (backend_of c1 b)"
      have kept: "route_known parse ?b ex" if "map_of (rn_sessions t1) k = Some ex" "k \<noteq> key" for k ex
        using table_knownD [OF k1(1)] that m k2(3) route_known_cong by metis
      show ?thesis
      proof (cases e)
        case (Some msg)
        have "se1 = se" using s2 by (cases rule: select_route_cases) (simp_all add: Some)
        then have "table_known parse (t1, ?b)" using kept m k2(1) table_knownD(2) [OF k1(1)] by (intro table_knownI) (metis option.inject, blast)
        then show ?thesis using assms(3) p s1 s2 b0 None Inr Some by (auto simp: run_def Let_def cli_def)
      next
        case None2: None
        let ?t = "t1\<lparr>rn_sessions := AList.update key se1 (rn_sessions t1)\<rparr>"
        have "table_known parse (?t, ?b)"
        proof (rule table_knownI)
          have same: "rn_sid se1 = rn_sid se" using k2(2) by (simp add: rn_sid_def)
          show "route_known parse ?b ex" if "map_of (rn_sessions ?t) k = Some ex" for k ex
            using that kept k2(1) by (auto simp: update_conv' split: if_splits)
          show "k = k'" if "map_of (rn_sessions ?t) k = Some ex" "map_of (rn_sessions ?t) k' = Some ex'" "rn_sid ex = rn_sid ex'" for k k' ex ex'
            using that same m table_knownD(2) [OF k1(1)] by (auto simp: update_conv' split: if_splits)
        qed
        then show ?thesis using assms(3) p s1 s2 b0 None Inr None2 by (auto simp: run_def Let_def cli_def)
      qed
    qed
  qed
qed

lemma prompted: "map_sum id (Pair a) x = Inr (b, c) \<longleftrightarrow> a = b \<and> x = Inr c"
  by (cases x) auto

lemma run_spec:
  assumes "run parse hash perm w lm io key res r prompt t = (Inr (sid, stop), cs, t')"
  shows "\<exists>se. map_of (rn_sessions t') key = Some se \<and> rn_sid se = sid \<and> rn_route se = Some (rid r)"
  using assms
  by (auto simp: run_def Let_def update_conv' rn_sid_def prompted split: option.splits sum.splits prod.splits if_splits
      elim!: select_route_cases)

definition run_start :: "run_table \<times> (string \<Rightarrow> string option)" where
  "run_start = (\<lparr>rn_sessions = [], rn_resumable = [], rn_own = []\<rparr>, \<lambda>_. None)"

interpretation runs: step_invariant "run_step parse hash" run_start "table_known parse" for parse hash
proof
  show "table_known parse run_start" by (simp add: run_start_def table_known_def)
  show "table_known parse x'" if "run_step parse hash x x'" "table_known parse x" for x x'
    using that
  proof cases
    case (Turn io t perm w lm key r prompt out cs t' b resume)
    then show ?thesis using run_known that(2) by auto
  next
    case (Exit t b)
    then show ?thesis by (simp add: table_known_def run_exited_def)
  qed
qed

text \<open>
  Property C3: a turn runs on its route. Whatever turns, failures and restarts came before, the turn
  is prompted in the session of its key, and the main process has the model of its route selected
  there, unless that is the model the session began with.
\<close>

theorem turn_runs_on_its_route:
  assumes "(run_step parse hash)\<^sup>*\<^sup>* run_start (t, b)" "unshared io t"
    and "run parse hash perm w lm io key res r prompt t = (Inr (sid, stop), cs, t')"
  shows "\<exists>se q c. map_of (rn_sessions t') key = Some se \<and> rn_sid se = sid \<and> rid q = rid r \<and>
    findRouteChoice parse (an_choices (rn_info se)) q = Some c \<and>
    (backend_of cs b sid = Some c \<or> an_route (rn_info se) = Some c)"
proof -
  have "table_known parse (t', backend_of cs b)" using run_known [OF runs.reached_inv [OF assms(1)] assms(2,3)] .
  moreover obtain se where se: "map_of (rn_sessions t') key = Some se" "rn_sid se = sid" "rn_route se = Some (rid r)"
    using run_spec [OF assms(3)] by blast
  ultimately have "route_known parse (backend_of cs b) se" using table_knownD(1) by blast
  with se show ?thesis by (auto simp: route_known_def)
qed

section \<open>A turn that goes back to the first route\<close>

text \<open>
  The exception is real: \<open>run\<close> compares the choice with the model the session began with, and not with the
  model that is selected. Three turns on Claude Code, on its default, on another model, and on its
  default again: the third runs on the other model.
\<close>

definition demo_claude :: cli_agent where
  "demo_claude = \<lparr>cli_id = ''claude'', cli_name = ''Claude Code'', cli_models = [''default'', ''opus'']\<rparr>"

definition demo_run_world :: shell_world where
  "demo_run_world = demo_world\<lparr>detected := [demo_claude]\<rparr>"

definition demo_answer :: session_answer where
  "demo_answer = toCliSession ''cli:claude:1''
     \<lparr>cs_agent = demo_claude, cs_permissions = Edits, cs_cwd = ''/w'', cs_model = ''default'', cs_session = None, cs_started = False\<rparr>"

definition demo_run_io :: run_io where
  "demo_run_io = \<lparr>io_served = \<lambda>_. Inl ''off'', io_endpoint = None, io_launched = None, io_resume = \<lambda>_. None,
     io_new = Inr demo_answer, io_set = None, io_prompt = Inr ''end_turn''\<rparr>"

definition demo_turn :: "string \<Rightarrow> local_models \<Rightarrow> run_table \<Rightarrow> (string + string \<times> string) \<times> shell_call list \<times> run_table" where
  "demo_turn m lm t = run (\<lambda>_. None) id None demo_run_world lm demo_run_io ''chat'' None (mk_route ''Claude Code'' m) ''Hi'' t"

lemmas demo_run_defs = demo_turn_def run_def session_of_def fresh_session_def keep_session_def select_route_def demo_run_io_def
  demo_answer_def toCliSession_def demo_claude_def cliBackend_def cliAgentFor_def cliAgents_def demo_run_world_def demo_world_def
  findRouteChoice_def encodes_route_def mk_route_def routeId_def rn_sid_def Let_def

lemma demo_first: "\<exists>t1 cs. demo_turn ''default'' lm (fst run_start) = (Inr (''cli:claude:1'', ''end_turn''), cs, t1) \<and>
    backend_of cs b ''cli:claude:1'' = Some ''default'' \<and>
    rn_sessions t1 = [(''chat'', \<lparr>rn_info = demo_answer, rn_backend = Some ''claude'', rn_route = Some ''Claude Code/default''\<rparr>)]"
  by (simp add: demo_run_defs run_start_def)

lemma turn_runs_on_its_route_witness:
  "\<forall>lm. \<exists>sid stop cs t'. demo_turn ''default'' lm (fst run_start) = (Inr (sid, stop), cs, t') \<and> sid \<in> rn_sid ` ran (map_of (rn_sessions t'))"
proof
  fix lm
  have u: "unshared demo_run_io (fst run_start)" by (simp add: unshared_def run_start_def)
  have r: "(run_step (\<lambda>_. None) id)\<^sup>*\<^sup>* run_start (fst run_start, snd run_start)" by simp
  obtain t1 cs where d: "demo_turn ''default'' lm (fst run_start) = (Inr (''cli:claude:1'', ''end_turn''), cs, t1)"
    using demo_first [of lm "snd run_start"] by blast
  from turn_runs_on_its_route [OF r u d [unfolded demo_turn_def]] obtain se
    where "map_of (rn_sessions t1) ''chat'' = Some se" "rn_sid se = ''cli:claude:1''" by blast
  then have "''cli:claude:1'' \<in> rn_sid ` ran (map_of (rn_sessions t1))" by (metis imageI ranI)
  with d show "\<exists>sid stop cs t'. demo_turn ''default'' lm (fst run_start) = (Inr (sid, stop), cs, t') \<and> sid \<in> rn_sid ` ran (map_of (rn_sessions t'))" by blast
qed

definition demo_chat_on :: "string \<Rightarrow> run_session" where
  "demo_chat_on m = \<lparr>rn_info = demo_answer, rn_backend = Some ''claude'', rn_route = Some (''Claude Code/'' @ m)\<rparr>"

lemma demo_again:
  assumes "rn_sessions t = [(''chat'', demo_chat_on m)]"
  shows "m = ''default'' \<Longrightarrow> demo_turn ''opus'' lm t =
      (Inr (''cli:claude:1'', ''end_turn''), [CallModel ''cli:claude:1'' ''opus'' None, CallPrompt ''cli:claude:1'' ''Hi'' (Inr ''end_turn'')],
       t\<lparr>rn_sessions := [(''chat'', demo_chat_on ''opus'')]\<rparr>)"
    and "m = ''opus'' \<Longrightarrow> demo_turn ''default'' lm t =
      (Inr (''cli:claude:1'', ''end_turn''), [CallPrompt ''cli:claude:1'' ''Hi'' (Inr ''end_turn'')],
       t\<lparr>rn_sessions := [(''chat'', demo_chat_on ''default'')]\<rparr>)"
  using assms by (simp_all add: demo_run_defs demo_chat_on_def)

lemma first_route_is_not_set_again:
  "\<exists>t1 t2 t3 c1 c2 c3 x. demo_turn ''default'' lm (fst run_start) = (x, c1, t1) \<and> demo_turn ''opus'' lm t1 = (x, c2, t2) \<and>
     demo_turn ''default'' lm t2 = (x, c3, t3) \<and> x = Inr (''cli:claude:1'', ''end_turn'') \<and>
     backend_of c3 (backend_of c2 (backend_of c1 b)) ''cli:claude:1'' = Some ''opus''"
proof -
  let ?x = "Inr (''cli:claude:1'', ''end_turn'')"
  obtain t1 c1 where 1: "demo_turn ''default'' lm (fst run_start) = (?x, c1, t1)" "rn_sessions t1 = [(''chat'', demo_chat_on ''default'')]"
    using demo_first [of lm b] by (auto simp: demo_chat_on_def)
  let ?t2 = "t1\<lparr>rn_sessions := [(''chat'', demo_chat_on ''opus'')]\<rparr>"
  have 2: "rn_sessions ?t2 = [(''chat'', demo_chat_on ''opus'')]" by simp
  let ?t3 = "t1\<lparr>rn_sessions := [(''chat'', demo_chat_on ''opus'')]\<rparr>\<lparr>rn_sessions := [(''chat'', demo_chat_on ''default'')]\<rparr>"
  let ?c2 = "[CallModel ''cli:claude:1'' ''opus'' None, CallPrompt ''cli:claude:1'' ''Hi'' (Inr ''end_turn'')]"
  let ?c3 = "[CallPrompt ''cli:claude:1'' ''Hi'' (Inr ''end_turn'')]"
  have "demo_turn ''opus'' lm t1 = (?x, ?c2, ?t2)" by (rule demo_again(1) [OF 1(2) refl])
  moreover have "demo_turn ''default'' lm ?t2 = (?x, ?c3, ?t3)" by (rule demo_again(2) [OF 2 refl])
  moreover have "backend_of ?c3 (backend_of ?c2 (backend_of c1 b)) ''cli:claude:1'' = Some ''opus''" by simp
  ultimately show ?thesis using 1(1) by blast
qed

section \<open>Completions, questions and answers\<close>

text \<open>
  A completion on a CLI leaves nothing behind. Its session is read-only, and however the
  turn ends (the model cannot be set, the turn fails, it answers) the session that was opened is closed last.
\<close>

lemma completion_closes_its_session:
  assumes "completeOnCli w io r prompt es = (out, cs)" "io_new io = Inr a"
  shows "last cs = CallClose (an_id a)" "hd cs = CallNew (map_option (\<lambda>a. (cli_id a, ReadOnly)) (cliAgentFor w r)) (Inr a)"
    and "out = Inr txt \<Longrightarrow> txt = js_trim (concat (map text_of_event (heard (an_id a) es)))"
  using assms by (auto simp: completeOnCli_def Let_def cliBackend_def split: option.splits; cases "io_prompt io"; simp)+

lemma pick_items_same: "distinct (map rid rs) \<Longrightarrow> s \<in> set rs \<Longrightarrow> set (pick_items rs (Some s)) = set rs \<and> distinct (pick_items rs (Some s))"
  by (auto simp: pick_items_def distinct_map inj_on_def)

text \<open>An answer is one of the request's options: one that allows only when such a button was pressed.\<close>

lemma permission_answer:
  assumes "onPermission own q elsewhere d = Some (i, Some o1)"
  shows "pq_session q \<in> set own \<and> \<not> elsewhere \<and> i = pq_id q"
    and "\<exists>x\<in>set (pq_options q). po_id x = o1 \<and> (prefix ''allow'' (po_kind x) \<longleftrightarrow> d \<noteq> DialogCancelled)"
proof -
  show "pq_session q \<in> set own \<and> \<not> elsewhere \<and> i = pq_id q" using assms by (simp add: onPermission_def Let_def split: if_splits)
  show "\<exists>x\<in>set (pq_options q). po_id x = o1 \<and> (prefix ''allow'' (po_kind x) \<longleftrightarrow> d \<noteq> DialogCancelled)"
  proof (cases d)
    case (Button n)
    let ?a = "filter (\<lambda>x. prefix ''allow'' (po_kind x)) (pq_options q)"
    have "n < length ?a" "po_id (?a ! n) = o1" using assms Button by (auto simp: onPermission_def Let_def split: if_splits)
    moreover from calculation(1) have "?a ! n \<in> set ?a" by (rule nth_mem)
    ultimately show ?thesis using Button by auto
  next
    case DialogCancelled
    then obtain x where "List.find (\<lambda>x. po_kind x = ''reject_once'') (pq_options q) = Some x" "po_id x = o1"
      using assms by (auto simp: onPermission_def Let_def split: if_splits)
    then show ?thesis using DialogCancelled by (auto simp: find_Some_iff in_set_conv_nth intro!: bexI [of _ x])
  qed
qed

end
