(* ===== verification/Hivemind_Pointer.thy ===== *)
theory Hivemind_Pointer
  imports Hivemind_Node
begin

text \<open>
  The pointer block the IDE keeps in \<open>AGENTS.md\<close> and \<open>CLAUDE.md\<close>: \<open>ensurePointer\<close> of
  \<open>browser/hivemind/hivemindService.ts\<close> on the text of a file (\<open>None\<close>: no such file), with the
  markers and the block of \<open>common/hivemindProtocol.ts\<close>.
\<close>

definition HIVEMIND_POINTER_START :: string where
  "HIVEMIND_POINTER_START = ''<!-- hivemind:start -->''"

definition HIVEMIND_POINTER_END :: string where
  "HIVEMIND_POINTER_END = ''<!-- hivemind:end -->''"

definition pointer_body :: string where
  "pointer_body = [nl] @ ''## Hivemind (shared AI context)'' @ [nl, nl]
     @ ''This project keeps shared context for people and AIs in `.hivemind/`. Before you start, read `.hivemind/README.md`, then `.hivemind/project.md` and the most recently updated nodes in `.hivemind/nodes/`. When you stop, record your work as a node exactly as `.hivemind/README.md` describes, so the next AI can pick up where you left off.''
     @ [nl]"

definition HIVEMIND_POINTER_BLOCK :: string where
  "HIVEMIND_POINTER_BLOCK = HIVEMIND_POINTER_START @ pointer_body @ HIVEMIND_POINTER_END"

text \<open>\<open>s.indexOf(pat)\<close>; \<open>None\<close> is -1.\<close>

definition index_of_sub :: "string \<Rightarrow> string \<Rightarrow> nat option" where
  "index_of_sub pat s = map_option (\<lambda>(a, b). length a) (find_sub pat s)"

definition ensurePointer :: "string option \<Rightarrow> string" where
  "ensurePointer existing =
     (case existing of
        None \<Rightarrow> HIVEMIND_POINTER_BLOCK @ [nl]
      | Some s \<Rightarrow>
          (case (index_of_sub HIVEMIND_POINTER_START s, index_of_sub HIVEMIND_POINTER_END s) of
             (Some start, Some end) \<Rightarrow>
               if end > start
               then take start s @ HIVEMIND_POINTER_BLOCK @ drop (end + length HIVEMIND_POINTER_END) s
               else rtrim s @ [nl, nl] @ HIVEMIND_POINTER_BLOCK @ [nl]
           | _ \<Rightarrow> rtrim s @ [nl, nl] @ HIVEMIND_POINTER_BLOCK @ [nl]))"

section \<open>Where a marker is found\<close>

lemma find_sub_Some: "find_sub pat s = Some (a, b) \<Longrightarrow> s = a @ pat @ b"
proof (induction s arbitrary: a)
  case (Cons c s)
  show ?case
  proof (cases "strip_prefix pat (c # s)")
    case None
    with Cons.prems obtain a' where "find_sub pat s = Some (a', b)" "a = c # a'" by auto
    with Cons.IH show ?thesis by simp
  next
    case (Some r)
    with Cons.prems show ?thesis by (simp add: strip_prefix_Some)
  qed
qed (simp split: if_splits)

text \<open>\<open>u\<close> has no occurrence of \<open>pat\<close> that starts in it, when \<open>v\<close> follows.\<close>

definition no_start :: "string \<Rightarrow> string \<Rightarrow> string \<Rightarrow> bool" where
  "no_start pat u v \<longleftrightarrow> (\<forall>i<length u. strip_prefix pat (drop i u @ v) = None)"

lemma no_start_Cons: "no_start pat (c # u) v \<longleftrightarrow> strip_prefix pat (c # u @ v) = None \<and> no_start pat u v"
  by (auto simp: no_start_def less_Suc_eq_0_disj)

lemma no_start_Nil [simp]: "no_start pat [] v"
  by (simp add: no_start_def)

lemma no_start_append: "no_start pat (u @ v) w \<longleftrightarrow> no_start pat u (v @ w) \<and> no_start pat v w"
  by (induction u) (simp_all add: no_start_Cons)

lemma find_sub_after:
  "no_start pat u v \<Longrightarrow> find_sub pat (u @ v) = map_option (\<lambda>(a, b). (u @ a, b)) (find_sub pat v)"
proof (induction u)
  case Nil
  then show ?case by (cases "find_sub pat v") auto
next
  case (Cons c u)
  then show ?case by (cases "find_sub pat v") (auto simp: no_start_Cons)
qed

lemma find_sub_self:
  assumes "pat \<noteq> []"
  shows "find_sub pat (pat @ b) = Some ([], b)"
proof -
  obtain c p where "pat = c # p" using assms by (cases pat) auto
  moreover have "strip_prefix pat (pat @ b) = Some b" by simp
  ultimately show ?thesis by simp
qed

lemma find_sub_no_start: "find_sub pat s = Some (a, b) \<Longrightarrow> no_start pat a (pat @ b)"
proof (induction s arbitrary: a)
  case (Cons c s)
  show ?case
  proof (cases "strip_prefix pat (c # s)")
    case None
    with Cons.prems obtain a' where a': "find_sub pat s = Some (a', b)" "a = c # a'" by auto
    with find_sub_Some None have "strip_prefix pat (c # a' @ pat @ b) = None" by metis
    with Cons.IH a' show ?thesis by (simp add: no_start_Cons)
  next
    case (Some r)
    with Cons.prems show ?thesis by (simp add: no_start_def)
  qed
qed (simp add: no_start_def split: if_splits)

lemma find_sub_None: "find_sub pat s = None \<Longrightarrow> no_start pat s []"
  by (induction s) (auto simp: no_start_Cons split: option.splits)

text \<open>An occurrence depends on no more than its own length.\<close>

lemma strip_prefix_None: "strip_prefix p s = None \<longleftrightarrow> \<not> prefix p s"
  using strip_prefix_Some [of p s] by (cases "strip_prefix p s") (auto simp: prefix_def)

lemma no_start_tail:
  assumes "no_start pat u (p @ v)" "length pat \<le> Suc (length p)"
  shows "no_start pat u (p @ w)"
proof -
  have "\<not> prefix pat (drop i u @ p @ w)" if "i < length u" for i
  proof
    assume "prefix pat (drop i u @ p @ w)"
    then have "prefix pat ((drop i u @ p) @ w)" by simp
    moreover have "length pat \<le> length (drop i u @ p)" using assms(2) that by simp
    ultimately have "prefix pat (drop i u @ p)" by (rule prefix_length_prefix [OF _ prefixI [OF refl]])
    then have "prefix pat ((drop i u @ p) @ v)" by (rule prefix_prefix)
    with assms(1) that show False by (simp add: no_start_def strip_prefix_None)
  qed
  then show ?thesis by (simp add: no_start_def strip_prefix_None)
qed

lemma no_start_newline:
  assumes "nl \<notin> set pat" "no_start pat u []"
  shows "no_start pat u (nl # v)"
proof -
  have "strip_prefix pat (drop i u @ nl # v) = None" if "i < length u" for i
    using assms(2) that by (intro strip_prefix_none [OF assms(1)]) (simp add: no_start_def strip_prefix_None)
  then show ?thesis by (simp add: no_start_def)
qed
section \<open>Refreshing the block settles\<close>

text \<open>The markers of a file are whole: none, or a start before the first end.\<close>

definition markers_ok :: "string option \<Rightarrow> bool" where
  "markers_ok existing =
     (case existing of
        None \<Rightarrow> True
      | Some s \<Rightarrow>
          (case (index_of_sub HIVEMIND_POINTER_START s, index_of_sub HIVEMIND_POINTER_END s) of
             (None, None) \<Rightarrow> True | (Some i, Some j) \<Rightarrow> i < j | _ \<Rightarrow> False))"

lemma end_in_block: "find_sub HIVEMIND_POINTER_END HIVEMIND_POINTER_BLOCK = Some (HIVEMIND_POINTER_START @ pointer_body, [])"
  by code_simp

lemma marker_chars:
  "HIVEMIND_POINTER_START \<noteq> []" "HIVEMIND_POINTER_END \<noteq> []"
  "nl \<notin> set HIVEMIND_POINTER_START" "nl \<notin> set HIVEMIND_POINTER_END"
  "length HIVEMIND_POINTER_END \<le> length HIVEMIND_POINTER_START"
  by (simp_all add: HIVEMIND_POINTER_START_def HIVEMIND_POINTER_END_def nl_def)

lemma no_start_weaken: "no_start pat u w \<Longrightarrow> no_start pat u []"
  by (auto simp: no_start_def strip_prefix_None)

lemma pointer_in_place:
  assumes "no_start HIVEMIND_POINTER_START pre (HIVEMIND_POINTER_START @ v)"
    and "no_start HIVEMIND_POINTER_END pre (HIVEMIND_POINTER_START @ w)"
  shows "ensurePointer (Some (pre @ HIVEMIND_POINTER_BLOCK @ post)) = pre @ HIVEMIND_POINTER_BLOCK @ post"
proof -
  let ?S = HIVEMIND_POINTER_START and ?E = HIVEMIND_POINTER_END and ?B = pointer_body
  let ?t = "pre @ ?S @ ?B @ ?E @ post"
  have "no_start ?S pre (?S @ ?B @ ?E @ post)"
    using assms(1) by (rule no_start_tail) simp
  then have s: "find_sub ?S ?t = Some (pre, ?B @ ?E @ post)"
    by (simp add: find_sub_after find_sub_self marker_chars)
  have e1: "no_start ?E pre (?S @ ?B @ ?E @ post)"
    using assms(2) by (rule no_start_tail) (use marker_chars in simp)
  have "no_start ?E (?S @ ?B) (?E @ [])"
    using find_sub_no_start [OF end_in_block] by simp
  then have "no_start ?E (?S @ ?B) (?E @ post)" by (rule no_start_tail) simp
  with e1 have "no_start ?E (pre @ ?S @ ?B) (?E @ post)" by (simp add: no_start_append)
  then have "find_sub ?E ((pre @ ?S @ ?B) @ ?E @ post) = Some (pre @ ?S @ ?B, post)"
    by (simp only: find_sub_after find_sub_self [OF marker_chars(2)]) simp
  with s marker_chars(1) show ?thesis
    by (simp add: ensurePointer_def index_of_sub_def HIVEMIND_POINTER_BLOCK_def)
qed

lemma rtrim_prefix: "\<exists>w. s = rtrim s @ w"
proof -
  have "s = rev (dropWhile is_js_space (rev s)) @ rev (takeWhile is_js_space (rev s))"
    by (metis rev_append rev_rev_ident takeWhile_dropWhile_id)
  then show ?thesis unfolding rtrim_def by blast
qed

text \<open>Refreshing the pointer block is stable: a second start changes nothing, and the first
  one replaced exactly the marked block, or added one after the file's own text.\<close>

lemma pointer_block_settles:
  assumes "markers_ok existing"
  shows "ensurePointer (Some (ensurePointer existing)) = ensurePointer existing \<and>
    (\<exists>pre post. ensurePointer existing = pre @ HIVEMIND_POINTER_BLOCK @ post \<and>
       (\<forall>s. existing = Some s \<longrightarrow>
          (\<exists>old. s = pre @ HIVEMIND_POINTER_START @ old @ post \<and> suffix HIVEMIND_POINTER_END old) \<or>
          pre = rtrim s @ [nl, nl] \<and> post = [nl]))"
proof -
  let ?S = HIVEMIND_POINTER_START and ?E = HIVEMIND_POINTER_END
  have settle: ?thesis if "ensurePointer existing = pre @ HIVEMIND_POINTER_BLOCK @ post"
    "no_start ?S pre (?S @ v)" "no_start ?E pre (?S @ w)"
    "\<forall>s. existing = Some s \<longrightarrow> (\<exists>old. s = pre @ ?S @ old @ post \<and> suffix ?E old) \<or> pre = rtrim s @ [nl, nl] \<and> post = [nl]"
    for pre post v w
    using that pointer_in_place [OF that(2,3)] by metis
  show ?thesis
  proof (cases existing)
    case None
    then show ?thesis by (intro settle [of "[]" "[nl]"]) (simp_all add: ensurePointer_def)
  next
    case (Some s)
    show ?thesis
    proof (cases "find_sub ?S s")
      case None
      then have "find_sub ?E s = None"
        using assms Some by (auto simp: markers_ok_def index_of_sub_def split: option.splits)
      obtain u where u: "u = rtrim s" by blast
      have n: "no_start ?S u [] \<and> no_start ?E u []"
        using find_sub_None [OF None] find_sub_None [OF \<open>find_sub ?E s = None\<close>] rtrim_prefix [of s] no_start_append no_start_weaken
        unfolding u by metis
      have "ensurePointer existing = (u @ [nl, nl]) @ HIVEMIND_POINTER_BLOCK @ [nl]"
        using Some None u by (simp add: ensurePointer_def index_of_sub_def)
      moreover have "no_start ?S [nl, nl] (?S @ [])" "no_start ?E [nl, nl] (?S @ [])"
        by (simp_all add: no_start_Cons HIVEMIND_POINTER_START_def HIVEMIND_POINTER_END_def nl_def)
      moreover have "no_start ?S u ([nl, nl] @ ?S @ [])" "no_start ?E u ([nl, nl] @ ?S @ [])"
        using n marker_chars(3,4) no_start_newline by simp_all
      ultimately show ?thesis using Some u by (intro settle [where pre = "u @ [nl, nl]" and post = "[nl]" and v = "[]" and w = "[]"]) (auto simp: no_start_append)
    next
      case (Some q)
      obtain pre r where q: "q = (pre, r)" by fastforce
      with Some have fs: "find_sub ?S s = Some (pre, r)" by simp
      then obtain e0 post where fe: "find_sub ?E s = Some (e0, post)" "length pre < length e0"
        using assms \<open>existing = Some s\<close> by (auto simp: markers_ok_def index_of_sub_def split: option.splits)
      have s: "s = pre @ ?S @ r" "s = e0 @ ?E @ post" using find_sub_Some fs fe(1) by blast+
      then obtain e1 where e1: "e0 = pre @ e1" "?S @ r = e1 @ ?E @ post"
        using fe(2) append_eq_append_conv2 [of pre "?S @ r" e0 "?E @ post"] by (metis leD length_append le_add1)
      have "no_start ?E (pre @ e1) (?E @ post)" using find_sub_no_start fe(1) e1(1) by blast
      then have "no_start ?E pre (?S @ r)" by (simp add: no_start_append flip: e1(2))
      moreover have "no_start ?S pre (?S @ r)" using find_sub_no_start fs by blast
      moreover have "ensurePointer existing = pre @ HIVEMIND_POINTER_BLOCK @ post"
      proof -
        have "take (length pre) s = pre" by (simp add: s(1))
        moreover have "drop (length e0 + length ?E) s = post" by (simp add: s(2))
        ultimately show ?thesis using \<open>existing = Some s\<close> fs fe by (simp add: ensurePointer_def index_of_sub_def)
      qed
      moreover have "\<exists>old. s = pre @ ?S @ old @ post \<and> suffix ?E old"
      proof -
        have "length ?S \<le> length e1"
        proof (rule ccontr)
          assume "\<not> length ?S \<le> length e1"
          then have lt: "length e1 < length ?S" by simp
          have "0 < length e1" using fe(2) e1(1) by simp
          have "?S ! length e1 = (e1 @ ?E @ post) ! length e1" using lt by (simp add: nth_append flip: e1(2))
          also have "\<dots> = CHR ''<''" by (simp add: nth_append HIVEMIND_POINTER_END_def)
          finally have at: "?S ! length e1 = CHR ''<''" .
          have small: "length e1 - 1 < length (tl ?S)" using lt \<open>0 < length e1\<close> unfolding length_tl by linarith
          moreover from small have "tl ?S ! (length e1 - 1) = CHR ''<''"
            using at \<open>0 < length e1\<close> by (subst nth_tl) simp_all
          ultimately have "CHR ''<'' \<in> set (tl ?S)" by (metis nth_mem)
          then show False by (simp add: HIVEMIND_POINTER_START_def)
        qed
        moreover have "take (length ?S) (e1 @ ?E @ post) = ?S" by (simp flip: e1(2))
        ultimately have "take (length ?S) e1 = ?S" by simp
        then obtain m where "e1 = ?S @ m" by (metis append_take_drop_id)
        with e1(2) s(1) show ?thesis by (intro exI [of _ "m @ ?E"]) (simp add: suffix_def)
      qed
      ultimately show ?thesis using settle \<open>existing = Some s\<close> by blast
    qed
  qed
qed


lemma pointer_block_settles_witness:
  "ensurePointer (Some (ensurePointer (Some ''Notes  ''))) = ensurePointer (Some ''Notes  '')"
proof -
  have "markers_ok (Some ''Notes  '')" by code_simp
  from pointer_block_settles [OF this] show ?thesis by simp
qed

text \<open>
  Without whole markers refreshing does not settle: a start marker whose end was deleted is taken, on
  the next start, to run to the block that was appended, and the text between is dropped.
\<close>

lemma unclosed_marker_loses_text:
  "let once = ensurePointer (Some (HIVEMIND_POINTER_START @ '' my notes''))
   in sublist ''my notes'' once \<and> \<not> sublist ''my notes'' (ensurePointer (Some once))"
  by code_simp

end
