(* ===== verification/Hivemind_Setup.thy ===== *)
theory Hivemind_Setup
  imports Hivemind_Pointer Hivemind_Service
begin

text \<open>
  Setting up the \<open>.hivemind\<close> folder of each workspace folder: \<open>initialize\<close> and \<open>scaffold\<close> of
  \<open>browser/hivemind/hivemindService.ts\<close> with the texts of \<open>common/hivemindProtocol.ts\<close>. The files are
  those of \<open>Hivemind_Service\<close>; which writes and folders fail is an argument.
\<close>

section \<open>Texts\<close>

definition HIVEMIND_README :: string where
  "HIVEMIND_README = js_join [nl]
    [''<!-- Managed by HivemindIDE (hivemind protocol 1). Rewritten when the protocol changes; put project knowledge in project.md. -->'',
     ''# .hivemind'',
     [],
     ''Shared memory for the people and AIs working on this project. Any AI '' @ [CHR 0xE2, CHR 0x80, CHR 0x94] @ '' HivemindIDE'' @ [CHR 0x27] @ ''s own, Claude Code, Codex, Cursor, Copilot '' @ [CHR 0xE2, CHR 0x80, CHR 0x94] @ '' reads it before starting and records its work here when it stops, so the next one can pick up where it left off.'',
     [],
     ''## Layout'',
     [],
     ''- `project.md`: durable knowledge: what the project is, conventions, decisions, gotchas. Edit it when you learn something the next AI should know.'',
     ''- `nodes/<id>.md`: one file per unit of work (a chat, an agent run, a task). Nodes form a graph through `parent`.'',
     [],
     ''## Before you start'',
     [],
     ''1. Read `project.md`.'',
     ''2. List `nodes/` and read the most recently `updated` nodes, especially any `active` or `paused` ones related to your task.'',
     ''3. If you are continuing a node, read it fully and start from its **Handoff**.'',
     [],
     ''## When you work'',
     [],
     ''Create **your own** node file. To continue someone else'' @ [CHR 0x27] @ ''s node, create a new node with `parent:` set to theirs. Do not edit another author'' @ [CHR 0x27] @ ''s node except to set its `status` to `done` once your child node finishes the work.'',
     [],
     ''File name: `nodes/<id>.md`, where `<id>` is `YYYYMMDD-HHMM-short-slug-xxxx` (UTC time, a few words, 4 random letters or digits).'',
     [],
     ''```markdown'',
     ''---'',
     ''id: 20260925-0215-lease-queue-fix-k3v9'',
     ''title: Fix lease queue promotion order'',
     ''parent: 20260924-1730-lease-audit-p2d1'',
     ''status: active'',
     ''author: Bima'',
     ''agent: Claude Code'',
     ''model: sonnet-4'',
     ''created: 2026-09-25T02:15:00Z'',
     ''updated: 2026-09-25T02:40:00Z'',
     ''---'',
     [],
     ''## Goal'',
     ''What this node is trying to achieve, in a sentence or two.'',
     [],
     ''## Handoff'',
     ''Where the work stands right now and the very next step. Written for a reader'',
     ''with no other context. Keep it current: overwrite it, do not append to it.'',
     [],
     ''## Files'',
     ''- services/coordination/internal/lease/lease.go'',
     [],
     ''## Log'',
     ''### 2026-09-25 02:15 '' @ middle_dot @ '' Bima'',
     ''What was asked, what was done or answered, what was decided.'',
     ''```'',
     [],
     ''Rules:'',
     [],
     ''- Front matter uses the keys above; values stay on one line. `parent` and `model` are optional. Tools may add their own keys (HivemindIDE adds `chatSession`): keep any key you do not recognise.'',
     ''- `status` is `active` (being worked on), `paused` (stopped part-way; the Handoff says how to resume) or `done`.'',
     ''- Update `updated` and the Handoff every time you stop. Append to Log; never rewrite earlier entries.'',
     ''- Never put secrets, tokens or credentials in `.hivemind`. It is shared with everyone on the project.'',
     []]"

definition HIVEMIND_PROJECT_TEMPLATE :: string where
  "HIVEMIND_PROJECT_TEMPLATE = js_join [nl]
    [''# Project notes'',
     [],
     ''<!-- Durable knowledge for every AI and teammate working here. HivemindIDE never overwrites this file. -->'',
     [],
     ''## What this project is'',
     [],
     ''## Conventions'',
     [],
     ''## Decisions'',
     [],
     ''## Gotchas'',
     []]"

definition HIVEMIND_POINTER_FILES :: "string list" where
  "HIVEMIND_POINTER_FILES = [''AGENTS.md'', ''CLAUDE.md'']"

section \<open>Writing files\<close>

type_synonym hm_files_map = "string \<Rightarrow> string option"

record setup_env =
  se_enabled :: bool
  se_trusted :: bool
  se_pointers :: bool
  se_home :: string
  se_readonly :: "string \<Rightarrow> bool"
  se_exists :: "string \<Rightarrow> bool"      \<comment> \<open>folders\<close>
  se_fails :: "string \<Rightarrow> bool"       \<comment> \<open>what cannot be written or created\<close>

text \<open>Whether the call came back, and the files after it.\<close>

definition put_file :: "(string \<Rightarrow> bool) \<Rightarrow> string \<Rightarrow> string \<Rightarrow> hm_files_map \<Rightarrow> bool \<times> hm_files_map" where
  "put_file fails p c m = (if fails p then (False, m) else (True, m(p \<mapsto> c)))"

definition writeIfMissing :: "(string \<Rightarrow> bool) \<Rightarrow> string \<Rightarrow> string \<Rightarrow> hm_files_map \<Rightarrow> bool \<times> hm_files_map" where
  "writeIfMissing fails p c m = (if m p = None then put_file fails p c m else (True, m))"

definition writeIfDifferent :: "(string \<Rightarrow> bool) \<Rightarrow> string \<Rightarrow> string \<Rightarrow> hm_files_map \<Rightarrow> bool \<times> hm_files_map" where
  "writeIfDifferent fails p c m = (if m p \<noteq> Some c then put_file fails p c m else (True, m))"

definition write_pointer :: "(string \<Rightarrow> bool) \<Rightarrow> string \<Rightarrow> hm_files_map \<Rightarrow> bool \<times> hm_files_map" where
  "write_pointer fails p m = (let n = ensurePointer (m p) in if Some n \<noteq> m p then put_file fails p n m else (True, m))"

text \<open>Calls one after the other, up to the first that throws.\<close>

fun in_order :: "(hm_files_map \<Rightarrow> bool \<times> hm_files_map) list \<Rightarrow> hm_files_map \<Rightarrow> bool \<times> hm_files_map" where
  "in_order [] m = (True, m)"
| "in_order (f # fs) m = (case f m of (True, m1) \<Rightarrow> in_order fs m1 | (False, m1) \<Rightarrow> (False, m1))"

definition scaffold :: "setup_env \<Rightarrow> string \<Rightarrow> hm_files_map \<Rightarrow> bool \<times> hm_files_map" where
  "scaffold env base m =
     (let hivemind = base @ ''/.hivemind''; nodes = hivemind @ ''/nodes''
      in in_order
        ([\<lambda>m. (se_exists env nodes \<or> \<not> se_fails env nodes, m),
          writeIfMissing (se_fails env) (nodes @ ''/.gitkeep'') [],
          writeIfDifferent (se_fails env) (hivemind @ ''/README.md'') HIVEMIND_README,
          writeIfMissing (se_fails env) (hivemind @ ''/project.md'') HIVEMIND_PROJECT_TEMPLATE]
         @ (if se_pointers env then map (\<lambda>n. write_pointer (se_fails env) (base @ ''/'' @ n)) HIVEMIND_POINTER_FILES else [])) m)"

text \<open>One folder of \<open>initialize\<close>: the primary folder so far, and the files.\<close>

definition setup_folder :: "setup_env \<Rightarrow> string \<Rightarrow> string option \<times> hm_files_map \<Rightarrow> string option \<times> hm_files_map" where
  "setup_folder env base = (\<lambda>(primary, m).
     if base = se_home env \<or> se_readonly env base then (primary, m)
     else case scaffold env base m of
            (True, m1) \<Rightarrow> (case primary of None \<Rightarrow> Some (base @ ''/.hivemind'') | Some p \<Rightarrow> Some p, m1)
          | (False, m1) \<Rightarrow> (primary, m1))"

text \<open>\<open>listing\<close> are the files of the nodes folder of the primary folder.\<close>

definition initialize ::
  "setup_env \<Rightarrow> string list \<Rightarrow> (string \<Rightarrow> string \<Rightarrow> bool) \<Rightarrow> (string option \<Rightarrow> string list) \<Rightarrow> hm_state \<Rightarrow> hm_state" where
  "initialize env folders le listing s =
     (if \<not> se_enabled env \<or> \<not> se_trusted env \<or> folders = [] then s\<lparr>hm_folder := None, hm_nodes := []\<rparr>
      else (case fold (setup_folder env) folders (None, hm_files s) of
              (primary, m) \<Rightarrow> loadNodes le (listing primary) (s\<lparr>hm_folder := primary, hm_files := m\<rparr>)))"

section \<open>What a set-up writes\<close>

text \<open>Every step brings one file to what it should be.\<close>

definition write_step :: "(string \<Rightarrow> bool) \<Rightarrow> string \<times> (string option \<Rightarrow> string) \<Rightarrow> hm_files_map \<Rightarrow> bool \<times> hm_files_map" where
  "write_step fails = (\<lambda>(p, g) m. if m p = Some (g (m p)) then (True, m) else put_file fails p (g (m p)) m)"

lemma write_steps:
  "writeIfMissing fails p c = write_step fails (p, \<lambda>v. case v of Some x \<Rightarrow> x | None \<Rightarrow> c)"
  "writeIfDifferent fails p c = write_step fails (p, \<lambda>_. c)"
  "write_pointer fails p = write_step fails (p, ensurePointer)"
  by (auto simp: fun_eq_iff writeIfMissing_def writeIfDifferent_def write_pointer_def write_step_def Let_def split: option.split)

definition setup_files :: "setup_env \<Rightarrow> string \<Rightarrow> (string \<times> (string option \<Rightarrow> string)) list" where
  "setup_files env base =
     [(base @ ''/.hivemind/nodes/.gitkeep'', \<lambda>v. case v of Some x \<Rightarrow> x | None \<Rightarrow> []),
      (base @ ''/.hivemind/README.md'', \<lambda>_. HIVEMIND_README),
      (base @ ''/.hivemind/project.md'', \<lambda>v. case v of Some x \<Rightarrow> x | None \<Rightarrow> HIVEMIND_PROJECT_TEMPLATE)]
     @ (if se_pointers env then [(base @ ''/AGENTS.md'', ensurePointer), (base @ ''/CLAUDE.md'', ensurePointer)] else [])"

lemma scaffold_steps:
  "scaffold env base m =
     (if se_exists env (base @ ''/.hivemind/nodes'') \<or> \<not> se_fails env (base @ ''/.hivemind/nodes'')
      then in_order (map (write_step (se_fails env)) (setup_files env base)) m else (False, m))"
  by (cases "se_pointers env") (simp_all add: scaffold_def setup_files_def write_steps HIVEMIND_POINTER_FILES_def Let_def)

lemma setup_files_distinct: "distinct (map fst (setup_files env base))"
  by (cases "se_pointers env") (simp_all add: setup_files_def)

lemma in_order_other:
  "in_order (map (write_step fails) ps) m = (ok, m1) \<Longrightarrow> q \<notin> fst ` set ps \<Longrightarrow> m1 q = m q"
  by (induction ps arbitrary: m) (auto simp: write_step_def put_file_def split: prod.splits bool.splits if_splits)

lemma in_order_written:
  "in_order (map (write_step fails) ps) m = (True, m1) \<Longrightarrow> distinct (map fst ps) \<Longrightarrow> (p, g) \<in> set ps \<Longrightarrow> m1 p = Some (g (m p))"
proof (induction ps arbitrary: m)
  case (Cons x ps)
  obtain m2 where m2: "write_step fails x m = (True, m2)" "in_order (map (write_step fails) ps) m2 = (True, m1)"
    using Cons.prems(1) by (auto split: prod.splits bool.splits)
  have st: "m2 (fst x) = Some (snd x (m (fst x))) \<and> (\<forall>q. q \<noteq> fst x \<longrightarrow> m2 q = m q)"
    using m2(1) by (cases x) (auto simp: write_step_def put_file_def split: if_splits)
  show ?case
  proof (cases "x = (p, g)")
    case True
    then show ?thesis using st in_order_other [OF m2(2)] Cons.prems(2) by auto
  next
    case False
    then have i: "(p, g) \<in> set ps" using Cons.prems(3) by auto
    then have "p \<in> fst ` set ps" by force
    then have "p \<noteq> fst x" using Cons.prems(2) unfolding list.map distinct.simps set_map by blast
    with i show ?thesis using Cons.IH [OF m2(2)] Cons.prems(2) st by auto
  qed
qed simp

lemma in_order_settled: "\<forall>(p, g)\<in>set ps. m p = Some (g (m p)) \<Longrightarrow> in_order (map (write_step fails) ps) m = (True, m)"
  by (induction ps) (auto simp: write_step_def)

lemma scaffold_other:
  "scaffold env base m = (ok, m1) \<Longrightarrow> q \<notin> fst ` set (setup_files env base) \<Longrightarrow> m1 q = m q"
  by (auto simp: scaffold_steps in_order_other split: if_splits)


definition demo_setup :: setup_env where
  "demo_setup = \<lparr>se_enabled = True, se_trusted = True, se_pointers = False, se_home = ''/home/a'', se_readonly = \<lambda>_. False,
     se_exists = \<lambda>_. False, se_fails = \<lambda>_. False\<rparr>"


text \<open>A home directory or a read-only folder is never written to, and nothing is in a workspace that is not trusted.\<close>

lemma setup_skips: "base = se_home env \<or> se_readonly env base \<Longrightarrow> setup_folder env base (primary, m) = (primary, m)"
  by (simp add: setup_folder_def)

lemma loadNodes_files [simp]: "hm_files (loadNodes le listing s) = hm_files s" "hm_folder (loadNodes le listing s) = hm_folder s"
  by (auto simp: loadNodes_def Let_def split: option.split)

lemma untrusted_is_left_alone: "\<not> se_trusted env \<Longrightarrow> hm_files (initialize env folders le listing s) = hm_files s"
  by (simp add: initialize_def)

lemma setup_folders_files:
  "fold (setup_folder env) folders (primary, m) = (p1, m1) \<Longrightarrow>
   \<forall>base\<in>set folders. base = se_home env \<or> se_readonly env base \<or> q \<notin> fst ` set (setup_files env base) \<Longrightarrow> m1 q = m q"
proof (induction folders arbitrary: primary m)
  case (Cons base folders)
  obtain p2 m2 where s: "setup_folder env base (primary, m) = (p2, m2)" by fastforce
  then have "m2 q = m q" using Cons.prems(2) scaffold_other
    by (auto simp: setup_folder_def split: if_splits prod.splits bool.splits)
  with Cons.IH [of p2 m2] Cons.prems s show ?case by simp
qed simp

text \<open>
  When every folder is skipped, the folder is forgotten but the nodes are not: \<open>loadNodes\<close> returns
  before it clears them, so the tree keeps showing the nodes of the folder that was closed.
\<close>

lemma skipped_folders_keep_the_nodes:
  assumes "se_enabled env" "se_trusted env" "folders \<noteq> []" "\<forall>base\<in>set folders. base = se_home env \<or> se_readonly env base"
  shows "hm_folder (initialize env folders le listing s) = None" "hm_nodes (initialize env folders le listing s) = hm_nodes s"
proof -
  have "fold (setup_folder env) folders (None, hm_files s) = (None, hm_files s)"
    using assms(4) by (induction folders) (auto simp: setup_skips)
  then show "hm_folder (initialize env folders le listing s) = None" "hm_nodes (initialize env folders le listing s) = hm_nodes s"
    using assms(1-3) by (simp_all add: initialize_def loadNodes_def)
qed

end
