(* ===== verification/Agent_Tree.thy ===== *)
theory Agent_Tree
  imports Js_Prelude
begin

text \<open>
  The spawn tree of agents and the review page of a node: \<open>common/agentTree.ts\<close>. An optional field is
  an \<open>option\<close>; a body of diffs and checks, which this file never fills, is left out of the detail.
\<close>

datatype node_kind = RootNode | AgentNode
datatype node_status = Active | Idle | Finished
datatype pipeline_stage =
  Requested | Provisioning | Running | Checking | Rechecking | Applying | AutoMerged

definition AGENT_PIPELINE_STAGES :: "pipeline_stage list" where
  "AGENT_PIPELINE_STAGES = [Requested, Provisioning, Running, Checking, Rechecking, Applying, AutoMerged]"

datatype agent_node = Agent
  (an_id: string) (an_kind: node_kind) (an_author: string) (an_label: string)
  (an_model: "string option") (an_status: node_status) (an_running: bool)
  (an_children: "agent_node list")

record agent_tree =
  run_id :: string
  tree_root :: agent_node

record agent_meta =
  meta_from :: string
  createdBy :: string
  meta_model :: string
  permission :: "string option"
  meta_base :: "string option"
  worktree :: string
  changes :: string

record spawned_child =
  sp_id :: string
  sp_author :: string
  sp_label :: string
  sp_model :: "string option"
  sp_status :: node_status
  childCount :: nat

record agent_detail =
  nodeId :: string
  runId :: string
  det_title :: string
  tabLabel :: string
  subtitle :: string
  pipelineStage :: pipeline_stage
  det_killed :: bool
  canKill :: bool
  canDelete :: bool
  det_running :: bool
  meta :: agent_meta
  activity :: "(string \<times> string) list"
  spawned :: "spawned_child list"
  footers :: "string list"

fun countDescendants :: "agent_node \<Rightarrow> nat" where
  "countDescendants (Agent i k a l m s r cs) =
     foldl (+) (length cs) (map countDescendants cs)"

definition toSpawned :: "agent_node \<Rightarrow> spawned_child list" where
  "toSpawned n = map (\<lambda>c. \<lparr>sp_id = an_id c, sp_author = an_author c, sp_label = an_label c,
     sp_model = an_model c, sp_status = an_status c, childCount = countDescendants c\<rparr>) (an_children n)"

fun findNode :: "agent_node \<Rightarrow> string \<Rightarrow> agent_node option"
and findNode_list :: "agent_node list \<Rightarrow> string \<Rightarrow> agent_node option" where
  "findNode (Agent i k a l m s r cs) x =
     (if i = x then Some (Agent i k a l m s r cs) else findNode_list cs x)"
| "findNode_list [] x = None"
| "findNode_list (c # cs) x = (case findNode c x of Some n \<Rightarrow> Some n | None \<Rightarrow> findNode_list cs x)"

definition long_dash :: string where "long_dash = [CHR 0xE2, CHR 0x80, CHR 0x94]"

definition buildFallbackDetail :: "agent_tree \<Rightarrow> agent_node \<Rightarrow> spawned_child list \<Rightarrow> agent_detail" where
  "buildFallbackDetail tree n sp =
     (let root = tree_root tree; isRoot = (an_kind n = RootNode);
          model = (case an_model n of Some m \<Rightarrow> m
                   | None \<Rightarrow> (case an_model root of Some m \<Rightarrow> m | None \<Rightarrow> ''unknown''))
      in \<lparr>nodeId = an_id n, runId = run_id tree,
          det_title = (if isRoot then an_author n else an_label n),
          tabLabel = an_label n,
          subtitle = (if isRoot then ''Spawned from the composer.''
                      else ''Spawned from '' @ an_author root @ [CHR 0x27] @ ''s '' @ an_label root @ ''.''),
          pipelineStage = (if an_running n then Running else if an_status n = Idle then Provisioning else Checking),
          det_killed = False, canKill = False, canDelete = False, det_running = an_running n,
          meta = \<lparr>meta_from = (if isRoot then ''the composer'' else an_label root),
                  createdBy = an_author n, meta_model = model,
                  permission = Some ''Request (inherited)'', meta_base = Some (''rev '' @ long_dash),
                  worktree = (if isRoot then ''parent'' else ''child/'' @ js_lower (an_label n)),
                  changes = long_dash\<rparr>,
          activity = [], spawned = sp,
          footers = [if an_status n = Finished then ''waiting for a human to review'' else ''in progress'',
                     ''parent workspace unchanged'']\<rparr>)"

definition resolveAgentDetail :: "agent_tree \<Rightarrow> string \<Rightarrow> agent_detail option" where
  "resolveAgentDetail tree i =
     (case findNode (tree_root tree) i of
        None \<Rightarrow> None
      | Some n \<Rightarrow> Some (buildFallbackDetail tree n (toSpawned n)))"

section \<open>The review of a hivemind node\<close>

record review_source =
  rs_id :: string
  rs_title :: string
  rs_author :: string
  rs_agent :: string
  rs_model :: "string option"
  rs_status :: node_status
  rs_goal :: string
  rs_handoff :: string
  rs_files :: "string list"
  rs_killed :: bool
  rs_running :: bool
  rs_parentTitle :: "string option"
  rs_log :: "(string \<times> string) list"
  rs_spawned :: "spawned_child list"

definition detailFromHivemind :: "review_source \<Rightarrow> agent_detail" where
  "detailFromHivemind s =
     (let fileCount = length (rs_files s) in
      \<lparr>nodeId = rs_id s, runId = ''hivemind'', det_title = rs_author s, tabLabel = rs_title s,
       subtitle = (case rs_parentTitle s of
           Some p \<Rightarrow> if p \<noteq> [] then ''Spawned from '' @ p @ ''.'' else ''Recorded by '' @ rs_agent s @ ''.''
         | None \<Rightarrow> ''Recorded by '' @ rs_agent s @ ''.''),
       pipelineStage = (if rs_running s then Running else if rs_status s = Idle then Running else Checking),
       det_killed = rs_killed s,
       canKill = (\<not> rs_killed s \<and> rs_status s \<noteq> Finished),
       canDelete = True,
       det_running = rs_running s,
       meta = \<lparr>meta_from = (case rs_parentTitle s of Some p \<Rightarrow> p | None \<Rightarrow> rs_agent s),
               createdBy = rs_author s,
               meta_model = (case rs_model s of Some m \<Rightarrow> m | None \<Rightarrow> rs_agent s),
               permission = None, meta_base = None,
               worktree = ''nodes/'' @ rs_id s,
               changes = (if fileCount = 0 then long_dash else if fileCount = 1 then ''1 file''
                          else show_nat fileCount @ '' files'')\<rparr>,
       activity = (if rs_handoff s \<noteq> [] then [(''Handoff'', rs_handoff s)] else [])
         @ (if rs_goal s \<noteq> [] then [(''Goal'', rs_goal s)] else []) @ rs_log s,
       spawned = rs_spawned s,
       footers = [if rs_killed s then ''killed'' else if rs_running s then ''running''
                  else if rs_status s = Idle then ''not running'' else ''waiting for a human to review'',
                  ''parent workspace unchanged'']\<rparr>)"

section \<open>Trees from elsewhere\<close>

definition isAgentTreeNode :: "js_val \<Rightarrow> bool" where
  "isAgentTreeNode v \<longleftrightarrow>
     (js_get v ''kind'' = JStr ''root'' \<or> js_get v ''kind'' = JStr ''agent'') \<and>
     js_str (js_get v ''id'') \<noteq> None \<and> js_str (js_get v ''author'') \<noteq> None \<and>
     js_str (js_get v ''label'') \<noteq> None \<and> js_arr (js_get v ''children'') \<noteq> None"

definition isAgentTree :: "js_val \<Rightarrow> bool" where
  "isAgentTree v \<longleftrightarrow> js_str (js_get v ''run_id'') \<noteq> None \<and> isAgentTreeNode (js_get v ''root'')"

fun pipelineStageLabel :: "pipeline_stage \<Rightarrow> string" where
  "pipelineStageLabel Requested = ''Requested''"
| "pipelineStageLabel Provisioning = ''Provisioning''"
| "pipelineStageLabel Running = ''Running''"
| "pipelineStageLabel Checking = ''Checking''"
| "pipelineStageLabel Rechecking = ''Rechecking''"
| "pipelineStageLabel Applying = ''Applying''"
| "pipelineStageLabel AutoMerged = ''Auto-merged''"

section \<open>What a search finds\<close>

text \<open>The nodes of a tree in the order the search visits them.\<close>

fun tree_nodes :: "agent_node \<Rightarrow> agent_node list" where
  "tree_nodes (Agent i k a l m s r cs) = Agent i k a l m s r cs # concat (map tree_nodes cs)"

lemma findNode_find: "findNode n x = List.find (\<lambda>m. an_id m = x) (tree_nodes n)"
  and findNode_list_find: "findNode_list cs x = List.find (\<lambda>m. an_id m = x) (concat (map tree_nodes cs))"
proof (induction n x and cs x rule: findNode_findNode_list.induct)
  case (3 c cs x)
  have "List.find P (xs @ ys) = (case List.find P xs of Some y \<Rightarrow> Some y | None \<Rightarrow> List.find P ys)"
    for P and xs ys :: "agent_node list" by (induction xs) auto
  with 3 show ?case by (simp split: option.split)
qed auto

lemma foldl_plus: "foldl (+) (n::nat) xs = n + sum_list xs"
  by (induction xs arbitrary: n) auto

lemma countDescendants_nodes: "countDescendants n = length (tree_nodes n) - 1"
proof -
  have "Suc (countDescendants n) = length (tree_nodes n)"
  proof (induction n)
    case (Agent i k a l m s r cs)
    then have "sum_list (map (\<lambda>c. Suc (countDescendants c)) cs) = length (concat (map tree_nodes cs))"
      by (induction cs) auto
    moreover have "sum_list (map (\<lambda>c. Suc (countDescendants c)) cs) = length cs + sum_list (map countDescendants cs)"
      by (induction cs) auto
    ultimately show ?case by (simp add: foldl_plus)
  qed
  then show ?thesis by simp
qed

text \<open>Every node of a tree with distinct ids opens on its own page, with one row for each of
  its direct children and under each row the number of nodes below it; an id that is not in the tree
  opens nothing.\<close>

lemma every_node_opens_its_page:
  assumes "distinct (map an_id (tree_nodes (tree_root tree)))"
  shows "(i \<notin> an_id ` set (tree_nodes (tree_root tree)) \<longrightarrow> resolveAgentDetail tree i = None) \<and>
    (\<forall>n\<in>set (tree_nodes (tree_root tree)). \<exists>d. resolveAgentDetail tree (an_id n) = Some d \<and>
       nodeId d = an_id n \<and> createdBy (meta d) = an_author n \<and>
       map sp_id (spawned d) = map an_id (an_children n) \<and>
       map childCount (spawned d) = map (\<lambda>c. length (tree_nodes c) - 1) (an_children n))"
proof -
  have "resolveAgentDetail tree i = None" if "i \<notin> an_id ` set (tree_nodes (tree_root tree))"
  proof -
    have "List.find (\<lambda>m. an_id m = i) (tree_nodes (tree_root tree)) = None"
      using that by (auto simp: find_None_all)
    then show ?thesis by (simp add: resolveAgentDetail_def findNode_find)
  qed
  moreover have "resolveAgentDetail tree (an_id n) = Some (buildFallbackDetail tree n (toSpawned n))"
    if "n \<in> set (tree_nodes (tree_root tree))" for n
    using find_by_key [OF assms that] by (simp add: resolveAgentDetail_def findNode_find)
  ultimately show ?thesis
    by (auto simp: buildFallbackDetail_def toSpawned_def countDescendants_nodes Let_def comp_def)
qed

definition demo_tree :: agent_tree where
  "demo_tree = \<lparr>run_id = ''r'', tree_root = Agent ''root'' RootNode ''ann'' ''main'' (Some ''m'') Active False
     [Agent ''a'' AgentNode ''ann'' ''A'' None Active True [Agent ''b'' AgentNode ''ann'' ''B'' None Idle False []]]\<rparr>"

lemma every_node_opens_its_page_witness:
  "\<exists>d. resolveAgentDetail demo_tree ''root'' = Some d \<and> map childCount (spawned d) = [1]"
proof -
  let ?n = "tree_root demo_tree"
  have "distinct (map an_id (tree_nodes ?n))" by (simp add: demo_tree_def)
  moreover have "?n \<in> set (tree_nodes ?n)" by (simp add: demo_tree_def)
  ultimately have
    "\<exists>d. resolveAgentDetail demo_tree (an_id ?n) = Some d \<and>
       map childCount (spawned d) = map (\<lambda>c. length (tree_nodes c) - 1) (an_children ?n)"
    using every_node_opens_its_page by blast
  then show ?thesis by (simp add: demo_tree_def)
qed

end
