(* ===== verification/Accent_Color.thy ===== *)
theory Accent_Color
  imports Js_Prelude
begin

text \<open>
  The accent colour of the editor: \<open>H/common/accentColor.ts\<close> and \<open>H/browser/accentColor.ts\<close> with what they
  use of \<open>src/vs/base/common/color.ts\<close>. Components are whole numbers from 0 to 255. The luminance is a
  real number, as everywhere in this development; \<open>Math.ceil(x * 0.1)\<close> is the same in doubles for every component.
\<close>

section \<open>Colours\<close>

record rgba =
  red :: nat
  green :: nat
  blue :: nat
  alpha :: real

record hsla =
  hue :: nat
  saturation :: real
  luminosity :: real
  hsl_alpha :: real

record color =
  rgba :: rgba
  own_hsla :: "hsla option"

definition roundFloat :: "real \<Rightarrow> nat \<Rightarrow> real" where
  "roundFloat x n = of_int (js_round (x * 10 ^ n)) / 10 ^ n"

definition component :: "int \<Rightarrow> nat" where
  "component x = nat (min 255 (max 0 x))"

definition unit :: "real \<Rightarrow> real" where
  "unit x = roundFloat (max (min 1 x) 0) 3"

definition mk_rgba :: "int \<Rightarrow> int \<Rightarrow> int \<Rightarrow> real \<Rightarrow> rgba" where
  "mk_rgba r g b a = \<lparr>red = component r, green = component g, blue = component b, alpha = unit a\<rparr>"

definition mk_hsla :: "real \<Rightarrow> real \<Rightarrow> real \<Rightarrow> real \<Rightarrow> hsla" where
  "mk_hsla h s l a = \<lparr>hue = nat \<lfloor>max (min 360 h) 0\<rfloor>, saturation = unit s, luminosity = unit l, hsl_alpha = unit a\<rparr>"

text \<open>\<open>HSLA.fromRGBA\<close>: \<open>switch (max)\<close> takes the first component that is the greatest.\<close>

definition hsla_of :: "rgba \<Rightarrow> hsla" where
  "hsla_of c =
     (let r = real (red c) / 255; g = real (green c) / 255; b = real (blue c) / 255;
          top = max r (max g b); bottom = min r (min g b);
          l = (bottom + top) / 2; chroma = top - bottom
      in if chroma > 0 then
           (let s = min (if l \<le> 1 / 2 then chroma / (2 * l) else chroma / (2 - 2 * l)) 1;
                h = (if top = r then (g - b) / chroma + (if g < b then 6 else 0)
                     else if top = g then (b - r) / chroma + 2
                     else (r - g) / chroma + 4)
            in mk_hsla (of_int (js_round (h * 60))) s l (alpha c))
         else mk_hsla 0 0 l (alpha c))"

definition hue2rgb :: "real \<Rightarrow> real \<Rightarrow> real \<Rightarrow> real" where
  "hue2rgb p q t0 =
     (let t1 = (if t0 < 0 then t0 + 1 else t0); t = (if t1 > 1 then t1 - 1 else t1)
      in if t < 1 / 6 then p + (q - p) * 6 * t
         else if t < 1 / 2 then q
         else if t < 2 / 3 then p + (q - p) * (2 / 3 - t) * 6
         else p)"

definition rgba_of :: "hsla \<Rightarrow> rgba" where
  "rgba_of c =
     (let h = real (hue c) / 360; s = saturation c; l = luminosity c;
          q = (if l < 1 / 2 then l * (1 + s) else l + s - l * s); p = 2 * l - q;
          part = (\<lambda>t. if s = 0 then l else hue2rgb p q t)
      in mk_rgba (js_round (part (h + 1 / 3) * 255)) (js_round (part h * 255)) (js_round (part (h - 1 / 3) * 255)) (hsl_alpha c))"

definition from_rgba :: "rgba \<Rightarrow> color" where
  "from_rgba c = \<lparr>rgba = c, own_hsla = None\<rparr>"

definition from_hsla :: "hsla \<Rightarrow> color" where
  "from_hsla c = \<lparr>rgba = rgba_of c, own_hsla = Some c\<rparr>"

definition color_hsla :: "color \<Rightarrow> hsla" where
  "color_hsla c = (case own_hsla c of Some x \<Rightarrow> x | None \<Rightarrow> hsla_of (rgba c))"

section \<open>Luminance and contrast\<close>

definition component_luminance :: "nat \<Rightarrow> real" where
  "component_luminance x =
     (let c = real x / 255 in if c \<le> 3928 / 100000 then c / (1292 / 100) else ((c + 55 / 1000) / (1055 / 1000)) powr (24 / 10))"

definition luminance :: "rgba \<Rightarrow> real" where
  "luminance c =
     roundFloat (2126 / 10000 * component_luminance (red c) + 7152 / 10000 * component_luminance (green c)
       + 722 / 10000 * component_luminance (blue c)) 4"

definition getContrastRatio :: "color \<Rightarrow> color \<Rightarrow> real" where
  "getContrastRatio a b =
     (let lum1 = luminance (rgba a); lum2 = luminance (rgba b)
      in if lum1 > lum2 then (lum1 + 5 / 100) / (lum2 + 5 / 100) else (lum2 + 5 / 100) / (lum1 + 5 / 100))"

definition isDarker :: "color \<Rightarrow> bool" where
  "isDarker c \<longleftrightarrow> real (red (rgba c) * 299 + green (rgba c) * 587 + blue (rgba c) * 114) / 1000 < 128"

definition opaque :: "nat \<times> nat \<times> nat \<Rightarrow> color" where
  "opaque c = (case c of (r, g, b) \<Rightarrow> from_rgba (mk_rgba (int r) (int g) (int b) 1))"

definition lower :: "nat \<Rightarrow> nat" where "lower x = x - (x + 9) div 10"
definition raise_part :: "nat \<Rightarrow> nat" where "raise_part x = min 255 (x + (255 - x + 9) div 10)"

text \<open>The loops of \<open>reduceRelativeLuminace\<close> and \<open>increaseRelativeLuminace\<close>.\<close>

function reduce_loop :: "color \<Rightarrow> real \<Rightarrow> nat \<times> nat \<times> nat \<Rightarrow> nat \<times> nat \<times> nat" where
  "reduce_loop bg ratio (r, g, b) =
     (if getContrastRatio bg (opaque (r, g, b)) < ratio \<and> (r > 0 \<or> g > 0 \<or> b > 0)
      then reduce_loop bg ratio (lower r, lower g, lower b) else (r, g, b))"
  by pat_completeness auto

termination
  by (relation "measure (\<lambda>(bg, ratio, r, g, b). r + g + b)") (auto simp: lower_def)

definition gap :: "nat \<Rightarrow> nat" where "gap x = 255 - x"

lemma gap_raise: "x < 255 \<Longrightarrow> gap (raise_part x) < gap x" "gap (raise_part x) \<le> gap x"
  by (auto simp: gap_def raise_part_def)

function increase_loop :: "color \<Rightarrow> real \<Rightarrow> nat \<times> nat \<times> nat \<Rightarrow> nat \<times> nat \<times> nat" where
  "increase_loop bg ratio (r, g, b) =
     (if getContrastRatio bg (opaque (r, g, b)) < ratio \<and> (r < 255 \<or> g < 255 \<or> b < 255)
      then increase_loop bg ratio (raise_part r, raise_part g, raise_part b) else (r, g, b))"
  by pat_completeness auto

termination
  using gap_raise by (relation "measure (\<lambda>(bg, ratio, r, g, b). gap r + gap g + gap b)")
    (auto intro: add_less_le_mono add_le_less_mono add_mono)

definition parts :: "color \<Rightarrow> nat \<times> nat \<times> nat" where
  "parts c = (red (rgba c), green (rgba c), blue (rgba c))"

definition reduceRelativeLuminace :: "color \<Rightarrow> color \<Rightarrow> real \<Rightarrow> color" where
  "reduceRelativeLuminace bg fg ratio = opaque (reduce_loop bg ratio (parts fg))"

definition increaseRelativeLuminace :: "color \<Rightarrow> color \<Rightarrow> real \<Rightarrow> color" where
  "increaseRelativeLuminace bg fg ratio = opaque (increase_loop bg ratio (parts fg))"

definition ensureConstrast :: "color \<Rightarrow> color \<Rightarrow> real \<Rightarrow> color" where
  "ensureConstrast bg fg ratio =
     (if getContrastRatio bg fg < ratio then
        (let (first, second) = (if luminance (rgba fg) < luminance (rgba bg)
              then (reduceRelativeLuminace, increaseRelativeLuminace) else (increaseRelativeLuminace, reduceRelativeLuminace));
             a = first bg fg ratio
         in if getContrastRatio bg a < ratio
            then (let b = second bg fg ratio in if getContrastRatio bg a > getContrastRatio bg b then a else b)
            else a)
      else fg)"

definition lighten :: "color \<Rightarrow> real \<Rightarrow> color" where
  "lighten c factor = (let x = color_hsla c in
     from_hsla (mk_hsla (real (hue x)) (saturation x) (luminosity x + luminosity x * factor) (hsl_alpha x)))"

definition darken :: "color \<Rightarrow> real \<Rightarrow> color" where
  "darken c factor = (let x = color_hsla c in
     from_hsla (mk_hsla (real (hue x)) (saturation x) (luminosity x - luminosity x * factor) (hsl_alpha x)))"

section \<open>Hexadecimal\<close>

definition hex_char :: "nat \<Rightarrow> char" where
  "hex_char n = ''0123456789abcdef'' ! n"

definition twoDigitHex :: "nat \<Rightarrow> string" where
  "twoDigitHex n = [hex_char (n div 16), hex_char (n mod 16)]"

definition formatHex :: "color \<Rightarrow> string" where
  "formatHex c = ''#'' @ twoDigitHex (red (rgba c)) @ twoDigitHex (green (rgba c)) @ twoDigitHex (blue (rgba c))"

text \<open>Any other character counts as 0.\<close>

definition parseHexDigit :: "char \<Rightarrow> nat" where
  "parseHexDigit c =
     (if c \<in> set ''0123456789'' then digit_val c
      else if c \<in> {CHR ''a'', CHR ''A''} then 10 else if c \<in> {CHR ''b'', CHR ''B''} then 11
      else if c \<in> {CHR ''c'', CHR ''C''} then 12 else if c \<in> {CHR ''d'', CHR ''D''} then 13
      else if c \<in> {CHR ''e'', CHR ''E''} then 14 else if c \<in> {CHR ''f'', CHR ''F''} then 15 else 0)"

definition hex_pair :: "char \<Rightarrow> char \<Rightarrow> int" where
  "hex_pair x y = int (16 * parseHexDigit x + parseHexDigit y)"

definition parseHex :: "string \<Rightarrow> color option" where
  "parseHex s =
     (case s of
        [h, r1, r2, g1, g2, b1, b2] \<Rightarrow>
          if h = CHR ''#'' then Some (from_rgba (mk_rgba (hex_pair r1 r2) (hex_pair g1 g2) (hex_pair b1 b2) 1)) else None
      | [h, r1, r2, g1, g2, b1, b2, a1, a2] \<Rightarrow>
          if h = CHR ''#''
          then Some (from_rgba (mk_rgba (hex_pair r1 r2) (hex_pair g1 g2) (hex_pair b1 b2) (of_int (hex_pair a1 a2) / 255))) else None
      | [h, r, g, b] \<Rightarrow>
          if h = CHR ''#'' then Some (from_rgba (mk_rgba (hex_pair r r) (hex_pair g g) (hex_pair b b) 1)) else None
      | [h, r, g, b, a] \<Rightarrow>
          if h = CHR ''#''
          then Some (from_rgba (mk_rgba (hex_pair r r) (hex_pair g g) (hex_pair b b) (of_int (hex_pair a a) / 255))) else None
      | _ \<Rightarrow> None)"

definition fromHex :: "string \<Rightarrow> color" where
  "fromHex s = (case parseHex s of Some c \<Rightarrow> c | None \<Rightarrow> opaque (255, 0, 0))"

section \<open>Palettes\<close>

datatype accent_choice = Ember | Jade | Cobalt | Violet | Chrome | Custom
datatype theme_kind = Dark | Light

record accent_palette =
  accent :: string
  accentText :: string
  button :: string
  buttonHover :: string
  buttonFg :: string
  selection :: string
  findMatch :: string
  findMatchHighlight :: string
  visor :: "string \<times> string \<times> string"

definition ACCENT_COLOR_CHOICES :: "(string \<times> accent_choice) list" where
  "ACCENT_COLOR_CHOICES = [(''ember'', Ember), (''jade'', Jade), (''cobalt'', Cobalt), (''violet'', Violet), (''chrome'', Chrome), (''custom'', Custom)]"

definition DEFAULT_ACCENT_COLOR :: accent_choice where "DEFAULT_ACCENT_COLOR = Cobalt"
definition ACCENT_COLOR_THEMES :: "string list" where "ACCENT_COLOR_THEMES = [''Hivemind Dynamic'', ''Hivemind Light'']"
definition ON_ACCENT :: string where "ON_ACCENT = ''#0b0b0b''"

definition DARK_PRESETS :: "(accent_choice \<times> accent_palette) list" where
  "DARK_PRESETS =
     [(Ember,
        \<lparr>accent = ''#ff7a1a'', accentText = ''#ff8f3f'', button = ''#ff7a1a'', buttonHover = ''#ff9447'', buttonFg = ON_ACCENT,
         selection = ''#ff7a1a26'', findMatch = ''#ff7a1a55'', findMatchHighlight = ''#ff7a1a22'',
         visor = (''#ff3b2f'', ''#ff7a1a'', ''#ffc53d'')\<rparr>),
      (Jade,
        \<lparr>accent = ''#b8ff3c'', accentText = ''#b8ff3c'', button = ''#b8ff3c'', buttonHover = ''#c9ff66'', buttonFg = ON_ACCENT,
         selection = ''#b8ff3c24'', findMatch = ''#b8ff3c55'', findMatchHighlight = ''#b8ff3c22'',
         visor = (''#2ee6a6'', ''#b8ff3c'', ''#f2ee4f'')\<rparr>),
      (Cobalt,
        \<lparr>accent = ''#3d9bff'', accentText = ''#5aabff'', button = ''#3d9bff'', buttonHover = ''#63b0ff'', buttonFg = ON_ACCENT,
         selection = ''#3d9bff26'', findMatch = ''#3d9bff55'', findMatchHighlight = ''#3d9bff22'',
         visor = (''#2b6bff'', ''#3d9bff'', ''#8fd8ff'')\<rparr>),
      (Violet,
        \<lparr>accent = ''#a86bff'', accentText = ''#b98aff'', button = ''#a86bff'', buttonHover = ''#bb8cff'', buttonFg = ON_ACCENT,
         selection = ''#a86bff26'', findMatch = ''#a86bff55'', findMatchHighlight = ''#a86bff22'',
         visor = (''#7b3cff'', ''#a86bff'', ''#e0a8ff'')\<rparr>),
      (Chrome,
        \<lparr>accent = ''#e6e6e6'', accentText = ''#ffffff'', button = ''#e6e6e6'', buttonHover = ''#ffffff'', buttonFg = ON_ACCENT,
         selection = ''#ffffff1f'', findMatch = ''#ffffff40'', findMatchHighlight = ''#ffffff1a'',
         visor = (''#6e6e6e'', ''#d9d9d9'', ''#ffffff'')\<rparr>)]"

definition LIGHT_PRESETS :: "(accent_choice \<times> accent_palette) list" where
  "LIGHT_PRESETS =
     [(Ember,
        \<lparr>accent = ''#d9540a'', accentText = ''#b8430a'', button = ''#f26b0f'', buttonHover = ''#f5802f'', buttonFg = ON_ACCENT,
         selection = ''#f26b0f24'', findMatch = ''#f26b0f4d'', findMatchHighlight = ''#f26b0f1f'',
         visor = (''#e0341f'', ''#f26b0f'', ''#f2a900'')\<rparr>),
      (Jade,
        \<lparr>accent = ''#3a8a00'', accentText = ''#2f7000'', button = ''#8fd400'', buttonHover = ''#a0de2a'', buttonFg = ON_ACCENT,
         selection = ''#8fd40030'', findMatch = ''#8fd40066'', findMatchHighlight = ''#8fd40029'',
         visor = (''#0f9a70'', ''#6cbf00'', ''#c8c800'')\<rparr>),
      (Cobalt,
        \<lparr>accent = ''#1f5fd6'', accentText = ''#1a4fb8'', button = ''#4d94ff'', buttonHover = ''#69a6ff'', buttonFg = ON_ACCENT,
         selection = ''#4d94ff24'', findMatch = ''#4d94ff4d'', findMatchHighlight = ''#4d94ff1f'',
         visor = (''#1f5fd6'', ''#3d8bff'', ''#5cc4f5'')\<rparr>),
      (Violet,
        \<lparr>accent = ''#7b3cc8'', accentText = ''#6a2fb0'', button = ''#a679ff'', buttonHover = ''#b690ff'', buttonFg = ON_ACCENT,
         selection = ''#a679ff24'', findMatch = ''#a679ff4d'', findMatchHighlight = ''#a679ff1f'',
         visor = (''#6a2fe0'', ''#9a5cff'', ''#d08cf0'')\<rparr>),
      (Chrome,
        \<lparr>accent = ''#4a4a4a'', accentText = ''#262626'', button = ''#cfcfcb'', buttonHover = ''#dcdcd8'', buttonFg = ON_ACCENT,
         selection = ''#0000001a'', findMatch = ''#00000033'', findMatchHighlight = ''#00000014'',
         visor = (''#3a3a3a'', ''#8a8a8a'', ''#c8c8c8'')\<rparr>)]"

definition BACKGROUND :: "theme_kind \<Rightarrow> string" where
  "BACKGROUND k = (case k of Dark \<Rightarrow> ''#0b0b0b'' | Light \<Rightarrow> ''#ffffff'')"

definition shiftHue :: "color \<Rightarrow> int \<Rightarrow> real \<Rightarrow> color" where
  "shiftHue c degrees lightness = (let x = color_hsla c in
     from_hsla (mk_hsla (of_int ((int (hue x) + degrees + 360) mod 360)) (saturation x) (max 0 (min 1 (luminosity x + lightness))) 1))"

definition parseAccentHex :: "string option \<Rightarrow> color option" where
  "parseAccentHex v =
     map_option (\<lambda>c. from_rgba (mk_rgba (int (red (rgba c))) (int (green (rgba c))) (int (blue (rgba c))) 1))
       (Option.bind v (\<lambda>s. parseHex (js_trim s)))"

definition derivePalette :: "color \<Rightarrow> theme_kind \<Rightarrow> accent_palette" where
  "derivePalette base k =
     (let background = fromHex (BACKGROUND k);
          black = fromHex ON_ACCENT; white = opaque (255, 255, 255);
          (sel, found, highlight) = (if k = Dark then (''26'', ''55'', ''22'') else (''24'', ''4d'', ''1f''))
      in \<lparr>accent = formatHex (if k = Dark then base else ensureConstrast background base 3),
          accentText = formatHex (ensureConstrast background (if k = Dark then lighten base (1 / 10) else base) (45 / 10)),
          button = formatHex base,
          buttonHover = formatHex (if k = Dark \<or> isDarker base then lighten base (15 / 100) else darken base (8 / 100)),
          buttonFg = formatHex (if getContrastRatio black base \<ge> getContrastRatio white base then black else white),
          selection = formatHex base @ sel, findMatch = formatHex base @ found, findMatchHighlight = formatHex base @ highlight,
          visor = (formatHex (shiftHue base (-20) (-8 / 100)), formatHex base, formatHex (shiftHue base 25 (12 / 100)))\<rparr>)"

definition accentPalette :: "accent_choice \<Rightarrow> string option \<Rightarrow> theme_kind \<Rightarrow> accent_palette option" where
  "accentPalette choice customHex k =
     (if choice = Custom then map_option (\<lambda>base. derivePalette base k) (parseAccentHex customHex)
      else map_of (if k = Dark then DARK_PRESETS else LIGHT_PRESETS) choice)"

definition ROLES :: "((accent_palette \<Rightarrow> string) \<times> string \<times> string list) list" where
  "ROLES =
     [(accent, [], [''sash.hoverBorder'', ''progressBar.background'', ''activityBar.activeBorder'',
        ''activityBar.activeFocusBorder'', ''activityBarTop.activeBorder'', ''tab.activeBorderTop'',
        ''tab.selectedBorderTop'', ''editorCursor.foreground'', ''editor.findMatchBorder'', ''panelTitle.activeBorder'',
        ''terminal.tab.activeBorder'', ''terminalCursor.foreground'', ''statusBar.focusBorder'',
        ''statusBarItem.focusBorder'', ''settings.modifiedItemIndicator'', ''welcomePage.progress.foreground'',
        ''charts.green'']),
      (accent, ''80'', [''focusBorder'', ''inputOption.activeBorder'', ''editorBracketMatch.border'', ''peekView.border'',
        ''interactive.activeCodeBorder'']),
      (accent, ''22'', [''inputOption.activeBackground'', ''chat.slashCommandBackground'']),
      (accent, ''66'', [''list.focusOutline'', ''list.focusAndSelectionOutline'']),
      (accent, ''1a'', [''list.dropBackground'', ''editorBracketMatch.background'']),
      (accent, ''14'', [''editorGroup.dropBackground'']),
      (accent, ''99'', [''editorOverviewRuler.findMatchForeground'']),
      (accentText, [], [''textLink.foreground'', ''textLink.activeForeground'', ''checkbox.foreground'', ''list.highlightForeground'',
        ''list.focusHighlightForeground'', ''editorLink.activeForeground'', ''editorSuggestWidget.highlightForeground'',
        ''editorSuggestWidget.focusHighlightForeground'', ''statusBarItem.remoteForeground'',
        ''quickInputList.focusHighlightForeground'', ''pickerGroup.foreground'', ''notificationLink.foreground'',
        ''chat.slashCommandForeground'', ''ports.iconRunningProcessForeground'']),
      (button, [], [''button.background'', ''extensionButton.prominentBackground'', ''badge.background'',
        ''activityBarBadge.background'', ''statusBar.debuggingBackground'']),
      (buttonHover, [], [''button.hoverBackground'', ''extensionButton.prominentHoverBackground'']),
      (buttonFg, [], [''button.foreground'', ''extensionButton.prominentForeground'', ''badge.foreground'',
        ''activityBarBadge.foreground'', ''statusBar.debuggingForeground'']),
      (buttonFg, ''40'', [''button.separator'']),
      (selection, [], [''selection.background'', ''editor.selectionBackground'', ''editorCommentsWidget.rangeActiveBackground'',
        ''terminal.selectionBackground'']),
      (findMatch, [], [''editor.findMatchBackground'', ''peekViewEditor.matchHighlightBackground'',
        ''peekViewResult.matchHighlightBackground'']),
      (findMatchHighlight, [], [''editor.findMatchHighlightBackground''])]"

definition accentThemeColors :: "accent_palette \<Rightarrow> (string \<times> string) list" where
  "accentThemeColors p =
     (let roles = fold (\<lambda>(role, a, ids) colors. fold (\<lambda>i. AList.update i (role p @ a)) ids colors) ROLES [];
          (v0, v1, v2) = visor p
      in fold (\<lambda>(i, c). AList.update i c)
           [(''hivemind.visorStart'', v0), (''hivemind.visorMid'', v1), (''hivemind.visorEnd'', v2), (''hivemind.beam1'', v1)] roles)"

section \<open>The overlay of the theme\<close>

definition userColorIds :: "(string \<times> js_val) list \<Rightarrow> string \<Rightarrow> string set" where
  "userColorIds customizations settingsId =
     (\<Union>(key, v)\<in>set customizations.
        if prefix ''['' key then
          (if key = ''['' @ settingsId @ '']'' then (case v of JObj kvs \<Rightarrow> fst ` set kvs | _ \<Rightarrow> {}) else {})
        else {key})"

text \<open>\<open>kind\<close> is \<open>None\<close> for a high contrast theme.\<close>

definition colorsFor ::
  "(string \<times> js_val) list \<Rightarrow> string \<Rightarrow> theme_kind option \<Rightarrow> accent_choice \<Rightarrow> string option \<Rightarrow> (string \<times> color) list" where
  "colorsFor customizations settingsId kind choice custom =
     (case (settingsId \<in> set ACCENT_COLOR_THEMES, kind) of
        (True, Some k) \<Rightarrow>
          (case accentPalette choice custom k of
             None \<Rightarrow> []
           | Some p \<Rightarrow> map (\<lambda>(i, c). (i, fromHex c))
               (filter (\<lambda>(i, c). i \<notin> userColorIds customizations settingsId) (accentThemeColors p)))
      | _ \<Rightarrow> [])"

definition configured_choice :: "string option \<Rightarrow> accent_choice" where
  "configured_choice configured =
     (case Option.bind configured (map_of ACCENT_COLOR_CHOICES) of Some c \<Rightarrow> c | None \<Rightarrow> DEFAULT_ACCENT_COLOR)"


section \<open>Contrast\<close>

declare reduce_loop.simps [simp del] increase_loop.simps [simp del]

definition in_range :: "nat \<times> nat \<times> nat \<Rightarrow> bool" where
  "in_range c \<longleftrightarrow> (case c of (r, g, b) \<Rightarrow> r \<le> 255 \<and> g \<le> 255 \<and> b \<le> 255)"

lemma component_range: "component x \<le> 255" "x \<le> 255 \<Longrightarrow> component (int x) = x" for x :: nat
  by (simp_all add: component_def)

lemma component_le [simp]: "component x \<le> 255"
  by (simp add: component_def)

lemma parts_opaque [simp]: "in_range c \<Longrightarrow> parts (opaque c) = c"
  by (cases c) (simp add: parts_def opaque_def from_rgba_def mk_rgba_def in_range_def component_def)

lemma luminance_parts: "parts a = parts b \<Longrightarrow> luminance (rgba a) = luminance (rgba b)"
  by (simp add: parts_def luminance_def)

lemma contrast_parts: "parts a = parts a' \<Longrightarrow> parts b = parts b' \<Longrightarrow> getContrastRatio a b = getContrastRatio a' b'"
  using luminance_parts [of a a'] luminance_parts [of b b'] by (simp add: getContrastRatio_def)

lemma component_luminance_bounds:
  assumes "x \<le> 255"
  shows "0 \<le> component_luminance x" "component_luminance x \<le> 1"
proof -
  have "((real x / 255 + 55 / 1000) / (1055 / 1000)) powr (24 / 10) \<le> 1" using assms by (intro powr_le1) (auto simp: field_simps)
  then show "component_luminance x \<le> 1" by (simp add: component_luminance_def Let_def)
qed (simp add: component_luminance_def Let_def)

lemma roundFloat_mono: "x \<le> y \<Longrightarrow> roundFloat x n \<le> roundFloat y n"
  by (simp add: roundFloat_def js_round_def divide_right_mono floor_mono)

lemma roundFloat_ends [simp]: "roundFloat 0 n = 0" "roundFloat 1 n = 1"
proof -
  have "\<lfloor>(10 :: real) ^ n + 1 / 2\<rfloor> = 10 ^ n"
    using floor_add_int [of "1 / 2 :: real" "10 ^ n"] by (simp add: add.commute)
  then show "roundFloat 1 n = 1" by (simp add: roundFloat_def js_round_def)
qed (simp add: roundFloat_def js_round_def)

lemma luminance_bounds:
  assumes "in_range (parts c)"
  shows "0 \<le> luminance (rgba c)" "luminance (rgba c) \<le> 1"
proof -
  let ?x = "2126 / 10000 * component_luminance (red (rgba c)) + 7152 / 10000 * component_luminance (green (rgba c))
    + 722 / 10000 * component_luminance (blue (rgba c))"
  have l: "luminance (rgba c) = roundFloat ?x 4" by (simp add: luminance_def)
  have b: "0 \<le> component_luminance (red (rgba c))" "component_luminance (red (rgba c)) \<le> 1"
    "0 \<le> component_luminance (green (rgba c))" "component_luminance (green (rgba c)) \<le> 1"
    "0 \<le> component_luminance (blue (rgba c))" "component_luminance (blue (rgba c)) \<le> 1"
    using assms component_luminance_bounds by (auto simp: in_range_def parts_def)
  then have "0 \<le> ?x" "?x \<le> 1" by (simp, linarith)
  then show "0 \<le> luminance (rgba c)" "luminance (rgba c) \<le> 1"
    unfolding l using roundFloat_mono [of 0 ?x 4] roundFloat_mono [of ?x 1 4] by simp_all
qed

lemma luminance_black [simp]: "luminance (rgba (opaque (0, 0, 0))) = 0"
  by (simp add: luminance_def opaque_def from_rgba_def mk_rgba_def component_def component_luminance_def)

lemma luminance_white [simp]: "luminance (rgba (opaque (255, 255, 255))) = 1"
  by (simp add: luminance_def opaque_def from_rgba_def mk_rgba_def component_def component_luminance_def)

text \<open>The background of the dark theme, which is also the text on a button, is nearly black.\<close>

lemma powr_24: "0 < x \<Longrightarrow> (x powr (24 / 10)) ^ 5 = x ^ 12" for x :: real
  using powr_power [of x "24 / 10" 5] powr_realpow [of x 12] by simp

lemma luminance_on_accent: "luminance (rgba (opaque (11, 11, 11))) \<le> 42 / 10000"
proof -
  let ?x = "(11 / 255 + 55 / 1000) / (1055 / 1000) :: real"
  have "(?x powr (24 / 10)) ^ 5 = ?x ^ 12" by (rule powr_24) simp
  also have "\<dots> < (415 / 100000) ^ 5" by (simp add: power_divide field_simps)
  finally have "?x powr (24 / 10) < 415 / 100000" by (rule power_less_imp_less_base) simp
  then have "component_luminance 11 \<le> 415 / 100000" by (simp add: component_luminance_def Let_def)
  then have "luminance (rgba (opaque (11, 11, 11))) \<le> roundFloat (415 / 100000) 4"
    by (simp add: luminance_def opaque_def from_rgba_def mk_rgba_def component_def roundFloat_mono)
  also have "\<dots> \<le> 42 / 10000" by (simp add: roundFloat_def js_round_def)
  finally show ?thesis .
qed

lemma reduce_loop_result:
  "in_range c \<Longrightarrow> in_range (reduce_loop bg ratio c) \<and>
   (ratio \<le> getContrastRatio bg (opaque (reduce_loop bg ratio c)) \<or> reduce_loop bg ratio c = (0, 0, 0))"
proof (induction bg ratio c rule: reduce_loop.induct)
  case (1 bg ratio r g b)
  have "in_range (lower r, lower g, lower b)" using 1(2) by (auto simp: in_range_def lower_def)
  then show ?case using 1 by (subst (1 2 3) reduce_loop.simps) (auto simp: not_less)
qed

lemma increase_loop_result:
  "in_range c \<Longrightarrow> in_range (increase_loop bg ratio c) \<and>
   (ratio \<le> getContrastRatio bg (opaque (increase_loop bg ratio c)) \<or> increase_loop bg ratio c = (255, 255, 255))"
proof (induction bg ratio c rule: increase_loop.induct)
  case (1 bg ratio r g b)
  have "in_range (raise_part r, raise_part g, raise_part b)" by (auto simp: in_range_def raise_part_def)
  then show ?case using 1 by (subst (1 2 3) increase_loop.simps) (auto simp: not_less in_range_def)
qed

text \<open>Where black or white would do, the colour that comes out has the contrast that was asked for.\<close>

lemma ensureConstrast_contrast:
  assumes "in_range (parts fg)"
    and "ratio \<le> getContrastRatio bg (opaque (0, 0, 0)) \<or> ratio \<le> getContrastRatio bg (opaque (255, 255, 255))"
  shows "ratio \<le> getContrastRatio bg (ensureConstrast bg fg ratio) \<and> in_range (parts (ensureConstrast bg fg ratio))"
proof -
  have "ratio \<le> getContrastRatio bg (reduceRelativeLuminace bg fg ratio) \<or> ratio \<le> getContrastRatio bg (increaseRelativeLuminace bg fg ratio)"
    using reduce_loop_result [OF assms(1), of bg ratio] increase_loop_result [OF assms(1), of bg ratio] assms(2)
    unfolding reduceRelativeLuminace_def increaseRelativeLuminace_def by metis
  moreover have "in_range (parts (reduceRelativeLuminace bg fg ratio))" "in_range (parts (increaseRelativeLuminace bg fg ratio))"
    using reduce_loop_result [OF assms(1)] increase_loop_result [OF assms(1)]
    by (simp_all add: reduceRelativeLuminace_def increaseRelativeLuminace_def)
  ultimately show ?thesis using assms(1) by (auto simp: ensureConstrast_def Let_def)
qed

section \<open>Hexadecimal digits are read back\<close>

lemma parse_hex_char: "d < 16 \<Longrightarrow> parseHexDigit (hex_char d) = d"
proof -
  have "list_all (\<lambda>d. parseHexDigit (hex_char d) = d) [0..<16]" by code_simp
  then show "d < 16 \<Longrightarrow> ?thesis" by (simp add: list_all_iff)
qed

lemma hex_pair_of: "n \<le> 255 \<Longrightarrow> hex_pair (hex_char (n div 16)) (hex_char (n mod 16)) = int n"
  by (simp add: hex_pair_def parse_hex_char)

lemma parse_format: "in_range (parts c) \<Longrightarrow> parseHex (formatHex c) = Some (opaque (parts c))"
  by (simp add: parseHex_def formatHex_def twoDigitHex_def hex_pair_of in_range_def parts_def opaque_def)

lemma from_format: "in_range (parts c) \<Longrightarrow> parts (fromHex (formatHex c)) = parts c"
  by (simp add: fromHex_def parse_format)

lemma parse_range: "parseHex s = Some c \<Longrightarrow> in_range (parts c)"
  by (auto simp: parseHex_def parts_def in_range_def from_rgba_def mk_rgba_def split: list.splits if_splits)


section \<open>The overlay\<close>

definition hex_digit :: "char \<Rightarrow> bool" where
  "hex_digit c \<longleftrightarrow> c \<in> set ''0123456789abcdef''"

definition is_hex :: "nat \<Rightarrow> string \<Rightarrow> bool" where
  "is_hex n s \<longleftrightarrow> (case s of [] \<Rightarrow> False | c # cs \<Rightarrow> c = CHR ''#'' \<and> length cs = n \<and> list_all hex_digit cs)"

definition palette_ok :: "accent_palette \<Rightarrow> bool" where
  "palette_ok p \<longleftrightarrow> (case visor p of (v0, v1, v2) \<Rightarrow>
     list_all (is_hex 6) [accent p, accentText p, button p, buttonHover p, buttonFg p, v0, v1, v2] \<and>
     list_all (is_hex 8) [selection p, findMatch p, findMatchHighlight p])"

lemma hex_digit_char [simp]: "n < 16 \<Longrightarrow> hex_digit (hex_char n)"
proof -
  have "list_all (\<lambda>d. hex_digit (hex_char d)) [0..<16]" by code_simp
  then show "n < 16 \<Longrightarrow> ?thesis" by (simp add: list_all_iff)
qed

lemma is_hex_append: "is_hex n s \<Longrightarrow> list_all hex_digit t \<Longrightarrow> is_hex (n + length t) (s @ t)"
  by (cases s) (auto simp: is_hex_def)

lemma hex_digits_two: "n \<le> 255 \<Longrightarrow> list_all hex_digit (twoDigitHex n) \<and> length (twoDigitHex n) = 2"
proof -
  assume "n \<le> 255"
  then have "n div 16 < 16" by linarith
  then show ?thesis by (simp add: twoDigitHex_def)
qed

lemma is_hex_format: "in_range (parts c) \<Longrightarrow> is_hex 6 (formatHex c)"
  using hex_digits_two by (simp add: is_hex_def formatHex_def in_range_def parts_def)

lemma from_hsla_range [simp]: "in_range (parts (from_hsla c))"
  by (simp add: from_hsla_def rgba_of_def in_range_def parts_def mk_rgba_def Let_def)

lemma hsl_ranges [simp]: "in_range (parts (lighten c x))" "in_range (parts (darken c x))" "in_range (parts (shiftHue c d x))"
  by (simp_all add: lighten_def darken_def shiftHue_def Let_def)

lemma parseAccentHex_range: "parseAccentHex v = Some c \<Longrightarrow> in_range (parts c)"
  by (auto simp: parseAccentHex_def in_range_def parts_def from_rgba_def mk_rgba_def)

lemma background_parts:
  "parts (fromHex ''#0b0b0b'') = (11, 11, 11)" "parts (fromHex ''#ffffff'') = (255, 255, 255)"
proof -
  have "formatHex (opaque (11, 11, 11)) = ''#0b0b0b''" "formatHex (opaque (255, 255, 255)) = ''#ffffff''"
    by (simp_all add: formatHex_def opaque_def from_rgba_def mk_rgba_def component_def twoDigitHex_def hex_char_def)
  then show "parts (fromHex ''#0b0b0b'') = (11, 11, 11)" "parts (fromHex ''#ffffff'') = (255, 255, 255)"
    using from_format [of "opaque (11, 11, 11)"] from_format [of "opaque (255, 255, 255)"] by (simp_all add: in_range_def)
qed

lemma background_contrast:
  "4.5 \<le> getContrastRatio (fromHex (BACKGROUND k)) (opaque (0, 0, 0)) \<or> 4.5 \<le> getContrastRatio (fromHex (BACKGROUND k)) (opaque (255, 255, 255))"
proof (cases k)
  case Dark
  have "luminance (rgba (fromHex ''#0b0b0b'')) \<le> 42 / 10000"
    using luminance_on_accent luminance_parts [of "fromHex ''#0b0b0b''" "opaque (11, 11, 11)"]
    by (simp add: background_parts in_range_def)
  moreover have "0 \<le> luminance (rgba (fromHex ''#0b0b0b''))"
    by (rule luminance_bounds) (simp add: background_parts in_range_def)
  ultimately show ?thesis using Dark
    by (auto simp: BACKGROUND_def getContrastRatio_def Let_def field_simps)
next
  case Light
  have "luminance (rgba (fromHex ''#ffffff'')) = 1"
    using luminance_parts [of "fromHex ''#ffffff''" "opaque (255, 255, 255)"] by (simp add: background_parts in_range_def)
  then show ?thesis using Light by (simp add: BACKGROUND_def getContrastRatio_def)
qed

lemma button_contrast:
  assumes "in_range (parts base)"
  shows "4.4 \<le> getContrastRatio (fromHex ON_ACCENT) base \<or> 4.4 \<le> getContrastRatio (opaque (255, 255, 255)) base"
proof (rule ccontr)
  let ?l = "luminance (rgba base)" and ?d = "luminance (rgba (fromHex ON_ACCENT))"
  assume "\<not> ?thesis"
  then have c: "getContrastRatio (fromHex ON_ACCENT) base < 4.4" "getContrastRatio (opaque (255, 255, 255)) base < 4.4" by auto
  have l: "0 \<le> ?l" "?l \<le> 1" using luminance_bounds [OF assms] by auto
  have d: "?d \<le> 42 / 10000" "0 \<le> ?d"
    using luminance_on_accent luminance_parts [of "fromHex ''#0b0b0b''" "opaque (11, 11, 11)"]
      luminance_bounds(1) [of "fromHex ''#0b0b0b''"]
    by (simp_all add: ON_ACCENT_def background_parts in_range_def)
  have "1.05 / (?l + 0.05) < 4.4" using c(2) l by (auto simp: getContrastRatio_def Let_def split: if_splits)
  then have "1.05 < 4.4 * (?l + 0.05)" using l by (simp add: field_simps)
  then have big: "?l > 0.1886" by simp
  then have "(?l + 0.05) / (?d + 0.05) < 4.4" using c(1) d by (auto simp: getContrastRatio_def Let_def split: if_splits)
  then have "?l + 0.05 < 4.4 * (?d + 0.05)" using d by (simp add: field_simps)
  then show False using big d by simp
qed


lemma colors_as_map:
  "accentThemeColors p = js_map_of (concat (map (\<lambda>(role, a, ids). map (\<lambda>i. (i, role p @ a)) ids) ROLES) @
     (case visor p of (v0, v1, v2) \<Rightarrow>
        [(''hivemind.visorStart'', v0), (''hivemind.visorMid'', v1), (''hivemind.visorEnd'', v2), (''hivemind.beam1'', v1)]))"
proof -
  have ids: "fold (\<lambda>i. AList.update i c) ids m = fold (\<lambda>(k, v) m. AList.update k v m) (map (\<lambda>i. (i, c)) ids) m"
    for c and ids :: "string list" and m :: "(string \<times> string) list"
    by (induction ids arbitrary: m) auto
  have "fold (\<lambda>(role, a, ids) colors. fold (\<lambda>i. AList.update i (role p @ a)) ids colors) rs m =
      fold (\<lambda>(k, v) m. AList.update k v m) (concat (map (\<lambda>(role, a, ids). map (\<lambda>i. (i, role p @ a)) ids) rs)) m"
    for rs :: "((accent_palette \<Rightarrow> string) \<times> string \<times> string list) list" and m :: "(string \<times> string) list"
    by (induction rs arbitrary: m) (auto simp: ids)
  then show ?thesis by (simp add: accentThemeColors_def js_map_of_def split: prod.split)
qed

lemma role_ids_distinct:
  "distinct (concat (map (\<lambda>(role, a, ids). ids) ROLES) @ [''hivemind.visorStart'', ''hivemind.visorMid'', ''hivemind.visorEnd'', ''hivemind.beam1''])"
  by code_simp

lemma is_hex_alpha: "is_hex 6 s \<Longrightarrow> hex_digit x \<Longrightarrow> hex_digit y \<Longrightarrow> is_hex 8 (s @ [x, y])"
  using is_hex_append [of 6 s "[x, y]"] by simp

lemma roles_ok:
  assumes "palette_ok p"
  shows "list_all (\<lambda>(role, a, ids). is_hex 6 (role p @ a) \<or> is_hex 8 (role p @ a)) ROLES"
proof -
  have "is_hex 6 (accent p)" "is_hex 6 (accentText p)" "is_hex 6 (button p)" "is_hex 6 (buttonHover p)" "is_hex 6 (buttonFg p)"
    "is_hex 8 (selection p)" "is_hex 8 (findMatch p)" "is_hex 8 (findMatchHighlight p)"
    using assms by (auto simp: palette_ok_def split: prod.splits)
  then show ?thesis by (simp add: ROLES_def is_hex_alpha hex_digit_def)
qed

text \<open>Every palette is made of colours: the presets, and what is derived from a colour of the user.\<close>

lemma presets_ok: "(c, p) \<in> set DARK_PRESETS \<union> set LIGHT_PRESETS \<Longrightarrow> palette_ok p"
proof -
  have "list_all (\<lambda>(c, p). palette_ok p) (DARK_PRESETS @ LIGHT_PRESETS)" by code_simp
  then show "(c, p) \<in> set DARK_PRESETS \<union> set LIGHT_PRESETS \<Longrightarrow> ?thesis" by (auto simp: list_all_iff)
qed

lemma ensured_on_background:
  assumes "in_range (parts fg)" "r \<le> 4.5"
  shows "r \<le> getContrastRatio (fromHex (BACKGROUND k)) (ensureConstrast (fromHex (BACKGROUND k)) fg r)"
    and "in_range (parts (ensureConstrast (fromHex (BACKGROUND k)) fg r))"
proof -
  have "r \<le> getContrastRatio (fromHex (BACKGROUND k)) (opaque (0, 0, 0)) \<or> r \<le> getContrastRatio (fromHex (BACKGROUND k)) (opaque (255, 255, 255))"
    using background_contrast [of k] assms(2) by linarith
  then show "r \<le> getContrastRatio (fromHex (BACKGROUND k)) (ensureConstrast (fromHex (BACKGROUND k)) fg r)"
    "in_range (parts (ensureConstrast (fromHex (BACKGROUND k)) fg r))"
    using ensureConstrast_contrast [OF assms(1)] by blast+
qed

lemma fixed_ranges [simp]: "in_range (255, 255, 255)" "in_range (parts (fromHex ON_ACCENT))"
  by (simp_all add: in_range_def ON_ACCENT_def background_parts)

lemma derived_ok:
  assumes "in_range (parts base)"
  shows "palette_ok (derivePalette base k)"
proof -
  have b: "is_hex 6 (formatHex base)" using assms by (rule is_hex_format)
  have "is_hex 6 (formatHex (if k = Dark then base else ensureConstrast (fromHex (BACKGROUND k)) base 3))"
    "is_hex 6 (formatHex (ensureConstrast (fromHex (BACKGROUND k)) (if k = Dark then lighten base (1 / 10) else base) (45 / 10)))"
    "is_hex 6 (formatHex (if k = Dark \<or> isDarker base then lighten base (15 / 100) else darken base (8 / 100)))"
    "is_hex 6 (formatHex (if getContrastRatio (fromHex ON_ACCENT) base \<ge> getContrastRatio (opaque (255, 255, 255)) base
       then fromHex ON_ACCENT else opaque (255, 255, 255)))"
    by (intro is_hex_format; simp add: assms ensured_on_background)+
  then show ?thesis using b
    by (cases k) (simp_all add: palette_ok_def derivePalette_def is_hex_alpha is_hex_format hex_digit_def Let_def)
qed

lemma accentPalette_ok: "accentPalette choice custom k = Some p \<Longrightarrow> palette_ok p"
  by (auto simp: accentPalette_def split: if_splits dest!: map_of_SomeD intro: presets_ok derived_ok parseAccentHex_range)

section \<open>Properties\<close>

text \<open>
  Property C38: Property C1. A colour of the user keeps text readable: whatever custom colour is given, links and other text in
  the accent have a contrast of 4.5 with the background of the theme, strokes in a light theme one of 3, and the text of a
  button one of 4.4 with the button.
\<close>

theorem custom_accent_is_readable:
  assumes "accentPalette Custom custom k = Some p"
  shows "4.5 \<le> getContrastRatio (fromHex (BACKGROUND k)) (fromHex (accentText p)) \<and>
    (k = Light \<longrightarrow> 3 \<le> getContrastRatio (fromHex (BACKGROUND k)) (fromHex (accent p))) \<and>
    4.4 \<le> getContrastRatio (fromHex (buttonFg p)) (fromHex (button p))"
proof -
  obtain base where base: "in_range (parts base)" "p = derivePalette base k"
    using assms parseAccentHex_range by (auto simp: accentPalette_def)
  let ?bg = "fromHex (BACKGROUND k)"
  have read: "getContrastRatio c (fromHex (formatHex d)) = getContrastRatio c d" if "in_range (parts d)" for c d
    using that by (intro contrast_parts from_format) simp
  have ensured: "r \<le> getContrastRatio ?bg (fromHex (formatHex (ensureConstrast ?bg fg r)))"
    if "in_range (parts fg)" "r \<le> 4.5" for fg r
    using ensured_on_background [OF that] by (simp add: read)
  have "4.4 \<le> getContrastRatio (fromHex (buttonFg p)) (fromHex (button p))"
    using button_contrast [OF base(1)] base
    by (auto simp: derivePalette_def Let_def read contrast_parts [OF from_format]
        split: prod.split)
  then show ?thesis using ensured [of base 3] ensured [of base "45 / 10"] ensured [of "lighten base (1 / 10)" "45 / 10"] base
    by (cases k) (auto simp: derivePalette_def Let_def)
qed


definition demo_yellow :: color where "demo_yellow = opaque (255, 235, 59)"

lemma demo_yellow_palette: "accentPalette Custom (Some '' #ffeb3b'') k = Some (derivePalette demo_yellow k)"
proof -
  have "formatHex demo_yellow = ''#ffeb3b''"
    by (simp add: demo_yellow_def formatHex_def opaque_def from_rgba_def mk_rgba_def component_def twoDigitHex_def hex_char_def)
  moreover have range: "in_range (255, 235, 59)" by (simp add: in_range_def)
  ultimately have "parseHex ''#ffeb3b'' = Some demo_yellow"
    using parse_format [of demo_yellow] by (simp add: demo_yellow_def)
  moreover have "js_trim '' #ffeb3b'' = ''#ffeb3b''" by (simp add: js_trim_def js_trim_start_def is_js_space_def)
  ultimately show ?thesis
    by (simp add: accentPalette_def parseAccentHex_def demo_yellow_def opaque_def from_rgba_def mk_rgba_def component_def)
qed

lemma custom_accent_is_readable_witness:
  "4.5 \<le> getContrastRatio (fromHex ''#ffffff'') (fromHex (accentText (derivePalette demo_yellow Light)))"
  using custom_accent_is_readable [OF demo_yellow_palette, of Light] by (simp add: BACKGROUND_def)

lemma map_of_filter_keys: "map_of (filter (\<lambda>(k, v). P k) m) k = (if P k then map_of m k else None)"
  by (induction m) auto

lemma is_hex_parses:
  assumes "is_hex n s" "n = 6 \<or> n = 8"
  shows "parseHex s \<noteq> None"
proof -
  obtain cs where cs: "s = CHR ''#'' # cs" "length cs = n" using assms(1) by (auto simp: is_hex_def split: list.splits)
  from assms(2) show ?thesis
  proof
    assume "n = 6"
    then obtain a b c d e f where "cs = [a, b, c, d, e, f]" using cs(2) by (auto simp: numeral_eq_Suc length_Suc_conv)
    then show ?thesis using cs(1) by (simp add: parseHex_def)
  next
    assume "n = 8"
    then obtain a b c d e f g h where "cs = [a, b, c, d, e, f, g, h]" using cs(2) by (auto simp: numeral_eq_Suc length_Suc_conv)
    then show ?thesis using cs(1) by (simp add: parseHex_def)
  qed
qed

lemma colors_parse:
  assumes "palette_ok p" "(i, c) \<in> set (accentThemeColors p)"
  shows "parseHex c \<noteq> None"
proof -
  obtain v0 v1 v2 where v: "visor p = (v0, v1, v2)" by (cases "visor p") auto
  have "(i, c) \<in> set (concat (map (\<lambda>(role, a, ids). map (\<lambda>i. (i, role p @ a)) ids) ROLES)) \<or> c \<in> {v0, v1, v2}"
    using set_mp [OF set_js_map_of assms(2) [unfolded colors_as_map v prod.case]] by (auto simp del: set_concat)
  then have "is_hex 6 c \<or> is_hex 8 c"
  proof
    assume "(i, c) \<in> set (concat (map (\<lambda>(role, a, ids). map (\<lambda>i. (i, role p @ a)) ids) ROLES))"
    then obtain role a ids where "(role, a, ids) \<in> set ROLES" "c = role p @ a" by auto
    then show ?thesis using roles_ok [OF assms(1)] unfolding list_all_iff by fastforce
  next
    assume "c \<in> {v0, v1, v2}"
    then show ?thesis using assms(1) v by (auto simp: palette_ok_def)
  qed
  then show ?thesis using is_hex_parses by blast
qed

lemma map_of_rev_distinct: "distinct (map fst kvs) \<Longrightarrow> (k, v) \<in> set kvs \<Longrightarrow> map_of (rev kvs) k = Some v"
  by (intro map_of_is_SomeI) (auto simp flip: rev_map)

lemma map_of_roles:
  assumes "(role, a, ids) \<in> set ROLES" "i \<in> set ids"
  shows "map_of (accentThemeColors p) i = Some (role p @ a)"
proof -
  let ?kvs = "concat (map (\<lambda>(role, a, ids). map (\<lambda>i. (i, role p @ a)) ids) ROLES) @
     (case visor p of (v0, v1, v2) \<Rightarrow>
        [(''hivemind.visorStart'', v0), (''hivemind.visorMid'', v1), (''hivemind.visorEnd'', v2), (''hivemind.beam1'', v1)])"
  have "map fst ?kvs = concat (map (\<lambda>(role, a, ids). ids) ROLES) @ [''hivemind.visorStart'', ''hivemind.visorMid'', ''hivemind.visorEnd'', ''hivemind.beam1'']"
    by (simp add: map_concat comp_def case_prod_unfold)
  then have "distinct (map fst ?kvs)" using role_ids_distinct by simp
  moreover have "(i, role p @ a) \<in> set ?kvs" using assms by force
  ultimately have "map_of (rev ?kvs) i = Some (role p @ a)" by (rule map_of_rev_distinct)
  then show ?thesis unfolding colors_as_map map_of_js_map_of .
qed

text \<open>Property C2. The overlay paints exactly what it should: with the palette of the chosen accent, each colour of the
  two themes that carries a role of it gets the colour of that role, unless the user has set it; every colour painted
  is one that parses; and any other theme is left as it is.\<close>

theorem overlay_paints_the_roles:
  assumes "accentPalette choice custom k = Some p"
  shows "(settingsId \<in> set ACCENT_COLOR_THEMES \<longrightarrow>
      (\<forall>(role, a, ids)\<in>set ROLES. \<forall>i\<in>set ids.
         map_of (colorsFor customizations settingsId (Some k) choice custom) i =
           (if i \<in> userColorIds customizations settingsId then None else Some (fromHex (role p @ a))))) \<and>
    (\<forall>c\<in>snd ` set (accentThemeColors p). parseHex c \<noteq> None) \<and>
    (settingsId \<notin> set ACCENT_COLOR_THEMES \<longrightarrow> colorsFor customizations settingsId kind choice custom = [])"
proof (intro conjI impI ballI)
  fix r assume theme: "settingsId \<in> set ACCENT_COLOR_THEMES" and r: "r \<in> set ROLES"
  obtain role a ids where r': "r = (role, a, ids)" by (cases r) auto
  have "map_of (colorsFor customizations settingsId (Some k) choice custom) i =
      (if i \<in> userColorIds customizations settingsId then None else Some (fromHex (role p @ a)))" if "i \<in> set ids" for i
    using map_of_roles [OF r [unfolded r'] that, of p] theme assms
    by (simp add: colorsFor_def map_of_map map_of_filter_keys)
  then show "case r of (role, a, ids) \<Rightarrow> \<forall>i\<in>set ids. map_of (colorsFor customizations settingsId (Some k) choice custom) i =
      (if i \<in> userColorIds customizations settingsId then None else Some (fromHex (role p @ a)))"
    by (simp add: r')
next
  show "parseHex c \<noteq> None" if "c \<in> snd ` set (accentThemeColors p)" for c
    using colors_parse [OF accentPalette_ok [OF assms]] that by fastforce
qed (simp add: colorsFor_def)

lemma overlay_paints_the_roles_witness:
  "map_of (colorsFor [(''[Hivemind Dynamic]'', JObj [(''badge.background'', JStr ''#ff0000'')])] ''Hivemind Dynamic'' (Some Dark) Custom (Some '' #ffeb3b''))
     ''badge.background'' = None \<and>
   map_of (colorsFor [] ''Hivemind Light'' (Some Light) Jade None) ''button.background'' = Some (fromHex ''#8fd400'')"
proof -
  let ?user = "[(''[Hivemind Dynamic]'', JObj [(''badge.background'', JStr ''#ff0000'')])]"
  have roles: "(button, [], [''button.background'', ''extensionButton.prominentBackground'', ''badge.background'',
      ''activityBarBadge.background'', ''statusBar.debuggingBackground'']) \<in> set ROLES"
    by (simp add: ROLES_def)
  have jade: "\<exists>p. accentPalette Jade None Light = Some p \<and> button p = ''#8fd400''"
    by (simp add: accentPalette_def LIGHT_PRESETS_def)
  then obtain p where p: "accentPalette Jade None Light = Some p" "button p = ''#8fd400''" by blast
  have "map_of (colorsFor ?user ''Hivemind Dynamic'' (Some Dark) Custom (Some '' #ffeb3b'')) i =
      (if i \<in> userColorIds ?user ''Hivemind Dynamic'' then None else Some (fromHex (button (derivePalette demo_yellow Dark) @ [])))"
    if "i \<in> {''button.background'', ''badge.background''}" for i
  proof -
    have "\<forall>(role, a, ids)\<in>set ROLES. \<forall>i\<in>set ids. map_of (colorsFor ?user ''Hivemind Dynamic'' (Some Dark) Custom (Some '' #ffeb3b'')) i =
        (if i \<in> userColorIds ?user ''Hivemind Dynamic'' then None else Some (fromHex (role (derivePalette demo_yellow Dark) @ a)))"
      using overlay_paints_the_roles [OF demo_yellow_palette] by (simp add: ACCENT_COLOR_THEMES_def)
    from bspec [OF this roles] that show ?thesis by auto
  qed
  moreover have "map_of (colorsFor [] ''Hivemind Light'' (Some Light) Jade None) ''button.background'' =
      (if ''button.background'' \<in> userColorIds [] ''Hivemind Light'' then None else Some (fromHex (button p @ [])))"
  proof -
    have "\<forall>(role, a, ids)\<in>set ROLES. \<forall>i\<in>set ids. map_of (colorsFor [] ''Hivemind Light'' (Some Light) Jade None) i =
        (if i \<in> userColorIds [] ''Hivemind Light'' then None else Some (fromHex (role p @ a)))"
      using overlay_paints_the_roles [OF p(1)] by (simp add: ACCENT_COLOR_THEMES_def)
    from bspec [OF this roles] show ?thesis by simp
  qed
  ultimately show ?thesis by (simp add: userColorIds_def p(2))
qed

text \<open>A text that is no colour is one all the same: a character that is no hexadecimal digit counts as 0.\<close>

lemma any_text_is_a_color: "parseAccentHex (Some ''#zzzzzz'') \<noteq> None"
  by (simp add: parseAccentHex_def parseHex_def js_trim_def js_trim_start_def is_js_space_def)

end
