(* ===== verification/Usage_Readers.thy ===== *)
theory Usage_Readers
  imports Usage_Limits Machine_Stats "HOL-Library.List_Lexorder" "HOL-Library.Char_ord"
begin

text \<open>
  What other tools leave on the machine: the session logs of Codex (\<open>H/browser/usageNotch/codexLimitsReader.ts\<close>), the
  statistics of Claude Code (\<open>H/browser/claudeUsageService.ts\<close>) and the entry of the status bar that shows
  them (\<open>H/browser/usageIndicator.ts\<close>). The file system is an argument: what a folder lists, with times and
  sizes, and what a file holds from a position on; \<open>None\<close> where the file service throws.
\<close>

section \<open>The logs of Codex\<close>

record log_entry =
  le_name :: string
  le_folder :: bool
  le_mtime :: int
  le_size :: nat

record log_world =
  lw_resolve :: "string list \<Rightarrow> log_entry list option"
  lw_read :: "string list \<Rightarrow> nat \<Rightarrow> string option"

type_synonym snapshot = "(real \<times> usage_window list) option"
type_synonym log_cache = "(string list \<times> (int \<times> snapshot)) list"

definition TAIL_BYTES :: nat where "TAIL_BYTES = 256 * 1024"
definition CANDIDATE_DAYS :: nat where "CANDIDATE_DAYS = 3"
definition CANDIDATE_FILES :: nat where "CANDIDATE_FILES = 8"

definition numeric :: "string \<Rightarrow> bool" where
  "numeric s \<longleftrightarrow> s \<noteq> [] \<and> list_all is_digit s"

definition newest_folders :: "log_entry list \<Rightarrow> string list" where
  "newest_folders es = rev (sort (map le_name (filter (\<lambda>e. le_folder e \<and> numeric (le_name e)) es)))"

text \<open>\<open>depth\<close> is one less than in the code, so 0 is a folder of days.\<close>

primrec collectNewestDays :: "nat \<Rightarrow> log_world \<Rightarrow> string list \<Rightarrow> string list list \<Rightarrow> string list list option" where
  "collectNewestDays 0 w dir found =
     map_option (\<lambda>es. foldl (\<lambda>acc name. if length acc \<ge> CANDIDATE_DAYS then acc else acc @ [dir @ [name]]) found (newest_folders es))
       (lw_resolve w dir)"
| "collectNewestDays (Suc depth) w dir found =
     Option.bind (lw_resolve w dir) (\<lambda>es.
       foldl (\<lambda>acc name. Option.bind acc (\<lambda>days.
            if length days \<ge> CANDIDATE_DAYS then Some days else collectNewestDays depth w (dir @ [name]) days))
         (Some found) (newest_folders es))"

text \<open>\<open>/^rollout-.*\.jsonl$/\<close>; a name has no line break.\<close>

definition is_rollout :: "log_entry \<Rightarrow> bool" where
  "is_rollout e \<longleftrightarrow> \<not> le_folder e \<and> prefix ''rollout-'' (le_name e) \<and> suffix ''.jsonl'' (drop 8 (le_name e))"

fun day_logs :: "log_world \<Rightarrow> string list list \<Rightarrow> (string list \<times> log_entry) list option" where
  "day_logs w [] = Some []"
| "day_logs w (d # ds) =
     (case lw_resolve w d of
        None \<Rightarrow> None
      | Some es \<Rightarrow> map_option (\<lambda>rest. map (\<lambda>e. (d @ [le_name e], e)) (filter is_rollout es) @ rest) (day_logs w ds))"

definition newestLogs :: "log_world \<Rightarrow> string list \<Rightarrow> (string list \<times> log_entry) list option" where
  "newestLogs w dir =
     Option.bind (collectNewestDays 2 w dir []) (\<lambda>days.
       map_option (\<lambda>files. take CANDIDATE_FILES (sort_key (\<lambda>f. - le_mtime (snd f)) files)) (day_logs w days))"

text \<open>The last line with a snapshot, but not the first of a text that was cut.\<close>

fun last_snapshot :: "(string \<Rightarrow> snapshot) \<Rightarrow> string list \<Rightarrow> snapshot" where
  "last_snapshot parse [] = None"
| "last_snapshot parse (l # ls) = (case last_snapshot parse ls of Some s \<Rightarrow> Some s | None \<Rightarrow> parse l)"

definition fresh_snapshot :: "(string \<Rightarrow> snapshot) \<Rightarrow> log_world \<Rightarrow> string list \<times> log_entry \<Rightarrow> snapshot" where
  "fresh_snapshot parse w f =
     (let position = le_size (snd f) - TAIL_BYTES
      in case lw_read w (fst f) position of
           None \<Rightarrow> None
         | Some content \<Rightarrow> last_snapshot parse (drop (if position > 0 then 1 else 0) (js_split nl content)))"

definition snapshotOf :: "(string \<Rightarrow> snapshot) \<Rightarrow> log_world \<Rightarrow> log_cache \<Rightarrow> string list \<times> log_entry \<Rightarrow> snapshot \<times> log_cache" where
  "snapshotOf parse w cache f =
     (case map_of cache (fst f) of
        Some (m, s) \<Rightarrow>
          if m = le_mtime (snd f) then (s, cache)
          else let s' = fresh_snapshot parse w f in (s', AList.update (fst f) (le_mtime (snd f), s') cache)
      | None \<Rightarrow> let s' = fresh_snapshot parse w f in (s', AList.update (fst f) (le_mtime (snd f), s') cache))"

fun first_snapshot ::
  "(string \<Rightarrow> snapshot) \<Rightarrow> log_world \<Rightarrow> log_cache \<Rightarrow> (string list \<times> log_entry) list \<Rightarrow> snapshot \<times> log_cache" where
  "first_snapshot parse w cache [] = (None, cache)"
| "first_snapshot parse w cache (f # fs) =
     (case snapshotOf parse w cache f of
        (Some s, c) \<Rightarrow> (Some s, c)
      | (None, c) \<Rightarrow> first_snapshot parse w c fs)"

definition codex_provider :: "real \<times> usage_window list \<Rightarrow> provider_limits" where
  "codex_provider s = \<lparr>lim_id = ''codex'', lim_label = ''Codex'', glyph = ''CX'', windows = snd s, observedAt = Some (fst s),
     lim_source = ''Codex session log on this machine''\<rparr>"

definition sessions_root :: "string list \<Rightarrow> string list" where
  "sessions_root home = home @ [''.codex'', ''sessions'']"

definition codex_read ::
  "(string \<Rightarrow> snapshot) \<Rightarrow> string list \<Rightarrow> log_world \<Rightarrow> log_cache \<Rightarrow> provider_limits option \<times> log_cache" where
  "codex_read parse home w cache =
     (case newestLogs w (sessions_root home) of
        None \<Rightarrow> (None, cache)
      | Some files \<Rightarrow>
          (let kept = filter (\<lambda>(k, v). k \<in> fst ` set files) cache;
               (s, cache') = first_snapshot parse w kept files
           in (map_option codex_provider s, cache')))"

section \<open>The statistics of Claude Code\<close>

record model_tokens =
  mt_model :: string
  mt_tokens :: real

record provider_usage =
  pu_tokens :: real
  pu_date :: string
  pu_stale :: bool
  pu_byModel :: "model_tokens list"
  pu_costUSD :: real
  pu_sessionCount :: real
  pu_messageCount :: real

datatype usage_snapshot = NoUsage string | Usage provider_usage

definition num_or :: "js_val \<Rightarrow> real" where
  "num_or v = (case js_num v of Some x \<Rightarrow> x | None \<Rightarrow> 0)"

definition entries_of :: "js_val \<Rightarrow> (string \<times> js_val) list" where
  "entries_of v = (case v of JObj kvs \<Rightarrow> js_map_of kvs | _ \<Rightarrow> [])"

definition arr_or :: "js_val \<Rightarrow> js_val list" where
  "arr_or v = (case js_arr v of Some vs \<Rightarrow> vs | None \<Rightarrow> [])"

definition date_of :: "js_val \<Rightarrow> string" where
  "date_of v = (case js_str (js_get v ''date'') of Some d \<Rightarrow> d | None \<Rightarrow> [])"

definition latest_day :: "js_val \<Rightarrow> js_val list \<Rightarrow> js_val" where
  "latest_day d ds = foldl (\<lambda>a b. if date_of a > date_of b then a else b) d ds"

definition toUsage :: "string \<Rightarrow> js_val \<Rightarrow> provider_usage option" where
  "toUsage today cache =
     (case arr_or (js_get cache ''dailyModelTokens'') of
        [] \<Rightarrow> None
      | d # ds \<Rightarrow>
          (let chosen = (case List.find (\<lambda>x. date_of x = today) (d # ds) of Some x \<Rightarrow> x | None \<Rightarrow> latest_day d ds);
               byModel = sort_key (\<lambda>m. - mt_tokens m)
                 (map (\<lambda>(m, t). \<lparr>mt_model = m, mt_tokens = num_or t\<rparr>) (entries_of (js_get chosen ''tokensByModel'')));
               activity = List.find (\<lambda>x. date_of x = date_of chosen) (arr_or (js_get cache ''dailyActivity''));
               count = (\<lambda>k. case activity of Some x \<Rightarrow> num_or (js_get x k) | None \<Rightarrow> 0)
           in Some \<lparr>pu_tokens = foldl (+) 0 (map mt_tokens byModel), pu_date = date_of chosen, pu_stale = (date_of chosen \<noteq> today),
                pu_byModel = byModel,
                pu_costUSD = foldl (\<lambda>c m. c + num_or (js_get (snd m) ''costUSD'')) 0 (entries_of (js_get cache ''modelUsage'')),
                pu_sessionCount = count ''sessionCount'', pu_messageCount = count ''messageCount''\<rparr>))"

text \<open>\<open>raw\<close> is \<open>None\<close> when the file cannot be read; reading a field of a JSON \<open>null\<close> throws.\<close>

definition claude_read :: "(string \<Rightarrow> js_val option) \<Rightarrow> string \<Rightarrow> string option \<Rightarrow> string + usage_snapshot" where
  "claude_read json today raw =
     (case raw of
        None \<Rightarrow> Inr (NoUsage ''Claude Code usage data not found on this machine.'')
      | Some s \<Rightarrow>
          (case json s of
             None \<Rightarrow> Inr (NoUsage ''Claude Code usage data could not be parsed.'')
           | Some JNull \<Rightarrow> Inl ''Cannot read properties of null (reading 'dailyModelTokens')''
           | Some cache \<Rightarrow>
               (case toUsage today cache of
                  None \<Rightarrow> Inr (NoUsage ''Claude Code has recorded no daily usage yet.'')
                | Some u \<Rightarrow> Inr (Usage u))))"

section \<open>The status bar\<close>

record usage_settings =
  us_enabled :: bool
  us_seconds :: "real option"
  us_budget :: "real option"

record usage_bar =
  ub_timer :: "real option"        \<comment> \<open>the interval\<close>
  ub_entry :: "string option"      \<comment> \<open>its text\<close>
  ub_reading :: nat                \<comment> \<open>reads under way\<close>

definition bar_text :: "usage_settings \<Rightarrow> usage_snapshot \<Rightarrow> string" where
  "bar_text u got =
     (case got of
        NoUsage reason \<Rightarrow> ''$(pulse) no data''
      | Usage p \<Rightarrow>
          (let budget = (case us_budget u of Some b \<Rightarrow> b | None \<Rightarrow> 0);
               label = (if budget > 0 then show_int (js_round (pu_tokens p / budget * 100)) @ ''%'' else formatTokens \<lfloor>pu_tokens p\<rfloor>)
           in ''$(pulse) '' @ label @ (if pu_stale p then '' ~'' else [])))"

definition bar_update :: "usage_settings \<Rightarrow> usage_bar \<Rightarrow> usage_bar" where
  "bar_update u b =
     (if \<not> us_enabled u then b\<lparr>ub_timer := None, ub_entry := None\<rparr>
      else b\<lparr>ub_timer := Some (max 10 (case us_seconds u of Some s \<Rightarrow> s | None \<Rightarrow> 60) * 1000), ub_reading := Suc (ub_reading b)\<rparr>)"

definition bar_tick :: "usage_bar \<Rightarrow> usage_bar" where
  "bar_tick b = (if ub_timer b = None then b else b\<lparr>ub_reading := Suc (ub_reading b)\<rparr>)"

definition bar_read :: "usage_settings \<Rightarrow> string + usage_snapshot \<Rightarrow> usage_bar \<Rightarrow> usage_bar" where
  "bar_read u got b =
     (if ub_reading b = 0 then b
      else let b1 = b\<lparr>ub_reading := ub_reading b - 1\<rparr>
        in case got of
             Inl err \<Rightarrow> b1
           | Inr s \<Rightarrow> if \<not> us_enabled u then b1\<lparr>ub_timer := None, ub_entry := None\<rparr> else b1\<lparr>ub_entry := Some (bar_text u s)\<rparr>)"


section \<open>The cache of the logs\<close>

definition listed :: "log_world \<Rightarrow> string list \<Rightarrow> log_entry \<Rightarrow> bool" where
  "listed w k e \<longleftrightarrow> (\<exists>dir es. k = dir @ [le_name e] \<and> lw_resolve w dir = Some es \<and> e \<in> set es)"

text \<open>What two states of the file system agree on: a file with the same time has the same content.\<close>

definition same_files :: "log_world \<Rightarrow> log_world \<Rightarrow> bool" where
  "same_files w w' \<longleftrightarrow> (\<forall>k e e'. listed w k e \<longrightarrow> listed w' k e' \<longrightarrow> le_mtime e = le_mtime e' \<longrightarrow>
     le_size e = le_size e' \<and> lw_read w k = lw_read w' k)"

definition read_from :: "(string \<Rightarrow> snapshot) \<Rightarrow> log_world list \<Rightarrow> log_cache \<Rightarrow> bool" where
  "read_from parse ws cache \<longleftrightarrow> (\<forall>k m s. map_of cache k = Some (m, s) \<longrightarrow>
     (\<exists>w\<in>set ws. \<exists>e. listed w k e \<and> le_mtime e = m \<and> s = fresh_snapshot parse w (k, e)))"

definition caches :: "(string \<Rightarrow> snapshot) \<Rightarrow> string list \<Rightarrow> log_world list \<Rightarrow> log_cache" where
  "caches parse home ws = foldl (\<lambda>c w. snd (codex_read parse home w c)) [] ws"

lemma day_logs_listed:
  "day_logs w ds = Some files \<Longrightarrow> (k, e) \<in> set files \<Longrightarrow> listed w k e"
  by (induction ds arbitrary: files) (auto simp: listed_def split: option.splits)

lemma newestLogs_listed:
  assumes "newestLogs w dir = Some files" "(k, e) \<in> set files"
  shows "listed w k e"
proof -
  obtain days fs where "day_logs w days = Some fs" "files = take CANDIDATE_FILES (sort_key (\<lambda>f. - le_mtime (snd f)) fs)"
    using assms(1) by (auto simp: newestLogs_def bind_eq_Some_conv)
  then show ?thesis using assms(2) day_logs_listed by (metis in_set_takeD set_sort)
qed

lemma newestLogs_length: "newestLogs w dir = Some files \<Longrightarrow> length files \<le> CANDIDATE_FILES"
  by (auto simp: newestLogs_def bind_eq_Some_conv)

text \<open>A cached snapshot is the one that reading the file now would give.\<close>

lemma snapshotOf_fresh:
  assumes "read_from parse ws cache" "\<forall>v\<in>set ws. same_files v w" "listed w (fst f) (snd f)"
  shows "fst (snapshotOf parse w cache f) = fresh_snapshot parse w f"
proof -
  have "s = fresh_snapshot parse w f" if cached: "map_of cache (fst f) = Some (le_mtime (snd f), s)" for s
  proof -
    obtain v e where v: "v \<in> set ws" "listed v (fst f) e" "le_mtime e = le_mtime (snd f)" "s = fresh_snapshot parse v (fst f, e)"
      using assms(1) cached unfolding read_from_def by blast
    then have "le_size e = le_size (snd f) \<and> lw_read v (fst f) = lw_read w (fst f)"
      using assms(2,3) by (auto simp: same_files_def)
    then show ?thesis using v(4) by (simp add: fresh_snapshot_def)
  qed
  then show ?thesis by (auto simp: snapshotOf_def Let_def split: option.split)
qed

lemma snapshotOf_read_from:
  assumes "read_from parse ws cache" "listed w (fst f) (snd f)" "w \<in> set ws"
  shows "read_from parse ws (snd (snapshotOf parse w cache f))"
proof -
  have "read_from parse ws (AList.update (fst f) (le_mtime (snd f), fresh_snapshot parse w f) cache)"
    using assms by (cases f) (auto simp: read_from_def update_conv' intro!: bexI [of _ w] exI [of _ "snd f"])
  then show ?thesis using assms(1) by (auto simp: snapshotOf_def Let_def split: option.split)
qed

lemma snapshotOf_keys:
  "distinct (map fst cache) \<Longrightarrow> distinct (map fst (snd (snapshotOf parse w cache f))) \<and>
   fst ` set (snd (snapshotOf parse w cache f)) \<subseteq> insert (fst f) (fst ` set cache)"
  by (auto simp: snapshotOf_def Let_def distinct_update dom_update split: option.split)

fun fresh_first :: "(string \<Rightarrow> snapshot) \<Rightarrow> log_world \<Rightarrow> (string list \<times> log_entry) list \<Rightarrow> snapshot" where
  "fresh_first parse w [] = None"
| "fresh_first parse w (f # fs) = (case fresh_snapshot parse w f of Some s \<Rightarrow> Some s | None \<Rightarrow> fresh_first parse w fs)"

lemma first_snapshot_read_from:
  "read_from parse ws cache \<Longrightarrow> w \<in> set ws \<Longrightarrow> \<forall>(k, e)\<in>set fs. listed w k e \<Longrightarrow>
   read_from parse ws (snd (first_snapshot parse w cache fs))"
proof (induction fs arbitrary: cache)
  case (Cons f fs)
  obtain s c where sc: "snapshotOf parse w cache f = (s, c)" by fastforce
  then have "read_from parse ws c" using snapshotOf_read_from [OF Cons.prems(1) _ Cons.prems(2), of f] Cons.prems(3) by auto
  then show ?case using Cons.IH [of c] Cons.prems(2,3) sc by (cases s) simp_all
qed simp

lemma first_snapshot_fresh:
  assumes "read_from parse ws cache" "\<forall>v\<in>set ws. same_files v w" "w \<in> set ws" "\<forall>(k, e)\<in>set fs. listed w k e"
  shows "fst (first_snapshot parse w cache fs) = fresh_first parse w fs"
  using assms
proof (induction fs arbitrary: cache)
  case (Cons f fs)
  have f: "listed w (fst f) (snd f)" using Cons.prems(4) by auto
  obtain s c where sc: "snapshotOf parse w cache f = (s, c)" by fastforce
  have c: "fresh_snapshot parse w f = s" "read_from parse ws c"
    using snapshotOf_fresh [OF Cons.prems(1,2) f] snapshotOf_read_from [OF Cons.prems(1) f Cons.prems(3)] sc by simp_all
  show ?case
  proof (cases s)
    case None
    then show ?thesis using Cons.IH [OF c(2) Cons.prems(2,3)] Cons.prems(4) c(1) sc by simp
  qed (use c sc in simp)
qed simp

lemma first_snapshot_keys:
  "distinct (map fst cache) \<Longrightarrow> distinct (map fst (snd (first_snapshot parse w cache fs))) \<and>
   fst ` set (snd (first_snapshot parse w cache fs)) \<subseteq> fst ` set fs \<union> fst ` set cache"
proof (induction fs arbitrary: cache)
  case (Cons f fs)
  obtain s c where sc: "snapshotOf parse w cache f = (s, c)" by fastforce
  then have c: "distinct (map fst c)" "fst ` set c \<subseteq> insert (fst f) (fst ` set cache)"
    using snapshotOf_keys [OF Cons.prems, of parse w f] by simp_all
  show ?case
  proof (cases s)
    case None
    then have "first_snapshot parse w cache (f # fs) = first_snapshot parse w c fs" using sc by simp
    then show ?thesis using Cons.IH [OF c(1)] c(2) by (simp only: list.set image_insert) blast
  next
    case (Some x)
    then have "snd (first_snapshot parse w cache (f # fs)) = c" using sc by simp
    then show ?thesis using c by (simp only: list.set image_insert) blast
  qed
qed simp

lemma length_keys: "distinct (map fst xs) \<Longrightarrow> length xs = card (fst ` set xs)"
  using distinct_card [of "map fst xs"] by simp

lemma codex_read_cache:
  assumes "distinct (map fst cache)" "length cache \<le> CANDIDATE_FILES"
  shows "distinct (map fst (snd (codex_read parse home w cache))) \<and> length (snd (codex_read parse home w cache)) \<le> CANDIDATE_FILES"
proof (cases "newestLogs w (sessions_root home)")
  case (Some files)
  let ?kept = "filter (\<lambda>(k, v). k \<in> fst ` set files) cache"
  let ?c = "snd (first_snapshot parse w ?kept files)"
  have "distinct (map fst ?kept)" using assms(1) by (rule distinct_map_filter)
  from first_snapshot_keys [OF this, of parse w files]
  have c: "distinct (map fst ?c)" "fst ` set ?c \<subseteq> fst ` set files \<union> fst ` set ?kept" by auto
  moreover have "\<forall>kv\<in>set ?kept. fst kv \<in> fst ` set files" by (simp add: case_prod_unfold)
  then have "fst ` set ?kept \<subseteq> fst ` set files" by blast
  ultimately have c: "distinct (map fst ?c)" "fst ` set ?c \<subseteq> fst ` set files" by blast+
  from c(1) have "length ?c = card (fst ` set ?c)" by (rule length_keys)
  also have "\<dots> \<le> card (fst ` set files)" using c(2) by (intro card_mono) auto
  also have "\<dots> \<le> length files" using card_length [of "map fst files"] by simp
  finally show ?thesis using c(1) newestLogs_length [OF Some] by (simp add: codex_read_def Some Let_def case_prod_unfold)
qed (use assms in \<open>simp add: codex_read_def\<close>)

lemma read_from_filter: "read_from parse ws cache \<Longrightarrow> read_from parse ws (filter (\<lambda>(k, v). P k) cache)"
proof -
  have "map_of (filter (\<lambda>(k, v). P k) cache) k = (if P k then map_of cache k else None)" for k
    by (induction cache) auto
  then show "read_from parse ws cache \<Longrightarrow> ?thesis" by (simp add: read_from_def)
qed

lemma codex_read_read_from:
  assumes "read_from parse ws cache" "w \<in> set ws"
  shows "read_from parse ws (snd (codex_read parse home w cache))"
proof (cases "newestLogs w (sessions_root home)")
  case (Some files)
  have "\<forall>(k, e)\<in>set files. listed w k e" using newestLogs_listed [OF Some] by blast
  from first_snapshot_read_from [OF read_from_filter [OF assms(1)] assms(2) this, of "\<lambda>k. k \<in> fst ` set files"]
  show ?thesis by (simp add: codex_read_def Some Let_def case_prod_unfold)
qed (use assms in \<open>simp add: codex_read_def\<close>)

lemma codex_read_fresh:
  assumes "read_from parse ws cache" "\<forall>v\<in>set ws. same_files v w" "w \<in> set ws"
  shows "fst (codex_read parse home w cache) =
      Option.bind (newestLogs w (sessions_root home)) (\<lambda>fs. map_option codex_provider (fresh_first parse w fs))"
proof (cases "newestLogs w (sessions_root home)")
  case (Some files)
  have "\<forall>(k, e)\<in>set files. listed w k e" using newestLogs_listed [OF Some] by blast
  from first_snapshot_fresh [OF read_from_filter [OF assms(1)] assms(2,3) this, of "\<lambda>k. k \<in> fst ` set files"]
  show ?thesis by (simp add: codex_read_def Some Let_def case_prod_unfold)
qed (use assms(1) in \<open>simp add: codex_read_def\<close>)

lemma caches_ok:
  "read_from parse ws (caches parse home ws) \<and> distinct (map fst (caches parse home ws)) \<and> length (caches parse home ws) \<le> CANDIDATE_FILES"
proof (induction ws rule: rev_induct)
  case (snoc w ws)
  have "read_from parse (ws @ [w]) (caches parse home ws)" using snoc by (fastforce simp: read_from_def)
  then show ?case using snoc codex_read_read_from [of parse "ws @ [w]" _ w] codex_read_cache by (simp add: caches_def)
qed (simp add: caches_def read_from_def CANDIDATE_FILES_def)

section \<open>Properties\<close>



text \<open>Two days of logs; the newer log has no snapshot yet.\<close>

definition demo_logs :: "int \<Rightarrow> log_world" where
  "demo_logs m =
     \<lparr>lw_resolve = map_of
        [([''h'', ''.codex'', ''sessions''], [\<lparr>le_name = ''2026'', le_folder = True, le_mtime = 0, le_size = 0\<rparr>]),
         ([''h'', ''.codex'', ''sessions'', ''2026''], [\<lparr>le_name = ''01'', le_folder = True, le_mtime = 0, le_size = 0\<rparr>]),
         ([''h'', ''.codex'', ''sessions'', ''2026'', ''01''], [\<lparr>le_name = ''05'', le_folder = True, le_mtime = 0, le_size = 0\<rparr>]),
         ([''h'', ''.codex'', ''sessions'', ''2026'', ''01'', ''05''],
            [\<lparr>le_name = ''rollout-a.jsonl'', le_folder = False, le_mtime = 1, le_size = 2\<rparr>,
             \<lparr>le_name = ''rollout-b.jsonl'', le_folder = False, le_mtime = m, le_size = 2\<rparr>])],
      lw_read = (\<lambda>k pos. if last k = ''rollout-a.jsonl'' then Some ''s'' else Some ''-'')\<rparr>"

definition demo_parse :: "string \<Rightarrow> snapshot" where
  "demo_parse l = (if l = ''s'' then Some (5, []) else None)"

lemma demo_logs_listed: "listed (demo_logs m) k e \<Longrightarrow> le_size e = (if prefix ''rollout'' (last k) then 2 else 0)"
  by (auto simp: listed_def demo_logs_def split: if_splits)

lemma demo_logs_same: "same_files (demo_logs m) (demo_logs n)"
  using demo_logs_listed unfolding same_files_def by (simp add: demo_logs_def)

lemma demo_read: "lw_read (demo_logs m) k pos = (if last k = ''rollout-a.jsonl'' then Some ''s'' else Some ''-'')"
  by (simp add: demo_logs_def)

lemma demo_newest:
  "newestLogs (demo_logs 3) (sessions_root [''h'']) =
     (let day = [''h'', ''.codex'', ''sessions'', ''2026'', ''01'', ''05''] in
      Some [(day @ [''rollout-b.jsonl''], \<lparr>le_name = ''rollout-b.jsonl'', le_folder = False, le_mtime = 3, le_size = 2\<rparr>),
            (day @ [''rollout-a.jsonl''], \<lparr>le_name = ''rollout-a.jsonl'', le_folder = False, le_mtime = 1, le_size = 2\<rparr>)])"
  by (simp add: newestLogs_def sessions_root_def demo_logs_def numeral_2_eq_2 newest_folders_def numeric_def
       CANDIDATE_DAYS_def CANDIDATE_FILES_def is_rollout_def suffix_to_prefix is_digit_def)


section \<open>Other facts\<close>

text \<open>A log that could not be read counts as one without a snapshot until it is written again.\<close>

lemma failed_read_is_remembered:
  assumes "lw_read w (fst f) (le_size (snd f) - TAIL_BYTES) = None" "map_of cache (fst f) = None"
  shows "fst (snapshotOf parse w' (snd (snapshotOf parse w cache f)) f) = None"
  using assms by (simp add: snapshotOf_def fresh_snapshot_def Let_def update_conv')

text \<open>The days that are looked at are the newest ones.\<close>

primrec all_days :: "nat \<Rightarrow> log_world \<Rightarrow> string list \<Rightarrow> string list list" where
  "all_days 0 w dir = map (\<lambda>name. dir @ [name]) (newest_folders (the (lw_resolve w dir)))"
| "all_days (Suc depth) w dir = concat (map (\<lambda>name. all_days depth w (dir @ [name])) (newest_folders (the (lw_resolve w dir))))"

lemma foldl_take: "length found \<le> n \<Longrightarrow> foldl (\<lambda>acc x. if length acc \<ge> n then acc else acc @ [f x]) found xs = take n (found @ map f xs)"
  by (induction xs arbitrary: found) (auto simp: not_le take_Cons')

lemma take_take_append: "take n (take n xs @ ys) = take n (xs @ ys)"
  by (simp add: min_def)

lemma collect_newest:
  assumes "\<forall>dir. lw_resolve w dir \<noteq> None" "length found \<le> CANDIDATE_DAYS"
  shows "collectNewestDays depth w dir found = Some (take CANDIDATE_DAYS (found @ all_days depth w dir))"
  using assms(2)
proof (induction depth arbitrary: dir found)
  case 0
  obtain es where "lw_resolve w dir = Some es" using assms(1) by blast
  then show ?case using foldl_take [OF 0, of "\<lambda>name. dir @ [name]" "newest_folders es"] by simp
next
  case (Suc depth)
  have "foldl (\<lambda>acc name. Option.bind acc (\<lambda>days.
        if length days \<ge> CANDIDATE_DAYS then Some days else collectNewestDays depth w (dir @ [name]) days)) (Some found) names =
      Some (take CANDIDATE_DAYS (found @ concat (map (\<lambda>name. all_days depth w (dir @ [name])) names)))" for names
    using Suc.prems
  proof (induction names arbitrary: found)
    case (Cons n ns)
    show ?case
    proof (cases "length found \<ge> CANDIDATE_DAYS")
      case True
      then show ?thesis using Cons.IH [OF Cons.prems] Cons.prems by simp
    next
      case False
      let ?f = "take CANDIDATE_DAYS (found @ all_days depth w (dir @ [n]))"
      have "length ?f \<le> CANDIDATE_DAYS" by simp
      from Cons.IH [OF this] show ?thesis using False Suc.IH [OF Cons.prems]
        by (simp add: take_take_append del: take_append)
    qed
  qed simp
  moreover obtain es where "lw_resolve w dir = Some es" using assms(1) by blast
  ultimately show ?case by simp
qed

text \<open>The figures are those of today, or of the latest day and marked as stale.\<close>

lemma latest_day_max:
  "latest_day d ds \<in> set (d # ds) \<and> (\<forall>x\<in>set (d # ds). date_of x \<le> date_of (latest_day d ds))"
proof (induction ds arbitrary: d)
  case (Cons e es)
  have "latest_day d (e # es) = latest_day (if date_of d > date_of e then d else e) es" by (simp add: latest_day_def)
  then show ?case using Cons.IH [of d] Cons.IH [of e] by (auto split: if_splits)
qed (simp add: latest_day_def)

lemma stale_is_marked:
  assumes "toUsage today cache = Some u"
  shows "\<exists>days. js_arr (js_get cache ''dailyModelTokens'') = Some days \<and> pu_date u \<in> date_of ` set days \<and>
    (pu_stale u \<longleftrightarrow> today \<notin> date_of ` set days) \<and> (pu_stale u \<longrightarrow> (\<forall>x\<in>set days. date_of x \<le> pu_date u))"
proof -
  obtain d ds where days: "js_arr (js_get cache ''dailyModelTokens'') = Some (d # ds)"
    using assms by (auto simp: toUsage_def arr_or_def split: option.splits list.splits)
  define chosen where "chosen = (case List.find (\<lambda>x. date_of x = today) (d # ds) of Some x \<Rightarrow> x | None \<Rightarrow> latest_day d ds)"
  have u: "pu_date u = date_of chosen" "pu_stale u = (date_of chosen \<noteq> today)"
    using assms days by (auto simp: toUsage_def arr_or_def Let_def chosen_def)
  show ?thesis
  proof (cases "List.find (\<lambda>x. date_of x = today) (d # ds)")
    case None
    then have "\<forall>x\<in>set (d # ds). date_of x \<noteq> today" unfolding find_None_iff by blast
    moreover have "chosen = latest_day d ds" using None by (simp add: chosen_def)
    ultimately have "today \<notin> date_of ` set (d # ds)" "chosen = latest_day d ds" by auto
    then show ?thesis using u days latest_day_max [of d ds] by (metis image_eqI)
  next
    case (Some x)
    from find_Some_set [OF Some] have "x \<in> set (d # ds)" "date_of x = today" by blast+
    then show ?thesis using u days Some by (auto simp: chosen_def)
  qed
qed

text \<open>A statistics file that holds \<open>null\<close> makes the read fail: the entry of the status bar is never set.\<close>

lemma null_statistics_throw: "json s = Some JNull \<Longrightarrow> ub_entry (bar_read u (claude_read json today (Some s)) b) = ub_entry b"
  by (simp add: claude_read_def bar_read_def)

lemma disabled_bar_is_empty: "\<not> us_enabled u \<Longrightarrow> ub_entry (bar_update u b) = None \<and> ub_timer (bar_update u b) = None"
  by (simp add: bar_update_def)

end
