(* ===== verification/Shell_Steps.thy ===== *)
theory Shell_Steps
  imports Shell_Runtime
begin

text \<open>
  The steps of the main process service seen from outside: what each leaves alone, the cases an
  invariant has to go through, and a run that reaches the states the witnesses use.
\<close>

section \<open>What the operations leave alone\<close>

lemma fire_fields [simp]:
  "runtimes (fire e s) = runtimes s" "current (fire e s) = current s" "starting (fire e s) = starting s"
  "newborn (fire e s) = newborn s" "activePrompts (fire e s) = activePrompts s"
  "permissionRequests (fire e s) = permissionRequests s" "asked (fire e s) = asked s" "answered (fire e s) = answered s"
  "settled (fire e s) = settled s" "prompts (fire e s) = prompts s" "cliSessions (fire e s) = cliSessions s"
  by (simp_all add: fire_def)

lemma send_fields [simp]:
  "runtimes (send r m s) = runtimes s" "current (send r m s) = current s" "starting (send r m s) = starting s"
  "newborn (send r m s) = newborn s" "activePrompts (send r m s) = activePrompts s"
  "permissionRequests (send r m s) = permissionRequests s" "asked (send r m s) = asked s" "answered (send r m s) = answered s"
  "settled (send r m s) = settled s" "prompts (send r m s) = prompts s" "cliSessions (send r m s) = cliSessions s"
  by (simp_all add: send_def)

text \<open>Everything but the permission requests and what is written.\<close>

definition same_turns :: "shell_main \<Rightarrow> shell_main \<Rightarrow> bool" where
  "same_turns s s' \<longleftrightarrow> runtimes s' = runtimes s \<and> current s' = current s \<and> starting s' = starting s \<and>
     newborn s' = newborn s \<and> activePrompts s' = activePrompts s \<and> settled s' = settled s \<and> prompts s' = prompts s"

lemma same_turns_refl [simp]: "same_turns s s"
  by (simp add: same_turns_def)

lemma same_turns_trans: "same_turns a b \<Longrightarrow> same_turns b c \<Longrightarrow> same_turns a c"
  by (simp add: same_turns_def)

lemma respond_same_turns: "same_turns s (respondPermission i opt s)"
  by (auto simp: respondPermission_def same_turns_def Let_def split: option.split)

lemma cancelPermissions_same_turns: "same_turns s (cancelPermissions match s)"
proof -
  have "same_turns s (fold (\<lambda>(i, q) s. if match q then respondPermission i None s else s) qs t)" if "same_turns s t" for qs t
    using that
  proof (induction qs arbitrary: t)
    case (Cons q qs)
    obtain i p where q: "q = (i, p)" by fastforce
    have "same_turns s (if match p then respondPermission i None t else t)"
      using Cons.prems respond_same_turns same_turns_trans by auto
    with Cons.IH show ?case by (simp only: q fold_Cons comp_def prod.case)
  qed simp
  then show ?thesis by (simp add: cancelPermissions_def)
qed

lemma onUpdate_fields: "same_turns s (onUpdate params s) \<and> permissionRequests (onUpdate params s) = permissionRequests s \<and>
    asked (onUpdate params s) = asked s \<and> answered (onUpdate params s) = answered s"
  by (auto simp: onUpdate_def same_turns_def Let_def split: option.split)

lemma prompt_end_fields [simp]:
  "runtimes (prompt_end tok sid via trunc s) = runtimes s" "current (prompt_end tok sid via trunc s) = current s"
  "starting (prompt_end tok sid via trunc s) = starting s" "newborn (prompt_end tok sid via trunc s) = newborn s"
  "activePrompts (prompt_end tok sid via trunc s) = activePrompts s" "settled (prompt_end tok sid via trunc s) = settled s"
  "permissionRequests (prompt_end tok sid via trunc s) = permissionRequests s"
  "asked (prompt_end tok sid via trunc s) = asked s" "answered (prompt_end tok sid via trunc s) = answered s"
  "prompts (prompt_end tok sid via trunc s) = (prompts s)(tok \<mapsto> Ended sid)"
  by (simp_all add: prompt_end_def Let_def split: bool.split option.split)


lemma rpc_call_fields [simp]:
  "current (snd (rpc_call r m params s)) = current s" "starting (snd (rpc_call r m params s)) = starting s"
  "newborn (snd (rpc_call r m params s)) = newborn s" "activePrompts (snd (rpc_call r m params s)) = activePrompts s"
  "settled (snd (rpc_call r m params s)) = settled s" "prompts (snd (rpc_call r m params s)) = prompts s"
  "permissionRequests (snd (rpc_call r m params s)) = permissionRequests s"
  "asked (snd (rpc_call r m params s)) = asked s" "answered (snd (rpc_call r m params s)) = answered s"
  by (simp_all add: rpc_call_def split: option.split)

lemma kill_runtime_fields [simp]:
  "runtimes (kill_runtime c s) = runtimes s" "current (kill_runtime c s) = current s"
  "starting (kill_runtime c s) = starting s" "newborn (kill_runtime c s) = newborn s"
  "activePrompts (kill_runtime c s) = activePrompts s" "settled (kill_runtime c s) = settled s"
  "prompts (kill_runtime c s) = prompts s" "permissionRequests (kill_runtime c s) = permissionRequests s"
  "asked (kill_runtime c s) = asked s" "answered (kill_runtime c s) = answered s"
  by (simp_all add: kill_runtime_def split: option.split)

lemma removeAll_neq: "removeAll n xs = filter (\<lambda>m. m \<noteq> n) xs"
  by (induction xs) auto

lemma settle_all:
  "runtimes s r = Some rt \<Longrightarrow> fold (\<lambda>n. settle_call r n res) ns s =
     s\<lparr>runtimes := (runtimes s)(r \<mapsto> rt\<lparr>pending := filter (\<lambda>n. n \<notin> set ns) (pending rt)\<rparr>),
       settled := settled s @ map (\<lambda>n. (r, n, res)) ns\<rparr>"
proof (induction ns arbitrary: s rt)
  case Nil
  then have "(runtimes s)(r \<mapsto> rt) = runtimes s" by auto
  then show ?case by simp
next
  case (Cons n ns)
  let ?rt = "rt\<lparr>pending := removeAll n (pending rt)\<rparr>"
  have "settle_call r n res s = s\<lparr>runtimes := (runtimes s)(r \<mapsto> ?rt), settled := settled s @ [(r, n, res)]\<rparr>"
    using Cons.prems by (simp add: settle_call_def)
  moreover have "filter (\<lambda>n. n \<notin> set ns) (removeAll n (pending rt)) = filter (\<lambda>m. m \<notin> set (n # ns)) (pending rt)"
    by (simp add: removeAll_neq conj_commute)
  ultimately show ?case using Cons.IH [of "settle_call r n res s" ?rt] by (simp add: fun_upd_def cong: if_cong)
qed

text \<open>The five things a line of the runtime can do.\<close>

lemma onMessage_cases:
  obtains (none) "onMessage json num stringify uuid r line s = s"
  | (settle) rt n res where "runtimes s r = Some rt" "n \<in> set (pending rt)"
      "onMessage json num stringify uuid r line s = settle_call r n res s"
  | (update) p where "onMessage json num stringify uuid r line s = onUpdate p s"
  | (ask) q e where "pe_id e = uuid" "pr_runtime q = r" "pr_session q = pe_session e"
      "onMessage json num stringify uuid r line s =
        s\<lparr>permissionRequests := AList.update uuid q (permissionRequests s), asked := asked s @ [e]\<rparr>"
  | (refuse) m where "onMessage json num stringify uuid r line s = send r m s"
proof (cases "json line"; cases "runtimes s r")
  fix m rt assume m: "json line = Some m" and rt: "runtimes s r = Some rt"
  define c1 where "c1 \<longleftrightarrow> js_get m ''method'' = JUndef \<and> js_get m ''id'' \<noteq> JUndef"
  define c2 where "c2 \<longleftrightarrow> js_get m ''method'' = JStr ''session/update'' \<and> js_truthy (js_get m ''params'')"
  define c3 where "c3 \<longleftrightarrow> js_get m ''method'' = JStr ''session/request_permission'' \<and> js_get m ''id'' \<noteq> JUndef
      \<and> js_truthy (js_get m ''params'')"
  define c4 where "c4 \<longleftrightarrow> js_get m ''id'' \<noteq> JUndef \<and> js_truthy (js_get m ''method'')"
  note d = onMessage_def m rt option.case prod.case Let_def c1_def [symmetric] c2_def [symmetric]
    c3_def [symmetric] c4_def [symmetric]
  consider "c1" "pending_call rt (js_get m ''id'') = None" | n where "c1" "pending_call rt (js_get m ''id'') = Some n"
    | "\<not> c1" "c2" | "\<not> c1" "\<not> c2" "c3" | "\<not> c1" "\<not> c2" "\<not> c3" "c4" | "\<not> c1" "\<not> c2" "\<not> c3" "\<not> c4"
    by fastforce
  then show thesis
  proof cases
    case 1
    then show ?thesis by (intro none) (simp only: d if_True option.case)
  next
    case (2 n)
    then have "n \<in> set (pending rt)" by (auto simp: pending_call_def dest: find_Some_set)
    with 2 show ?thesis by (intro settle [OF rt]) (simp_all only: d if_True option.case)
  next
    case 3
    then show ?thesis by (intro update) (simp only: d if_True if_False)
  next
    case 4
    show ?thesis
      by (rule ask [rotated 3], simp only: d 4 if_True if_False) simp_all
  next
    case 5
    then show ?thesis by (intro refuse) (simp only: d if_True if_False)
  next
    case 6
    then show ?thesis by (intro none) (simp only: d if_False)
  qed
qed (auto intro: none simp: onMessage_def)

text \<open>What each step does to runtimes, calls and turns.\<close>

lemma remember_same: "same_turns s (remember sid info s)"
  by (simp add: remember_def same_turns_def split: option.split)

lemma openCliSession_same: "same_turns s (openCliSession i cwd a perm res s)"
  by (simp add: openCliSession_def same_turns_def)

lemma setOption_cli_same: "same_turns s (setOption_cli sid conf v s)"
  by (simp add: setOption_cli_def same_turns_def split: option.split)

lemma announce_same: "same_turns s (announce e s)"
  by (cases e) (simp_all add: announce_def same_turns_def)

lemma cancel_same: "same_turns s (cancel sid s)"
proof (cases "map_of (cliSessions s) sid")
  case None
  let ?s1 = "case current s of
      Some r \<Rightarrow> if alive s r then send r (JObj [(''jsonrpc'', JStr ''2.0''), (''method'', JStr ''session/cancel''),
                    (''params'', JObj [(''sessionId'', JStr sid)])]) s else s
    | None \<Rightarrow> s"
  have "same_turns s ?s1" by (simp add: same_turns_def split: option.split)
  then show ?thesis using cancelPermissions_same_turns same_turns_trans None
    by (simp add: cancel_def)
qed (simp add: cancel_def same_turns_def)

lemma closeSession_cases:
  obtains (quiet) "same_turns s (closeSession sid s)"
  | (call) r m params s1 where "same_turns s s1" "closeSession sid s = snd (rpc_call r m params s1)"
proof (cases "map_of (cliSessions s) sid")
  case None
  define s1 where "s1 = cancelPermissions (\<lambda>q. pr_session q = JStr sid) s"
  have s1: "same_turns s s1" unfolding s1_def by (rule cancelPermissions_same_turns)
  have c: "closeSession sid s = (case current s1 of
             Some r \<Rightarrow> if alive s1 r
               then snd (rpc_call r ''session/close'' (JObj [(''sessionId'', JStr sid)]) s1) else s1
           | None \<Rightarrow> s1)"
    using None by (simp add: closeSession_def Let_def flip: s1_def)
  show ?thesis
  proof (cases "current s1")
    case (Some r)
    then show ?thesis using c s1 quiet call by (cases "alive s1 r") simp_all
  qed (use c s1 quiet in simp)
qed (use quiet in \<open>simp add: closeSession_def same_turns_def\<close>)

lemma main_step_cases:
  assumes "main_step json num stringify hostname s s'"
  obtains (quiet) "same_turns s s'"
  | (start) fp urls where "ensureStarted fp urls s = Start s'"
  | (spawn) r fp params where "starting s" "newborn s = None" "runtimes s r = None" "s' = spawn_runtime r fp params s"
  | (started) "newborn s \<noteq> None" "s' = start_done s"
  | (failed) "starting s" "s' = start_failed s"
  | (stop) "s' = stop_runtime s"
  | (call) r m params s1 where "same_turns s s1" "s' = snd (rpc_call r m params s1)"
  | (settle) r rt n res where "runtimes s r = Some rt" "n \<in> set (pending rt)" "s' = settle_call r n res s"
  | (err) r chunk where "s' = runtime_stderr r chunk s"
  | (gone) r reason where "s' = onGone r reason s"
  | (opened) tok sid where "prompts s tok = None" "\<forall>t. turn_session s t \<noteq> Some sid"
      "s' = prompt_begin json hostname tok sid s"
  | (send) tok params trunc where "s' = prompt_send tok params trunc s"
  | (answer) tok trunc where "s' = prompt_settled tok trunc s"
  | (cli) tok cs where "s' = prompt_cli_over tok cs s"
  using assms
proof cases
  case (Ensure fp urls)
  then consider "s' = s" | "ensureStarted fp urls s = Start s'"
    by (auto simp: ensureStarted_def split: if_splits)
  then show ?thesis using quiet start by cases simp_all
next
  case (Call r m params)
  then show ?thesis using call [of s] by simp
next
  case (Message uuid r line)
  show ?thesis
  proof (cases rule: onMessage_cases [of json num stringify uuid r line s])
    case none
    then show ?thesis using Message quiet by simp
  next
    case (settle rt n res)
    then show ?thesis using Message that(8) by simp
  next
    case (update p)
    then show ?thesis using Message quiet onUpdate_fields by simp
  next
    case (ask q e)
    then show ?thesis using Message by (intro quiet) (simp add: same_turns_def)
  next
    case (refuse m)
    then show ?thesis using Message by (intro quiet) (simp add: same_turns_def)
  qed
next
  case (Close sid)
  then show ?thesis using quiet call by (cases rule: closeSession_cases [of s sid]) simp_all
next
  case (Spawn r fp params)
  then show ?thesis using spawn by blast
next
  case Started
  then show ?thesis using started by blast
next
  case StartFailed
  then show ?thesis using failed by blast
next
  case Stop
  then show ?thesis by (rule stop)
next
  case (ErrOutput r chunk)
  then show ?thesis by (rule err)
next
  case (Gone r reason)
  then show ?thesis by (rule gone)
next
  case (Begin tok sid)
  then show ?thesis using opened by blast
next
  case (Send tok params trunc)
  then show ?thesis by (rule send)
next
  case (Answer tok trunc)
  then show ?thesis by (rule answer)
next
  case (CliOver tok cs)
  then show ?thesis by (rule cli)
qed (simp_all add: quiet respond_same_turns remember_same openCliSession_same setOption_cli_same announce_same cancel_same)

text \<open>What a turn does to its call: it makes one, and the other steps of the turn make none.\<close>

lemma prompt_send_cases:
  obtains (none) "prompt_send tok params trunc s = s"
  | (sent) sid via r n s1 where "prompts s tok = Some (Begun sid via)" "\<not> starting s" "current s = Some r" "alive s r"
      "s1 = s\<lparr>activePrompts := List.insert sid (activePrompts s)\<rparr>"
      "fst (rpc_call r ''session/prompt'' params s1) = Some n"
      "prompt_send tok params trunc s =
        (snd (rpc_call r ''session/prompt'' params s1))\<lparr>prompts := (prompts s)(tok \<mapsto> Waiting sid via r n)\<rparr>"
  | (over) sid via where "prompts s tok = Some (Begun sid via)" "prompt_send tok params trunc s = prompt_end tok sid via trunc s"
proof (cases "\<exists>sid via. prompts s tok = Some (Begun sid via) \<and> \<not> starting s")
  case True
  then obtain sid via where p: "prompts s tok = Some (Begun sid via)" "\<not> starting s" by blast
  show ?thesis
  proof (cases "\<exists>r. current s = Some r \<and> alive s r")
    case True
    then obtain r where r: "current s = Some r" "alive s r" by blast
    let ?s1 = "s\<lparr>activePrompts := List.insert sid (activePrompts s)\<rparr>"
    have "fst (rpc_call r ''session/prompt'' params ?s1) \<noteq> None"
      using r(2) by (auto simp: rpc_call_def alive_def split: option.splits)
    then obtain n s' where c: "rpc_call r ''session/prompt'' params ?s1 = (Some n, s')"
      by (metis prod.collapse not_None_eq)
    moreover have "prompts s' = prompts s"
      using rpc_call_fields(6) [of r "''session/prompt''" params ?s1] c by simp
    ultimately show ?thesis using p r by (intro sent [OF p r refl]) (simp_all add: prompt_send_def)
  next
    case False
    then show ?thesis using p by (intro over [OF p(1)]) (auto simp: prompt_send_def split: option.split)
  qed
next
  case False
  then show ?thesis by (intro none) (auto simp: prompt_send_def split: option.split prompt_phase.split)
qed

lemma prompt_settled_cases:
  obtains (none) "prompt_settled tok trunc s = s"
  | (over) sid via r n where "prompts s tok = Some (Waiting sid via r n)" "has_settled s r n"
      "prompt_settled tok trunc s = prompt_end tok sid via trunc (s\<lparr>activePrompts := removeAll sid (activePrompts s)\<rparr>)"
proof (cases "prompts s tok"; cases "the (prompts s tok)")
  fix p sid via r n
  assume "prompts s tok = Some p" "the (prompts s tok) = Waiting sid via r n"
  then show thesis using none over [of sid via r n] by (cases "has_settled s r n") (simp_all add: prompt_settled_def)
qed (auto simp: prompt_settled_def intro: none)

lemma prompt_cli_over_cases:
  obtains (none) "prompt_cli_over tok cs s = s"
  | (over) sid via s1 where "prompts s tok = Some (OnCli sid via)" "same_turns s s1"
      "prompt_cli_over tok cs s = prompt_end tok sid via None s1"
proof (cases "prompts s tok"; cases "the (prompts s tok)")
  fix p sid via
  assume p: "prompts s tok = Some p" "the (prompts s tok) = OnCli sid via"
  let ?s1 = "if map_of (cliSessions s) sid \<noteq> None
           then s\<lparr>cliSessions := AList.update sid cs (cliSessions s)\<rparr> else s"
  have "same_turns s ?s1" by (simp add: same_turns_def)
  then show thesis using p by (intro over [of sid via ?s1]) (simp_all add: prompt_cli_over_def)
qed (auto simp: prompt_cli_over_def intro: none)

section \<open>A run\<close>

text \<open>A runtime starts, a turn is sent to it, it asks for a permission, and it exits.\<close>

definition demo_json :: "string \<Rightarrow> js_val option" where
  "demo_json line =
     (if line = ''ready'' then Some (JObj [(''id'', JNum 1), (''result'', JNull)])
      else if line = ''ask'' then
        Some (JObj [(''id'', JNum 7), (''method'', JStr ''session/request_permission''),
          (''params'', JObj [(''sessionId'', JStr ''s'')])])
      else None)"

abbreviation demo_step :: "shell_main \<Rightarrow> shell_main \<Rightarrow> bool" where
  "demo_step \<equiv> main_step demo_json (\<lambda>_. []) (\<lambda>_. []) (\<lambda>_. None)"

abbreviation demo_reaches :: "shell_main \<Rightarrow> bool" where
  "demo_reaches \<equiv> main_reaches demo_json (\<lambda>_. []) (\<lambda>_. []) (\<lambda>_. None)"

definition demo_started :: shell_main where
  "demo_started = start_done (onMessage demo_json (\<lambda>_. []) (\<lambda>_. []) ''u0'' 0 ''ready''
     (spawn_runtime 0 ''fp'' JNull (shell_start\<lparr>starting := True\<rparr>)))"

definition demo_sent :: shell_main where
  "demo_sent = prompt_send 0 JNull None (prompt_begin demo_json (\<lambda>_. None) 0 ''s'' demo_started)"

definition demo_asked :: shell_main where
  "demo_asked = onMessage demo_json (\<lambda>_. []) (\<lambda>_. []) ''u'' 0 ''ask'' demo_sent"

definition demo_gone :: shell_main where
  "demo_gone = onGone 0 ''exit code 1'' demo_asked"

definition demo_runtime :: rpc_runtime where
  "demo_runtime = \<lparr>fingerprint = ''fp'', pending = [], nextId = 2, rt_stderr = [], exited = False\<rparr>"

lemma demo_started_fields:
  "runtimes demo_started = [0 \<mapsto> demo_runtime]" "current demo_started = Some 0" "starting demo_started = False"
  "newborn demo_started = None" "activePrompts demo_started = []" "prompts demo_started = Map.empty"
  "permissionRequests demo_started = []" "asked demo_started = []" "answered demo_started = []"
  "settled demo_started = [(0, 1, Resolved JNull)]" "cliSessions demo_started = []" "sessionRoutes demo_started = []"
  "killed demo_started = []"
  by (simp_all add: demo_started_def start_done_def onMessage_def demo_json_def spawn_runtime_def rpc_call_def
      shell_start_def pending_call_def settle_call_def demo_runtime_def send_def numeral_2_eq_2)


lemma demo_sent_fields:
  "runtimes demo_sent = [0 \<mapsto> demo_runtime\<lparr>pending := [2], nextId := 3\<rparr>]" "current demo_sent = Some 0"
  "starting demo_sent = False" "newborn demo_sent = None" "activePrompts demo_sent = [''s'']"
  "prompts demo_sent = [0 \<mapsto> Waiting ''s'' no_route 0 2]"
  "permissionRequests demo_sent = []" "asked demo_sent = []" "answered demo_sent = []"
  "settled demo_sent = [(0, 1, Resolved JNull)]" "cliSessions demo_sent = []" "killed demo_sent = []"
proof -
  have r: "routeOf demo_json (\<lambda>_. None) ''s'' demo_started = no_route"
    by (simp add: routeOf_def demo_started_fields demo_json_def)
  show "runtimes demo_sent = [0 \<mapsto> demo_runtime\<lparr>pending := [2], nextId := 3\<rparr>]" "current demo_sent = Some 0"
    "starting demo_sent = False" "newborn demo_sent = None" "activePrompts demo_sent = [''s'']"
    "prompts demo_sent = [0 \<mapsto> Waiting ''s'' no_route 0 2]"
    "permissionRequests demo_sent = []" "asked demo_sent = []" "answered demo_sent = []"
    "settled demo_sent = [(0, 1, Resolved JNull)]" "cliSessions demo_sent = []" "killed demo_sent = []"
    by (simp_all add: demo_sent_def prompt_send_def prompt_begin_def Let_def r demo_started_fields alive_def rpc_call_def
        demo_runtime_def fire_def send_def)
qed

lemma demo_asked_fields:
  "runtimes demo_asked = runtimes demo_sent" "current demo_asked = Some 0" "prompts demo_asked = prompts demo_sent"
  "cliSessions demo_asked = []" "settled demo_asked = settled demo_sent" "answered demo_asked = []"
  "permissionRequests demo_asked = [(''u'', \<lparr>pr_runtime = 0, pr_rpcId = JNum 7, pr_session = JStr ''s''\<rparr>)]"
  "activePrompts demo_asked = [''s'']"
  by (simp_all add: demo_asked_def onMessage_def demo_json_def demo_sent_fields)

lemma demo_gone_fields:
  "runtimes demo_gone = [0 \<mapsto> demo_runtime\<lparr>nextId := 3, exited := True\<rparr>]"
  "prompts demo_gone = prompts demo_sent" "has_settled demo_gone 0 2"
  by (simp_all add: demo_gone_def onGone_def demo_asked_fields demo_sent_fields settle_call_def cancelPermissions_def
      respondPermission_def alive_def has_settled_def Let_def) (simp_all add: demo_runtime_def)

lemma demo_reached: "demo_reaches demo_started" "demo_reaches demo_sent" "demo_reaches demo_asked" "demo_reaches demo_gone"
proof -
  note go = rtranclp.rtrancl_into_rtrancl [where r = demo_step and a = shell_start, folded main_reaches_def]
  let ?s1 = "shell_start\<lparr>starting := True\<rparr>"
  have "ensureStarted ''fp'' [] shell_start = Start ?s1"
    by (simp add: ensureStarted_def shell_start_def kill_runtime_def)
  then have "demo_step shell_start ?s1" by (intro Ensure [of "''fp''" "[]"]) simp
  then have "demo_reaches ?s1" by (rule go [rotated]) (simp add: main_reaches_def)
  then have "demo_reaches (spawn_runtime 0 ''fp'' JNull ?s1)"
    by (rule go) (rule Spawn; simp add: shell_start_def)
  then have "demo_reaches (onMessage demo_json (\<lambda>_. []) (\<lambda>_. []) ''u0'' 0 ''ready'' (spawn_runtime 0 ''fp'' JNull ?s1))"
    by (rule go) (rule Message; simp add: spawn_runtime_def shell_start_def)
  then show st: "demo_reaches demo_started"
    unfolding demo_started_def
    by (rule go) (rule Started; simp add: onMessage_def demo_json_def spawn_runtime_def rpc_call_def
        shell_start_def pending_call_def settle_call_def send_def)
  from st have "demo_reaches (prompt_begin demo_json (\<lambda>_. None) 0 ''s'' demo_started)"
    by (rule go) (rule Begin; simp add: demo_started_fields turn_session_def)
  then show se: "demo_reaches demo_sent" unfolding demo_sent_def by (rule go) (rule Send)
  from se show as: "demo_reaches demo_asked" unfolding demo_asked_def
    by (rule go) (rule Message; simp add: demo_sent_fields)
  from as show "demo_reaches demo_gone" unfolding demo_gone_def by (rule go) (rule Gone)
qed

end
