(* ===== verification/Shell_Permissions.thy ===== *)
theory Shell_Permissions
  imports Shell_Steps
begin

text \<open>
  The permission requests of the runtimes: whatever interleaves, each is answered at most once.
\<close>

definition same_perms :: "shell_main \<Rightarrow> shell_main \<Rightarrow> bool" where
  "same_perms s s' \<longleftrightarrow> permissionRequests s' = permissionRequests s \<and> asked s' = asked s \<and> answered s' = answered s"

definition perms_ok :: "shell_main \<Rightarrow> bool" where
  "perms_ok s \<longleftrightarrow> distinct (map fst (permissionRequests s)) \<and> distinct (map pe_id (asked s)) \<and>
     distinct (answered s) \<and> set (answered s) \<inter> fst ` set (permissionRequests s) = {} \<and>
     set (answered s) \<union> fst ` set (permissionRequests s) = pe_id ` set (asked s)"

lemma perms_ok_same: "same_perms s s' \<Longrightarrow> perms_ok s \<Longrightarrow> perms_ok s'"
  by (simp add: same_perms_def perms_ok_def)

lemma delete_filter: "AList.delete k ps = filter (\<lambda>e. fst e \<noteq> k) ps"
  by (induction ps) auto

text \<open>An answer: the request is taken off, and every window hears of it once.\<close>

lemma respond_perms:
  "asked (respondPermission i opt s) = asked s"
  "permissionRequests (respondPermission i opt s) = filter (\<lambda>e. fst e \<noteq> i) (permissionRequests s)"
  "answered (respondPermission i opt s) =
    answered s @ (if i \<in> fst ` set (permissionRequests s) then [i] else [])"
proof -
  have "filter (\<lambda>e. fst e \<noteq> i) ps = ps" if "map_of ps i = None" for ps :: "(string \<times> permission_request) list"
    using that by (auto simp: map_of_eq_None_iff filter_id_conv)
  then show "permissionRequests (respondPermission i opt s) = filter (\<lambda>e. fst e \<noteq> i) (permissionRequests s)"
    by (auto simp: respondPermission_def Let_def delete_filter split: option.split)
  show "answered (respondPermission i opt s) = answered s @ (if i \<in> fst ` set (permissionRequests s) then [i] else [])"
  proof (cases "map_of (permissionRequests s) i")
    case None
    then show ?thesis by (simp add: respondPermission_def) (simp add: map_of_eq_None_iff)
  next
    case (Some q)
    then have "i \<in> fst ` set (permissionRequests s)" by (force dest: map_of_SomeD)
    with Some show ?thesis by (simp add: respondPermission_def Let_def)
  qed
qed (auto simp: respondPermission_def Let_def split: option.split)

lemma cancel_fold:
  assumes "distinct (map fst qs)"
  shows "asked (fold (\<lambda>(i, q) s. if match q then respondPermission i None s else s) qs t) = asked t \<and>
    permissionRequests (fold (\<lambda>(i, q) s. if match q then respondPermission i None s else s) qs t) =
      filter (\<lambda>e. fst e \<notin> fst ` set (filter (match \<circ> snd) qs)) (permissionRequests t) \<and>
    (set qs \<subseteq> set (permissionRequests t) \<longrightarrow>
      answered (fold (\<lambda>(i, q) s. if match q then respondPermission i None s else s) qs t) =
        answered t @ map fst (filter (match \<circ> snd) qs))"
  using assms
proof (induction qs arbitrary: t)
  case (Cons x qs)
  obtain i q where x: "x = (i, q)" by fastforce
  define t' where "t' = (if match q then respondPermission i None t else t)"
  have i: "i \<notin> fst ` set qs" and d: "distinct (map fst qs)" using Cons.prems by (auto simp: x)
  have keep: "set qs \<subseteq> set (permissionRequests t')" if "set (x # qs) \<subseteq> set (permissionRequests t)"
    using that i by (force simp: t'_def respond_perms)
  have answer: "answered t' = answered t @ (if match q then [i] else [])" if "set (x # qs) \<subseteq> set (permissionRequests t)"
    using that by (force simp: t'_def respond_perms x)
  show ?case
  proof (intro conjI impI)
    let ?fold = "\<lambda>qs. fold (\<lambda>(i, q) s. if match q then respondPermission i None s else s) qs"
    have step: "?fold (x # qs) t = ?fold qs t'" by (simp add: x t'_def)
    show "asked (?fold (x # qs) t) = asked t"
      unfolding step using Cons.IH [OF d, of t'] by (simp add: t'_def respond_perms)
    show "permissionRequests (?fold (x # qs) t) =
        filter (\<lambda>e. fst e \<notin> fst ` set (filter (match \<circ> snd) (x # qs))) (permissionRequests t)"
      unfolding step using Cons.IH [OF d, of t'] by (auto simp: t'_def respond_perms x intro!: filter_cong)
    assume s: "set (x # qs) \<subseteq> set (permissionRequests t)"
    show "answered (?fold (x # qs) t) = answered t @ map fst (filter (match \<circ> snd) (x # qs))"
      unfolding step using Cons.IH [OF d, of t'] keep [OF s] answer [OF s] by (simp add: x comp_def)
  qed
qed simp

text \<open>Cancelling takes off exactly the requests it picks, and answers each of them once.\<close>

lemma cancelPermissions_perms:
  assumes "distinct (map fst (permissionRequests s))"
  shows "asked (cancelPermissions match s) = asked s"
    "permissionRequests (cancelPermissions match s) = filter (\<lambda>e. \<not> match (snd e)) (permissionRequests s)"
    "answered (cancelPermissions match s) = answered s @ map fst (filter (match \<circ> snd) (permissionRequests s))"
proof -
  have "fst e \<in> fst ` set (filter (match \<circ> snd) (permissionRequests s)) \<longleftrightarrow> match (snd e)"
    if "e \<in> set (permissionRequests s)" for e
    using that assms by (auto simp: distinct_map inj_on_def)
  then have "filter (\<lambda>e. fst e \<notin> fst ` set (filter (match \<circ> snd) (permissionRequests s))) (permissionRequests s) =
      filter (\<lambda>e. \<not> match (snd e)) (permissionRequests s)"
    by (intro filter_cong) auto
  then show "permissionRequests (cancelPermissions match s) = filter (\<lambda>e. \<not> match (snd e)) (permissionRequests s)"
    using cancel_fold [OF assms, of match s] by (simp only: cancelPermissions_def)
qed (use cancel_fold [OF assms, of match s] in \<open>simp_all add: cancelPermissions_def comp_def\<close>)

lemma perms_ok_split:
  assumes ok: "perms_ok s" and s': "asked s' = asked s"
    "permissionRequests s' = filter (\<lambda>e. \<not> P e) (permissionRequests s)"
    "answered s' = answered s @ map fst (filter P (permissionRequests s))"
  shows "perms_ok s'"
proof -
  let ?in = "filter P (permissionRequests s)" and ?out = "filter (\<lambda>e. \<not> P e) (permissionRequests s)"
  have d: "distinct (map fst (permissionRequests s))" and a: "distinct (map pe_id (asked s))" "distinct (answered s)"
    and m: "set (answered s) \<inter> fst ` set (permissionRequests s) = {}"
    and u: "set (answered s) \<union> fst ` set (permissionRequests s) = pe_id ` set (asked s)"
    using ok by (simp_all add: perms_ok_def)
  have io: "fst ` set ?in \<inter> fst ` set ?out = {}"
    using d by (auto simp: distinct_map inj_on_def)
  have un: "fst ` set (permissionRequests s) = fst ` set ?in \<union> fst ` set ?out" by auto
  have dd: "distinct (map fst ?in)" "distinct (map fst ?out)" using d by (simp_all add: distinct_map_filter)
  have ai: "set (answered s) \<inter> fst ` set ?in = {}" and ao: "set (answered s) \<inter> fst ` set ?out = {}"
    using m unfolding un by blast+
  have "distinct (answered s @ map fst ?in)" using a(2) dd(1) ai by simp
  moreover have "set (answered s @ map fst ?in) \<inter> fst ` set ?out = {}" using io ao by (simp add: Int_Un_distrib2)
  moreover have "set (answered s @ map fst ?in) \<union> fst ` set ?out = pe_id ` set (asked s)"
    unfolding u [symmetric] un by (simp add: Un_assoc)
  ultimately show ?thesis unfolding perms_ok_def s' using a(1) dd(2) by blast
qed

lemma filter_key:
  "distinct (map fst xs) \<Longrightarrow> map fst (filter (\<lambda>e. fst e = i) xs) = (if i \<in> fst ` set xs then [i] else [])"
proof (induction xs)
  case (Cons x xs)
  show ?case
  proof (cases "fst x = i")
    case True
    moreover have "fst x \<notin> fst ` set xs" using Cons.prems by simp
    ultimately have "\<forall>e\<in>set xs. fst e \<noteq> i" by (metis image_eqI)
    with True show ?thesis by simp
  qed (use Cons in auto)
qed simp

lemma respond_ok: "perms_ok s \<Longrightarrow> perms_ok (respondPermission i opt s)"
proof (rule perms_ok_split [where P = "\<lambda>e. fst e = i"])
  assume "perms_ok s"
  then have "distinct (map fst (permissionRequests s))" by (simp add: perms_ok_def)
  from filter_key [OF this, of i]
  show "answered (respondPermission i opt s) = answered s @ map fst (filter (\<lambda>e. fst e = i) (permissionRequests s))"
    by (simp only: respond_perms)
qed (simp_all add: respond_perms)

lemma cancel_perms_ok: "perms_ok s \<Longrightarrow> perms_ok (cancelPermissions match s)"
  by (rule perms_ok_split [where P = "match \<circ> snd"]) (simp_all add: cancelPermissions_perms perms_ok_def comp_def)

lemma ask_ok:
  assumes "perms_ok s" "pe_id e \<notin> pe_id ` set (asked s)"
  shows "perms_ok (s\<lparr>permissionRequests := AList.update (pe_id e) q (permissionRequests s), asked := asked s @ [e]\<rparr>)"
proof -
  have n: "pe_id e \<notin> fst ` set (permissionRequests s)" "pe_id e \<notin> set (answered s)"
    using assms by (auto simp: perms_ok_def)
  have "AList.update (pe_id e) q ps = ps @ [(pe_id e, q)]" if "pe_id e \<notin> fst ` set ps" for ps :: "(string \<times> permission_request) list"
    using that by (induction ps) auto
  then show ?thesis using assms n by (auto simp: perms_ok_def)
qed

text \<open>What each step does to the requests.\<close>

lemma main_step_perms:
  assumes "main_step json num stringify hostname s s'"
  obtains (quiet) "same_perms s s'"
  | (respond) i opt where "s' = respondPermission i opt s"
  | (cancelled) match s1 s2 where "same_perms s s1" "s2 = cancelPermissions match s1" "same_perms s2 s'"
  | (ask) e q where "pe_id e \<notin> pe_id ` set (asked s)"
      "s' = s\<lparr>permissionRequests := AList.update (pe_id e) q (permissionRequests s), asked := asked s @ [e]\<rparr>"
  using assms
proof cases
  case (Ensure fp urls)
  then show ?thesis by (intro quiet) (auto simp: ensureStarted_def same_perms_def split: if_splits)
next
  case (Spawn r fp params)
  then show ?thesis by (intro quiet) (simp add: spawn_runtime_def same_perms_def)
next
  case Started
  then show ?thesis by (intro quiet) (simp add: start_done_def same_perms_def)
next
  case StartFailed
  then show ?thesis by (intro quiet) (simp add: start_failed_def same_perms_def)
next
  case Stop
  then show ?thesis by (intro quiet) (simp add: stop_runtime_def same_perms_def)
next
  case (Call r m params)
  then show ?thesis by (intro quiet) (simp add: same_perms_def)
next
  case (Message uuid r line)
  show ?thesis
  proof (cases rule: onMessage_cases [of json num stringify uuid r line s])
    case none
    then show ?thesis using Message by (intro quiet) (simp add: same_perms_def)
  next
    case (settle rt n res)
    then show ?thesis using Message by (intro quiet) (simp add: settle_call_def same_perms_def)
  next
    case (update p)
    then show ?thesis using Message onUpdate_fields by (intro quiet) (simp add: same_perms_def)
  next
    case (ask q e)
    then show ?thesis using Message that(4) [of e q] by simp
  next
    case (refuse m)
    then show ?thesis using Message by (intro quiet) (simp add: same_perms_def)
  qed
next
  case (ErrOutput r chunk)
  then show ?thesis by (intro quiet) (simp add: runtime_stderr_def same_perms_def split: option.split)
next
  case (Gone r reason)
  show ?thesis
  proof (cases "runtimes s r")
    case None
    then show ?thesis using Gone by (intro quiet) (simp add: onGone_def same_perms_def)
  next
    case (Some rt)
    show ?thesis
    proof (cases "exited rt")
      case True
      then show ?thesis using Gone Some by (intro quiet) (simp add: onGone_def same_perms_def)
    next
      case False
      let ?err = "Errored (gone_text reason (rt_stderr rt))" and ?rt = "rt\<lparr>exited := True\<rparr>"
      define s2 where "s2 = fold (\<lambda>n. settle_call r n ?err) (pending rt) (s\<lparr>runtimes := (runtimes s)(r \<mapsto> ?rt)\<rparr>)"
      have s2: "same_perms s s2" unfolding s2_def by (subst settle_all [where rt = ?rt]) (simp_all add: same_perms_def)
      show ?thesis
        by (rule cancelled [OF s2 refl])
          (simp add: Gone onGone_def Some False Let_def same_perms_def flip: s2_def)
    qed
  qed
next
  case (Cancel sid)
  show ?thesis
  proof (cases "map_of (cliSessions s) sid")
    case None
    define s1 where "s1 = (case current s of
           Some r \<Rightarrow> if alive s r
             then send r (JObj [(''jsonrpc'', JStr ''2.0''), (''method'', JStr ''session/cancel''),
                    (''params'', JObj [(''sessionId'', JStr sid)])]) s else s
         | None \<Rightarrow> s)"
    have "same_perms s s1" by (simp add: s1_def same_perms_def split: option.split)
    moreover have "s' = cancelPermissions (\<lambda>q. pr_session q = JStr sid) s1"
      using Cancel None by (simp add: cancel_def s1_def)
    ultimately show ?thesis by (intro cancelled [of s1 s']) (simp_all add: same_perms_def)
  qed (use Cancel in \<open>intro quiet, simp add: cancel_def same_perms_def\<close>)
next
  case (Close sid)
  show ?thesis
  proof (cases "map_of (cliSessions s) sid")
    case None
    then show ?thesis using Close
      by (intro cancelled [of s "cancelPermissions (\<lambda>q. pr_session q = JStr sid) s"])
        (simp_all add: same_perms_def closeSession_def Let_def split: option.split)
  qed (use Close in \<open>intro quiet, simp add: closeSession_def same_perms_def\<close>)
next
  case (Respond i opt)
  then show ?thesis by (rule respond)
next
  case (Send tok params trunc)
  then show ?thesis
    by (intro quiet, cases rule: prompt_send_cases [of tok params trunc s]) (simp_all add: same_perms_def)
next
  case (Answer tok trunc)
  then show ?thesis
    by (intro quiet, cases rule: prompt_settled_cases [of tok trunc s]) (simp_all add: same_perms_def)
next
  case (CliOver tok cs)
  then show ?thesis by (intro quiet) (simp add: prompt_cli_over_def same_perms_def split: option.split prompt_phase.split)
next
  case (Announce e)
  then show ?thesis by (intro quiet) (cases e; simp add: announce_def same_perms_def)
qed (intro quiet; simp add: same_perms_def remember_def openCliSession_def setOption_cli_def prompt_begin_def Let_def
      split: option.split)+

lemma perms_step: "main_step json num stringify hostname s s' \<Longrightarrow> perms_ok s \<Longrightarrow> perms_ok s'"
proof (erule main_step_perms)
  fix match s1 s2
  assume "perms_ok s" "same_perms s s1" "s2 = cancelPermissions match s1" "same_perms s2 s'"
  then show "perms_ok s'" using perms_ok_same cancel_perms_ok by blast
qed (simp_all add: perms_ok_same respond_ok ask_ok)

interpretation perms: step_invariant "main_step json num stringify hostname" shell_start perms_ok
  for json num stringify hostname
proof unfold_locales
  show "perms_ok shell_start" by (simp add: perms_ok_def shell_start_def)
qed (rule perms_step)



text \<open>
  A request that is read after the exit of its runtime stays open: \<open>onMessage\<close> does not look at
  \<open>exited\<close>, and the exit, which takes the open questions down, has been already.
\<close>

lemma late_request_stays_open:
  assumes "runtimes s r = Some rt" "exited rt" "json line = Some m" "js_truthy (js_get m ''params'')"
    "js_get m ''method'' = JStr ''session/request_permission''" "js_get m ''id'' \<noteq> JUndef"
  shows "\<exists>q s'. onMessage json num stringify uuid r line s = s' \<and> onGone r reason s' = s' \<and>
    map_of (permissionRequests s') uuid = Some q \<and> pr_runtime q = r"
  using assms by (simp add: onMessage_def Let_def onGone_def update_conv' )

end
