(* ===== verification/Shell_Calls.thy ===== *)
theory Shell_Calls
  imports Shell_Steps
begin

text \<open>
  The JSON-RPC calls of the main process service: whatever interleaves, a call is settled once.
\<close>

section \<open>Calls\<close>

definition settled_ids :: "shell_main \<Rightarrow> nat \<Rightarrow> nat list" where
  "settled_ids s r = map (\<lambda>e. fst (snd e)) (filter (\<lambda>e. fst e = r) (settled s))"

definition call_ok :: "rpc_runtime \<Rightarrow> nat list \<Rightarrow> bool" where
  "call_ok rt ids \<longleftrightarrow> distinct (pending rt @ ids) \<and> set (pending rt @ ids) = {1..<nextId rt} \<and> 1 \<le> nextId rt \<and>
     (exited rt \<longrightarrow> pending rt = [])"

fun call_state :: "rpc_runtime option \<Rightarrow> nat list \<Rightarrow> bool" where
  "call_state None ids \<longleftrightarrow> ids = []"
| "call_state (Some rt) ids \<longleftrightarrow> call_ok rt ids"

definition calls_ok :: "shell_main \<Rightarrow> bool" where
  "calls_ok s \<longleftrightarrow> (\<forall>r. call_state (runtimes s r) (settled_ids s r))"

lemma settled_ids_cong: "settled s' = settled s \<Longrightarrow> settled_ids s' = settled_ids s"
  by (simp add: settled_ids_def fun_eq_iff)

lemma calls_ok_cong: "calls_ok s \<Longrightarrow> runtimes s' = runtimes s \<Longrightarrow> settled s' = settled s \<Longrightarrow> calls_ok s'"
  using settled_ids_cong [of s' s] by (simp add: calls_ok_def)

lemma calls_ok_same: "same_turns s s' \<Longrightarrow> calls_ok s \<Longrightarrow> calls_ok s'"
  unfolding same_turns_def using calls_ok_cong by blast

lemma calls_ok_some: "calls_ok s \<Longrightarrow> runtimes s r = Some rt \<Longrightarrow> call_ok rt (settled_ids s r)"
  by (metis calls_ok_def call_state.simps(2))

lemma settled_ids_append:
  "settled s' = settled s @ map (\<lambda>n. (r, n, res n)) ns \<Longrightarrow>
   settled_ids s' r' = settled_ids s r' @ (if r' = r then ns else [])"
  by (simp add: settled_ids_def filter_map o_def)

lemma calls_ok_upd:
  assumes "calls_ok s" "runtimes s' = (runtimes s)(r \<mapsto> rt')" "\<And>r'. r' \<noteq> r \<Longrightarrow> settled_ids s' r' = settled_ids s r'"
    "call_ok rt' (settled_ids s' r)"
  shows "calls_ok s'"
  unfolding calls_ok_def
proof
  fix r'
  show "call_state (runtimes s' r') (settled_ids s' r')"
  proof (cases "r' = r")
    case False
    have "call_state (runtimes s r') (settled_ids s r')"
      using assms(1) by (simp add: calls_ok_def)
    with False assms(2,3) show ?thesis by simp
  qed (use assms(2,4) in simp)
qed

lemma rpc_call_calls: "calls_ok s \<Longrightarrow> calls_ok (snd (rpc_call r m params s))"
proof (cases "runtimes s r")
  case (Some rt)
  assume ok: "calls_ok s"
  show ?thesis
  proof (cases "exited rt")
    case False
    let ?rt = "rt\<lparr>pending := pending rt @ [nextId rt], nextId := nextId rt + 1\<rparr>"
    have "runtimes (snd (rpc_call r m params s)) = (runtimes s)(r \<mapsto> ?rt)"
      using Some False by (simp add: rpc_call_def)
    moreover have "call_ok ?rt (settled_ids s r)"
      using calls_ok_some [OF ok Some] False by (auto simp: call_ok_def)
    ultimately show ?thesis
      by (intro calls_ok_upd [OF ok]) (simp_all add: settled_ids_def)
  qed (use Some ok in \<open>simp add: rpc_call_def\<close>)
qed (simp add: rpc_call_def)

lemma settle_calls:
  assumes ok: "calls_ok s" and rt: "runtimes s r = Some rt" and ns: "distinct ns" "set ns \<subseteq> set (pending rt)"
    and s': "runtimes s' = (runtimes s)(r \<mapsto> rt')" "settled s' = settled s @ map (\<lambda>n. (r, n, res n)) ns"
    and rt': "pending rt' = filter (\<lambda>n. n \<notin> set ns) (pending rt)" "nextId rt' = nextId rt"
      "exited rt' \<longrightarrow> exited rt \<or> set ns = set (pending rt)"
  shows "calls_ok s'"
proof (rule calls_ok_upd [OF ok s'(1)])
  show "settled_ids s' r' = settled_ids s r'" if "r' \<noteq> r" for r'
    using settled_ids_append [OF s'(2)] that by simp
  have "settled_ids s' r = settled_ids s r @ ns" using settled_ids_append [OF s'(2)] by simp
  then show "call_ok rt' (settled_ids s' r)"
    using calls_ok_some [OF ok rt] ns rt' by (auto simp: call_ok_def)
qed

lemma onMessage_calls: "calls_ok s \<Longrightarrow> calls_ok (onMessage json num stringify uuid r line s)"
proof (cases rule: onMessage_cases [of json num stringify uuid r line s])
  case (settle rt n res)
  assume ok: "calls_ok s"
  show ?thesis unfolding settle(3)
    by (rule settle_calls [OF ok settle(1), of "[n]" _ "rt\<lparr>pending := removeAll n (pending rt)\<rparr>" "\<lambda>_. res"])
      (use settle in \<open>auto simp: settle_call_def removeAll_neq\<close>)
next
  case (update p)
  assume "calls_ok s"
  then show ?thesis unfolding update using onUpdate_fields calls_ok_same by blast
next
  case (ask q e)
  assume "calls_ok s"
  then show ?thesis unfolding ask(4) by (rule calls_ok_cong) simp_all
next
  case (refuse m)
  assume "calls_ok s"
  then show ?thesis unfolding refuse by (rule calls_ok_cong) simp_all
qed simp

lemma onGone_calls: "calls_ok s \<Longrightarrow> calls_ok (onGone r reason s)"
proof (cases "runtimes s r")
  case (Some rt)
  assume ok: "calls_ok s"
  show ?thesis
  proof (cases "exited rt")
    case False
    let ?err = "Errored (gone_text reason (rt_stderr rt))" and ?rt = "rt\<lparr>exited := True\<rparr>"
    define s2 where "s2 = fold (\<lambda>n. settle_call r n ?err) (pending rt) (s\<lparr>runtimes := (runtimes s)(r \<mapsto> ?rt)\<rparr>)"
    have s2: "s2 = s\<lparr>runtimes := (runtimes s)(r \<mapsto> ?rt\<lparr>pending := []\<rparr>),
        settled := settled s @ map (\<lambda>n. (r, n, ?err)) (pending rt)\<rparr>"
      unfolding s2_def by (subst settle_all [where rt = ?rt]) simp_all
    have "calls_ok s2"
      by (rule settle_calls [OF ok Some, of "pending rt" _ "?rt\<lparr>pending := []\<rparr>" "\<lambda>_. ?err"])
        (use calls_ok_some [OF ok Some] in \<open>simp_all add: s2 call_ok_def\<close>)
    then have ok2: "calls_ok (cancelPermissions (\<lambda>q. pr_runtime q = r) s2)"
      using calls_ok_same cancelPermissions_same_turns by blast
    show ?thesis unfolding onGone_def Some option.case Let_def s2_def [symmetric] if_not_P [OF False]
      by (rule calls_ok_cong [OF ok2]) simp_all
  qed (use Some ok in \<open>simp add: onGone_def\<close>)
qed (simp add: onGone_def)

lemma spawn_calls:
  assumes "calls_ok s" "runtimes s r = None"
  shows "calls_ok (spawn_runtime r fp params s)"
proof -
  let ?rt = "\<lparr>fingerprint = fp, pending = [], nextId = 1, rt_stderr = [], exited = False\<rparr>"
  let ?s = "s\<lparr>runtimes := (runtimes s)(r \<mapsto> ?rt), newborn := Some r\<rparr>"
  have "settled_ids s r = []" using assms by (metis calls_ok_def call_state.simps(1))
  moreover have same: "settled_ids ?s = settled_ids s" by (rule settled_ids_cong) simp
  ultimately have "calls_ok ?s"
    by (intro calls_ok_upd [OF assms(1), of ?s r ?rt]) (simp_all add: call_ok_def)
  then show ?thesis unfolding spawn_runtime_def by (rule rpc_call_calls)
qed

lemma stderr_calls: "calls_ok s \<Longrightarrow> calls_ok (runtime_stderr r chunk s)"
proof (cases "runtimes s r")
  case (Some rt)
  assume ok: "calls_ok s"
  then have "call_ok (rt\<lparr>rt_stderr := last_chars 4000 (rt_stderr rt @ chunk)\<rparr>) (settled_ids s r)"
    using calls_ok_some [OF ok Some] by (simp add: call_ok_def)
  then show ?thesis
    by (intro calls_ok_upd [OF ok]) (simp_all add: runtime_stderr_def Some settled_ids_def)
qed (simp add: runtime_stderr_def)

lemma prompt_send_calls: "calls_ok s \<Longrightarrow> calls_ok (prompt_send tok params trunc s)"
proof (cases rule: prompt_send_cases [of tok params trunc s])
  case (sent sid via r n s1)
  assume "calls_ok s"
  then have "calls_ok s1" unfolding sent(5) by (rule calls_ok_cong) simp_all
  then have "calls_ok (snd (rpc_call r ''session/prompt'' params s1))" by (rule rpc_call_calls)
  then show ?thesis unfolding sent(7) by (rule calls_ok_cong) simp_all
next
  case (over sid via)
  assume "calls_ok s"
  then show ?thesis unfolding over(2) by (rule calls_ok_cong) simp_all
qed simp

lemma calls_step:
  assumes "main_step json num stringify hostname s s'" "calls_ok s"
  shows "calls_ok s'"
  using assms(1)
proof (cases rule: main_step_cases)
  case quiet
  then show ?thesis using assms(2) by (rule calls_ok_same)
next
  case (start fp urls)
  then have "runtimes s' = runtimes s" "settled s' = settled s"
    by (auto simp: ensureStarted_def split: if_splits)
  then show ?thesis using assms(2) calls_ok_cong by blast
next
  case (spawn r fp params)
  then show ?thesis using assms(2) spawn_calls by simp
next
  case (call r m params s1)
  then show ?thesis using calls_ok_same [OF call(1) assms(2)] rpc_call_calls by simp
next
  case (settle r rt n res)
  show ?thesis unfolding settle(3)
    by (rule settle_calls [OF assms(2) settle(1), of "[n]" _ "rt\<lparr>pending := removeAll n (pending rt)\<rparr>" "\<lambda>_. res"])
      (use settle in \<open>auto simp: settle_call_def removeAll_neq\<close>)
next
  case (err r chunk)
  then show ?thesis using assms(2) stderr_calls by simp
next
  case (gone r reason)
  then show ?thesis using assms(2) onGone_calls by simp
next
  case (send tok params trunc)
  then show ?thesis using assms(2) prompt_send_calls by simp
next
  case (answer tok trunc)
  then show ?thesis
    by (cases rule: prompt_settled_cases [of tok trunc s]) (auto intro!: calls_ok_cong [OF assms(2)])
next
  case (cli tok cs)
  then show ?thesis
    by (cases rule: prompt_cli_over_cases [of tok cs s])
      (auto intro!: calls_ok_cong [OF assms(2)] simp: same_turns_def)
qed (auto intro!: calls_ok_cong [OF assms(2)]
    simp: start_done_def start_failed_def stop_runtime_def prompt_begin_def Let_def)

interpretation calls: step_invariant "main_step json num stringify hostname" shell_start calls_ok
  for json num stringify hostname
proof unfold_locales
  show "calls_ok shell_start" by (simp add: calls_ok_def shell_start_def settled_ids_def)
qed (rule calls_step)

lemma distinct_pairs:
  "(\<And>r. distinct (map (\<lambda>e. fst (snd e)) (filter (\<lambda>e. fst e = r) xs))) \<Longrightarrow>
   distinct (map (\<lambda>e. (fst e, fst (snd e))) xs)"
proof (induction xs)
  case (Cons x xs)
  have "distinct (map (\<lambda>e. fst (snd e)) (filter (\<lambda>e. fst e = q) xs))" for q
    using Cons.prems [of q] by (cases "fst x = q") simp_all
  then have "distinct (map (\<lambda>e. (fst e, fst (snd e))) xs)" by (rule Cons.IH)
  moreover have "(fst x, fst (snd x)) \<notin> set (map (\<lambda>e. (fst e, fst (snd e))) xs)"
    using Cons.prems [of "fst x"] by auto
  ultimately show ?case by simp
qed simp

lemma settled_ids_set: "n \<in> set (settled_ids s r) \<longleftrightarrow> has_settled s r n"
  by (force simp: settled_ids_def has_settled_def)

text \<open>
  Property C24: no call to the runtime is answered twice and none is lost. Whatever the order of
  calls, answers and exits, every call that was made is either still pending or settled exactly
  once, and once the runtime is gone none is pending, so no caller waits for it for ever.
\<close>

theorem calls_settle_once:
  assumes "main_reaches json num stringify hostname s"
  shows "distinct (map (\<lambda>(r, n, _). (r, n)) (settled s)) \<and>
    (\<forall>r rt. runtimes s r = Some rt \<longrightarrow>
       set (pending rt) \<union> {n. has_settled s r n} = {1..<nextId rt} \<and>
       set (pending rt) \<inter> {n. has_settled s r n} = {} \<and> distinct (pending rt) \<and>
       (exited rt \<longrightarrow> pending rt = []))"
proof -
  have ok: "calls_ok s" using assms calls.reached_inv by (simp add: main_reaches_def)
  then have st: "call_state (runtimes s r) (settled_ids s r)" for r by (simp add: calls_ok_def)
  have "distinct (settled_ids s r)" for r
    using st [of r] by (cases "runtimes s r") (simp_all add: call_ok_def)
  then have "distinct (map (\<lambda>(r, n, _). (r, n)) (settled s))"
    unfolding settled_ids_def case_prod_unfold by (rule distinct_pairs)
  moreover have "set (pending rt) \<union> {n. has_settled s r n} = {1..<nextId rt} \<and>
       set (pending rt) \<inter> {n. has_settled s r n} = {} \<and> distinct (pending rt) \<and>
       (exited rt \<longrightarrow> pending rt = [])" if "runtimes s r = Some rt" for r rt
    using calls_ok_some [OF ok that] settled_ids_set [of _ s r] by (auto simp: call_ok_def set_eq_iff)
  ultimately show ?thesis by blast
qed

lemma calls_settle_once_witness:
  "runtimes demo_gone 0 = Some (demo_runtime\<lparr>nextId := 3, exited := True\<rparr>) \<and> has_settled demo_gone 0 2 \<and>
   distinct (map (\<lambda>(r, n, _). (r, n)) (settled demo_gone))"
  using calls_settle_once [OF demo_reached(4)] by (simp add: demo_gone_fields)

end
