(* ===== verification/Shell_Waiting.thy ===== *)
theory Shell_Waiting
  imports Shell_Calls
begin

text \<open>
  The turns that wait for a runtime: none outlives it, and a changed launch spares them all.
\<close>

definition waits :: "shell_main \<Rightarrow> nat \<Rightarrow> string \<Rightarrow> nat \<Rightarrow> nat \<Rightarrow> bool" where
  "waits s tok sid r n \<longleftrightarrow> (\<exists>via. prompts s tok = Some (Waiting sid via r n))"

text \<open>
  A turn waits for a call that was made; the session of one that waits for the current runtime is
  active; open turns have different sessions; nothing waits for a runtime that is not there yet.
\<close>

definition turns_ok :: "shell_main \<Rightarrow> bool" where
  "turns_ok s \<longleftrightarrow>
     (\<forall>tok sid r n. waits s tok sid r n \<longrightarrow> (\<exists>rt. runtimes s r = Some rt \<and> n \<in> {1..<nextId rt})) \<and>
     (\<forall>tok sid r n. waits s tok sid r n \<and> current s = Some r \<and> \<not> has_settled s r n \<longrightarrow> sid \<in> set (activePrompts s)) \<and>
     (\<forall>t1 t2 sid. turn_session s t1 = Some sid \<and> turn_session s t2 = Some sid \<longrightarrow> t1 = t2) \<and>
     (\<forall>r. newborn s = Some r \<longrightarrow> starting s \<and> (\<forall>tok sid n. \<not> waits s tok sid r n) \<and> runtimes s r \<noteq> None)"

definition grows :: "shell_main \<Rightarrow> shell_main \<Rightarrow> bool" where
  "grows s s' \<longleftrightarrow> (\<forall>r rt. runtimes s r = Some rt \<longrightarrow> (\<exists>rt'. runtimes s' r = Some rt' \<and> nextId rt \<le> nextId rt')) \<and>
     (\<forall>r n. has_settled s r n \<longrightarrow> has_settled s' r n)"

lemma turn_session_cong: "prompts s' = prompts s \<Longrightarrow> turn_session s' = turn_session s"
  by (simp add: turn_session_def fun_eq_iff)

lemma waits_cong: "prompts s' = prompts s \<Longrightarrow> waits s' = waits s"
  by (simp add: waits_def fun_eq_iff)

lemma waits_turn_session: "waits s tok sid r n \<Longrightarrow> turn_session s tok = Some sid"
  by (auto simp: waits_def turn_session_def)

lemma growsD: "grows s s' \<Longrightarrow> runtimes s r = Some rt \<Longrightarrow> \<exists>rt'. runtimes s' r = Some rt' \<and> nextId rt \<le> nextId rt'"
  by (simp add: grows_def)

lemma turns_okD:
  assumes "turns_ok s"
  shows "waits s tok sid r n \<Longrightarrow> \<exists>rt. runtimes s r = Some rt \<and> n \<in> {1..<nextId rt}"
    and "waits s tok sid r n \<Longrightarrow> current s = Some r \<Longrightarrow> \<not> has_settled s r n \<Longrightarrow> sid \<in> set (activePrompts s)"
    and "turn_session s t1 = Some sid \<Longrightarrow> turn_session s t2 = Some sid \<Longrightarrow> t1 = t2"
    and "newborn s = Some r \<Longrightarrow> starting s \<and> \<not> waits s tok sid r n \<and> runtimes s r \<noteq> None"
  using assms unfolding turns_ok_def by blast+

lemma turns_okI:
  assumes "\<And>tok sid r n. waits s tok sid r n \<Longrightarrow> \<exists>rt. runtimes s r = Some rt \<and> n \<in> {1..<nextId rt}"
    and "\<And>tok sid r n. waits s tok sid r n \<Longrightarrow> current s = Some r \<Longrightarrow> \<not> has_settled s r n \<Longrightarrow> sid \<in> set (activePrompts s)"
    and "\<And>t1 t2 sid. turn_session s t1 = Some sid \<Longrightarrow> turn_session s t2 = Some sid \<Longrightarrow> t1 = t2"
    and "\<And>r tok sid n. newborn s = Some r \<Longrightarrow> starting s \<and> \<not> waits s tok sid r n \<and> runtimes s r \<noteq> None"
  shows "turns_ok s"
  using assms unfolding turns_ok_def by blast

lemma turns_ok_grows:
  assumes ok: "turns_ok s" and g: "grows s s'" and p: "prompts s' = prompts s"
    and c: "current s' = None \<or> current s' = current s \<and> activePrompts s' = activePrompts s"
    and b: "newborn s' = None \<or> newborn s' = newborn s \<and> (starting s \<longrightarrow> starting s')"
  shows "turns_ok s'"
proof (rule turns_okI)
  note w = waits_cong [OF p] and t = turn_session_cong [OF p]
  fix tok sid r n
  show "\<exists>rt. runtimes s' r = Some rt \<and> n \<in> {1..<nextId rt}" if "waits s' tok sid r n"
  proof -
    from that have "waits s tok sid r n" unfolding w .
    then obtain rt where "runtimes s r = Some rt" "n \<in> {1..<nextId rt}" using turns_okD(1) [OF ok] by blast
    moreover then obtain rt' where "runtimes s' r = Some rt'" "nextId rt \<le> nextId rt'" using growsD [OF g] by blast
    ultimately show ?thesis by auto
  qed
  show "sid \<in> set (activePrompts s')" if "waits s' tok sid r n" "current s' = Some r" "\<not> has_settled s' r n"
  proof -
    have "current s = Some r" "\<not> has_settled s r n" "activePrompts s' = activePrompts s" using that c g by (auto simp: grows_def)
    then show ?thesis using turns_okD(2) [OF ok] that(1) unfolding w by simp
  qed
  show "starting s' \<and> \<not> waits s' tok sid r n \<and> runtimes s' r \<noteq> None" if "newborn s' = Some r"
  proof -
    have "newborn s = Some r" "starting s \<longrightarrow> starting s'" using b that by auto
    then show ?thesis using turns_okD(4) [OF ok, of r tok sid n] unfolding w by (auto dest: growsD [OF g])
  qed
  show "t1 = t2" if "turn_session s' t1 = Some sid" "turn_session s' t2 = Some sid" for t1 t2
    using turns_okD(3) [OF ok] that unfolding t by blast
qed

lemma grows_eq: "runtimes s' = runtimes s \<Longrightarrow> settled s' = settled s \<Longrightarrow> grows s s'"
  by (simp add: grows_def has_settled_def)

lemma grows_upd:
  assumes "runtimes s r = Some rt" "runtimes s' = (runtimes s)(r \<mapsto> rt')" "nextId rt \<le> nextId rt'"
    "set (settled s) \<subseteq> set (settled s')"
  shows "grows s s'"
  using assms by (fastforce simp: grows_def has_settled_def)

lemma rpc_call_grows: "grows s (snd (rpc_call r m params s))"
proof (cases "runtimes s r")
  case (Some rt)
  show ?thesis
  proof (cases "exited rt")
    case False
    then show ?thesis
      by (intro grows_upd [OF Some, where rt' = "rt\<lparr>pending := pending rt @ [nextId rt], nextId := nextId rt + 1\<rparr>"])
        (simp_all add: rpc_call_def Some)
  qed (simp add: rpc_call_def Some grows_eq)
qed (simp add: rpc_call_def grows_eq)

lemma turns_ok_same: "same_turns s s' \<Longrightarrow> turns_ok s \<Longrightarrow> turns_ok s'"
  by (rule turns_ok_grows [of s]) (simp_all add: same_turns_def grows_eq)

lemma rpc_call_turns: "turns_ok s \<Longrightarrow> turns_ok (snd (rpc_call r m params s))"
  by (rule turns_ok_grows [of s]) (simp_all add: rpc_call_grows)

lemma settle_turns: "turns_ok s \<Longrightarrow> runtimes s r = Some rt \<Longrightarrow> turns_ok (settle_call r n res s)"
  by (rule turns_ok_grows [of s], assumption, rule grows_upd [of s r rt _ "rt\<lparr>pending := removeAll n (pending rt)\<rparr>"])
    (auto simp: settle_call_def)

lemma stderr_turns: "turns_ok s \<Longrightarrow> turns_ok (runtime_stderr r chunk s)"
proof (cases "runtimes s r")
  case (Some rt)
  assume "turns_ok s"
  then show ?thesis
    by (rule turns_ok_grows, intro grows_upd [OF Some, of _ "rt\<lparr>rt_stderr := last_chars 4000 (rt_stderr rt @ chunk)\<rparr>"])
      (simp_all add: runtime_stderr_def Some)
qed (simp add: runtime_stderr_def)

lemma onGone_turns: "turns_ok s \<Longrightarrow> turns_ok (onGone r reason s)"
proof (cases "runtimes s r")
  case (Some rt)
  assume ok: "turns_ok s"
  show ?thesis
  proof (cases "exited rt")
    case False
    let ?err = "Errored (gone_text reason (rt_stderr rt))" and ?rt = "rt\<lparr>exited := True\<rparr>"
    define s2 where "s2 = fold (\<lambda>n. settle_call r n ?err) (pending rt) (s\<lparr>runtimes := (runtimes s)(r \<mapsto> ?rt)\<rparr>)"
    define s3 where "s3 = cancelPermissions (\<lambda>q. pr_runtime q = r) s2"
    have s2: "s2 = s\<lparr>runtimes := (runtimes s)(r \<mapsto> ?rt\<lparr>pending := []\<rparr>),
        settled := settled s @ map (\<lambda>n. (r, n, ?err)) (pending rt)\<rparr>"
      unfolding s2_def by (subst settle_all [where rt = ?rt]) simp_all
    have "same_turns s2 s3" unfolding s3_def by (rule cancelPermissions_same_turns)
    then have f: "runtimes s3 = (runtimes s)(r \<mapsto> ?rt\<lparr>pending := []\<rparr>)" "prompts s3 = prompts s" "current s3 = current s"
      "settled s3 = settled s @ map (\<lambda>n. (r, n, ?err)) (pending rt)" "activePrompts s3 = activePrompts s"
      "newborn s3 = newborn s" "starting s3 = starting s"
      by (simp_all add: same_turns_def s2)
    have g: "onGone r reason s = (if current s3 = Some r
        then s3\<lparr>current := None, activePrompts := [], exits := exits s3 @ [gone_text reason (rt_stderr rt)]\<rparr> else s3)"
      by (simp add: onGone_def Some False Let_def flip: s2_def s3_def)
    show ?thesis
      by (rule turns_ok_grows [OF ok grows_upd [OF Some, of _ "?rt\<lparr>pending := []\<rparr>"]]) (simp_all add: g f)
  qed (use Some ok in \<open>simp add: onGone_def\<close>)
qed (simp add: onGone_def)

lemma spawn_turns:
  assumes ok: "turns_ok s" and s: "starting s" "newborn s = None" "runtimes s r = None"
  shows "turns_ok (spawn_runtime r fp params s)"
proof -
  let ?s = "s\<lparr>runtimes := (runtimes s)(r \<mapsto>
      \<lparr>fingerprint = fp, pending = [], nextId = 1, rt_stderr = [], exited = False\<rparr>), newborn := Some r\<rparr>"
  have w: "waits ?s = waits s" and t: "turn_session ?s = turn_session s"
    by (rule waits_cong turn_session_cong; simp)+
  have "has_settled ?s = has_settled s" by (simp add: has_settled_def fun_eq_iff)
  moreover have r: "\<not> waits s tok sid r n" for tok sid n using turns_okD(1) [OF ok] s(3) by fastforce
  ultimately have "turns_ok ?s"
    using ok s r unfolding turns_ok_def w t by fastforce
  then show ?thesis unfolding spawn_runtime_def by (rule rpc_call_turns)
qed

lemma started_turns:
  assumes "turns_ok s" "newborn s \<noteq> None"
  shows "turns_ok (start_done s)"
proof -
  have w: "waits (start_done s) = waits s" and t: "turn_session (start_done s) = turn_session s"
    by (rule waits_cong turn_session_cong; simp add: start_done_def)+
  show ?thesis
    using assms unfolding turns_ok_def w t by (auto simp: start_done_def)
qed

lemma prompts_upd_turn_session:
  "prompts s' = (prompts s)(tok \<mapsto> p) \<Longrightarrow> turn_session s' t = (if t = tok then phase_session p else turn_session s t)"
  by (simp add: turn_session_def)

lemma prompts_upd_waits:
  "prompts s' = (prompts s)(tok \<mapsto> p) \<Longrightarrow>
   waits s' t sid r n = (if t = tok then (\<exists>via. p = Waiting sid via r n) else waits s t sid r n)"
  by (simp add: waits_def)

lemma opened_turns:
  assumes ok: "turns_ok s" and new: "prompts s tok = None" "\<forall>t. turn_session s t \<noteq> Some sid"
  shows "turns_ok (prompt_begin json hostname tok sid s)"
proof -
  let ?s = "prompt_begin json hostname tok sid s" and ?via = "routeOf json hostname sid s"
  define p where "p = (if map_of (cliSessions s) sid \<noteq> None then OnCli sid ?via else Begun sid ?via)"
  have p: "phase_session p = Some sid" "\<And>sid via r n. p \<noteq> Waiting sid via r n" by (simp_all add: p_def)
  have u: "prompts ?s = (prompts s)(tok \<mapsto> p)" by (simp add: prompt_begin_def Let_def p_def)
  have "\<not> waits s tok sid' r n" for sid' r n using new(1) by (simp add: waits_def)
  then have w: "waits ?s = waits s" using prompts_upd_waits [OF u] p(2) by (simp add: fun_eq_iff)
  have f: "runtimes ?s = runtimes s" "current ?s = current s" "activePrompts ?s = activePrompts s" "newborn ?s = newborn s"
    "starting ?s = starting s" "has_settled ?s = has_settled s"
    by (simp_all add: prompt_begin_def Let_def has_settled_def fun_eq_iff)
  have "t1 = t2" if "turn_session ?s t1 = Some sid'" "turn_session ?s t2 = Some sid'" for t1 t2 sid'
    using that turns_okD(3) [OF ok, of t1 sid' t2] new(2) p(1) prompts_upd_turn_session [OF u]
    by (cases "t1 = tok"; cases "t2 = tok") auto
  then show ?thesis using ok unfolding turns_ok_def w f by blast
qed

text \<open>A turn that is over: its session may go off the active ones, as no other turn has it.\<close>

lemma over_turns:
  assumes ok: "turns_ok s" and tok: "turn_session s tok = Some sid"
    and s1: "s1 = s\<lparr>activePrompts := as\<rparr>" "set (activePrompts s) \<subseteq> insert sid (set as)"
  shows "turns_ok (prompt_end tok sid via trunc s1)"
proof -
  let ?s = "prompt_end tok sid via trunc s1"
  have u: "prompts ?s = (prompts s)(tok \<mapsto> Ended sid)" by (simp add: s1)
  note w = prompts_upd_waits [OF u] and t = prompts_upd_turn_session [OF u]
  have f: "has_settled ?s = has_settled s" by (simp add: has_settled_def fun_eq_iff s1)
  show ?thesis
  proof (rule turns_okI)
    fix t sid' r n assume a: "waits ?s t sid' r n" "current ?s = Some r" "\<not> has_settled ?s r n"
    then have b: "waits s t sid' r n" "t \<noteq> tok" unfolding w by (simp_all split: if_splits)
    then have "sid' \<in> set (activePrompts s)" using turns_okD(2) [OF ok] a unfolding f by (simp add: s1)
    moreover have "sid' \<noteq> sid" using turns_okD(3) [OF ok _ tok] waits_turn_session [OF b(1)] b(2) by blast
    ultimately show "sid' \<in> set (activePrompts ?s)" using s1 by auto
  next
    fix t sid' r n assume "waits ?s t sid' r n"
    then have "waits s t sid' r n" unfolding w by (simp split: if_splits)
    then show "\<exists>rt. runtimes ?s r = Some rt \<and> n \<in> {1..<nextId rt}" using turns_okD(1) [OF ok] by (simp add: s1)
  next
    fix t1 t2 sid' assume "turn_session ?s t1 = Some sid'" "turn_session ?s t2 = Some sid'"
    then show "t1 = t2" using turns_okD(3) [OF ok, of t1 sid' t2] unfolding t by (simp split: if_splits)
  next
    fix r t sid' n assume "newborn ?s = Some r"
    then show "starting ?s \<and> \<not> waits ?s t sid' r n \<and> runtimes ?s r \<noteq> None"
      using turns_okD(4) [OF ok, of r t sid' n] unfolding w by (simp add: s1)
  qed
qed

lemma sent_turns:
  assumes ok: "turns_ok s" and tok: "prompts s tok = Some (Begun sid via)" and cur: "current s = Some r" "newborn s \<noteq> Some r"
    and s1: "s1 = s\<lparr>activePrompts := List.insert sid (activePrompts s)\<rparr>"
    and call: "rpc_call r m params s1 = (Some n, s2)" and new_call: "1 \<le> n"
  shows "turns_ok (s2\<lparr>prompts := (prompts s)(tok \<mapsto> Waiting sid via r n)\<rparr>)"
proof -
  let ?s = "s2\<lparr>prompts := (prompts s)(tok \<mapsto> Waiting sid via r n)\<rparr>"
  have s2: "s2 = snd (rpc_call r m params s1)" by (simp add: call)
  have g: "grows s s2" using rpc_call_grows [of s1 r m params] by (simp add: s2 s1 grows_def has_settled_def)
  have f: "current s2 = current s" "newborn s2 = newborn s" "starting s2 = starting s"
    "activePrompts s2 = List.insert sid (activePrompts s)" "has_settled s2 = has_settled s"
    by (simp_all add: s2 s1 has_settled_def fun_eq_iff)
  have hs: "has_settled ?s = has_settled s" by (simp add: has_settled_def fun_eq_iff s2 s1)
  obtain rt where rt: "runtimes s2 r = Some rt" "n \<in> {1..<nextId rt}"
    using call
    by (cases "runtimes s1 r") (use new_call in \<open>auto simp: rpc_call_def split: if_splits\<close>)
  have u: "prompts ?s = (prompts s)(tok \<mapsto> Waiting sid via r n)" by simp
  note w = prompts_upd_waits [OF u] and t = prompts_upd_turn_session [OF u]
  show ?thesis
  proof (rule turns_okI)
    fix t' sid' r' n' assume a: "waits ?s t' sid' r' n'"
    show "\<exists>rt. runtimes ?s r' = Some rt \<and> n' \<in> {1..<nextId rt}"
    proof (cases "t' = tok")
      case True
      then show ?thesis using a rt unfolding w by simp
    next
      case False
      then have "waits s t' sid' r' n'" using a unfolding w by simp
      then obtain rt where "runtimes s r' = Some rt" "n' \<in> {1..<nextId rt}"
        using turns_okD(1) [OF ok] by blast
      moreover then obtain rt' where "runtimes s2 r' = Some rt'" "nextId rt \<le> nextId rt'"
        using growsD [OF g] by blast
      ultimately show ?thesis by auto
    qed
  next
    fix t' sid' r' n' assume a: "waits ?s t' sid' r' n'" "current ?s = Some r'" "\<not> has_settled ?s r' n'"
    show "sid' \<in> set (activePrompts ?s)"
      using a turns_okD(2) [OF ok, of t' sid' r' n'] unfolding w
      by (cases "t' = tok") (simp_all add: f hs split: if_splits)
  next
    fix t1 t2 sid' assume "turn_session ?s t1 = Some sid'" "turn_session ?s t2 = Some sid'"
    moreover have "turn_session ?s = turn_session s"
      using t by (simp add: fun_eq_iff) (simp add: turn_session_def tok)
    ultimately show "t1 = t2" using turns_okD(3) [OF ok] by simp
  next
    fix r' t' sid' n' assume b: "newborn ?s = Some r'"
    then have "r' \<noteq> r" "newborn s = Some r'" using cur(2) by (auto simp: f)
    then show "starting ?s \<and> \<not> waits ?s t' sid' r' n' \<and> runtimes ?s r' \<noteq> None"
      using turns_okD(4) [OF ok, of r' t' sid' n'] unfolding w by (auto simp: f dest: growsD [OF g])
  qed
qed

lemma turns_step:
  assumes step: "main_step json num stringify hostname s s'" and calls: "calls_ok s" and ok: "turns_ok s"
  shows "turns_ok s'"
  using step
proof (cases rule: main_step_cases)
  case quiet
  then show ?thesis using ok by (rule turns_ok_same)
next
  case (start fp urls)
  then have "runtimes s' = runtimes s" "settled s' = settled s" "prompts s' = prompts s" "current s' = current s"
    "activePrompts s' = activePrompts s" "newborn s' = newborn s" "starting s'"
    by (auto simp: ensureStarted_def split: if_splits)
  then show ?thesis by (intro turns_ok_grows [OF ok grows_eq]) simp_all
next
  case (spawn r fp params)
  then show ?thesis using spawn_turns [OF ok] by simp
next
  case started
  then show ?thesis using started_turns [OF ok] by simp
next
  case failed
  then show ?thesis by (intro turns_ok_grows [OF ok grows_eq]) (simp_all add: start_failed_def)
next
  case stop
  then show ?thesis by (intro turns_ok_grows [OF ok grows_eq]) (simp_all add: stop_runtime_def)
next
  case (call r m params s1)
  then show ?thesis using rpc_call_turns turns_ok_same [OF _ ok] by simp
next
  case (settle r rt n res)
  then show ?thesis using settle_turns [OF ok] by simp
next
  case (err r chunk)
  then show ?thesis using stderr_turns [OF ok] by simp
next
  case (gone r reason)
  then show ?thesis using onGone_turns [OF ok] by simp
next
  case (opened tok sid)
  then show ?thesis using opened_turns [OF ok] by simp
next
  case (send tok params trunc)
  show ?thesis
  proof (cases rule: prompt_send_cases [of tok params trunc s])
    case none
    then show ?thesis using send ok by simp
  next
    case (sent sid via r n s1)
    have "newborn s \<noteq> Some r" using turns_okD(4) [OF ok] sent(2) by blast
    moreover obtain s2 where s2: "rpc_call r ''session/prompt'' params s1 = (Some n, s2)"
      using sent(6) by (metis prod.collapse)
    moreover have "1 \<le> n"
    proof -
      obtain rt where "runtimes s r = Some rt" "n = nextId rt"
        using s2 sent(5) by (auto simp: rpc_call_def split: option.splits if_splits)
      then show ?thesis using calls_ok_some [OF calls] by (simp add: call_ok_def)
    qed
    ultimately show ?thesis
      using sent_turns [OF ok sent(1,3) _ sent(5), of _ params n s2] sent(7) send s2 by simp
  next
    case (over sid via)
    then show ?thesis unfolding send over(2)
      by (intro over_turns [OF ok]) (auto simp: turn_session_def)
  qed
next
  case (answer tok trunc)
  show ?thesis
  proof (cases rule: prompt_settled_cases [of tok trunc s])
    case (over sid via r n)
    then show ?thesis unfolding answer over(3)
      by (intro over_turns [OF ok]) (auto simp: turn_session_def)
  qed (use answer ok in simp)
next
  case (cli tok cs)
  show ?thesis
  proof (cases rule: prompt_cli_over_cases [of tok cs s])
    case (over sid via s1)
    have "turns_ok s1" using turns_ok_same [OF over(2) ok] .
    moreover have "turn_session s1 tok = Some sid" using over(1,2) by (simp add: turn_session_def same_turns_def)
    ultimately show ?thesis unfolding cli over(3)
      by (rule over_turns [of s1 _ _ _ "activePrompts s1"]) auto
  qed (use cli ok in simp)
qed

interpretation turns: step_invariant "main_step json num stringify hostname" shell_start "\<lambda>s. calls_ok s \<and> turns_ok s"
  for json num stringify hostname
proof unfold_locales
  show "calls_ok shell_start \<and> turns_ok shell_start"
    using calls.init_inv by (simp add: turns_ok_def waits_def turn_session_def shell_start_def)
qed (use calls_step turns_step in blast)

text \<open>
  Property C26: no turn outlives its runtime. A turn that waits for a runtime that is gone has its
  answer (an error) already, and going on it ends: the windows hear its end, the last thing said of it.
\<close>

theorem dead_runtime_ends_turns:
  assumes reach: "main_reaches json num stringify hostname s"
    and wait: "prompts s tok = Some (Waiting sid via r n)" and dead: "\<not> alive s r"
  shows "has_settled s r n \<and> prompts (prompt_settled tok trunc s) tok = Some (Ended sid) \<and>
    last (fired (prompt_settled tok trunc s)) = EvEnd sid"
proof -
  have ok: "calls_ok s" "turns_ok s" using reach turns.reached_inv by (simp_all add: main_reaches_def)
  have "waits s tok sid r n" using wait by (simp add: waits_def)
  then obtain rt where rt: "runtimes s r = Some rt" "n \<in> {1..<nextId rt}" using turns_okD(1) [OF ok(2)] by blast
  then have "exited rt" using dead by (simp add: alive_def)
  then have "n \<in> set (settled_ids s r)" using calls_ok_some [OF ok(1) rt(1)] rt(2) by (auto simp: call_ok_def)
  then have "has_settled s r n" by (simp add: settled_ids_set)
  moreover have "last (fired (prompt_end tok sid via trunc s1)) = EvEnd sid" for s1
    by (simp add: prompt_end_def Let_def fire_def)
  ultimately show ?thesis using wait by (simp add: prompt_settled_def)
qed


lemma dead_runtime_ends_turns_witness:
  "prompts (prompt_settled 0 None demo_gone) 0 = Some (Ended ''s'') \<and>
   last (fired (prompt_settled 0 None demo_gone)) = EvEnd ''s''"
  using dead_runtime_ends_turns [OF demo_reached(4), of 0 "''s''" no_route 0 2 None]
  by (simp add: demo_gone_fields demo_sent_fields alive_def)


end
