(* ===== verification/Shell_Sessions.thy ===== *)
theory Shell_Sessions
  imports Shell_Runtime
begin

text \<open>
  What the main process service says a turn runs on, how it runs a turn on an agent CLI, and which
  Node it starts the runtime with: properties of \<open>routeOf\<close>, \<open>promptCli\<close> and \<open>resolveNode\<close>.
\<close>

section \<open>What a turn runs on\<close>

lemma overlay_routes_distinct:
  "overlay_routes i ps vars routes = (vars', routes') \<Longrightarrow> distinct (map fst routes) \<Longrightarrow> distinct (map fst routes')"
  by (induction ps arbitrary: i vars routes) (simp_all add: distinct_update)

lemma map_of_fold_names:
  "distinct (map fst kvs) \<Longrightarrow>
   map_of (fold (\<lambda>(k, v). AList.update k (f v)) kvs m) x =
     (case map_of kvs x of Some v \<Rightarrow> Some (f v) | None \<Rightarrow> map_of m x)"
proof (induction kvs arbitrary: m)
  case (Cons kv kvs)
  obtain k v where kv: "kv = (k, v)" by fastforce
  have "map_of kvs x = None" if "x = k" using Cons.prems that by (simp add: kv map_of_eq_None_iff)
  then show ?case using Cons by (auto simp: kv update_conv' split: option.split)
qed simp


section \<open>Turns on an agent CLI\<close>

text \<open>
  Property C28: a turn on an agent CLI starts the CLI at most twice, and the second time only for a
  CLI that takes session ids: to resume the session an earlier turn claimed, or to start afresh,
  under a new id, one that was never written. Both times the prompt, folder, model and permissions
  are the same. A turn that ended well leaves a session the next turn resumes.
\<close>

theorem promptCli_retries_once:
  assumes "promptCli runs uuid sid text 0 cs = (res, cs', turns)"
  shows "(turns = [cli_turn_of cs text] \<or>
      is_preset (cs_agent cs) \<and>
      turns = [cli_turn_of cs text, if cs_started cs
          then (cli_turn_of cs text)\<lparr>ct_session := Some uuid, ct_resume := False\<rparr>
          else (cli_turn_of cs text)\<lparr>ct_resume := True\<rparr>]) \<and>
    (\<forall>why i. res = Some (Finished why i) \<longrightarrow> ct_resume (cli_turn_of cs' text) \<and>
      ct_session (cli_turn_of cs' text) = (case i of Some x \<Rightarrow> Some x | None \<Rightarrow> ct_session (last turns)))"
proof -
  have once: "turns = [cli_turn_of c text] \<and>
      (\<forall>why i. res = Some (Finished why i) \<longrightarrow> cs_started cs' \<and>
        cs_session cs' = (case i of Some x \<Rightarrow> Some x | None \<Rightarrow> cs_session c))"
    if "promptCli runs uuid sid text (Suc 0) c = (res, cs', turns)" for c res cs' turns
    using that by (subst (asm) promptCli.simps)
      (auto simp: promptCliOnce_def Let_def split: option.splits run_result.splits prod.splits)
  show ?thesis
    using assms by (subst (asm) promptCli.simps)
      (auto simp: promptCliOnce_def Let_def recover_def cli_turn_of_def
        split: option.splits run_result.splits prod.splits if_splits dest!: once)
qed

section \<open>Node\<close>

text \<open>The versions \<open>nodeVersion\<close> reads have three numbers, compared from the left.\<close>

definition version_key :: "nat list \<Rightarrow> nat \<times> nat \<times> nat" where
  "version_key v = (v ! 0, v ! 1, v ! 2)"

lemma nodeVersion_3: "nodeVersion pv p = Some v \<Longrightarrow> \<exists>a b c. v = [a, b, c]"
  by (auto simp: nodeVersion_def Let_def split: option.splits)

lemma compareVersions_key:
  assumes "v = [a, b, c]" "w = [a', b', c']"
  shows "compareVersions v w \<ge> 0 \<longleftrightarrow> version_key w \<le> version_key v"
    and "compareVersions v w > 0 \<longleftrightarrow> version_key w < version_key v"
  by (auto simp: assms version_key_def less_eq_prod_def less_prod_def)

lemma isNewEnough_key: "v = [a, b, c] \<Longrightarrow> isNewEnough v \<longleftrightarrow> (22, 19, 0) \<le> version_key v"
  by (auto simp: isNewEnough_def MIN_NODE_def version_key_def less_eq_prod_def)

definition usable_node :: "(string \<Rightarrow> string option) \<Rightarrow> string \<Rightarrow> nat list \<Rightarrow> bool" where
  "usable_node pv p v \<longleftrightarrow> nodeVersion pv p = Some v \<and> (22, 19, 0) \<le> version_key v"

lemma usable_node_iff: "usable_node pv p v \<longleftrightarrow> nodeVersion pv p = Some v \<and> isNewEnough v"
  using nodeVersion_3 isNewEnough_key unfolding usable_node_def by metis

lemma usable_3: "usable_node pv p v \<Longrightarrow> \<exists>a b c. v = [a, b, c]"
  unfolding usable_node_def using nodeVersion_3 by blast

text \<open>A newest one of the usable candidates seen so far.\<close>

fun newest :: "(string \<times> nat list) set \<Rightarrow> (string \<times> nat list) option \<Rightarrow> bool" where
  "newest X None \<longleftrightarrow> X = {}"
| "newest X (Some (p, v)) \<longleftrightarrow> (p, v) \<in> X \<and> (\<forall>(q, w)\<in>X. version_key w \<le> version_key v)"

definition usable_of :: "(string \<Rightarrow> string option) \<Rightarrow> string set \<Rightarrow> (string \<times> nat list) set" where
  "usable_of pv Q = {(q, v). q \<in> Q \<and> usable_node pv q v}"

lemma better_node_newest:
  assumes n: "newest (usable_of pv Q) best"
  shows "newest (usable_of pv (insert q Q)) (better_node pv q best)"
proof (cases "\<exists>v. usable_node pv q v")
  case False
  then have "better_node pv q best = best" "usable_of pv (insert q Q) = usable_of pv Q"
    by (auto simp: better_node_def usable_node_iff usable_of_def split: option.split)
  then show ?thesis using n by simp
next
  case True
  then obtain v where v: "usable_node pv q v" by blast
  then obtain a b c where abc: "v = [a, b, c]" using usable_3 by blast
  have "usable_node pv q w \<longleftrightarrow> w = v" for w using v by (auto simp: usable_node_def)
  then have u: "usable_of pv (insert q Q) = insert (q, v) (usable_of pv Q)"
    by (auto simp: usable_of_def)
  show ?thesis
  proof (cases best)
    case None
    then have "better_node pv q best = Some (q, v)" using v by (simp add: better_node_def usable_node_iff)
    then show ?thesis using n None by (simp add: u)
  next
    case (Some pw)
    obtain p w where best: "best = Some (p, w)" using Some by (cases pw) simp
    then have pw: "usable_node pv p w" using n by (simp add: usable_of_def)
    then obtain a' b' c' where "w = [a', b', c']" using usable_3 by blast
    then have "better_node pv q best = (if version_key w < version_key v then Some (q, v) else best)"
      using best v compareVersions_key(2) [OF abc] by (simp add: better_node_def usable_node_iff)
    then show ?thesis using n best by (auto simp: u)
  qed
qed

lemma better_node_fold:
  "newest (usable_of pv Q) best \<Longrightarrow> newest (usable_of pv (Q \<union> set ps)) (fold (better_node pv) ps best)"
proof (induction ps arbitrary: Q best)
  case (Cons q ps)
  from Cons.IH [OF better_node_newest [OF Cons.prems, of q]] show ?case by simp
qed simp

text \<open>The runtime runs on the newest Node there is. Without a configured path the search
  picks a candidate that works, is at least 22.19 and no other candidate is newer; it fails exactly
  when no candidate is new enough. A configured path is used or refused, never replaced.\<close>

lemma newest_node_is_picked:
  "(case resolveNode pv candidates None of
      Inr p \<Rightarrow> \<exists>v. p \<in> set candidates \<and> usable_node pv p v \<and>
        (\<forall>q\<in>set candidates. \<forall>w. usable_node pv q w \<longrightarrow> version_key w \<le> version_key v)
    | Inl _ \<Rightarrow> \<forall>q\<in>set candidates. \<forall>w. \<not> usable_node pv q w) \<and>
   (js_trim c \<noteq> [] \<longrightarrow> resolveNode pv candidates (Some c) \<in> {Inr (js_trim c), Inl (NotANode (js_trim c)), Inl (TooOld (js_trim c))} \<and>
     (resolveNode pv candidates (Some c) = Inr (js_trim c) \<longleftrightarrow> (\<exists>v. usable_node pv (js_trim c) v)))"
proof (rule conjI)
  have "newest (usable_of pv (set candidates)) (fold (better_node pv) (js_uniq candidates) None)"
    using better_node_fold [of pv "{}" None "js_uniq candidates"] by (simp add: usable_of_def)
  then show "case resolveNode pv candidates None of
      Inr p \<Rightarrow> \<exists>v. p \<in> set candidates \<and> usable_node pv p v \<and>
        (\<forall>q\<in>set candidates. \<forall>w. usable_node pv q w \<longrightarrow> version_key w \<le> version_key v)
    | Inl _ \<Rightarrow> \<forall>q\<in>set candidates. \<forall>w. \<not> usable_node pv q w"
    by (cases "fold (better_node pv) (js_uniq candidates) None")
      (force simp: resolveNode_def usable_of_def)+
qed (auto simp: resolveNode_def Let_def usable_node_iff split: option.split)

definition demo_versions :: "string \<Rightarrow> string option" where
  "demo_versions p = (if p = ''/a/node'' then Some ''v22.20.1'' else if p = ''/b/node'' then Some ''v24.1.0''
     else if p = ''/c/node'' then Some ''v18.0.0'' else None)"

lemma newest_node_is_picked_witness:
  "resolveNode demo_versions [''/a/node'', ''/b/node'', ''/c/node''] None = Inr ''/b/node'' \<and>
   resolveNode demo_versions [''/a/node''] (Some '' /c/node '') \<noteq> Inr ''/c/node'' \<and>
   (22, 20, 1) \<le> version_key [24, 1, 0]"
proof -
  let ?cs = "[''/a/node'', ''/b/node'', ''/c/node'']"
  have r: "resolveNode demo_versions ?cs None = Inr ''/b/node''" by code_simp
  have a: "nodeVersion demo_versions ''/a/node'' = Some [22, 20, 1]" by code_simp
  have b: "nodeVersion demo_versions ''/b/node'' = Some [24, 1, 0]" by code_simp
  have "\<not> usable_node demo_versions ''/c/node'' v" for v
  proof -
    have "nodeVersion demo_versions ''/c/node'' = Some [18, 0, 0]" by code_simp
    then show ?thesis by (auto simp: usable_node_def version_key_def)
  qed
  moreover have t: "js_trim '' /c/node '' = ''/c/node''" by code_simp
  moreover note newest_node_is_picked [where pv = demo_versions and candidates = ?cs and c = "'' /c/node ''"]
    newest_node_is_picked [where pv = demo_versions and candidates = "[''/a/node'']" and c = "'' /c/node ''"]
  moreover have "usable_node demo_versions ''/a/node'' [22, 20, 1]"
    using a by (simp add: usable_node_def version_key_def)
  ultimately show ?thesis using r b by (auto simp: usable_node_def version_key_def)
qed


lemma promptCli_retries_once_witness:
  "let cs = \<lparr>cs_agent = demo_cli, cs_permissions = Edits, cs_cwd = ''/w'', cs_model = ''default'',
      cs_session = Some ''u'', cs_started = True\<rparr>;
     out = (\<lambda>e. (start_run demo_cli_turn)\<lparr>cr_settled := Some e\<rparr>);
     (res, cs', turns) = promptCli (\<lambda>k _. out (if k = 0 then Rejected ''No conversation found'' else Finished EndTurn None))
       ''new'' ''cli:claude:u'' ''hi'' 0 cs
   in length turns = 2 \<and> ct_session (last turns) = Some ''new'' \<and> ct_session (cli_turn_of cs' ''hi'') = Some ''new''"
proof -
  let ?cs = "\<lparr>cs_agent = demo_cli, cs_permissions = Edits, cs_cwd = ''/w'', cs_model = ''default'',
      cs_session = Some ''u'', cs_started = True\<rparr>"
  let ?out = "\<lambda>e. (start_run demo_cli_turn)\<lparr>cr_settled := Some e\<rparr>"
  let ?p = "promptCli (\<lambda>k _. ?out (if k = 0 then Rejected ''No conversation found'' else Finished EndTurn None))
       ''new'' ''cli:claude:u'' ''hi'' 0 ?cs"
  obtain res cs' turns where p: "?p = (res, cs', turns)" by (cases ?p)
  have n: "length (snd (snd ?p)) = 2 \<and> fst ?p = Some (Finished EndTurn None)" by code_simp
  from promptCli_retries_once [OF p] n show ?thesis by (auto simp: p cli_turn_of_def)
qed
end
