(* ===== verification/Usage_Model.thy ===== *)
theory Usage_Model
  imports Usage_Limits Failover_Service
begin

text \<open>
  Every assistant's limits as one list (\<open>browser/usageNotch/usageLimitsModel.ts\<close>) and the alerts on
  them (\<open>browser/usageNotch/usageAlerts.ts\<close>). Timers, change events and reading the Codex logs are
  outside the model: the last reading of the logs is part of the state. The alert marks are the
  parsed content of the shared storage; each workbench window has its own pending alerts.
\<close>

section \<open>The providers shown\<close>

record stored_claude =
  sc_windows :: "usage_window list"
  sc_observedAt :: real

record usage_model =
  um_codex :: "provider_limits option"
  um_claude :: "stored_claude option"

definition js_upper_char :: "char \<Rightarrow> char" where
  "js_upper_char c = (let n = (of_char c :: nat) in if (97 \<le> n \<and> n \<le> 122) \<or> (224 \<le> n \<and> n \<le> 254 \<and> n \<noteq> 247)
     then char_of (n - 32) else c)"

definition initials :: "string \<Rightarrow> string" where
  "initials name =
     (let words = words_by (\<lambda>c. is_js_space c \<or> c \<in> set ''-_.'') name;
          letters = (case words of
                       v # w # _ \<Rightarrow> [hd v, hd w]
                     | _ \<Rightarrow> take 2 (filter (\<lambda>c. is_digit c \<or> (let n = (of_char (js_lower_char c) :: nat) in 97 \<le> n \<and> n \<le> 122)) name));
          upper = map js_upper_char letters
      in if upper \<noteq> [] then upper else ''?'')"

definition backup_limits :: "real \<Rightarrow> string \<times> cooldown \<Rightarrow> provider_limits" where
  "backup_limits now e = (case e of (name, c) \<Rightarrow>
     \<lparr>lim_id = ''backup:'' @ name, lim_label = name, glyph = initials name,
      windows = [\<lparr>win_id = ''failover'',
                  win_label = (if kind (failure c) = Quota then ''Out of quota'' else ''Rate limited''),
                  usedPercent = Some 100, resetsAt = Some (of_int (until c)), exhausted = True\<rparr>],
      observedAt = Some now, lim_source = ''Refused a request; failover skips it until then''\<rparr>)"

definition backups :: "real \<Rightarrow> (string \<times> cooldown) list \<Rightarrow> provider_limits list" where
  "backups now es =
     map (backup_limits now)
       (filter (\<lambda>(_, c). kind (failure c) = Quota \<or> kind (failure c) = RateLimit) es)"

definition claude_limits :: "usage_model \<Rightarrow> provider_limits" where
  "claude_limits m =
     \<lparr>lim_id = ''claude'', lim_label = ''Claude Code'', glyph = ''CC'',
      windows = (case um_claude m of Some c \<Rightarrow> sc_windows c | None \<Rightarrow> []),
      observedAt = map_option sc_observedAt (um_claude m),
      lim_source = (if um_claude m \<noteq> None then ''Reported by Claude Code while it ran in HivemindIDE''
        else ''No reading yet. Claude Code reports its limits while it runs a turn in HivemindIDE; the ring fills in from the first one.'')\<rparr>"

definition codex_limits :: "usage_model \<Rightarrow> provider_limits" where
  "codex_limits m =
     (case um_codex m of
        Some c \<Rightarrow> c
      | None \<Rightarrow> \<lparr>lim_id = ''codex'', lim_label = ''Codex'', glyph = ''CX'', windows = [], observedAt = None,
          lim_source = ''No reading yet. Codex writes its limits to its session log after each turn, in HivemindIDE or a terminal; the ring fills in from the next one.''\<rparr>)"

text \<open>A backup joins the first provider with its label, or follows the others.\<close>

fun merge_backup :: "provider_limits \<Rightarrow> provider_limits list \<Rightarrow> provider_limits list" where
  "merge_backup b [] = [b]"
| "merge_backup b (p # ps) =
     (if js_lower (lim_label p) = js_lower (lim_label b)
      then p\<lparr>windows := windows p @ windows b\<rparr> # ps else p # merge_backup b ps)"

definition shown_limit :: "real \<Rightarrow> provider_limits \<Rightarrow> bool" where
  "shown_limit now p \<longleftrightarrow> \<not> prefix ''backup:'' (lim_id p) \<or> liveWindows p now \<noteq> []"

definition usage_providers :: "int \<Rightarrow> failover_state \<Rightarrow> usage_model \<Rightarrow> provider_limits list \<times> failover_state"
where
  "usage_providers now s m =
     (let (es, s') = activeCooldowns now s
      in (filter (shown_limit (of_int now))
            (fold merge_backup (backups (of_int now) es) [claude_limits m, codex_limits m]), s'))"

text \<open>A limit event of Claude Code; other events change nothing.\<close>

definition onShellEvent :: "real \<Rightarrow> string \<Rightarrow> string \<Rightarrow> claude_report \<Rightarrow> usage_model \<Rightarrow> usage_model" where
  "onShellEvent now event agent r m =
     (if event \<noteq> ''limit'' \<or> agent \<noteq> ''claude'' then m
      else m\<lparr>um_claude := Some \<lparr>sc_windows = applyClaudeLimit
               (case um_claude m of Some c \<Rightarrow> sc_windows c | None \<Rightarrow> []) r, sc_observedAt = now\<rparr>\<rparr>)"

section \<open>Alerts\<close>

record stored_mark = alert_mark +
  claim :: "string option"

record pending_alert =
  pa_key :: string
  pa_provider :: provider_limits
  pa_limit :: usage_window
  pa_threshold :: real

record alert_window =
  aw_id :: string
  aw_pending :: "pending_alert list"

type_synonym alert_marks = "(string \<times> stored_mark) list"

definition plain_mark :: "stored_mark \<Rightarrow> alert_mark" where
  "plain_mark m = \<lparr>mark_resetsAt = mark_resetsAt m, mark_level = mark_level m\<rparr>"

definition with_claim :: "alert_mark \<Rightarrow> string option \<Rightarrow> stored_mark" where
  "with_claim m c = \<lparr>mark_resetsAt = mark_resetsAt m, mark_level = mark_level m, claim = c\<rparr>"

definition MARK_RETENTION_MS :: real where "MARK_RETENTION_MS = 24 * 60 * 60000"

definition limit_key :: "provider_limits \<Rightarrow> usage_window \<Rightarrow> string" where
  "limit_key p l = lim_id p @ ''/'' @ win_id l"

definition check_limit ::
  "real list \<Rightarrow> provider_limits \<times> usage_window \<Rightarrow> alert_marks \<times> alert_window \<Rightarrow> alert_marks \<times> alert_window"
where
  "check_limit thresholds pl mw =
     (let (provider, limit) = pl; (marks, w) = mw;
          key = limit_key provider limit;
          old = map_of marks key
      in case nextAlert (map_option plain_mark old) limit thresholds of
           (_, None) \<Rightarrow> (AList.delete key marks, w)
         | (Some alert, Some mark) \<Rightarrow>
             (AList.update key (with_claim mark (Some (aw_id w))) marks,
              w\<lparr>aw_pending := filter (\<lambda>p. pa_key p \<noteq> key) (aw_pending w)
                  @ [\<lparr>pa_key = key, pa_provider = provider, pa_limit = limit, pa_threshold = alert\<rparr>]\<rparr>)
         | (None, Some mark) \<Rightarrow>
             (AList.update key (with_claim mark (Option.bind old claim)) marks, w))"

definition live_limits :: "real \<Rightarrow> provider_limits list \<Rightarrow> (provider_limits \<times> usage_window) list" where
  "live_limits now ps = concat (map (\<lambda>p. map (Pair p) (liveWindows p now)) ps)"

definition check ::
  "real \<Rightarrow> real list \<Rightarrow> provider_limits list \<Rightarrow> alert_marks \<Rightarrow> alert_window \<Rightarrow> alert_marks \<times> alert_window"
where
  "check now thresholds providers marks w =
     (let ls = live_limits now providers;
          seen = map (\<lambda>(p, l). limit_key p l) ls;
          (marks', w') = fold (check_limit thresholds) ls (marks, w)
      in (filter (\<lambda>(k, m). k \<in> set seen \<or>
            \<not> (case mark_resetsAt m of None \<Rightarrow> False | Some r \<Rightarrow> r < now - MARK_RETENTION_MS)) marks', w'))"

text \<open>What a window shows of its pending alerts: those whose claim is still its own.\<close>

fun show_pending ::
  "string \<Rightarrow> string list \<Rightarrow> pending_alert list \<Rightarrow> alert_marks \<Rightarrow> pending_alert list \<times> alert_marks" where
  "show_pending me muted [] marks = ([], marks)"
| "show_pending me muted (a # as) marks =
     (case map_of marks (pa_key a) of
        None \<Rightarrow> show_pending me muted as marks
      | Some m \<Rightarrow>
          if claim m \<noteq> Some me then show_pending me muted as marks
          else (let (shown, marks') = show_pending me muted as
                      (AList.update (pa_key a) (with_claim (plain_mark m) None) marks)
                in (if js_lower (lim_label (pa_provider a)) \<in> set muted then shown else a # shown, marks')))"

definition showClaimed ::
  "string list \<Rightarrow> alert_marks \<Rightarrow> alert_window \<Rightarrow> pending_alert list \<times> alert_marks \<times> alert_window" where
  "showClaimed muted marks w =
     (let (shown, marks') = show_pending (aw_id w) (map js_lower muted) (aw_pending w) marks
      in (shown, marks', w\<lparr>aw_pending := []\<rparr>))"

definition alert_message :: "(real \<Rightarrow> string) \<Rightarrow> real \<Rightarrow> pending_alert \<Rightarrow> bool \<times> string" where
  "alert_message intl now a =
     (let limit = pa_limit a; label = lim_label (pa_provider a) @ [CHR '' '', CHR 0xC2, CHR 0xB7, CHR '' ''] @ win_label limit;
          reset = map_option (\<lambda>r. formatResets intl r now) (resetsAt limit);
          reached = exhausted limit \<or> pa_threshold a \<ge> 100
      in (reached,
          if reached then
            (case reset of Some r \<Rightarrow> label @ '': limit reached. '' @ r @ ''.'' | None \<Rightarrow> label @ '': limit reached.'')
          else
            (case reset of Some r \<Rightarrow> label @ '': '' @ formatPercent (usedPercent limit) @ '' used. '' @ r @ ''.''
             | None \<Rightarrow> label @ '': '' @ formatPercent (usedPercent limit) @ '' used.'')))"

section \<open>Backups that ran out are shown\<close>

definition shows_backup :: "provider_limits \<Rightarrow> provider_limits list \<Rightarrow> bool" where
  "shows_backup b ps \<longleftrightarrow>
     (\<exists>p\<in>set ps. js_lower (lim_label p) = js_lower (lim_label b) \<and> set (windows b) \<subseteq> set (windows p))"

lemma merge_backup_shows: "shows_backup b (merge_backup b ps)"
  by (induction ps) (auto simp: shows_backup_def)

lemma merge_backup_keeps: "shows_backup b ps \<Longrightarrow> shows_backup b (merge_backup c ps)"
proof (induction ps)
  case (Cons p ps)
  then show ?case by (fastforce simp: shows_backup_def)
qed (simp add: shows_backup_def)

lemma fold_merge_shows:
  "b \<in> set bs \<or> shows_backup b ps \<Longrightarrow> shows_backup b (fold merge_backup bs ps)"
proof (induction bs arbitrary: ps)
  case (Cons c bs)
  have "b \<in> set bs \<or> shows_backup b (merge_backup c ps)"
    using Cons.prems merge_backup_shows merge_backup_keeps by auto
  from Cons.IH [OF this] show ?case by simp
qed simp

lemma merge_backup_ids:
  "map lim_id (merge_backup b ps) = map lim_id ps \<or> map lim_id (merge_backup b ps) = map lim_id ps @ [lim_id b]"
  by (induction ps) auto

lemma fold_merge_ids: "\<exists>ids. map lim_id (fold merge_backup bs ps) = map lim_id ps @ ids"
proof (induction bs arbitrary: ps)
  case (Cons b bs)
  obtain ids where "map lim_id (fold merge_backup bs (merge_backup b ps)) = map lim_id (merge_backup b ps) @ ids"
    using Cons.IH by blast
  with merge_backup_ids [of b ps] show ?case by auto
qed simp

lemma shown_limits_prefix:
  assumes "map lim_id ps = [''claude'', ''codex''] @ ids"
  shows "\<exists>js. map lim_id (filter (shown_limit now) ps) = [''claude'', ''codex''] @ js"
proof -
  obtain p q rest where "ps = p # q # rest" "lim_id p = ''claude''" "lim_id q = ''codex''"
    using assms by (auto simp: map_eq_Cons_conv)
  then show ?thesis by (simp add: shown_limit_def)
qed

text \<open>The notch always starts with Claude Code and Codex, and every provider that failover
  took out for quota or rate limits appears, under its own name, with a full window that lasts until
  failover tries it again.\<close>

lemma out_of_quota_is_shown:
  assumes "\<forall>c\<in>set_option (um_codex m). lim_id c = ''codex''"
    and "usage_providers now s m = (ps, s')"
  shows "(\<exists>ids. map lim_id ps = [''claude'', ''codex''] @ ids) \<and>
    (\<forall>(name, c)\<in>set (fst (activeCooldowns now s)).
       (kind (failure c) = Quota \<or> kind (failure c) = RateLimit) \<and> now < until c \<longrightarrow>
       (\<exists>p\<in>set ps. js_lower (lim_label p) = js_lower name \<and>
          (\<exists>w\<in>set (liveWindows p (of_int now)). exhausted w \<and> resetsAt w = Some (of_int (until c)))))"
proof -
  let ?es = "fst (activeCooldowns now s)"
  let ?all = "fold merge_backup (backups (of_int now) ?es) [claude_limits m, codex_limits m]"
  have ps: "ps = filter (shown_limit (of_int now)) ?all"
    using assms(2) by (simp add: usage_providers_def case_prod_beta Let_def)
  have "map lim_id [claude_limits m, codex_limits m] = [''claude'', ''codex'']"
    using assms(1) by (cases "um_codex m") (simp_all add: claude_limits_def codex_limits_def)
  then have first: "\<exists>ids. map lim_id ps = [''claude'', ''codex''] @ ids"
    using fold_merge_ids [of "backups (of_int now) ?es" "[claude_limits m, codex_limits m]"]
      shown_limits_prefix [of ?all] by (auto simp: ps)
  have "\<exists>p\<in>set ps. js_lower (lim_label p) = js_lower name \<and>
      (\<exists>w\<in>set (liveWindows p (of_int now)). exhausted w \<and> resetsAt w = Some (of_int (until c)))"
    if e: "(name, c) \<in> set ?es" "kind (failure c) = Quota \<or> kind (failure c) = RateLimit" "now < until c" for name c
  proof -
    let ?b = "backup_limits (of_int now) (name, c)"
    have "?b \<in> set (backups (of_int now) ?es)" using e(1,2) by (force simp: backups_def)
    then have "shows_backup ?b ?all" using fold_merge_shows by blast
    then obtain p where p: "p \<in> set ?all" "js_lower (lim_label p) = js_lower name" "set (windows ?b) \<subseteq> set (windows p)"
      by (auto simp: shows_backup_def backup_limits_def)
    then obtain w where w: "w \<in> set (windows p)" "exhausted w" "resetsAt w = Some (of_int (until c))"
      by (auto simp: backup_limits_def)
    then have "w \<in> set (liveWindows p (of_int now))" using e(3) by (simp add: liveWindows_def)
    moreover from this have "p \<in> set ps" using p(1) by (auto simp: ps shown_limit_def)
    ultimately show ?thesis using p(2) w by blast
  qed
  with first show ?thesis by blast
qed

lemma out_of_quota_is_shown_witness:
  "let m = \<lparr>um_codex = None, um_claude = None\<rparr>;
       s = markFailed ''codex'' \<lparr>kind = Quota, retryAfterMs = Some 60000, message = []\<rparr> 0 empty_failover
   in \<exists>p\<in>set (fst (usage_providers 0 s m)). js_lower (lim_label p) = ''codex'' \<and>
        (\<exists>w\<in>set (liveWindows p 0). exhausted w)"
proof -
  let ?m = "\<lparr>um_codex = None, um_claude = None\<rparr>"
  let ?f = "\<lparr>kind = Quota, retryAfterMs = Some 60000, message = []\<rparr>"
  let ?s = "markFailed ''codex'' ?f 0 empty_failover"
  have c: "fst (activeCooldowns 0 ?s) = [(''codex'', \<lparr>until = 60000, failure = ?f\<rparr>)]"
    by code_simp
  have "usage_providers 0 ?s ?m = (fst (usage_providers 0 ?s ?m), snd (usage_providers 0 ?s ?m))" by simp
  from out_of_quota_is_shown [OF _ this] c have
    "\<exists>p\<in>set (fst (usage_providers 0 ?s ?m)). js_lower (lim_label p) = js_lower ''codex'' \<and>
        (\<exists>w\<in>set (liveWindows p 0). exhausted w)" by auto
  moreover have "js_lower ''codex'' = ''codex''" by code_simp
  ultimately show ?thesis by (simp add: Let_def)
qed

section \<open>One window shows an alert\<close>

text \<open>The windows' timers fire one after another on the settled storage.\<close>

fun show_all :: "string list \<Rightarrow> alert_window list \<Rightarrow> alert_marks \<Rightarrow> (string \<times> pending_alert) list" where
  "show_all muted [] marks = []"
| "show_all muted (w # ws) marks =
     (case showClaimed muted marks w of
        (shown, marks', _) \<Rightarrow> map (Pair (aw_id w)) shown @ show_all muted ws marks')"

definition unmuted :: "string list \<Rightarrow> pending_alert \<Rightarrow> bool" where
  "unmuted muted a \<longleftrightarrow> js_lower (lim_label (pa_provider a)) \<notin> js_lower ` set muted"

definition claimant :: "alert_marks \<Rightarrow> string \<Rightarrow> string option" where
  "claimant marks k = Option.bind (map_of marks k) claim"

lemma claimant_release:
  "claimant (AList.update k' (with_claim (plain_mark m) None) marks) k =
   (if k = k' then None else claimant marks k)"
  by (auto simp: claimant_def update_conv' with_claim_def)

lemma show_pending_key:
  assumes "distinct (map pa_key as)"
  shows "filter (\<lambda>a. pa_key a = k) (fst (show_pending me ms as marks)) =
      (if claimant marks k = Some me
       then filter (\<lambda>a. pa_key a = k \<and> js_lower (lim_label (pa_provider a)) \<notin> set ms) as else []) \<and>
    claimant (snd (show_pending me ms as marks)) k =
      (if claimant marks k = Some me \<and> k \<in> pa_key ` set as then None else claimant marks k)"
  using assms
proof (induction as arbitrary: marks)
  case (Cons a as)
  show ?case
  proof (cases "claimant marks (pa_key a) = Some me")
    case True
    then obtain m where m: "map_of marks (pa_key a) = Some m" "claim m = Some me"
      by (auto simp: claimant_def bind_eq_Some_conv)
    let ?marks = "AList.update (pa_key a) (with_claim (plain_mark m) None) marks"
    have none: "filter (\<lambda>b. pa_key b = pa_key a \<and> Q b) as = []" for Q
      using Cons.prems by (auto simp: filter_empty_conv) (metis image_eqI)
    show ?thesis
      using Cons.IH [of ?marks] Cons.prems m True none [of "\<lambda>b. js_lower (lim_label (pa_provider b)) \<notin> set ms"]
      by (cases "k = pa_key a") (auto simp: claimant_release case_prod_beta Let_def)
  next
    case False
    then have "show_pending me ms (a # as) marks = show_pending me ms as marks"
      by (auto simp: claimant_def split: option.split)
    with Cons False show ?thesis by auto
  qed
qed simp

lemma showClaimed_key:
  assumes "distinct (map pa_key (aw_pending w))" "showClaimed muted marks w = (shown, marks', w')"
  shows "filter (\<lambda>a. pa_key a = k) shown =
      (if claimant marks k = Some (aw_id w)
       then filter (\<lambda>a. pa_key a = k \<and> unmuted muted a) (aw_pending w) else []) \<and>
    claimant marks' k = (if claimant marks k = Some (aw_id w) \<and> k \<in> pa_key ` set (aw_pending w) then None
                         else claimant marks k)"
  using assms(2) show_pending_key [OF assms(1), of k "aw_id w" "map js_lower muted" marks]
  by (auto simp: showClaimed_def unmuted_def case_prod_beta Let_def)

lemma show_all_none:
  assumes "\<forall>w\<in>set ws. distinct (map pa_key (aw_pending w)) \<and> claimant marks k \<noteq> Some (aw_id w)"
  shows "filter (\<lambda>(i, a). pa_key a = k) (show_all muted ws marks) = []"
  using assms
proof (induction ws arbitrary: marks)
  case (Cons w ws)
  obtain shown marks' w' where s: "showClaimed muted marks w = (shown, marks', w')" by (metis prod_cases3)
  have "distinct (map pa_key (aw_pending w))" using Cons.prems by simp
  from showClaimed_key [OF this s, of k] Cons.prems
  have k: "filter (\<lambda>a. pa_key a = k) shown = []" "claimant marks' k = claimant marks k" by simp_all
  have "filter (\<lambda>(i, a). pa_key a = k) (show_all muted ws marks') = []"
    using Cons.prems k(2) by (intro Cons.IH) simp
  with s k(1) show ?case by (auto simp: filter_empty_conv)
qed simp

text \<open>However many windows wait to show an alert, only the one whose claim survived in the
  shared storage shows it: once, if its provider is not muted, and the others show nothing for it.\<close>

lemma one_window_shows_an_alert:
  assumes "distinct (map aw_id ws)"
    and "\<forall>w\<in>set ws. distinct (map pa_key (aw_pending w))"
  shows "filter (\<lambda>(i, a). pa_key a = k) (show_all muted ws marks) =
    concat (map (\<lambda>w. if claimant marks k = Some (aw_id w)
      then map (Pair (aw_id w)) (filter (\<lambda>a. pa_key a = k \<and> unmuted muted a) (aw_pending w)) else []) ws)"
  using assms
proof (induction ws arbitrary: marks)
  case (Cons w ws)
  obtain shown marks' w' where s: "showClaimed muted marks w = (shown, marks', w')" by (metis prod_cases3)
  have d: "distinct (map pa_key (aw_pending w))" using Cons.prems(2) by simp
  note key = showClaimed_key [OF d s, of k]
  have split: "filter (\<lambda>(i, a). pa_key a = k) (show_all muted (w # ws) marks) =
      map (Pair (aw_id w)) (filter (\<lambda>a. pa_key a = k) shown) @
      filter (\<lambda>(i, a). pa_key a = k) (show_all muted ws marks')"
    using s by (simp add: filter_map comp_def)
  show ?case
  proof (cases "claimant marks k = Some (aw_id w)")
    case True
    have others: "\<forall>v\<in>set ws. claimant marks k \<noteq> Some (aw_id v) \<and> claimant marks' k \<noteq> Some (aw_id v)"
      using True Cons.prems(1) key by (auto split: if_splits)
    then have "filter (\<lambda>(i, a). pa_key a = k) (show_all muted ws marks') = []"
      using Cons.prems(2) by (intro show_all_none) simp
    moreover have "concat (map (\<lambda>w. if claimant marks k = Some (aw_id w)
      then map (Pair (aw_id w)) (filter (\<lambda>a. pa_key a = k \<and> unmuted muted a) (aw_pending w)) else []) ws) = []"
      using others by auto
    ultimately show ?thesis unfolding split using key True by simp
  next
    case False
    with key have "filter (\<lambda>a. pa_key a = k) shown = []" "claimant marks' k = claimant marks k" by simp_all
    then show ?thesis unfolding split using Cons.IH [of marks'] Cons.prems False by simp
  qed
qed simp

text \<open>A check claims every alert it raises, so a window alone shows what it raised.\<close>

lemma check_limit_claims:
  assumes "check_limit th pl (marks, w) = (marks', w')"
  shows "aw_id w' = aw_id w \<and> (distinct (map pa_key (aw_pending w)) \<longrightarrow> distinct (map pa_key (aw_pending w'))) \<and>
    (aw_pending w' \<noteq> aw_pending w \<longrightarrow> claimant marks' (limit_key (fst pl) (snd pl)) = Some (aw_id w))"
  using assms
  by (auto simp: check_limit_def case_prod_beta Let_def claimant_def update_conv' with_claim_def
      distinct_map_filter split: prod.splits option.splits)

definition demo_alert_window :: "string \<Rightarrow> alert_window" where
  "demo_alert_window i = \<lparr>aw_id = i, aw_pending = []\<rparr>"

lemma one_window_shows_an_alert_witness:
  "let l = demo_limits\<lparr>windows := [demo_window ''a'' (Some 85)]\<rparr>;
       (m1, w1) = check 5 [80, 100] [l] [] (demo_alert_window ''w1'');
       (m2, w2) = check 5 [80, 100] [l] [] (demo_alert_window ''w2'')
   in map fst (filter (\<lambda>(i, a). pa_key a = ''codex/a'') (show_all [] [w1, w2] m2)) = [''w2'']"
proof -
  let ?l = "demo_limits\<lparr>windows := [demo_window ''a'' (Some 85)]\<rparr>"
  let ?m = "[(''codex/a'', \<lparr>mark_resetsAt = Some 10, mark_level = 80, claim = Some ''w2''\<rparr>)]"
  let ?a = "\<lparr>pa_key = ''codex/a'', pa_provider = ?l, pa_limit = demo_window ''a'' (Some 85), pa_threshold = 80\<rparr>"
  let ?w = "\<lambda>i. \<lparr>aw_id = i, aw_pending = [?a]\<rparr>"
  have c: "snd (check 5 [80, 100] [?l] [] (demo_alert_window i)) = ?w i"
    "fst (check 5 [80, 100] [?l] [] (demo_alert_window ''w2'')) = ?m" for i
    by (simp_all add: check_def check_limit_def live_limits_def liveWindows_def demo_limits_def demo_window_def
        demo_alert_window_def limit_key_def nextAlert_def effectivePercent_def crossed_threshold_def with_claim_def Let_def)
  have "filter (\<lambda>(i, a). pa_key a = ''codex/a'') (show_all [] [?w ''w1'', ?w ''w2''] ?m) = [(''w2'', ?a)]"
    by (subst one_window_shows_an_alert) (simp_all add: claimant_def unmuted_def)
  with c show ?thesis by (simp add: case_prod_beta Let_def del: show_all.simps)
qed

end
